(* ===== verification/Prelude.thy ===== *)
theory Prelude
  imports Main "HOL-Library.List_Lexorder" "HOL-Library.Char_ord" "HOL-Library.Sublist"
begin

text \<open>
  Shared vocabulary of the development: the values a caller can send (Python's JSON values), errors
  as values, the error-propagating combinators in which every operation of the store is written,
  tables as lists of rows with SQL-like selection and update, and the lemmas about them that the
  component proofs use.

  Python strings are \<open>string\<close>s: one \<open>char\<close> is one code point below 256, so \<open>length\<close> is
  Python's \<open>len\<close> and the list order is the code-point order of \<open>sorted\<close>.
\<close>

named_theorems op_defs \<open>definitions of the operations, unfolded in a component's own proofs\<close>
named_theorems run_simps \<open>rewriting of error-propagating programs\<close>
named_theorems table_simps \<open>selection and update on tables\<close>

section \<open>Values and errors\<close>

text \<open>A JSON value as \<open>json.loads\<close> produces it; a \<open>dict\<close> keeps its insertion order.\<close>

datatype pyval =
    PNone
  | PBool bool
  | PInt int
  | PStr string
  | PList "pyval list"
  | PDict "(string \<times> pyval) list"

text \<open>
  The exceptions the store raises. \<open>StateGraphError\<close> and its subclasses \<open>StateConflict\<close> and
  \<open>StateNotFound\<close> carry their message, \<open>ClaimError\<close> its stable code; \<open>IntegrityError\<close> is
  SQLite's refusal of a constraint violation that no handler catches; \<open>StateRecoveryRefused\<close> is the
  refusal of a generic recovery.
\<close>

datatype error =
    StateGraphError string
  | StateConflict string
  | StateNotFound string
  | ClaimError string
  | IntegrityError string
  | StateRecoveryRefused string

type_synonym 'a result = "error + 'a"

section \<open>Programs that may raise\<close>

text \<open>
  \<open>bindE m f\<close> runs \<open>m\<close> and hands its value to \<open>f\<close>; an exception skips \<open>f\<close>.
  \<open>raise_if b e\<close> is \<open>if b: raise e\<close>.
\<close>

definition bindE :: "'e + 'a \<Rightarrow> ('a \<Rightarrow> 'e + 'b) \<Rightarrow> 'e + 'b" where
  "bindE m f = (case m of Inl e \<Rightarrow> Inl e | Inr x \<Rightarrow> f x)"

definition raise_if :: "bool \<Rightarrow> 'e \<Rightarrow> 'e + unit" where
  "raise_if b e = (if b then Inl e else Inr ())"

definition require_some :: "'a option \<Rightarrow> 'e \<Rightarrow> 'e + 'a" where
  "require_some x e = (case x of None \<Rightarrow> Inl e | Some v \<Rightarrow> Inr v)"

primrec mapE :: "('a \<Rightarrow> 'e + 'b) \<Rightarrow> 'a list \<Rightarrow> 'e + 'b list" where
  "mapE f [] = Inr []"
| "mapE f (x # xs) = bindE (f x) (\<lambda>y. bindE (mapE f xs) (\<lambda>ys. Inr (y # ys)))"

primrec foldE :: "('a \<Rightarrow> 's \<Rightarrow> 'e + 's) \<Rightarrow> 'a list \<Rightarrow> 's \<Rightarrow> 'e + 's" where
  "foldE f [] s = Inr s"
| "foldE f (x # xs) s = bindE (f x s) (foldE f xs)"

lemma bindE_simps [simp, run_simps]:
  "bindE (Inl e) f = Inl e"
  "bindE (Inr x) f = f x"
  by (simp_all add: bindE_def)

lemma bindE_Inr_iff [simp, run_simps]:
  "bindE m f = Inr y \<longleftrightarrow> (\<exists>x. m = Inr x \<and> f x = Inr y)"
  by (cases m) simp_all

lemma bindE_Inl_iff [run_simps]:
  "bindE m f = Inl e \<longleftrightarrow> m = Inl e \<or> (\<exists>x. m = Inr x \<and> f x = Inl e)"
  by (cases m) simp_all

lemma bindE_assoc: "bindE (bindE m f) g = bindE m (\<lambda>x. bindE (f x) g)"
  by (cases m) simp_all

lemma bindE_cong [fundef_cong]:
  "m = m' \<Longrightarrow> (\<And>x. m' = Inr x \<Longrightarrow> f x = f' x) \<Longrightarrow> bindE m f = bindE m' f'"
  by (cases m') simp_all

lemma raise_if_iff [simp, run_simps]:
  "raise_if b e = Inr u \<longleftrightarrow> \<not> b"
  "raise_if b e = Inl e' \<longleftrightarrow> b \<and> e' = e"
  "raise_if True e = Inl e"
  "raise_if False e = Inr ()"
  by (auto simp: raise_if_def)

lemma require_some_iff [simp, run_simps]:
  "require_some x e = Inr v \<longleftrightarrow> x = Some v"
  "require_some x e = Inl e' \<longleftrightarrow> x = None \<and> e' = e"
  "require_some (Some v) e = Inr v"
  "require_some None e = Inl e"
  by (auto simp: require_some_def split: option.splits)

lemma mapE_Inr_iff: "mapE f xs = Inr ys \<longleftrightarrow> list_all2 (\<lambda>x y. f x = Inr y) xs ys"
  by (induction xs arbitrary: ys) (auto simp: list_all2_Cons1)

lemma mapE_length: "mapE f xs = Inr ys \<Longrightarrow> length ys = length xs"
  by (auto simp: mapE_Inr_iff dest: list_all2_lengthD)

lemma mapE_set: "mapE f xs = Inr ys \<Longrightarrow> y \<in> set ys \<Longrightarrow> \<exists>x\<in>set xs. f x = Inr y"
  by (induction xs arbitrary: ys) auto

lemma mapE_same: "mapE f xs = Inr ys \<Longrightarrow> (\<And>x y. f x = Inr y \<Longrightarrow> g y = h x) \<Longrightarrow> map g ys = map h xs"
  by (induction xs arbitrary: ys) auto

text \<open>What every iteration of a loop keeps, the loop keeps.\<close>

lemma foldE_invariant:
  "foldE f xs s = Inr t \<Longrightarrow> P s \<Longrightarrow>
   (\<And>x s t. x \<in> set xs \<Longrightarrow> P s \<Longrightarrow> f x s = Inr t \<Longrightarrow> P t) \<Longrightarrow> P t"
proof (induction xs arbitrary: s)
  case Nil
  then show ?case by simp
next
  case (Cons x xs)
  from Cons.prems(1) obtain u where u: "f x s = Inr u" "foldE f xs u = Inr t" by auto
  have "P u" using Cons.prems(2,3) u(1) by (meson list.set_intros(1))
  show ?case
  proof (rule Cons.IH[OF u(2) \<open>P u\<close>])
    fix y s' t' assume "y \<in> set xs" "P s'" "f y s' = Inr t'"
    then show "P t'" using Cons.prems(3) by (meson list.set_intros(2))
  qed
qed

text \<open>
  A write transaction: an exception rolls every change back, a normal return commits
  (\<open>StateGraphStore.transaction\<close>). The caller sees the result and the stored database.
\<close>

definition commit :: "'s \<Rightarrow> 'e + 'a \<times> 's \<Rightarrow> ('e + 'a) \<times> 's" where
  "commit db r = (case r of Inl e \<Rightarrow> (Inl e, db) | Inr (x, db') \<Rightarrow> (Inr x, db'))"

lemma commit_cases:
  "(commit db r = (Inl e, db') \<longleftrightarrow> r = Inl e \<and> db' = db)"
  "(commit db r = (Inr x, db') \<longleftrightarrow> r = Inr (x, db'))"
  by (auto simp: commit_def split: sum.splits prod.splits)

section \<open>Dictionaries\<close>

fun dict_get :: "string \<Rightarrow> pyval \<Rightarrow> pyval option" where
  "dict_get k (PDict kvs) = map_of kvs k"
| "dict_get k v = None"

fun dict_keys :: "pyval \<Rightarrow> string list" where
  "dict_keys (PDict kvs) = map fst kvs"
| "dict_keys v = []"

text \<open>\<open>d.get(k)\<close> and \<open>d.get(k, default)\<close>.\<close>

definition get_or :: "string \<Rightarrow> pyval \<Rightarrow> pyval \<Rightarrow> pyval" where
  "get_or k d dflt = (case dict_get k d of None \<Rightarrow> dflt | Some v \<Rightarrow> v)"

text \<open>\<open>d[k] = v\<close> keeps the position of an existing key and appends a new one.\<close>

fun dict_upd :: "string \<Rightarrow> pyval \<Rightarrow> (string \<times> pyval) list \<Rightarrow> (string \<times> pyval) list" where
  "dict_upd k v [] = [(k, v)]"
| "dict_upd k v ((k', v') # kvs) = (if k = k' then (k, v) # kvs else (k', v') # dict_upd k v kvs)"

fun dict_set :: "string \<Rightarrow> pyval \<Rightarrow> pyval \<Rightarrow> pyval" where
  "dict_set k v (PDict kvs) = PDict (dict_upd k v kvs)"
| "dict_set k v d = d"

lemma map_of_dict_upd: "map_of (dict_upd k v kvs) = (map_of kvs)(k \<mapsto> v)"
  by (induction kvs) auto

lemma dict_get_set [simp]:
  "dict_get k (dict_set k' v (PDict kvs)) = (if k = k' then Some v else dict_get k (PDict kvs))"
  by (simp add: map_of_dict_upd)

definition py_opt :: "('a \<Rightarrow> pyval) \<Rightarrow> 'a option \<Rightarrow> pyval" where
  "py_opt f x = (case x of None \<Rightarrow> PNone | Some v \<Rightarrow> f v)"

abbreviation py_str_opt :: "string option \<Rightarrow> pyval" where
  "py_str_opt \<equiv> py_opt PStr"

abbreviation py_strs :: "string list \<Rightarrow> pyval" where
  "py_strs ks \<equiv> PList (map PStr ks)"

section \<open>Tables\<close>

text \<open>
  A table is the list of its rows in insertion order. \<open>find P\<close> is \<open>SELECT ... WHERE P\<close> with
  \<open>fetchone\<close>, \<open>filter P\<close> with \<open>fetchall\<close>, \<open>update_where\<close> is \<open>UPDATE ... WHERE\<close>.
\<close>

definition update_where :: "('r \<Rightarrow> bool) \<Rightarrow> ('r \<Rightarrow> 'r) \<Rightarrow> 'r list \<Rightarrow> 'r list" where
  "update_where P f rows = map (\<lambda>r. if P r then f r else r) rows"

lemma update_where_Nil [simp, table_simps]: "update_where P f [] = []"
  by (simp add: update_where_def)

lemma update_where_Cons [table_simps]:
  "update_where P f (r # rows) = (if P r then f r else r) # update_where P f rows"
  by (simp add: update_where_def)

lemma length_update_where [simp, table_simps]: "length (update_where P f rows) = length rows"
  by (simp add: update_where_def)

lemma update_where_append [table_simps]:
  "update_where P f (xs @ ys) = update_where P f xs @ update_where P f ys"
  by (simp add: update_where_def)

lemma set_update_where [table_simps]:
  "set (update_where P f rows) = {r \<in> set rows. \<not> P r} \<union> f ` {r \<in> set rows. P r}"
  by (auto simp: update_where_def image_iff)

lemma update_where_none [table_simps]:
  "(\<And>r. r \<in> set rows \<Longrightarrow> \<not> P r) \<Longrightarrow> update_where P f rows = rows"
  unfolding update_where_def by (rule map_idI) auto

text \<open>Columns an update does not write keep their values, in order.\<close>

lemma map_update_where:
  "(\<And>r. r \<in> set rows \<Longrightarrow> P r \<Longrightarrow> g (f r) = g r) \<Longrightarrow> map g (update_where P f rows) = map g rows"
  by (auto simp: update_where_def)

lemma find_update_where:
  "(\<And>r. P r \<Longrightarrow> Q (f r) = Q r) \<Longrightarrow>
   find Q (update_where P f rows) = map_option (\<lambda>r. if P r then f r else r) (find Q rows)"
  by (induction rows) (auto simp: update_where_def)

lemma find_append_row [table_simps]:
  "find P (xs @ ys) = (case find P xs of None \<Rightarrow> find P ys | Some r \<Rightarrow> Some r)"
  by (induction xs) auto

lemma find_None_set: "find P xs = None \<longleftrightarrow> (\<forall>x\<in>set xs. \<not> P x)"
  by (induction xs) auto

lemma find_SomeD: "find P xs = Some r \<Longrightarrow> r \<in> set xs \<and> P r"
  by (induction xs) (auto split: if_splits)

text \<open>Rows are found by their key where the key is unique.\<close>

definition unique_on :: "('r \<Rightarrow> 'k) \<Rightarrow> 'r list \<Rightarrow> bool" where
  "unique_on key rows \<longleftrightarrow> distinct (map key rows)"

lemma unique_onD:
  "unique_on key rows \<Longrightarrow> r \<in> set rows \<Longrightarrow> s \<in> set rows \<Longrightarrow> key r = key s \<Longrightarrow> r = s"
  by (auto simp: unique_on_def distinct_map inj_on_def)

lemma unique_on_Nil [simp]: "unique_on key []"
  by (simp add: unique_on_def)

lemma unique_on_snoc:
  "unique_on key (rows @ [r]) \<longleftrightarrow> unique_on key rows \<and> (\<forall>s\<in>set rows. key s \<noteq> key r)"
  unfolding unique_on_def by (auto simp: image_iff)

lemma unique_on_update:
  "(\<And>r. r \<in> set rows \<Longrightarrow> P r \<Longrightarrow> key (f r) = key r) \<Longrightarrow>
   unique_on key (update_where P f rows) = unique_on key rows"
  by (simp add: unique_on_def map_update_where)

lemma find_unique:
  "unique_on key rows \<Longrightarrow> r \<in> set rows \<Longrightarrow> key r = k \<Longrightarrow> find (\<lambda>x. key x = k) rows = Some r"
  by (induction rows) (auto simp: unique_on_def)

lemma find_unique_iff:
  "unique_on key rows \<Longrightarrow> find (\<lambda>x. key x = k) rows = Some r \<longleftrightarrow> r \<in> set rows \<and> key r = k"
  by (auto dest: find_SomeD intro: find_unique)

lemma list_all2_mem1: "list_all2 R xs ys \<Longrightarrow> x \<in> set xs \<Longrightarrow> \<exists>y \<in> set ys. R x y"
  by (induction rule: list_all2_induct) auto

lemma list_all2_mem2: "list_all2 R xs ys \<Longrightarrow> y \<in> set ys \<Longrightarrow> \<exists>x \<in> set xs. R x y"
  by (induction rule: list_all2_induct) auto

section \<open>Canonical JSON and digests\<close>

text \<open>
  \<open>json.dumps(value, ensure_ascii=False, sort_keys=True, separators=(",", ":"))\<close>: the text of
  which every digest of the store is taken.
\<close>

fun show_nat :: "nat \<Rightarrow> string" where
  "show_nat n = (if n < 10 then [char_of (48 + n)] else show_nat (n div 10) @ [char_of (48 + n mod 10)])"

declare show_nat.simps [simp del]

definition show_int :: "int \<Rightarrow> string" where
  "show_int i = (if i < 0 then CHR ''-'' # show_nat (nat (- i)) else show_nat (nat i))"

definition hex_digit :: "nat \<Rightarrow> char" where
  "hex_digit d = (if d < 10 then char_of (48 + d) else char_of (87 + d))"

definition escape_char :: "char \<Rightarrow> string" where
  "escape_char c = (let n = (of_char c :: nat) in
     if n = 34 then [CHR 0x5C, CHR 0x22]
     else if n = 92 then [CHR 0x5C, CHR 0x5C]
     else if n = 10 then [CHR 0x5C, CHR ''n'']
     else if n = 13 then [CHR 0x5C, CHR ''r'']
     else if n = 9 then [CHR 0x5C, CHR ''t'']
     else if n = 12 then [CHR 0x5C, CHR ''f'']
     else if n = 8 then [CHR 0x5C, CHR ''b'']
     else if n < 32 then [CHR 0x5C, CHR ''u'', CHR ''0'', CHR ''0'', hex_digit (n div 16), hex_digit (n mod 16)]
     else [c])"

definition json_string :: "string \<Rightarrow> string" where
  "json_string s = [CHR 0x22] @ concat (map escape_char s) @ [CHR 0x22]"

fun join :: "string \<Rightarrow> string list \<Rightarrow> string" where
  "join sep [] = []"
| "join sep [x] = x"
| "join sep (x # xs) = x @ sep @ join sep xs"

fun canonical :: "pyval \<Rightarrow> string" where
  "canonical PNone = ''null''"
| "canonical (PBool b) = (if b then ''true'' else ''false'')"
| "canonical (PInt i) = show_int i"
| "canonical (PStr s) = json_string s"
| "canonical (PList vs) = ''['' @ join '','' (map canonical vs) @ '']''"
| "canonical (PDict kvs) =
     ''{'' @ join '',''
       (map (\<lambda>(k, s). json_string k @ '':'' @ s)
         (sort_key fst (map (\<lambda>(k, v). (k, canonical v)) kvs))) @ ''}''"

text \<open>
  What an operation reads from outside the database: the clock (microseconds; the store writes
  time stamps whose text order is time order), the \<open>k\<close>-th identifier \<open>uuid.uuid4().hex\<close> it draws,
  the hash function \<open>hashlib.sha256(b).hexdigest()\<close> on bytes (a byte is a \<open>char\<close>), an environment
  variable read as an integer (\<open>None\<close> when unset or not numeric), and whether driver identity is on
  (a driver registry exists).
\<close>

record env =
  now_at :: int
  fresh_hex :: "nat \<Rightarrow> string"
  sha256_hex :: "string \<Rightarrow> string"
  env_int :: "string \<Rightarrow> int option"
  identity_on :: bool

text \<open>An identifier such as \<open>"claim-" + uuid.uuid4().hex\<close>.\<close>

definition fresh_id :: "env \<Rightarrow> string \<Rightarrow> nat \<Rightarrow> string" where
  "fresh_id ev kind i = kind @ fresh_hex ev i"

text \<open>\<open>str.encode("utf-8")\<close> for code points below 256.\<close>

definition utf8_char :: "char \<Rightarrow> string" where
  "utf8_char c = (let n = (of_char c :: nat) in
     if n < 128 then [c] else [char_of (192 + n div 64), char_of (128 + n mod 64)])"

definition utf8 :: "string \<Rightarrow> string" where
  "utf8 s = concat (map utf8_char s)"

definition digest :: "env \<Rightarrow> pyval \<Rightarrow> string" where
  "digest ev v = sha256_hex ev (utf8 (canonical v))"

section \<open>Text\<close>

text \<open>The characters \<open>str.strip\<close> removes, among code points below 256.\<close>

definition py_space :: "char \<Rightarrow> bool" where
  "py_space c = (let n = (of_char c :: nat) in (9 \<le> n \<and> n \<le> 13) \<or> (28 \<le> n \<and> n \<le> 32) \<or> n = 133 \<or> n = 160)"

definition strip :: "string \<Rightarrow> string" where
  "strip s = rev (dropWhile py_space (rev (dropWhile py_space s)))"

definition py_digit :: "char \<Rightarrow> bool" where
  "py_digit c = (let n = (of_char c :: nat) in 48 \<le> n \<and> n \<le> 57)"

definition py_letter :: "char \<Rightarrow> bool" where
  "py_letter c = (let n = (of_char c :: nat) in (65 \<le> n \<and> n \<le> 90) \<or> (97 \<le> n \<and> n \<le> 122))"

definition lower_hex :: "char \<Rightarrow> bool" where
  "lower_hex c = (let n = (of_char c :: nat) in (48 \<le> n \<and> n \<le> 57) \<or> (97 \<le> n \<and> n \<le> 102))"

text \<open>\<open>re.fullmatch(r"[0-9a-f]{n}", s)\<close>.\<close>

definition hex_of_length :: "nat \<Rightarrow> string \<Rightarrow> bool" where
  "hex_of_length n s \<longleftrightarrow> length s = n \<and> list_all lower_hex s"

definition starts_with :: "string \<Rightarrow> string \<Rightarrow> bool" where
  "starts_with s p \<longleftrightarrow> take (length p) s = p"

definition ends_with :: "string \<Rightarrow> string \<Rightarrow> bool" where
  "ends_with s p \<longleftrightarrow> length p \<le> length s \<and> drop (length s - length p) s = p"

lemma ends_with_iff: "ends_with s p \<longleftrightarrow> (\<exists>r. s = r @ p)"
  unfolding ends_with_def
  by (metis append_eq_append_conv_if append_take_drop_id diff_diff_cancel length_append
      diff_le_self le_add2 length_drop append_eq_conv_conj add_diff_cancel_right')

lemma strip_no_outer_space:
  "strip s \<noteq> [] \<Longrightarrow> \<not> py_space (hd (strip s)) \<and> \<not> py_space (last (strip s))"
proof -
  assume ne: "strip s \<noteq> []"
  define t where "t = dropWhile py_space s"
  define u where "u = dropWhile py_space (rev t)"
  have s: "strip s = rev u" by (simp add: strip_def t_def u_def)
  have "u \<noteq> []" using ne s by simp
  then have lastc: "\<not> py_space (hd u)" unfolding u_def by (rule hd_dropWhile)
  have "t \<noteq> []" using \<open>u \<noteq> []\<close> by (auto simp: u_def)
  then have hdc: "\<not> py_space (hd t)" unfolding t_def by (rule hd_dropWhile)
  have "suffix u (rev t)" by (simp add: u_def suffix_dropWhile)
  then obtain r where "rev t = r @ u" by (auto simp: suffix_def)
  then have "last u = last (rev t)" using \<open>u \<noteq> []\<close> by simp
  then have "last u = hd t" using \<open>t \<noteq> []\<close> by (simp add: last_rev)
  then show ?thesis using s lastc hdc \<open>u \<noteq> []\<close> by (simp add: hd_rev last_rev)
qed

end
