(* ===== verification/Graph_Values.thy ===== *)
theory Graph_Values
  imports Prelude
begin

text \<open>
  The argument validators of \<open>src/core/state_graph.py\<close> and \<open>src/core/state_attempts.py\<close>: keys,
  bounded text, bounded integers, acceptance contracts, dependency lists, facets, artifact
  digests. Each takes the JSON value the caller sent and either raises or returns the typed value
  the store works with. The lemmas say exactly which values pass, what the returned value
  satisfies, and that a stored contract passes its own validator unchanged.
\<close>

section \<open>Keys, text, integers\<close>

text \<open>\<open>KEY = re.compile(r"[A-Za-z0-9][A-Za-z0-9_.-]{0,127}\Z")\<close> used with \<open>fullmatch\<close>.\<close>

definition key_char :: "char \<Rightarrow> bool" where
  "key_char c \<longleftrightarrow> py_letter c \<or> py_digit c \<or> c = CHR ''_'' \<or> c = CHR ''.'' \<or> c = CHR ''-''"

definition KEY :: "string \<Rightarrow> bool" where
  "KEY s \<longleftrightarrow> 1 \<le> length s \<and> length s \<le> 128 \<and> (py_letter (hd s) \<or> py_digit (hd s)) \<and> list_all key_char (tl s)"

definition check_key :: "pyval \<Rightarrow> string result" where
  "check_key v = (case v of
      PStr s \<Rightarrow> if KEY s then Inr s
        else Inl (StateGraphError ''key must be 1-128 letters/digits/._-, starting with a letter or digit'')
    | _ \<Rightarrow> Inl (StateGraphError ''key must be 1-128 letters/digits/._-, starting with a letter or digit''))"

definition check_text :: "pyval \<Rightarrow> nat \<Rightarrow> string result" where
  "check_text v maximum = (case v of
      PStr s \<Rightarrow> if strip s = [] \<or> length s > maximum
        then Inl (StateGraphError ''must be nonempty text of bounded length'') else Inr (strip s)
    | _ \<Rightarrow> Inl (StateGraphError ''must be nonempty text of bounded length''))"

text \<open>\<open>type(value) is not int\<close>: a \<open>bool\<close> is refused although it is an \<open>int\<close> in Python.\<close>

definition check_integer :: "pyval \<Rightarrow> int \<Rightarrow> int \<Rightarrow> int result" where
  "check_integer v low high = (case v of
      PInt i \<Rightarrow> if low \<le> i \<and> i \<le> high then Inr i
        else Inl (StateGraphError ''must be an integer in range'')
    | _ \<Rightarrow> Inl (StateGraphError ''must be an integer in range''))"

lemma check_key_iff [simp]: "check_key v = Inr s \<longleftrightarrow> v = PStr s \<and> KEY s"
  by (auto simp: check_key_def split: pyval.splits)

lemma check_key_PStr [simp]: "KEY s \<Longrightarrow> check_key (PStr s) = Inr s"
  by simp

lemma check_text_iff:
  "check_text v m = Inr t \<longleftrightarrow> (\<exists>s. v = PStr s \<and> length s \<le> m \<and> strip s \<noteq> [] \<and> t = strip s)"
  by (auto simp: check_text_def split: pyval.splits)

lemma check_integer_iff [simp]:
  "check_integer v lo hi = Inr i \<longleftrightarrow> v = PInt i \<and> lo \<le> i \<and> i \<le> hi"
  by (auto simp: check_integer_def split: pyval.splits)

lemma check_integer_bool: "check_integer (PBool b) lo hi = Inl (StateGraphError ''must be an integer in range'')"
  by (simp add: check_integer_def)

lemma KEY_no_colon: "KEY s \<Longrightarrow> CHR '':'' \<notin> set s"
  by (cases s) (auto simp: KEY_def list_all_iff key_char_def py_letter_def py_digit_def Let_def)

lemma dropWhile_idem: "dropWhile P (dropWhile P xs) = dropWhile P xs"
  by (induction xs) auto

lemma strip_idem [simp]: "strip (strip s) = strip s"
proof (cases "strip s = []")
  case True
  moreover have "strip [] = []" by (simp add: strip_def)
  ultimately show ?thesis by metis
next
  case False
  then have h: "\<not> py_space (hd (strip s))" and l: "\<not> py_space (last (strip s))"
    using strip_no_outer_space by blast+
  have "dropWhile py_space (strip s) = strip s"
    using h False by (cases "strip s") auto
  moreover have "dropWhile py_space (rev (strip s)) = rev (strip s)"
    using l False by (cases "rev (strip s)") (auto simp: hd_rev last_rev dest: arg_cong[where f = rev])
  ultimately show ?thesis by (simp add: strip_def[of "strip s"])
qed

lemma length_strip_le: "length (strip s) \<le> length s"
  unfolding strip_def by (metis length_dropWhile_le length_rev order_trans)

lemma check_text_wf:
  "check_text v m = Inr t \<Longrightarrow> t \<noteq> [] \<and> strip t = t \<and> length t \<le> m"
  by (auto simp: check_text_iff intro: order_trans[OF length_strip_le])

lemma check_text_stored: "check_text v m = Inr t \<Longrightarrow> check_text (PStr t) m = Inr t"
  using check_text_wf[of v m t] by (simp add: check_text_iff)

section \<open>Acceptance contracts\<close>

datatype check_kind = KTest | KReview | KHuman | KArtifact | KIntegration

fun kind_name :: "check_kind \<Rightarrow> string" where
  "kind_name KTest = ''test''"
| "kind_name KReview = ''review''"
| "kind_name KHuman = ''human''"
| "kind_name KArtifact = ''artifact''"
| "kind_name KIntegration = ''integration''"

text \<open>\<open>KINDS\<close>: a kind outside the set is refused.\<close>

definition KINDS :: "check_kind list" where
  "KINDS = [KTest, KReview, KHuman, KArtifact, KIntegration]"

definition parse_kind :: "pyval \<Rightarrow> check_kind option" where
  "parse_kind v = (case v of PStr s \<Rightarrow> find (\<lambda>k. kind_name k = s) KINDS | _ \<Rightarrow> None)"

lemma parse_kind_name [simp]: "parse_kind (PStr (kind_name k)) = Some k"
  by (cases k) (simp_all add: parse_kind_def KINDS_def)

record check =
  ck_id :: string
  ck_kind :: check_kind
  ck_description :: string

definition check_py :: "check \<Rightarrow> pyval" where
  "check_py c = PDict [(''id'', PStr (ck_id c)), (''kind'', PStr (kind_name (ck_kind c))),
                       (''description'', PStr (ck_description c))]"

definition contract_py :: "check list \<Rightarrow> pyval" where
  "contract_py cs = PList (map check_py cs)"

text \<open>One iteration of the loop of \<open>contract\<close>; \<open>seen\<close> is the set of ids collected so far.\<close>

definition contract_step :: "pyval \<Rightarrow> check list \<Rightarrow> check list result" where
  "contract_step v checks =
     bindE (raise_if (\<not> (case v of PDict _ \<Rightarrow> set (dict_keys v) \<subseteq> {''id'', ''kind'', ''description''} | _ \<Rightarrow> False))
              (StateGraphError ''each check must contain only id, kind, description'')) (\<lambda>_.
     bindE (check_key (get_or ''id'' v PNone)) (\<lambda>cid.
     (case parse_kind (get_or ''kind'' v PNone) of
        None \<Rightarrow> Inl (StateGraphError ''check kinds must be supported and IDs unique'')
      | Some kind \<Rightarrow>
          bindE (raise_if (cid \<in> set (map ck_id checks))
                   (StateGraphError ''check kinds must be supported and IDs unique'')) (\<lambda>_.
          bindE (check_text (get_or ''description'' v PNone) 2000) (\<lambda>d.
          Inr (checks @ [\<lparr>ck_id = cid, ck_kind = kind, ck_description = d\<rparr>]))))))"

definition check_contract :: "pyval \<Rightarrow> check list result" where
  "check_contract v = (case v of
      PList cs \<Rightarrow>
        bindE (raise_if (\<not> (1 \<le> length cs \<and> length cs \<le> 64))
                 (StateGraphError ''acceptance requires 1-64 explicit checks; an empty contract cannot pass'')) (\<lambda>_.
        bindE (foldE contract_step cs []) (\<lambda>checks. Inr (sort_key ck_id checks)))
    | _ \<Rightarrow> Inl (StateGraphError ''acceptance requires 1-64 explicit checks; an empty contract cannot pass''))"

text \<open>What a validated contract satisfies.\<close>

definition wf_check :: "check \<Rightarrow> bool" where
  "wf_check c \<longleftrightarrow> KEY (ck_id c) \<and> strip (ck_description c) = ck_description c \<and>
     ck_description c \<noteq> [] \<and> length (ck_description c) \<le> 2000"

definition wf_contract :: "check list \<Rightarrow> bool" where
  "wf_contract cs \<longleftrightarrow> 1 \<le> length cs \<and> length cs \<le> 64 \<and> distinct (map ck_id cs) \<and>
     sorted (map ck_id cs) \<and> list_all wf_check cs"

lemma contract_step_Inr:
  "contract_step v cs = Inr cs' \<Longrightarrow>
   \<exists>c. cs' = cs @ [c] \<and> wf_check c \<and> ck_id c \<notin> set (map ck_id cs)"
  by (auto simp: contract_step_def wf_check_def split: option.splits dest!: check_text_wf)

lemma contract_fold:
  "foldE contract_step vs cs = Inr cs' \<Longrightarrow> distinct (map ck_id cs) \<Longrightarrow> list_all wf_check cs \<Longrightarrow>
   length cs' = length cs + length vs \<and> distinct (map ck_id cs') \<and> list_all wf_check cs'"
proof (induction vs arbitrary: cs)
  case Nil
  then show ?case by simp
next
  case (Cons v vs)
  from Cons.prems(1) obtain ds where ds: "contract_step v cs = Inr ds" "foldE contract_step vs ds = Inr cs'"
    by auto
  from contract_step_Inr[OF ds(1)] obtain c where "ds = cs @ [c]" "wf_check c" "ck_id c \<notin> set (map ck_id cs)"
    by blast
  with Cons.IH[OF ds(2)] Cons.prems(2,3) show ?case by auto
qed

lemma check_contract_wf: "check_contract v = Inr cs \<Longrightarrow> wf_contract cs"
proof -
  assume a: "check_contract v = Inr cs"
  then obtain vs ds where vs: "1 \<le> length vs" "length vs \<le> 64"
    and ds: "foldE contract_step vs [] = Inr ds" and cs: "cs = sort_key ck_id ds"
    by (auto simp: check_contract_def split: pyval.splits)
  have d: "length ds = length vs" "distinct (map ck_id ds)" "list_all wf_check ds"
    using contract_fold[OF ds] by simp_all
  have "distinct (map ck_id cs)"
    using d(2) by (simp add: cs distinct_map)
  with d vs show ?thesis
    by (simp add: wf_contract_def cs list_all_iff)
qed

lemma contract_step_stored:
  "wf_check c \<Longrightarrow> ck_id c \<notin> set (map ck_id cs) \<Longrightarrow> contract_step (check_py c) cs = Inr (cs @ [c])"
  by (auto simp: contract_step_def check_py_def get_or_def wf_check_def check_text_def)

lemma contract_fold_stored:
  "list_all wf_check ds \<Longrightarrow> distinct (map ck_id (cs @ ds)) \<Longrightarrow>
   foldE contract_step (map check_py ds) cs = Inr (cs @ ds)"
  by (induction ds arbitrary: cs) (auto simp: contract_step_stored)

text \<open>A stored contract passes \<open>contract\<close> again and comes back unchanged.\<close>

lemma check_contract_stored: "wf_contract cs \<Longrightarrow> check_contract (contract_py cs) = Inr cs"
  using contract_fold_stored[of cs "[]"]
  by (simp add: check_contract_def contract_py_def wf_contract_def sort_key_id_if_sorted)

section \<open>Dependency lists\<close>

definition MAX_NODES :: nat where
  "MAX_NODES = 1000"

definition check_dependencies :: "pyval \<Rightarrow> string list result" where
  "check_dependencies v = (case v of
      PList vs \<Rightarrow>
        bindE (raise_if (length vs > MAX_NODES) (StateGraphError ''dependencies must be a bounded list'')) (\<lambda>_.
        bindE (mapE check_key vs) (\<lambda>result.
        bindE (raise_if (\<not> distinct result) (StateGraphError ''duplicate dependencies'')) (\<lambda>_.
        Inr (sort result))))
    | _ \<Rightarrow> Inl (StateGraphError ''dependencies must be a bounded list''))"

lemma check_dependencies_wf:
  "check_dependencies v = Inr ds \<Longrightarrow> distinct ds \<and> sorted ds \<and> length ds \<le> MAX_NODES \<and> list_all KEY ds"
proof -
  assume "check_dependencies v = Inr ds"
  then obtain vs r where r: "length vs \<le> MAX_NODES" "mapE check_key vs = Inr r" "distinct r" "ds = sort r"
    by (force simp: check_dependencies_def not_less split: pyval.splits)
  have "list_all KEY r" using mapE_set[OF r(2)] by (fastforce simp: list_all_iff)
  with r mapE_length[OF r(2)] show ?thesis by (simp add: list_all_iff)
qed

lemma check_dependencies_strs:
  assumes "list_all KEY ds" "distinct ds" "length ds \<le> MAX_NODES"
  shows "check_dependencies (py_strs ds) = Inr (sort ds)"
proof -
  have "mapE check_key (map PStr ds) = Inr ds"
    using assms(1) by (induction ds) auto
  then show ?thesis using assms(2,3) by (simp add: check_dependencies_def)
qed

section \<open>Facets\<close>

datatype facet = FDesign | FContract | FTest | FContent | FIntegration

fun facet_name :: "facet \<Rightarrow> string" where
  "facet_name FDesign = ''design''"
| "facet_name FContract = ''contract''"
| "facet_name FTest = ''test''"
| "facet_name FContent = ''content''"
| "facet_name FIntegration = ''integration''"

definition FACETS :: "facet list" where
  "FACETS = [FDesign, FContract, FTest, FContent, FIntegration]"

definition check_facet :: "pyval \<Rightarrow> facet option result" where
  "check_facet v = (case v of
      PNone \<Rightarrow> Inr None
    | PStr s \<Rightarrow> (case find (\<lambda>f. facet_name f = s) FACETS of
          None \<Rightarrow> Inl (StateGraphError ''facet must be one of content, contract, design, integration, test'')
        | Some f \<Rightarrow> Inr (Some f))
    | _ \<Rightarrow> Inl (StateGraphError ''facet must be one of content, contract, design, integration, test''))"

lemma find_facet [simp]: "find (\<lambda>f. facet_name f = facet_name g) FACETS = Some g"
  by (cases g) (simp_all add: FACETS_def)

lemma check_facet_name [simp]: "check_facet (PStr (facet_name f)) = Inr (Some f)"
  by (cases f) (simp_all add: check_facet_def FACETS_def)

lemma check_facet_iff:
  "check_facet v = Inr f \<longleftrightarrow> (v = PNone \<and> f = None) \<or> (\<exists>g. v = PStr (facet_name g) \<and> f = Some g)"
proof
  assume "check_facet v = Inr f"
  then show "(v = PNone \<and> f = None) \<or> (\<exists>g. v = PStr (facet_name g) \<and> f = Some g)"
    by (auto simp: check_facet_def split: pyval.splits option.splits dest!: find_SomeD sym[of "Some _"])
next
  assume "(v = PNone \<and> f = None) \<or> (\<exists>g. v = PStr (facet_name g) \<and> f = Some g)"
  then show "check_facet v = Inr f" by (auto simp: check_facet_def[of PNone])
qed

definition facet_py :: "facet option \<Rightarrow> pyval" where
  "facet_py = py_opt (\<lambda>f. PStr (facet_name f))"

section \<open>Digests and attribution\<close>

text \<open>\<open>SHA = re.compile(r"(?:[0-9a-f]{40}|[0-9a-f]{64})\Z")\<close>.\<close>

definition SHA :: "string \<Rightarrow> bool" where
  "SHA s \<longleftrightarrow> hex_of_length 40 s \<or> hex_of_length 64 s"

definition check_artifact_ref :: "pyval \<Rightarrow> string result" where
  "check_artifact_ref v = (case v of
      PStr s \<Rightarrow> if SHA s then Inr s
        else Inl (StateGraphError ''artifact_ref must be an exact lowercase Git SHA or SHA-256 digest'')
    | _ \<Rightarrow> Inl (StateGraphError ''artifact_ref must be an exact lowercase Git SHA or SHA-256 digest''))"

lemma check_artifact_ref_iff [simp]: "check_artifact_ref v = Inr s \<longleftrightarrow> v = PStr s \<and> SHA s"
  by (auto simp: check_artifact_ref_def split: pyval.splits)

text \<open>
  Unicode categories \<open>Cc\<close>, \<open>Cf\<close> and \<open>Cs\<close> among code points below 256: the C0 and C1 controls
  (with DEL) and the soft hyphen.
\<close>

definition control_char :: "char \<Rightarrow> bool" where
  "control_char c = (let n = (of_char c :: nat) in n < 32 \<or> (127 \<le> n \<and> n \<le> 159) \<or> n = 173)"

definition evidence_director_identity :: "pyval \<Rightarrow> string option result" where
  "evidence_director_identity v = (case v of
      PNone \<Rightarrow> Inr None
    | PStr s \<Rightarrow> if strip s = [] \<or> length s > 320 \<or> list_ex control_char s
        then Inl (StateGraphError ''director_identity must be nonempty text of at most 320 characters without controls'')
        else Inr (Some (strip s))
    | _ \<Rightarrow> Inl (StateGraphError ''director_identity must be nonempty text of at most 320 characters without controls''))"

end
