(* ===== verification/Dag.thy ===== *)
theory Dag
  imports Graph_Values
begin

text \<open>
  The graph algorithms of the State DAG: \<open>_validate_dag\<close> (Kahn's traversal, state_graph.py), the
  recursive SQL query that collects a node and its transitive dependents (\<open>_invalidate\<close>,
  \<open>dependents\<close>), and the depth-first walk of \<open>shipping_gaps\<close>. The main results: the traversal
  accepts exactly the closed acyclic graphs within the size limit, and both searches compute
  reachability.
\<close>

text \<open>A Python \<open>dict[str, list[str]]\<close>: distinct keys, in insertion order.\<close>

type_synonym graph = "(string \<times> string list) list"

definition graph_get :: "graph \<Rightarrow> string \<Rightarrow> string list" where
  "graph_get g n = (case map_of g n of None \<Rightarrow> [] | Some ds \<Rightarrow> ds)"

definition graph_keys :: "graph \<Rightarrow> string set" where
  "graph_keys g = fst ` set g"

definition dep_rel :: "graph \<Rightarrow> (string \<times> string) set" where
  "dep_rel g = {(n, d). \<exists>ds. (n, ds) \<in> set g \<and> d \<in> set ds}"

definition closed_graph :: "graph \<Rightarrow> bool" where
  "closed_graph g \<longleftrightarrow> (\<forall>(n, ds) \<in> set g. set ds \<subseteq> graph_keys g)"

section \<open>The traversal\<close>

type_synonym degree = "(string \<times> int) list"

text \<open>The first loop: children and in-degrees, with the two refusals.\<close>

definition add_child :: "graph \<Rightarrow> string \<Rightarrow> string \<Rightarrow> (string \<Rightarrow> string list) \<Rightarrow> (string \<Rightarrow> string list) result" where
  "add_child g node dep ch =
     (if dep \<notin> graph_keys g then Inl (StateGraphError ''unknown dependency in this project'')
      else Inr (ch(dep := ch dep @ [node])))"

fun scan_graph :: "graph \<Rightarrow> graph \<Rightarrow> (string \<Rightarrow> string list) \<Rightarrow> degree
    \<Rightarrow> ((string \<Rightarrow> string list) \<times> degree) result" where
  "scan_graph g [] ch deg = Inr (ch, deg)"
| "scan_graph g ((node, deps) # rest) ch deg =
     bindE (raise_if (node \<in> set deps) (StateGraphError ''a node cannot depend on itself'')) (\<lambda>_.
     bindE (foldE (add_child g node) deps ch) (\<lambda>ch'.
     scan_graph g rest ch' (deg @ [(node, int (length deps))])))"

definition decr :: "string \<Rightarrow> degree \<Rightarrow> degree" where
  "decr c deg = map (\<lambda>(k, d). if k = c then (k, d - 1) else (k, d)) deg"

text \<open>The inner loop over the children of a visited node.\<close>

fun relax :: "string list \<Rightarrow> degree \<Rightarrow> string list \<Rightarrow> degree \<times> string list" where
  "relax [] deg q = (deg, q)"
| "relax (c # cs) deg q =
     relax cs (decr c deg) (if map_of (decr c deg) c = Some 0 then q @ [c] else q)"

definition positives :: "degree \<Rightarrow> nat" where
  "positives deg = length (filter (\<lambda>(k, d). 0 < d) deg)"

lemma positives_decr_le: "positives (decr c deg) \<le> positives deg"
  by (induction deg) (auto simp: positives_def decr_def split: if_splits)

lemma positives_decr_less: "map_of (decr c deg) c = Some 0 \<Longrightarrow> positives (decr c deg) < positives deg"
proof (induction deg)
  case Nil
  then show ?case by (simp add: decr_def)
next
  case (Cons p deg)
  obtain k d where p: "p = (k, d)" by force
  have le: "positives (decr c deg) \<le> positives deg" by (rule positives_decr_le)
  show ?case
  proof (cases "k = c")
    case True
    with Cons.prems p have "d = 1" by (simp add: decr_def)
    with True p le show ?thesis by (simp add: positives_def decr_def)
  next
    case False
    with Cons.prems p have "map_of (decr c deg) c = Some 0" by (simp add: decr_def)
    with Cons.IH False p show ?thesis by (simp add: positives_def decr_def)
  qed
qed

lemma relax_positives:
  "positives (fst (relax cs deg q)) + length (snd (relax cs deg q)) \<le> positives deg + length q"
proof (induction cs arbitrary: deg q)
  case Nil
  then show ?case by simp
next
  case (Cons c cs)
  show ?case
  proof (cases "map_of (decr c deg) c = Some 0")
    case True
    have "positives (decr c deg) < positives deg" using positives_decr_less[OF True] .
    with Cons.IH[of "decr c deg" "q @ [c]"] True show ?thesis by simp
  next
    case False
    with Cons.IH[of "decr c deg" q] positives_decr_le[of c deg] show ?thesis by simp
  qed
qed

text \<open>The queue loop; every iteration takes one node out for good.\<close>

function kahn :: "(string \<Rightarrow> string list) \<Rightarrow> degree \<Rightarrow> string list \<Rightarrow> nat \<Rightarrow> nat" where
  "kahn ch deg [] visited = visited"
| "kahn ch deg (node # q) visited =
     kahn ch (fst (relax (ch node) deg q)) (snd (relax (ch node) deg q)) (visited + 1)"
  by pat_completeness auto
termination
proof (relation "measure (\<lambda>(ch, deg, q, v). positives deg + length q)", simp)
  fix ch :: "string \<Rightarrow> string list" and deg node q visited
  have "positives (fst (relax (ch node) deg q)) + length (snd (relax (ch node) deg q)) < positives deg + length (node # q)"
    using relax_positives[of "ch node" deg q] by simp
  then show "((ch, fst (relax (ch node) deg q), snd (relax (ch node) deg q), visited + 1), ch, deg, node # q, visited)
     \<in> measure (\<lambda>(ch, deg, q, v). positives deg + length q)" by simp
qed

definition initial_queue :: "degree \<Rightarrow> string list" where
  "initial_queue deg = map fst (filter (\<lambda>(k, count). count = 0) deg)"

definition validate_dag :: "graph \<Rightarrow> unit result" where
  "validate_dag g =
     bindE (raise_if (length g > MAX_NODES) (StateGraphError ''a project supports at most 1000 nodes'')) (\<lambda>_.
     bindE (scan_graph g g (\<lambda>_. []) []) (\<lambda>(children, deg).
     raise_if (kahn children deg (initial_queue deg) 0 \<noteq> length g)
       (StateGraphError ''dependency cycle; use a workflow loop, not a cyclic state dependency'')))"

section \<open>The traversal is correct\<close>

lemma add_child_fold:
  "foldE (add_child g node) deps ch = Inr ch' \<longleftrightarrow>
   set deps \<subseteq> graph_keys g \<and> ch' = (\<lambda>d. ch d @ replicate (count_list deps d) node)"
proof (induction deps arbitrary: ch)
  case Nil
  then show ?case by auto
next
  case (Cons d deps)
  have step: "(\<lambda>x. (ch(d := ch d @ [node])) x @ replicate (count_list deps x) node) =
      (\<lambda>x. ch x @ replicate (count_list (d # deps) x) node)" by auto
  show ?case
  proof (cases "d \<in> graph_keys g")
    case True
    then have "foldE (add_child g node) (d # deps) ch = foldE (add_child g node) deps (ch(d := ch d @ [node]))"
      by (simp add: add_child_def)
    then show ?thesis using True by (simp only: Cons.IH step) simp
  next
    case False
    then show ?thesis by (simp add: add_child_def)
  qed
qed

lemma scan_graph_spec:
  "scan_graph g h ch deg = Inr (ch', deg') \<longleftrightarrow>
   (\<forall>(n, ds) \<in> set h. n \<notin> set ds \<and> set ds \<subseteq> graph_keys g) \<and>
   deg' = deg @ map (\<lambda>(n, ds). (n, int (length ds))) h \<and>
   ch' = (\<lambda>d. ch d @ concat (map (\<lambda>(n, ds). replicate (count_list ds d) n) h))"
proof (induction h arbitrary: ch deg)
  case Nil
  then show ?case by auto
next
  case (Cons p h)
  obtain n ds where p: "p = (n, ds)" by force
  show ?case by (auto simp: p Cons.IH add_child_fold)
qed

lemma map_of_decr: "map_of (decr c deg) x = map_option (\<lambda>d. if x = c then d - 1 else d) (map_of deg x)"
  by (induction deg) (auto simp: decr_def)

lemma relax_degree:
  "map_of (fst (relax cs deg q)) x = map_option (\<lambda>d. d - int (count_list cs x)) (map_of deg x)"
proof (induction cs arbitrary: deg q)
  case Nil
  show ?case by (cases "map_of deg x") simp_all
next
  case (Cons c cs)
  show ?case by (cases "map_of deg x") (simp_all add: Cons.IH map_of_decr)
qed

text \<open>The nodes a relaxation enqueues: those whose degree passes through zero, once each.\<close>

lemma relax_queue:
  "\<exists>new. snd (relax cs deg q) = q @ new \<and> distinct new \<and>
     set new = {c. \<exists>d. map_of deg c = Some d \<and> 0 < d \<and> d \<le> int (count_list cs c)}"
proof (induction cs arbitrary: deg q)
  case Nil
  then show ?case by auto
next
  case (Cons c cs)
  let ?deg = "decr c deg"
  have tail: "{x. \<exists>d. map_of ?deg x = Some d \<and> 0 < d \<and> d \<le> int (count_list cs x)} =
      {x. \<exists>d. map_of deg x = Some d \<and> 0 < d \<and> d \<le> int (count_list (c # cs) x)} -
      (if map_of ?deg c = Some 0 then {c} else {})" (is "?L = ?R")
  proof (rule set_eqI)
    fix x show "x \<in> ?L \<longleftrightarrow> x \<in> ?R"
      by (cases "map_of deg x"; cases "x = c") (auto simp: map_of_decr)
  qed
  show ?case
  proof (cases "map_of ?deg c = Some 0")
    case True
    obtain new where new: "snd (relax cs ?deg (q @ [c])) = (q @ [c]) @ new" "distinct new"
      "set new = {x. \<exists>d. map_of ?deg x = Some d \<and> 0 < d \<and> d \<le> int (count_list cs x)}"
      using Cons.IH[of ?deg "q @ [c]"] by blast
    have "c \<notin> set new" using new(3) True by auto
    moreover have "map_of deg c = Some 1" using True by (auto simp: map_of_decr)
    ultimately show ?thesis using new True tail
      by (intro exI[of _ "c # new"]) auto
  next
    case False
    obtain new where new: "snd (relax cs ?deg q) = q @ new" "distinct new"
      "set new = {x. \<exists>d. map_of ?deg x = Some d \<and> 0 < d \<and> d \<le> int (count_list cs x)}"
      using Cons.IH[of ?deg q] by blast
    with False tail show ?thesis by (intro exI[of _ new]) simp
  qed
qed

text \<open>
  The loop invariant: \<open>V\<close> are the visited nodes in order, every degree counts the dependencies
  not visited yet, the nodes of degree zero are the visited and the queued ones, and no node was
  visited before its dependencies.
\<close>

definition pending :: "string list \<Rightarrow> string list \<Rightarrow> nat" where
  "pending V ds = length (filter (\<lambda>d. d \<notin> set V) ds)"

definition kahn_inv :: "graph \<Rightarrow> string list \<Rightarrow> degree \<Rightarrow> string list \<Rightarrow> bool" where
  "kahn_inv g V deg q \<longleftrightarrow>
     distinct (V @ q) \<and> set (V @ q) \<subseteq> graph_keys g \<and>
     (\<forall>n. map_of deg n = map_option (\<lambda>ds. int (pending V ds)) (map_of g n)) \<and>
     (\<forall>n \<in> graph_keys g. map_of deg n = Some 0 \<longleftrightarrow> n \<in> set V \<union> set q) \<and>
     (\<forall>us n vs. V = us @ n # vs \<longrightarrow> set (graph_get g n) \<subseteq> set us)"

lemma pending_visit:
  "n \<notin> set V \<Longrightarrow> pending V ds = pending (V @ [n]) ds + count_list ds n"
  by (induction ds) (auto simp: pending_def)

lemma pending_zero: "pending V ds = 0 \<longleftrightarrow> set ds \<subseteq> set V"
  by (auto simp: pending_def filter_empty_conv)

lemma graph_keys_map_of: "n \<in> graph_keys g \<longleftrightarrow> (\<exists>ds. map_of g n = Some ds)"
  by (metis graph_keys_def map_of_eq_None_iff not_None_eq)

text \<open>One visit keeps the invariant.\<close>

lemma kahn_visit:
  assumes inv: "kahn_inv g V deg (node # q)"
    and ch: "\<And>n c. count_list (ch n) c = (case map_of g c of None \<Rightarrow> 0 | Some ds \<Rightarrow> count_list ds n)"
  shows "kahn_inv g (V @ [node]) (fst (relax (ch node) deg q)) (snd (relax (ch node) deg q))"
proof -
  let ?deg = "fst (relax (ch node) deg q)" and ?V = "V @ [node]"
  have fresh: "node \<notin> set V" and dist: "distinct (V @ node # q)"
    and keys: "set (V @ node # q) \<subseteq> graph_keys g"
    and deg: "\<And>n. map_of deg n = map_option (\<lambda>ds. int (pending V ds)) (map_of g n)"
    and zero: "\<And>n. n \<in> graph_keys g \<Longrightarrow> map_of deg n = Some 0 \<longleftrightarrow> n \<in> set V \<union> set (node # q)"
    and topo: "\<And>us n vs. V = us @ n # vs \<Longrightarrow> set (graph_get g n) \<subseteq> set us"
    using inv by (auto simp: kahn_inv_def)
  obtain new where new: "snd (relax (ch node) deg q) = q @ new" "distinct new"
    and set_new: "set new = {c. \<exists>d. map_of deg c = Some d \<and> 0 < d \<and> d \<le> int (count_list (ch node) c)}"
    using relax_queue by blast
  have deg': "map_of ?deg n = map_option (\<lambda>ds. int (pending ?V ds)) (map_of g n)" for n
    using pending_visit[OF fresh] by (cases "map_of g n") (simp_all add: relax_degree deg ch)
  have set_new': "c \<in> set new \<longleftrightarrow> (\<exists>ds. map_of g c = Some ds \<and> pending V ds \<noteq> 0 \<and> pending ?V ds = 0)" for c
    using pending_visit[OF fresh] by (cases "map_of g c") (auto simp: set_new deg ch)
  have zero': "map_of ?deg n = Some 0 \<longleftrightarrow> n \<in> set ?V \<union> set (q @ new)" if n: "n \<in> graph_keys g" for n
  proof -
    from n obtain ds where ds: "map_of g n = Some ds" by (auto simp: graph_keys_map_of)
    have "pending ?V ds = 0 \<longleftrightarrow> pending V ds = 0 \<or> (pending V ds \<noteq> 0 \<and> pending ?V ds = 0)"
      using pending_visit[OF fresh, of ds] by auto
    with zero[OF n] ds set_new' deg'[of n] deg[of n] show ?thesis by auto
  qed
  have new_keys: "set new \<subseteq> graph_keys g" using set_new' by (auto simp: graph_keys_map_of)
  have new_disj: "set new \<inter> set (V @ node # q) = {}"
    using set_new' zero deg new_keys by (fastforce simp: graph_keys_map_of)
  have node_deps: "set (graph_get g node) \<subseteq> set V"
  proof -
    have nk: "node \<in> graph_keys g" using keys by simp
    then obtain ds where ds: "map_of g node = Some ds" by (auto simp: graph_keys_map_of)
    have "map_of deg node = Some 0" using zero[OF nk] by simp
    with deg[of node] ds show ?thesis by (simp add: graph_get_def pending_zero)
  qed
  have topo': "set (graph_get g n) \<subseteq> set us" if "?V = us @ n # vs" for us n vs
    using that topo node_deps by (cases vs rule: rev_cases) auto
  show ?thesis
    unfolding kahn_inv_def new(1)
    using dist keys new(2) new_keys new_disj deg' zero' topo' by auto
qed

lemma kahn_spec:
  assumes "kahn_inv g V deg q"
    and "\<And>n c. count_list (ch n) c = (case map_of g c of None \<Rightarrow> 0 | Some ds \<Rightarrow> count_list ds n)"
  shows "\<exists>V' deg'. kahn_inv g V' deg' [] \<and> kahn ch deg q (length V) = length V'"
  using assms
proof (induction ch deg q "length V" arbitrary: V rule: kahn.induct)
  case (1 ch deg)
  then show ?case by auto
next
  case (2 ch deg node q)
  have "kahn_inv g (V @ [node]) (fst (relax (ch node) deg q)) (snd (relax (ch node) deg q))"
    by (rule kahn_visit[OF "2.prems"])
  with "2.hyps"[of "V @ [node]"] "2.prems"(2) show ?case by auto
qed

text \<open>A complete visit orders the graph, so it has no cycle.\<close>

lemma kahn_complete_acyclic:
  assumes "distinct (map fst g)" "kahn_inv g V deg []" "set V = graph_keys g"
  shows "acyclic (dep_rel g)"
proof (rule acyclicI_order)
  fix n d assume "(n, d) \<in> dep_rel g"
  then obtain ds where ds: "(n, ds) \<in> set g" "d \<in> set ds" by (auto simp: dep_rel_def)
  then have "n \<in> set V" using assms(3) by (force simp: graph_keys_def)
  then obtain us vs where V: "V = us @ n # vs" "n \<notin> set us" by (meson split_list_first)
  have "d \<in> set (graph_get g n)" using ds assms(1) by (simp add: graph_get_def)
  then have "d \<in> set us" using assms(2) V(1) unfolding kahn_inv_def by blast
  then obtain xs ys where us: "us = xs @ d # ys" "d \<notin> set xs" by (meson split_list_first)
  have "takeWhile (\<lambda>x. x \<noteq> d) V = xs"
    unfolding V(1) us(1) append_assoc using us(2) by (subst takeWhile_append2) auto
  moreover have "takeWhile (\<lambda>x. x \<noteq> n) V = us"
    unfolding V(1) using V(2) by (subst takeWhile_append2) auto
  ultimately show "length (takeWhile (\<lambda>x. x \<noteq> d) V) < length (takeWhile (\<lambda>x. x \<noteq> n) V)"
    using us by simp
qed

text \<open>In a closed acyclic graph the queue cannot run dry early.\<close>

lemma kahn_acyclic_complete:
  assumes "kahn_inv g V deg []" "closed_graph g" "acyclic (dep_rel g)"
  shows "set V = graph_keys g"
proof (rule ccontr)
  assume ne: "set V \<noteq> graph_keys g"
  let ?R = "graph_keys g - set V"
  have sub: "set V \<subseteq> graph_keys g" using assms(1) by (simp add: kahn_inv_def)
  have "finite (dep_rel g)"
  proof (rule finite_subset)
    show "dep_rel g \<subseteq> (\<Union>(n, ds) \<in> set g. Pair n ` set ds)" by (auto simp: dep_rel_def)
  qed auto
  then have "wf ((dep_rel g)\<inverse>)" using assms(3) by (rule finite_acyclic_wf_converse)
  moreover obtain x where "x \<in> ?R" using ne sub by blast
  ultimately obtain z where z: "z \<in> ?R" "\<And>y. (y, z) \<in> (dep_rel g)\<inverse> \<Longrightarrow> y \<notin> ?R"
    by (rule wfE_min) blast
  obtain ds where ds: "map_of g z = Some ds" using z(1) by (auto simp: graph_keys_map_of)
  have "map_of deg z \<noteq> Some 0" using assms(1) z(1) by (auto simp: kahn_inv_def)
  then have "pending V ds \<noteq> 0" using assms(1) ds by (auto simp: kahn_inv_def)
  then obtain d where d: "d \<in> set ds" "d \<notin> set V" by (auto simp: pending_zero)
  have zd: "(z, ds) \<in> set g" using ds by (rule map_of_SomeD)
  then have "d \<in> graph_keys g" using assms(2) d(1) by (auto simp: closed_graph_def)
  moreover have "(z, d) \<in> dep_rel g" using zd d(1) by (auto simp: dep_rel_def)
  ultimately show False using z(2) d(2) by auto
qed

lemma kahn_inv_init:
  assumes "distinct (map fst g)"
  shows "kahn_inv g [] (map (\<lambda>(n, ds). (n, int (length ds))) g)
           (initial_queue (map (\<lambda>(n, ds). (n, int (length ds))) g))"
proof -
  let ?deg = "map (\<lambda>(n, ds). (n, int (length ds))) g"
  have deg: "map_of ?deg n = map_option (\<lambda>ds. int (pending [] ds)) (map_of g n)" for n
    by (induction g) (auto simp: pending_def)
  have q: "initial_queue ?deg = map fst (filter (\<lambda>(n, ds). ds = []) g)"
    by (induction g) (auto simp: initial_queue_def)
  have "distinct (initial_queue ?deg)"
    unfolding q using assms by (simp add: distinct_map_filter)
  moreover have "set (initial_queue ?deg) \<subseteq> graph_keys g" by (auto simp: q graph_keys_def)
  moreover have "map_of ?deg n = Some 0 \<longleftrightarrow> n \<in> set (initial_queue ?deg)" if "n \<in> graph_keys g" for n
    using that assms unfolding deg q by (force simp: graph_keys_map_of pending_def dest: map_of_SomeD)
  ultimately show ?thesis using deg by (simp add: kahn_inv_def)
qed

lemma scan_children_count:
  assumes "distinct (map fst g)"
  shows "count_list (concat (map (\<lambda>(n, ds). replicate (count_list ds d) n) g)) c =
         (case map_of g c of None \<Rightarrow> 0 | Some ds \<Rightarrow> count_list ds d)"
  using assms
proof (induction g)
  case Nil
  then show ?case by simp
next
  case (Cons p g)
  obtain n ds where p: "p = (n, ds)" by force
  have rep: "count_list (replicate m n) c = (if n = c then m else 0)" for m
    by (induction m) auto
  have "map_of g n = None" using Cons.prems p by (simp add: map_of_eq_None_iff)
  then show ?case using Cons p by (auto simp: rep)
qed

text \<open>
  \<open>_validate_dag\<close> accepts a graph exactly when it is within the size limit, refers only to its own
  nodes and is acyclic.
\<close>

lemma validate_dag_iff:
  assumes dist: "distinct (map fst g)"
  shows "validate_dag g = Inr () \<longleftrightarrow> length g \<le> MAX_NODES \<and> closed_graph g \<and> acyclic (dep_rel g)"
proof -
  let ?deg = "map (\<lambda>(n, ds). (n, int (length ds))) g"
  let ?ch = "\<lambda>d. concat (map (\<lambda>(n, ds). replicate (count_list ds d) n) g)"
  obtain V deg' where V: "kahn_inv g V deg' []" "kahn ?ch ?deg (initial_queue ?deg) 0 = length V"
    using kahn_spec[OF kahn_inv_init[OF dist], of ?ch] scan_children_count[OF dist] by auto
  have Vd: "distinct V" "set V \<subseteq> graph_keys g" using V(1) by (auto simp: kahn_inv_def)
  have card: "card (graph_keys g) = length g"
    using dist distinct_card[of "map fst g"] by (simp add: graph_keys_def)
  have len: "length V = length g \<longleftrightarrow> set V = graph_keys g"
    using Vd card by (metis card_subset_eq distinct_card finite_imageI finite_set graph_keys_def)
  have noself: "acyclic (dep_rel g) \<Longrightarrow> (n, ds) \<in> set g \<Longrightarrow> n \<notin> set ds" for n ds
    by (auto simp: acyclic_def dep_rel_def)
  have valid: "validate_dag g = Inr () \<longleftrightarrow>
      length g \<le> MAX_NODES \<and> (\<forall>(n, ds) \<in> set g. n \<notin> set ds \<and> set ds \<subseteq> graph_keys g) \<and> set V = graph_keys g"
    unfolding validate_dag_def using V(2) len
    by (auto simp: scan_graph_spec not_less)
  show ?thesis
    unfolding valid using kahn_complete_acyclic[OF dist V(1)] kahn_acyclic_complete[OF V(1)] noself
    by (auto simp: closed_graph_def)
qed

section \<open>Transitive dependents\<close>

text \<open>
  \<open>WITH RECURSIVE affected(k) AS (SELECT ? UNION SELECT d.node_key FROM state_dependencies d JOIN
  affected a ON d.dependency_key = a.k ...)\<close>: SQLite takes one row off the queue at a time and adds
  the joined rows it has not produced before. \<open>E\<close> holds the pairs (node, dependency).
\<close>

definition join_rows :: "(string \<times> string) list \<Rightarrow> string \<Rightarrow> string list \<Rightarrow> string list" where
  "join_rows E k seen = filter (\<lambda>n. n \<notin> set seen) (remdups (map fst (filter (\<lambda>(n, d). d = k) E)))"

lemma join_rows_set: "set (join_rows E k seen) = {n. (n, k) \<in> set E} - set seen"
  by (force simp: join_rows_def)

function affected_loop :: "(string \<times> string) list \<Rightarrow> string list \<Rightarrow> string list \<Rightarrow> string list" where
  "affected_loop E [] seen = seen"
| "affected_loop E (k # q) seen =
     affected_loop E (q @ join_rows E k seen) (seen @ join_rows E k seen)"
  by pat_completeness auto
termination
proof (relation "measure (\<lambda>(E, q, seen). card (fst ` set E - set seen) + length q)", simp)
  fix E :: "(string \<times> string) list" and k q seen
  let ?new = "join_rows E k seen"
  have new: "set ?new \<subseteq> fst ` set E - set seen" by (force simp: join_rows_set)
  have "distinct ?new" by (simp add: join_rows_def)
  then have "length ?new = card (set ?new)" by (simp add: distinct_card)
  moreover have "fst ` set E - set (seen @ ?new) = (fst ` set E - set seen) - set ?new" by auto
  ultimately have "card (fst ` set E - set (seen @ ?new)) + length ?new = card (fst ` set E - set seen)"
    using new by (simp add: card_Diff_subset card_mono)
  then show "((E, q @ ?new, seen @ ?new), E, k # q, seen) \<in> measure (\<lambda>(E, q, seen). card (fst ` set E - set seen) + length q)"
    by simp
qed

definition affected :: "(string \<times> string) list \<Rightarrow> string \<Rightarrow> string list" where
  "affected E k = sort (affected_loop E [k] [k])"

lemma affected_loop_set:
  assumes "set q \<subseteq> set seen" "set seen \<subseteq> {n. (n, k) \<in> (set E)\<^sup>*}"
    and "\<And>n d. (n, d) \<in> set E \<Longrightarrow> d \<in> set seen \<Longrightarrow> d \<in> set q \<or> n \<in> set seen"
    and "k \<in> set seen" and "distinct seen"
  shows "set (affected_loop E q seen) = {n. (n, k) \<in> (set E)\<^sup>*} \<and> distinct (affected_loop E q seen)"
  using assms
proof (induction E q seen rule: affected_loop.induct)
  case (1 E seen)
  have "n \<in> set seen" if "(n, k) \<in> (set E)\<^sup>*" for n
    using that 1(3,4) by (induction rule: converse_rtrancl_induct) auto
  with 1 show ?case by auto
next
  case (2 E x q seen)
  let ?new = "join_rows E x seen"
  have "x \<in> set seen" using 2(2) by simp
  with 2(3) have x: "(x, k) \<in> (set E)\<^sup>*" by auto
  have "set (affected_loop E (q @ ?new) (seen @ ?new)) = {n. (n, k) \<in> (set E)\<^sup>*} \<and>
      distinct (affected_loop E (q @ ?new) (seen @ ?new))"
  proof (rule "2.IH")
    show "set (seen @ ?new) \<subseteq> {n. (n, k) \<in> (set E)\<^sup>*}"
      using 2(3) x by (auto simp: join_rows_set intro: converse_rtrancl_into_rtrancl)
    show "distinct (seen @ ?new)" using 2(6) by (auto simp: join_rows_set) (simp add: join_rows_def)
    fix n d assume "(n, d) \<in> set E" "d \<in> set (seen @ ?new)"
    then show "d \<in> set (q @ ?new) \<or> n \<in> set (seen @ ?new)"
      using 2(4)[of n d] by (auto simp: join_rows_set)
  qed (use 2 in auto)
  then show ?case by simp
qed

text \<open>The query returns exactly the node and its transitive dependents, each once, sorted.\<close>

lemma set_affected: "set (affected E k) = {n. (n, k) \<in> (set E)\<^sup>*}"
  and affected_sorted: "sorted (affected E k)" "distinct (affected E k)"
proof -
  have *: "set (affected_loop E [k] [k]) = {n. (n, k) \<in> (set E)\<^sup>*} \<and> distinct (affected_loop E [k] [k])"
    by (rule affected_loop_set) auto
  show "set (affected E k) = {n. (n, k) \<in> (set E)\<^sup>*}" "sorted (affected E k)" "distinct (affected E k)"
    using * by (simp_all add: affected_def)
qed

section \<open>Transitive dependencies\<close>

text \<open>The stack walk of \<open>shipping_gaps\<close>: \<open>pop\<close> takes the last element, \<open>extend\<close> appends.\<close>

function closure_walk :: "graph \<Rightarrow> string list \<Rightarrow> string list \<Rightarrow> string list" where
  "closure_walk g stack seen =
     (if stack = [] then seen
      else if last stack \<in> set seen then closure_walk g (butlast stack) seen
      else closure_walk g (butlast stack @ graph_get g (last stack)) (seen @ [last stack]))"
  by pat_completeness auto
termination
proof (relation "measures [\<lambda>(g, stack, seen). card ((set stack \<union> (\<Union>(n, ds) \<in> set g. set ds)) - set seen),
                           \<lambda>(g, stack, seen). length stack]", goal_cases)
  case 1
  show ?case by simp
next
  case (2 g stack seen)
  let ?D = "\<Union>(n, ds) \<in> set g. set ds"
  have "card ((set (butlast stack) \<union> ?D) - set seen) \<le> card ((set stack \<union> ?D) - set seen)"
    by (rule card_mono) (auto dest: in_set_butlastD)
  then show ?case using 2 by auto
next
  case (3 g stack seen)
  let ?D = "\<Union>(n, ds) \<in> set g. set ds" and ?s = "butlast stack @ graph_get g (last stack)"
  have ls: "last stack \<in> set stack" using 3 by simp
  have gd: "set (graph_get g (last stack)) \<subseteq> ?D"
    by (cases "map_of g (last stack)") (auto simp: graph_get_def dest!: map_of_SomeD)
  have "card ((set ?s \<union> ?D) - set (seen @ [last stack])) < card ((set stack \<union> ?D) - set seen)"
  proof (rule psubset_card_mono)
    show "(set ?s \<union> ?D) - set (seen @ [last stack]) \<subset> (set stack \<union> ?D) - set seen"
      using gd ls 3(2) by (auto dest: in_set_butlastD)
  qed (auto split: prod.splits)
  then show ?case by simp
qed

declare closure_walk.simps [simp del]

lemma set_butlast_last: "xs \<noteq> [] \<Longrightarrow> set xs = insert (last xs) (set (butlast xs))"
  by (cases xs rule: rev_cases) auto

lemma graph_get_dep_rel: "distinct (map fst g) \<Longrightarrow> d \<in> set (graph_get g n) \<longleftrightarrow> (n, d) \<in> dep_rel g"
  by (force simp: graph_get_def dep_rel_def split: option.splits dest: map_of_SomeD)

lemma closure_walk_set:
  assumes "R = {d. \<exists>s \<in> set stack0. (s, d) \<in> (dep_rel g)\<^sup>*}" and "distinct (map fst g)"
    and "set stack \<subseteq> R" "set seen \<subseteq> R" "set stack0 \<subseteq> set stack \<union> set seen"
    and "\<And>n d. n \<in> set seen \<Longrightarrow> (n, d) \<in> dep_rel g \<Longrightarrow> d \<in> set stack \<union> set seen"
  shows "set (closure_walk g stack seen) = R"
  using assms
proof (induction g stack seen rule: closure_walk.induct)
  case (1 g stack seen)
  have gg: "d \<in> set (graph_get g n) \<longleftrightarrow> (n, d) \<in> dep_rel g" for n d
    using 1(4) by (rule graph_get_dep_rel)
  consider "stack = []" | "stack \<noteq> []" "last stack \<in> set seen" | "stack \<noteq> []" "last stack \<notin> set seen" by blast
  then show ?case
  proof cases
    case 1
    have "d \<in> set seen" if "(s, d) \<in> (dep_rel g)\<^sup>*" "s \<in> set seen" for s d
      using that "1.prems"(6) 1 by (induction rule: rtrancl_induct) auto
    then have "R \<subseteq> set seen" using "1.prems"(1,5) 1 by fastforce
    with "1.prems"(4) 1 show ?thesis by (subst closure_walk.simps) (simp add: subset_antisym)
  next
    case 2
    have "set (closure_walk g (butlast stack) seen) = R"
      using 2 "1.prems" set_butlast_last[OF 2(1)] by (intro "1.IH"(1)) (auto dest: in_set_butlastD)
    with 2 show ?thesis by (simp add: closure_walk.simps[of g stack seen])
  next
    case 3
    have lR: "last stack \<in> R" using 3 "1.prems"(3) by auto
    have "set (closure_walk g (butlast stack @ graph_get g (last stack)) (seen @ [last stack])) = R"
    proof (rule "1.IH"(2)[OF 3])
      show "set (butlast stack @ graph_get g (last stack)) \<subseteq> R"
      proof -
        obtain s where "s \<in> set stack0" "(s, last stack) \<in> (dep_rel g)\<^sup>*" using lR "1.prems"(1) by blast
        then have "set (graph_get g (last stack)) \<subseteq> R"
          unfolding "1.prems"(1) using gg rtrancl_into_rtrancl by fast
        moreover have "set (butlast stack) \<subseteq> R" using "1.prems"(3) in_set_butlastD by fast
        ultimately show ?thesis by simp
      qed
      show "set (seen @ [last stack]) \<subseteq> R" using lR "1.prems"(4) by simp
      show "set stack0 \<subseteq> set (butlast stack @ graph_get g (last stack)) \<union> set (seen @ [last stack])"
        using "1.prems"(5) set_butlast_last[OF 3(1)] by auto
      fix n d assume "n \<in> set (seen @ [last stack])" "(n, d) \<in> dep_rel g"
      then show "d \<in> set (butlast stack @ graph_get g (last stack)) \<union> set (seen @ [last stack])"
        using "1.prems"(6)[of n d] set_butlast_last[OF 3(1)] by (auto simp: gg)
    qed (use "1.prems" in auto)
    with 3 show ?thesis by (simp add: closure_walk.simps[of g stack seen])
  qed
qed

lemma closure_walk_reaches:
  "distinct (map fst g) \<Longrightarrow>
   set (closure_walk g (graph_get g n) []) = {d. (n, d) \<in> (dep_rel g)\<^sup>+}"
proof -
  assume d: "distinct (map fst g)"
  have gg: "x \<in> set (graph_get g n) \<longleftrightarrow> (n, x) \<in> dep_rel g" for x
    using d by (rule graph_get_dep_rel)
  have "set (closure_walk g (graph_get g n) []) = {d. \<exists>s \<in> set (graph_get g n). (s, d) \<in> (dep_rel g)\<^sup>*}"
  proof (rule closure_walk_set[where stack0 = "graph_get g n", OF refl d])
    show "set (graph_get g n) \<subseteq> {d. \<exists>s \<in> set (graph_get g n). (s, d) \<in> (dep_rel g)\<^sup>*}" by blast
  qed simp_all
  also have "\<dots> = {d. (n, d) \<in> (dep_rel g)\<^sup>+}"
  proof (intro set_eqI iffI)
    fix x assume "x \<in> {d. \<exists>s \<in> set (graph_get g n). (s, d) \<in> (dep_rel g)\<^sup>*}"
    then obtain s where "(n, s) \<in> dep_rel g" "(s, x) \<in> (dep_rel g)\<^sup>*" using gg by blast
    then show "x \<in> {d. (n, d) \<in> (dep_rel g)\<^sup>+}" by (simp add: rtrancl_into_trancl2)
  next
    fix x assume "x \<in> {d. (n, d) \<in> (dep_rel g)\<^sup>+}"
    then obtain s where "(n, s) \<in> dep_rel g" "(s, x) \<in> (dep_rel g)\<^sup>*" by (blast dest: tranclD)
    then show "x \<in> {d. \<exists>s \<in> set (graph_get g n). (s, d) \<in> (dep_rel g)\<^sup>*}" using gg by blast
  qed
  finally show ?thesis .
qed

end
