(* ===== verification/Facets.thy ===== *)
theory Facets
  imports Dag
begin

text \<open>
  The facet rules of \<open>src/core/state_graph.py\<close>: \<open>facet_violations\<close> (which edges and names are legal
  for labelled nodes), \<open>facet_stem\<close>, and the release-closure warnings \<open>shipping_gaps\<close> and
  \<open>facet_warnings\<close>. A violation is a value whose constructor is the message and whose arguments are
  the values the message interpolates. The lemmas give the declarative rule each loop decides.
\<close>

type_synonym facets = "(string \<times> facet option) list"

text \<open>\<open>facets.get(node)\<close>: an absent node and an unlabelled node are both \<open>None\<close>.\<close>

definition facet_of :: "facets \<Rightarrow> string \<Rightarrow> facet option" where
  "facet_of fs n = (case map_of fs n of None \<Rightarrow> None | Some f \<Rightarrow> f)"

definition facet_nodes :: "facets \<Rightarrow> string set" where
  "facet_nodes fs = fst ` set fs"

definition BUILDABLE :: "facet list" where
  "BUILDABLE = [FDesign, FContract]"

definition FACET_SUFFIXES :: "(string \<times> facet) list" where
  "FACET_SUFFIXES = [(''.contract'', FContract), (''.test'', FTest)]"

definition drop_suffix :: "nat \<Rightarrow> string \<Rightarrow> string" where
  "drop_suffix k s = take (length s - k) s"

lemma drop_suffix_append [simp]: "length p = k \<Longrightarrow> drop_suffix k (s @ p) = s"
  by (auto simp: drop_suffix_def)

lemma ends_with_append [simp]: "ends_with (s @ p) p"
  by (auto simp: ends_with_iff)

section \<open>The rules\<close>

datatype facet_problem =
    SuffixMismatch string string facet facet
  | Unfaceted string facet string
  | NotBuildable string facet string facet
  | MissingSibling string string

definition suffix_problems :: "string \<Rightarrow> facet option \<Rightarrow> facet_problem list" where
  "suffix_problems node own = concat (map (\<lambda>(suffix, expected).
     (case own of
        Some f \<Rightarrow> if ends_with node suffix \<and> f \<noteq> expected then [SuffixMismatch node suffix expected f] else []
      | None \<Rightarrow> [])) FACET_SUFFIXES)"

text \<open>The name a test node tests: \<open>node[:-5] if node.endswith(".test") else node\<close>.\<close>

definition test_stem :: "string \<Rightarrow> string" where
  "test_stem node = (if ends_with node ''.test'' then drop_suffix 5 node else node)"

definition dep_problems :: "facets \<Rightarrow> string \<Rightarrow> facet \<Rightarrow> string \<Rightarrow> facet_problem list" where
  "dep_problems fs node own dep =
     (case facet_of fs dep of
        None \<Rightarrow> [Unfaceted node own dep]
      | Some target \<Rightarrow>
          if own = FIntegration \<or> target \<in> set BUILDABLE then []
          else if dep \<in> {node @ ''.test'', node @ ''.contract''} \<or>
                  ends_with node ''.test'' \<and> dep = test_stem node @ ''.contract'' then []
          else [NotBuildable node own dep target])"

definition siblings :: "string \<Rightarrow> facet \<Rightarrow> string list" where
  "siblings node own = [test_stem node @ ''.contract''] @ (if own = FContent then [node @ ''.test''] else [])"

definition sibling_problems :: "facets \<Rightarrow> string \<Rightarrow> facet \<Rightarrow> string list \<Rightarrow> facet_problem list" where
  "sibling_problems fs node own deps =
     (if own \<in> {FContent, FTest} then
        map (MissingSibling node)
          (filter (\<lambda>s. s \<in> facet_nodes fs \<and> s \<noteq> node \<and> s \<notin> set deps) (siblings node own))
      else [])"

definition node_problems :: "facets \<Rightarrow> graph \<Rightarrow> string \<times> facet option \<Rightarrow> facet_problem list" where
  "node_problems fs g = (\<lambda>(node, facet).
     suffix_problems node facet @
     (case facet of
        None \<Rightarrow> []
      | Some own \<Rightarrow>
          (let deps = sort (remdups (graph_get g node)) in
           concat (map (dep_problems fs node own) deps) @ sibling_problems fs node own deps)))"

definition facet_violations :: "facets \<Rightarrow> graph \<Rightarrow> facet_problem list" where
  "facet_violations fs g = concat (map (node_problems fs g) fs)"

text \<open>
  The rules as a reader of the design states them. A labelled node may depend only on labelled
  nodes; unless it is an integration node it may build only on contracts and designs, on its own
  test and contract, or (a test) on the contract of what it tests; a content node or a test
  depends on the contract beside it, and content on its test; and a \<open>.contract\<close> or \<open>.test\<close> name
  has that facet.
\<close>

definition edge_legal :: "facets \<Rightarrow> string \<Rightarrow> facet \<Rightarrow> string \<Rightarrow> bool" where
  "edge_legal fs node own dep \<longleftrightarrow> (\<exists>target. facet_of fs dep = Some target \<and>
     (own = FIntegration \<or> target = FContract \<or> target = FDesign \<or>
      dep = node @ ''.test'' \<or> dep = node @ ''.contract'' \<or>
      (\<exists>stem. node = stem @ ''.test'' \<and> dep = stem @ ''.contract'')))"

definition name_legal :: "string \<Rightarrow> facet \<Rightarrow> bool" where
  "name_legal node own \<longleftrightarrow> ((\<exists>s. node = s @ ''.contract'') \<longrightarrow> own = FContract) \<and>
     ((\<exists>s. node = s @ ''.test'') \<longrightarrow> own = FTest)"

text \<open>
  \<open>beside node own sib\<close>: what a node of facet \<open>own\<close> has to depend on, if it is in the graph. A test called
  \<open>x.test\<close> depends on \<open>x.contract\<close>, any other content or test \<open>x\<close> on \<open>x.contract\<close>, and content
  \<open>x\<close> on \<open>x.test\<close>.
\<close>

inductive beside :: "string \<Rightarrow> facet \<Rightarrow> string \<Rightarrow> bool" where
  contract_of_tested: "own \<in> {FContent, FTest} \<Longrightarrow> beside (x @ ''.test'') own (x @ ''.contract'')"
| own_contract: "own \<in> {FContent, FTest} \<Longrightarrow> \<nexists>y. x = y @ ''.test'' \<Longrightarrow> beside x own (x @ ''.contract'')"
| own_test: "beside x FContent (x @ ''.test'')"

definition order_legal :: "facets \<Rightarrow> string \<Rightarrow> facet \<Rightarrow> string set \<Rightarrow> bool" where
  "order_legal fs node own deps \<longleftrightarrow> (\<forall>sib. beside node own sib \<longrightarrow> sib \<in> fst ` set fs \<longrightarrow> sib \<noteq> node \<longrightarrow> sib \<in> deps)"

definition facets_legal :: "facets \<Rightarrow> graph \<Rightarrow> bool" where
  "facets_legal fs g \<longleftrightarrow> (\<forall>node own. (node, Some own) \<in> set fs \<longrightarrow>
     name_legal node own \<and> (\<forall>dep \<in> set (graph_get g node). edge_legal fs node own dep) \<and>
     order_legal fs node own (set (graph_get g node)))"

lemma suffix_problems_Nil: "suffix_problems node (Some own) = [] \<longleftrightarrow> name_legal node own"
  by (auto simp: suffix_problems_def FACET_SUFFIXES_def name_legal_def ends_with_iff)

lemma test_stem_contract:
  "ends_with node ''.test'' \<and> dep = test_stem node @ ''.contract'' \<longleftrightarrow>
   (\<exists>stem. node = stem @ ''.test'' \<and> dep = stem @ ''.contract'')"
  by (auto simp: test_stem_def ends_with_iff)

lemma dep_problems_Nil: "dep_problems fs node own dep = [] \<longleftrightarrow> edge_legal fs node own dep"
  by (auto simp: dep_problems_def edge_legal_def BUILDABLE_def test_stem_contract split: option.splits)

lemma siblings_beside: "own \<in> {FContent, FTest} \<and> sib \<in> set (siblings node own) \<longleftrightarrow> beside node own sib"
proof (cases "\<exists>y. node = y @ ''.test''")
  case True
  then obtain y where "node = y @ ''.test''" by blast
  then show ?thesis by (auto simp: siblings_def test_stem_def beside.simps)
next
  case False
  then show ?thesis by (auto simp: siblings_def test_stem_def ends_with_iff beside.simps)
qed

lemma sibling_problems_Nil: "sibling_problems fs node own deps = [] \<longleftrightarrow> order_legal fs node own (set deps)"
  unfolding sibling_problems_def order_legal_def siblings_beside[symmetric] facet_nodes_def by (auto simp: filter_empty_conv)

lemma node_problems_Nil:
  "node_problems fs g (node, f) = [] \<longleftrightarrow>
   (\<forall>own. f = Some own \<longrightarrow> name_legal node own \<and>
     (\<forall>dep \<in> set (graph_get g node). edge_legal fs node own dep) \<and>
     order_legal fs node own (set (graph_get g node)))"
proof (cases f)
  case None
  then show ?thesis by (simp add: node_problems_def suffix_problems_def FACET_SUFFIXES_def)
next
  case (Some own)
  then show ?thesis
    by (simp add: node_problems_def Let_def suffix_problems_Nil dep_problems_Nil sibling_problems_Nil)
qed

text \<open>The store's check passes exactly when the rules hold.\<close>

lemma facet_violations_Nil: "facet_violations fs g = [] \<longleftrightarrow> facets_legal fs g"
  unfolding facet_violations_def facets_legal_def concat_eq_Nil_conv by (auto simp: node_problems_Nil)

section \<open>The release closure\<close>

definition facet_stem :: "string \<Rightarrow> facets \<Rightarrow> string" where
  "facet_stem node fs =
     (if facet_of fs node = Some FContract \<and> ends_with node ''.contract'' then drop_suffix 9 node
      else if facet_of fs node = Some FTest \<and> ends_with node ''.test'' then drop_suffix 5 node
      else node)"

definition gap_of :: "facets \<Rightarrow> graph \<Rightarrow> string \<Rightarrow> string list" where
  "gap_of fs g node =
     (let seen = closure_walk g (graph_get g node) []; direct = graph_get g node in
      sort (remdups (map (\<lambda>c. facet_stem c fs)
        (filter (\<lambda>c. facet_of fs c = Some FContract \<and> facet_stem c fs \<in> facet_nodes fs \<and>
                   facet_of fs (facet_stem c fs) \<noteq> Some FContract \<and>
                   facet_stem c fs \<noteq> node \<and> facet_stem c fs \<notin> set direct) seen))))"

definition shipping_gaps :: "facets \<Rightarrow> graph \<Rightarrow> (string \<times> string list) list" where
  "shipping_gaps fs g = filter (\<lambda>(node, missing). missing \<noteq> [])
     (map (\<lambda>(node, own). (node, gap_of fs g node)) (filter (\<lambda>(node, own). own = Some FIntegration) fs))"

text \<open>One warning per gap, naming the node and the implementations it lacks.\<close>

datatype facet_warning = ClosureDrops string "string list"

definition facet_warnings :: "facets \<Rightarrow> graph \<Rightarrow> facet_warning list" where
  "facet_warnings fs g = map (\<lambda>(node, missing). ClosureDrops node missing) (shipping_gaps fs g)"

lemma facet_stem_append [simp]:
  "facet_of fs (s @ ''.contract'') = Some FContract \<Longrightarrow> facet_stem (s @ ''.contract'') fs = s"
  by (simp add: facet_stem_def)

lemma set_gap_of:
  assumes "distinct (map fst g)"
  shows "set (gap_of fs g node) = {facet_stem c fs | c. (node, c) \<in> (dep_rel g)\<^sup>+ \<and>
     facet_of fs c = Some FContract \<and> facet_stem c fs \<in> facet_nodes fs \<and>
     facet_of fs (facet_stem c fs) \<noteq> Some FContract \<and> facet_stem c fs \<noteq> node \<and>
     (node, facet_stem c fs) \<notin> dep_rel g}"
  unfolding gap_of_def Let_def using closure_walk_reaches[OF assms, of node] graph_get_dep_rel[OF assms, of _ node]
  by auto

lemma gap_of_sorted: "sorted (gap_of fs g node)" "distinct (gap_of fs g node)"
  by (simp_all add: gap_of_def Let_def)

lemma in_shipping_gaps:
  "(node, missing) \<in> set (shipping_gaps fs g) \<longleftrightarrow>
   (node, Some FIntegration) \<in> set fs \<and> missing = gap_of fs g node \<and> missing \<noteq> []"
  by (auto simp: shipping_gaps_def)

text \<open>
  When no gap is reported, an integration node that reaches the contract of a named goal depends
  directly on that goal's implementation.
\<close>

lemma no_gap_direct:
  assumes "distinct (map fst g)" "shipping_gaps fs g = []" "(node, Some FIntegration) \<in> set fs"
    and "(node, s @ ''.contract'') \<in> (dep_rel g)\<^sup>+" "facet_of fs (s @ ''.contract'') = Some FContract"
    and "s \<in> facet_nodes fs" "facet_of fs s \<noteq> Some FContract" "s \<noteq> node"
  shows "(node, s) \<in> dep_rel g"
proof (rule ccontr)
  assume "(node, s) \<notin> dep_rel g"
  then have "s \<in> set (gap_of fs g node)"
    unfolding set_gap_of[OF assms(1)] using assms(4-8) facet_stem_append[OF assms(5)] by force
  then have "(node, gap_of fs g node) \<in> set (shipping_gaps fs g)"
    using assms(3) by (auto simp: in_shipping_gaps)
  with assms(2) show False by simp
qed

end
