(* ===== verification/State_Schema.thy ===== *)
theory State_Schema
  imports Facets
begin

text \<open>
  The tables of the State store (\<open>SCHEMA\<close> of state_graph.py, state_metadata.py, state_attempts.py
  with state_attempt_schema.py, state_claims.py, state_issues.py, state_handoffs.py, state_subagents.py,
  driver_presence.py and driver_inbox.py). A row is a record with one
  field per column; a CHECK on a text column is a datatype; a nullable column is an \<open>option\<close>; a
  table is the list of its rows in insertion order, so an AUTOINCREMENT column is the position in
  the list. JSON columns hold the decoded value: two stored texts are equal exactly when the values
  are, because the store always writes the canonical text. Time stamps are integers (microseconds).
\<close>

section \<open>Projects and nodes\<close>

record project =
  p_id :: string
  p_title :: string
  p_source :: "string option"
  p_created :: int

datatype node_status = OPEN | CANDIDATE | VERIFIED | STALE | SUPERSEDED

fun node_status_name :: "node_status \<Rightarrow> string" where
  "node_status_name OPEN = ''OPEN''"
| "node_status_name CANDIDATE = ''CANDIDATE''"
| "node_status_name VERIFIED = ''VERIFIED''"
| "node_status_name STALE = ''STALE''"
| "node_status_name SUPERSEDED = ''SUPERSEDED''"

record node =
  n_project :: string
  n_key :: string
  n_revision :: int
  n_goal :: string
  n_contract :: "check list"
  n_contract_hash :: string
  n_status :: node_status
  n_priority :: int
  n_receipt :: "string option"
  n_created :: int
  n_updated :: int
  n_facet :: "facet option"

record dep =
  d_project :: string
  d_node :: string
  d_dep :: string

record revision =
  r_project :: string
  r_node :: string
  r_revision :: int
  r_goal :: string
  r_contract :: "check list"
  r_contract_hash :: string
  r_deps :: "string list"
  r_created :: int

record event =
  e_seq :: nat
  e_project :: string
  e_node :: "string option"
  e_type :: string
  e_payload :: pyval
  e_created :: int

datatype visibility = Private | Public

fun visibility_name :: "visibility \<Rightarrow> string" where
  "visibility_name Private = ''private''"
| "visibility_name Public = ''public''"

record access =
  acc_project :: string
  acc_visibility :: visibility
  acc_opened_by :: "string option"
  acc_opened_at :: "int option"
  acc_changed_by :: string
  acc_changed_at :: int

section \<open>Policies, holds, bindings\<close>

datatype dispatch = Active | Hold | Archive

fun dispatch_name :: "dispatch \<Rightarrow> string" where
  "dispatch_name Active = ''active''"
| "dispatch_name Hold = ''hold''"
| "dispatch_name Archive = ''archive''"

record policy =
  pol_project :: string
  pol_revision :: int
  pol_dispatch :: dispatch
  pol_reason :: string
  pol_actor :: string
  pol_updated :: int

record enforcement =
  enf_project :: string
  enf_claims :: bool
  enf_reason :: string
  enf_actor :: string
  enf_updated :: int
  enf_review_advisory :: bool

record hold =
  h_project :: string
  h_node :: string
  h_revision :: int
  h_held :: bool
  h_reason :: string
  h_actor :: string
  h_updated :: int

record source_binding =
  sb_project :: string
  sb_revision :: int
  sb_repo :: string
  sb_common :: string
  sb_actor :: string
  sb_updated :: int

record history_link =
  hl_project :: string
  hl_reference :: string
  hl_node :: string
  hl_kind :: string
  hl_ref :: string
  hl_label :: string
  hl_status :: string
  hl_artifact :: "string option"
  hl_report :: "string option"
  hl_provenance :: string
  hl_recorded_by :: string
  hl_revision :: int
  hl_protection :: bool
  hl_payload_hash :: string
  hl_created :: int

text \<open>The two columns of the engine's \<open>runs\<close> table that a legacy source binding reads.\<close>

record run_row =
  run_project :: string
  run_repo :: "string option"

record design_binding =
  db_project :: string
  db_node :: string
  db_revision :: int
  db_snapshot :: pyval

section \<open>Attempts, evidence, acceptances\<close>

datatype attempt_status =
  Reserved | Launching | Running | Paused | Unknown | Candidate | Failed | Superseded | Abandoned

fun attempt_status_name :: "attempt_status \<Rightarrow> string" where
  "attempt_status_name Reserved = ''reserved''"
| "attempt_status_name Launching = ''launching''"
| "attempt_status_name Running = ''running''"
| "attempt_status_name Paused = ''paused''"
| "attempt_status_name Unknown = ''unknown''"
| "attempt_status_name Candidate = ''candidate''"
| "attempt_status_name Failed = ''failed''"
| "attempt_status_name Superseded = ''superseded''"
| "attempt_status_name Abandoned = ''abandoned''"

definition ACTIVE :: "attempt_status list" where
  "ACTIVE = [Reserved, Launching, Running, Paused, Unknown]"

datatype execution_kind = Skillflow | External

fun execution_kind_name :: "execution_kind \<Rightarrow> string" where
  "execution_kind_name Skillflow = ''skillflow''"
| "execution_kind_name External = ''external''"

datatype artifact_kind = GitSha1 | Sha256

fun artifact_kind_name :: "artifact_kind \<Rightarrow> string" where
  "artifact_kind_name GitSha1 = ''git-sha1''"
| "artifact_kind_name Sha256 = ''sha256''"

datatype abandon_kind = ConfirmedStopped | UnknownQuiescence

fun abandon_kind_name :: "abandon_kind \<Rightarrow> string" where
  "abandon_kind_name ConfirmedStopped = ''confirmed_stopped''"
| "abandon_kind_name UnknownQuiescence = ''unknown''"

text \<open>One entry of \<open>dependency_snapshot\<close>: what a dependency was when it was read.\<close>

record pin =
  pin_key :: string
  pin_revision :: int
  pin_hash :: string
  pin_status :: node_status
  pin_receipt :: "string option"

record attempt =
  a_id :: string
  a_project :: string
  a_node :: string
  a_revision :: int
  a_contract_hash :: string
  a_pins :: "pin list"
  a_context :: pyval
  a_request_key :: string
  a_request_hash :: string
  a_workflow :: "string option"
  a_execution_project :: "string option"
  a_run :: "string option"
  a_graph_version :: "int option"
  a_graph_digest :: "string option"
  a_status :: attempt_status
  a_artifact :: "string option"
  a_error :: "string option"
  a_created :: int
  a_updated :: int
  a_kind :: execution_kind
  a_harness :: "string option"
  a_external_id :: "string option"
  a_reporter :: "string option"
  a_version :: int
  a_artifact_kind :: "artifact_kind option"
  a_terminal :: "string option"
  a_abandon :: "abandon_kind option"
  a_owner :: "string option"
  a_fence :: int
  a_lease :: "int option"
  a_heartbeat :: "int option"

datatype verdict = Pass | Fail | Skip

fun verdict_name :: "verdict \<Rightarrow> string" where
  "verdict_name Pass = ''pass''"
| "verdict_name Fail = ''fail''"
| "verdict_name Skip = ''skip''"

record evidence =
  ev_id :: string
  ev_attempt :: string
  ev_criterion :: string
  ev_kind :: string
  ev_verdict :: verdict
  ev_artifact :: string
  ev_report_ref :: string
  ev_report_sha :: string
  ev_reviewer :: string
  ev_detail :: string
  ev_payload_hash :: string
  ev_created :: int
  ev_director :: "string option"

record acceptance =
  rc_id :: string
  rc_project :: string
  rc_node :: string
  rc_revision :: int
  rc_attempt :: string
  rc_artifact :: string
  rc_contract_hash :: string
  rc_pins :: "pin list"
  rc_evidence :: "string list"
  rc_reviewer :: string
  rc_created :: int
  rc_provenance :: pyval

record observation =
  o_attempt :: string
  o_id :: string
  o_version :: int
  o_status :: attempt_status
  o_resulting :: attempt_status
  o_quiescent :: bool
  o_artifact :: "string option"
  o_artifact_kind :: "artifact_kind option"
  o_report_ref :: string
  o_report_sha :: string
  o_actor :: string
  o_detail :: string
  o_payload_hash :: string
  o_context_hash :: string
  o_created :: int
  o_late :: bool
  o_fence :: "int option"

text \<open>Report bytes are a string of bytes.\<close>

record report_blob =
  rb_sha :: string
  rb_bytes :: string
  rb_ref :: string
  rb_created :: int

record git_artifact =
  ga_commit :: string
  ga_tree :: string
  ga_sha :: string
  ga_ref :: string
  ga_bytes :: string
  ga_created :: int

datatype owner_status = OwActive | OwPaused | OwUnknown | OwSettled | OwAbandoned

record external_owner =
  ow_attempt :: string
  ow_project :: string
  ow_node :: string
  ow_harness :: string
  ow_external :: string
  ow_status :: owner_status
  ow_admitted :: int
  ow_updated :: int
  ow_settled :: "int option"

section \<open>Claims\<close>

datatype purpose = Implement | Review | Investigate | Plan

fun purpose_name :: "purpose \<Rightarrow> string" where
  "purpose_name Implement = ''implement''"
| "purpose_name Review = ''review''"
| "purpose_name Investigate = ''investigate''"
| "purpose_name Plan = ''plan''"

datatype claim_status = Live | Released | Expired | Transferred | Revoked | TakenOver

fun claim_status_name :: "claim_status \<Rightarrow> string" where
  "claim_status_name Live = ''live''"
| "claim_status_name Released = ''released''"
| "claim_status_name Expired = ''expired''"
| "claim_status_name Transferred = ''transferred''"
| "claim_status_name Revoked = ''revoked''"
| "claim_status_name TakenOver = ''taken_over''"

record claim =
  c_id :: string
  c_project :: string
  c_node :: string
  c_driver :: string
  c_purpose :: purpose
  c_status :: claim_status
  c_fence :: int
  c_revision :: int
  c_attempt :: "string option"
  c_workspace :: string
  c_subagent :: "string option"
  c_lease_seconds :: int
  c_expires :: int
  c_heartbeat :: int
  c_request_key :: string
  c_request_hash :: string
  c_created :: int
  c_updated :: int

record claim_history =
  ch_claim :: string
  ch_project :: string
  ch_node :: string
  ch_driver :: string
  ch_purpose :: purpose
  ch_status :: claim_status
  ch_fence :: int
  ch_expires :: int
  ch_actor :: string
  ch_reason :: string
  ch_created :: int

section \<open>Drivers and presence\<close>

record driver =
  dr_id :: string
  dr_active :: bool
  dr_last_seen :: "int option"

record membership =
  mb_project :: string
  mb_driver :: string
  mb_member :: bool

record presence_decl =
  dc_driver :: string
  dc_declared :: int
  dc_reason :: string
  dc_return :: "int option"

record wait =
  w_id :: string
  w_driver :: string
  w_started :: int
  w_until :: int
  w_ended :: "int option"

record audit =
  au_driver :: string
  au_operation :: string
  au_payload :: pyval
  au_actor :: string
  au_created :: int

text \<open>A notice in a driver's inbox: the message row and its one delivery row.\<close>

record inbox_message =
  im_id :: string
  im_sender :: "string option"
  im_project :: "string option"
  im_kind :: string
  im_subject :: string
  im_body :: string
  im_refs :: "(string \<times> string) list"
  im_created :: int

record inbox_delivery =
  id_id :: string
  id_message :: string
  id_target :: string
  id_seq :: int
  id_status :: string
  id_version :: int

section \<open>Corrections, issues, handoffs, subagents\<close>

record retirement =
  rt_project :: string
  rt_reference :: string
  rt_node :: string
  rt_revision :: int
  rt_payload_hash :: string
  rt_run :: string
  rt_foreign_project :: string
  rt_foreign_attempt :: string
  rt_foreign_execution :: string
  rt_request_key :: string
  rt_request_hash :: string
  rt_actor :: string
  rt_reason :: string
  rt_created :: int

record issue =
  i_id :: string
  i_project :: string
  i_request_key :: string
  i_request_hash :: string
  i_kind :: string
  i_title :: string
  i_body :: string
  i_source :: "string option"
  i_status :: string
  i_version :: int
  i_resolution :: "pyval option"
  i_actor :: string
  i_director :: string
  i_created :: int
  i_updated :: int

record issue_node =
  in_issue :: string
  in_project :: string
  in_node :: string

datatype handoff_status = HOffered | HAccepted | HDeclined | HWithdrawn | HExpired

fun handoff_status_name :: "handoff_status \<Rightarrow> string" where
  "handoff_status_name HOffered = ''offered''"
| "handoff_status_name HAccepted = ''accepted''"
| "handoff_status_name HDeclined = ''declined''"
| "handoff_status_name HWithdrawn = ''withdrawn''"
| "handoff_status_name HExpired = ''expired''"

record handoff =
  ho_id :: string
  ho_project :: string
  ho_attempt :: "string option"
  ho_claim :: "string option"
  ho_node :: string
  ho_from :: string
  ho_to :: string
  ho_status :: handoff_status
  ho_package :: pyval
  ho_fence :: int
  ho_request_key :: string
  ho_request_hash :: string
  ho_expires :: int
  ho_created :: int
  ho_updated :: int
  ho_decided_by :: "string option"
  ho_decision :: "string option"

record subagent =
  sa_id :: string
  sa_parent :: string
  sa_project :: string
  sa_attempt :: string
  sa_node :: string
  sa_workspace :: string
  sa_request_hash :: string
  sa_created :: int

section \<open>Callers\<close>

text \<open>The identity the transport resolved: \<open>actor\<close>, the registered driver behind it, and its rights.\<close>

record caller =
  by_actor :: string
  by_driver :: "string option"
  by_admin :: bool
  by_trusted :: bool

section \<open>The database\<close>

record db =
  projects :: "project list"
  nodes :: "node list"
  deps :: "dep list"
  revisions :: "revision list"
  events :: "event list"
  accesses :: "access list"
  policies :: "policy list"
  enforcements :: "enforcement list"
  holds :: "hold list"
  bindings :: "source_binding list"
  links :: "history_link list"
  designs :: "design_binding list"
  run_rows :: "run_row list"
  attempts :: "attempt list"
  evidences :: "evidence list"
  acceptances :: "acceptance list"
  observations :: "observation list"
  blobs :: "report_blob list"
  owners :: "external_owner list"
  git_artifacts :: "git_artifact list"
  claims :: "claim list"
  claim_log :: "claim_history list"
  drivers :: "driver list"
  memberships :: "membership list"
  declarations :: "presence_decl list"
  waits :: "wait list"
  audits :: "audit list"
  inbox :: "inbox_message list"
  deliveries :: "inbox_delivery list"
  retirements :: "retirement list"
  issues :: "issue list"
  issue_nodes :: "issue_node list"
  handoffs :: "handoff list"
  subagents :: "subagent list"

definition empty_db :: db where
  "empty_db = \<lparr>projects = [], nodes = [], deps = [], revisions = [], events = [], accesses = [],
     policies = [], enforcements = [], holds = [], bindings = [], links = [], designs = [], run_rows = [],
     attempts = [], evidences = [], acceptances = [], observations = [], blobs = [], owners = [], git_artifacts = [],
     claims = [], claim_log = [], drivers = [], memberships = [], declarations = [], waits = [], audits = [],
     inbox = [], deliveries = [], retirements = [], issues = [], issue_nodes = [], handoffs = [], subagents = []\<rparr>"

end
