(* ===== verification/Graph_Store.thy ===== *)
theory Graph_Store
  imports State_Schema
begin

text \<open>
  \<open>StateGraphStore\<close> (src/core/state_graph.py): projects, nodes, dependencies, revisions, events and
  project visibility. Each write operation takes the environment and the database and returns its
  result with the changed database, or the exception it raises; an exception leaves the database as
  it was (\<open>transaction\<close> rolls back, modelled by \<^const>\<open>commit\<close>). Identifiers and texts arrive as
  strings and are validated as the code validates them; nested JSON arguments arrive as
  \<^typ>\<open>pyval\<close>. Error messages keep their fixed text and drop interpolated values.
\<close>

section \<open>Rows\<close>

definition get_project :: "db \<Rightarrow> string \<Rightarrow> project result" where
  "get_project s pid =
     bindE (check_key (PStr pid)) (\<lambda>p.
     require_some (find (\<lambda>r. p_id r = p) (projects s)) (StateNotFound ''state project not found''))"

definition is_node :: "string \<Rightarrow> string \<Rightarrow> node \<Rightarrow> bool" where
  "is_node pid k n \<longleftrightarrow> n_project n = pid \<and> n_key n = k"

definition node_at :: "db \<Rightarrow> string \<Rightarrow> string \<Rightarrow> node option" where
  "node_at s pid k = find (is_node pid k) (nodes s)"

definition get_node :: "db \<Rightarrow> string \<Rightarrow> string \<Rightarrow> node result" where
  "get_node s pid k =
     bindE (check_key (PStr pid)) (\<lambda>p.
     bindE (check_key (PStr k)) (\<lambda>k'.
     require_some (node_at s p k') (StateNotFound ''state node not found'')))"

text \<open>\<open>_event\<close>; the sequence number is SQLite's AUTOINCREMENT on a table without deletions.\<close>

definition add_event :: "env \<Rightarrow> string \<Rightarrow> string option \<Rightarrow> string \<Rightarrow> pyval \<Rightarrow> db \<Rightarrow> db" where
  "add_event ev pid nk ty payload s =
     s\<lparr>events := events s @ [\<lparr>e_seq = Suc (length (events s)), e_project = pid, e_node = nk,
        e_type = ty, e_payload = payload, e_created = now_at ev\<rparr>]\<rparr>"

definition project_nodes :: "db \<Rightarrow> string \<Rightarrow> node list" where
  "project_nodes s pid = filter (\<lambda>n. n_project n = pid) (nodes s)"

definition node_deps :: "db \<Rightarrow> string \<Rightarrow> string \<Rightarrow> string list" where
  "node_deps s pid k = sort (map d_dep (filter (\<lambda>d. d_project d = pid \<and> d_node d = k) (deps s)))"

text \<open>\<open>_graph\<close>: the nodes of a project and, per node, its dependencies in key order.\<close>

definition graph_of :: "db \<Rightarrow> string \<Rightarrow> graph" where
  "graph_of s pid = map (\<lambda>n. (n_key n, node_deps s pid (n_key n))) (project_nodes s pid)"

definition facets_of :: "db \<Rightarrow> string \<Rightarrow> facets" where
  "facets_of s pid = map (\<lambda>n. (n_key n, n_facet n)) (project_nodes s pid)"

definition snapshot_revision :: "env \<Rightarrow> node \<Rightarrow> string list \<Rightarrow> db \<Rightarrow> db" where
  "snapshot_revision ev n ds s =
     s\<lparr>revisions := revisions s @ [\<lparr>r_project = n_project n, r_node = n_key n, r_revision = n_revision n,
        r_goal = n_goal n, r_contract = n_contract n, r_contract_hash = n_contract_hash n,
        r_deps = ds, r_created = now_at ev\<rparr>]\<rparr>"

section \<open>Projects\<close>

definition create_project :: "env \<Rightarrow> string \<Rightarrow> string \<Rightarrow> string option \<Rightarrow> db \<Rightarrow> (project \<times> db) result" where
  "create_project ev pid title source s =
     bindE (check_key (PStr pid)) (\<lambda>_.
     bindE (check_text (PStr title) 400) (\<lambda>title'.
     bindE (case source of None \<Rightarrow> Inr [] | Some p \<Rightarrow> check_key (PStr p)) (\<lambda>_.
     case find (\<lambda>r. p_id r = pid) (projects s) of
       Some existing \<Rightarrow>
         if p_title existing \<noteq> title' \<or> p_source existing \<noteq> source
         then Inl (StateConflict ''project identity already exists with different settings'')
         else Inr (existing, s)
     | None \<Rightarrow>
         let s1 = s\<lparr>projects := projects s @ [\<lparr>p_id = pid, p_title = title', p_source = source, p_created = now_at ev\<rparr>]\<rparr>;
             s2 = add_event ev pid None ''project_created''
                    (PDict [(''title'', PStr title'), (''source_project_id'', py_str_opt source)]) s1
         in bindE (get_project s2 pid) (\<lambda>p. Inr (p, s2)))))"

text \<open>
  \<open>list_projects\<close>: a store that is not trusted lists only opened projects, whatever the caller asks.
\<close>

definition is_public :: "db \<Rightarrow> string \<Rightarrow> bool" where
  "is_public s pid \<longleftrightarrow> list_ex (\<lambda>a. acc_project a = pid \<and> acc_visibility a = Public) (accesses s)"

definition list_projects :: "bool \<Rightarrow> bool option \<Rightarrow> db \<Rightarrow> project list" where
  "list_projects trusted public_only s =
     (let public = (if \<not> trusted then True else case public_only of None \<Rightarrow> False | Some b \<Rightarrow> b) in
      sort_key p_id (filter (\<lambda>p. public \<longrightarrow> is_public s (p_id p)) (projects s)))"

definition access_row :: "db \<Rightarrow> string \<Rightarrow> access option" where
  "access_row s pid = find (\<lambda>a. acc_project a = pid) (accesses s)"

definition visibility_of :: "db \<Rightarrow> string \<Rightarrow> visibility result" where
  "visibility_of s pid = bindE (check_key (PStr pid)) (\<lambda>p.
     Inr (case access_row s p of Some a \<Rightarrow> acc_visibility a | None \<Rightarrow> Private))"

definition is_project_public :: "db \<Rightarrow> string \<Rightarrow> bool result" where
  "is_project_public s pid = bindE (visibility_of s pid) (\<lambda>v. Inr (v = Public))"

definition public_project_ids :: "db \<Rightarrow> string set" where
  "public_project_ids s = acc_project ` set (filter (\<lambda>a. acc_visibility a = Public) (accesses s))"

definition set_project_access :: "env \<Rightarrow> string \<Rightarrow> string \<Rightarrow> string \<Rightarrow> db \<Rightarrow> (access \<times> db) result" where
  "set_project_access ev pid vis actor s =
     bindE (raise_if (vis \<notin> {''private'', ''public''}) (StateGraphError ''visibility must be private or public'')) (\<lambda>_.
     let v = (if vis = ''public'' then Public else Private) in
     bindE (check_key (PStr pid)) (\<lambda>_.
     bindE (get_project s pid) (\<lambda>_.
     let row = access_row s pid;
         opening = (v = Public \<and> (case row of None \<Rightarrow> True | Some a \<Rightarrow> acc_visibility a \<noteq> Public));
         opened_by = (if opening then Some actor else Option.bind row acc_opened_by);
         opened_at = (if opening then Some (now_at ev) else Option.bind row acc_opened_at);
         new = \<lparr>acc_project = pid, acc_visibility = v, acc_opened_by = opened_by, acc_opened_at = opened_at,
                acc_changed_by = actor, acc_changed_at = now_at ev\<rparr>;
         s1 = s\<lparr>accesses := (if row = None then accesses s @ [new]
                            else update_where (\<lambda>a. acc_project a = pid) (\<lambda>_. new) (accesses s))\<rparr>;
         s2 = add_event ev pid None (if v = Public then ''project_opened'' else ''project_closed'')
                (PDict [(''visibility'', PStr vis), (''actor'', PStr actor)]) s1
     in Inr (new, s2))))"

section \<open>Adding nodes\<close>

record spec =
  sp_key :: string
  sp_goal :: string
  sp_checks :: "check list"
  sp_deps :: "string list"
  sp_priority :: int
  sp_facet :: "facet option"

definition SPEC_FIELDS :: "string set" where
  "SPEC_FIELDS = {''key'', ''goal'', ''acceptance'', ''dependencies'', ''priority'', ''facet''}"

definition superseded_key :: "db \<Rightarrow> string \<Rightarrow> string \<Rightarrow> bool" where
  "superseded_key s pid k \<longleftrightarrow> (\<exists>n. node_at s pid k = Some n \<and> n_status n = SUPERSEDED)"

lemma superseded_key_code [code]:
  "superseded_key s pid k = (case node_at s pid k of None \<Rightarrow> False | Some n \<Rightarrow> n_status n = SUPERSEDED)"
  by (auto simp: superseded_key_def split: option.splits)

text \<open>
  One iteration of the validation loop of \<open>_add\<close>; the state of the loop is the graph and the
  facets with the nodes accepted so far, and the list \<open>prepared\<close>.
\<close>

definition prepare_spec :: "db \<Rightarrow> string \<Rightarrow> pyval \<Rightarrow> graph \<times> facets \<times> spec list \<Rightarrow> (graph \<times> facets \<times> spec list) result" where
  "prepare_spec s pid v = (\<lambda>(graph, facets, prepared).
     bindE (raise_if (\<not> (case v of PDict _ \<Rightarrow> set (dict_keys v) \<subseteq> SPEC_FIELDS | _ \<Rightarrow> False))
              (StateGraphError ''unknown node fields; workflow progress is not a state-node property'')) (\<lambda>_.
     bindE (check_key (get_or ''key'' v PNone)) (\<lambda>nk.
     bindE (raise_if (nk \<in> graph_keys graph) (StateConflict ''duplicate node key'')) (\<lambda>_.
     bindE (check_text (get_or ''goal'' v PNone) 20000) (\<lambda>goal.
     bindE (check_contract (get_or ''acceptance'' v PNone)) (\<lambda>checks.
     bindE (check_dependencies (get_or ''dependencies'' v (PList []))) (\<lambda>ds.
     bindE (check_integer (get_or ''priority'' v (PInt 0)) (-100000) 100000) (\<lambda>priority.
     bindE (check_facet (get_or ''facet'' v PNone)) (\<lambda>own.
     bindE (raise_if (list_ex (superseded_key s pid) ds) (StateConflict ''cannot depend on a superseded node'')) (\<lambda>_.
     Inr (graph @ [(nk, ds)], facets @ [(nk, own)],
          prepared @ [\<lparr>sp_key = nk, sp_goal = goal, sp_checks = checks, sp_deps = ds,
                       sp_priority = priority, sp_facet = own\<rparr>])))))))))))"

definition check_facets :: "facets \<Rightarrow> graph \<Rightarrow> unit result" where
  "check_facets fs g = raise_if (facet_violations fs g \<noteq> []) (StateGraphError ''facet rules'')"

definition new_node :: "env \<Rightarrow> string \<Rightarrow> spec \<Rightarrow> node" where
  "new_node ev pid sp = \<lparr>n_project = pid, n_key = sp_key sp, n_revision = 1, n_goal = sp_goal sp,
     n_contract = sp_checks sp, n_contract_hash = digest ev (contract_py (sp_checks sp)),
     n_status = OPEN, n_priority = sp_priority sp, n_receipt = None,
     n_created = now_at ev, n_updated = now_at ev, n_facet = sp_facet sp\<rparr>"

definition insert_deps :: "string \<Rightarrow> string \<Rightarrow> string list \<Rightarrow> db \<Rightarrow> db" where
  "insert_deps pid k ds s = s\<lparr>deps := deps s @ map (\<lambda>d. \<lparr>d_project = pid, d_node = k, d_dep = d\<rparr>) ds\<rparr>"

definition finish_spec :: "env \<Rightarrow> string \<Rightarrow> spec \<Rightarrow> db \<Rightarrow> db result" where
  "finish_spec ev pid sp s =
     (let s1 = insert_deps pid (sp_key sp) (sp_deps sp) s in
      bindE (get_node s1 pid (sp_key sp)) (\<lambda>n.
      let s2 = snapshot_revision ev n (sp_deps sp) s1 in
      Inr (add_event ev pid (Some (sp_key sp)) ''node_created''
        (PDict [(''revision'', PInt 1), (''dependencies'', py_strs (sp_deps sp)),
                (''contract_hash'', PStr (digest ev (contract_py (sp_checks sp)))),
                (''facet'', facet_py (sp_facet sp))]) s2)))"

definition add_nodes :: "env \<Rightarrow> string \<Rightarrow> pyval \<Rightarrow> db \<Rightarrow> (string list \<times> db) result" where
  "add_nodes ev pid specs s =
     bindE (get_project s pid) (\<lambda>_.
     case specs of
       PList vs \<Rightarrow>
         bindE (raise_if (\<not> (1 \<le> length vs \<and> length vs \<le> 200))
                  (StateGraphError ''add_nodes requires 1-200 nodes per transaction'')) (\<lambda>_.
         bindE (foldE (prepare_spec s pid) vs (graph_of s pid, facets_of s pid, [])) (\<lambda>(graph, facets, prepared).
         bindE (validate_dag graph) (\<lambda>_.
         bindE (check_facets facets graph) (\<lambda>_.
         let s1 = s\<lparr>nodes := nodes s @ map (new_node ev pid) prepared\<rparr> in
         bindE (foldE (finish_spec ev pid) prepared s1) (\<lambda>s2.
         Inr (map sp_key prepared, s2))))))
     | _ \<Rightarrow> Inl (StateGraphError ''add_nodes requires 1-200 nodes per transaction''))"

section \<open>Labels and priorities\<close>

definition update_node :: "string \<Rightarrow> string \<Rightarrow> (node \<Rightarrow> node) \<Rightarrow> db \<Rightarrow> db" where
  "update_node pid k f s = s\<lparr>nodes := update_where (is_node pid k) f (nodes s)\<rparr>"

definition set_facet_of :: "string \<Rightarrow> facet option \<Rightarrow> facets \<Rightarrow> facets" where
  "set_facet_of k f fs = map (\<lambda>(n, g). if n = k then (n, f) else (n, g)) fs"

definition set_node_facet :: "env \<Rightarrow> string \<Rightarrow> string \<Rightarrow> pyval \<Rightarrow> db \<Rightarrow> (pyval \<times> db) result" where
  "set_node_facet ev pid k facet s =
     bindE (check_facet facet) (\<lambda>own.
     bindE (raise_if (own = None) (StateGraphError ''facet is required'')) (\<lambda>_.
     bindE (get_node s pid k) (\<lambda>n.
     if n_facet n = own
     then Inr (PDict [(''key'', PStr k), (''facet'', facet_py own), (''changed'', PBool False)], s)
     else
       bindE (raise_if (n_facet n \<noteq> None \<and> n_receipt n \<noteq> None)
                (StateConflict ''a verified node keeps its facet'')) (\<lambda>_.
       bindE (check_facets (set_facet_of k own (facets_of s pid)) (graph_of s pid)) (\<lambda>_.
       let s1 = update_node pid k (\<lambda>n. n\<lparr>n_facet := own, n_updated := now_at ev\<rparr>) s;
           s2 = add_event ev pid (Some k) ''node_facet_set''
                  (PDict [(''facet'', facet_py own), (''previous'', facet_py (n_facet n)),
                          (''revision'', PInt (n_revision n))]) s1
       in Inr (PDict [(''key'', PStr k), (''facet'', facet_py own), (''previous'', facet_py (n_facet n)),
                      (''changed'', PBool True)], s2))))))"

definition set_node_priority :: "env \<Rightarrow> string \<Rightarrow> string \<Rightarrow> int \<Rightarrow> int \<Rightarrow> string \<Rightarrow> string option \<Rightarrow> string option
    \<Rightarrow> db \<Rightarrow> (pyval \<times> db) result" where
  "set_node_priority ev pid k priority expected reason actor director s =
     bindE (check_integer (PInt priority) (-100000) 100000) (\<lambda>_.
     bindE (check_integer (PInt expected) (-100000) 100000) (\<lambda>_.
     bindE (check_text (PStr reason) 4000) (\<lambda>reason'.
     bindE (get_node s pid k) (\<lambda>n.
     bindE (raise_if (n_priority n \<noteq> expected) (StateConflict ''node priority changed; reload before reprioritizing'')) (\<lambda>_.
     let answer = (\<lambda>changed. PDict [(''key'', PStr k), (''priority'', PInt priority), (''previous'', PInt (n_priority n)),
                     (''revision'', PInt (n_revision n)), (''changed'', PBool changed)]) in
     if n_priority n = priority then Inr (answer False, s)
     else
       let s1 = update_node pid k (\<lambda>n. n\<lparr>n_priority := priority, n_updated := now_at ev\<rparr>) s;
           payload = [(''previous'', PInt (n_priority n)), (''current'', PInt priority),
                      (''revision'', PInt (n_revision n)), (''reason'', PStr reason')] @
                     (case actor of None \<Rightarrow> [] | Some a \<Rightarrow> [(''actor'', PStr a)]) @
                     (case director of None \<Rightarrow> [] | Some d \<Rightarrow> [(''director_identity'', PStr d)])
       in Inr (answer True, add_event ev pid (Some k) ''node_priority_set'' (PDict payload) s1))))))"

section \<open>Revising, splitting, superseding\<close>

definition project_edges :: "db \<Rightarrow> string \<Rightarrow> (string \<times> string) list" where
  "project_edges s pid = map (\<lambda>d. (d_node d, d_dep d)) (filter (\<lambda>d. d_project d = pid) (deps s))"

text \<open>\<open>_invalidate\<close>: the node and its transitive dependents lose their receipt and become stale.\<close>

definition invalidate :: "env \<Rightarrow> string \<Rightarrow> string \<Rightarrow> db \<Rightarrow> string list \<times> db" where
  "invalidate ev pid k s =
     (let keys = affected (project_edges s pid) k in
      (keys, s\<lparr>nodes := update_where (\<lambda>n. n_project n = pid \<and> n_key n \<in> set keys \<and> n_status n \<noteq> SUPERSEDED)
                 (\<lambda>n. n\<lparr>n_status := STALE, n_receipt := None, n_updated := now_at ev\<rparr>) (nodes s)\<rparr>))"

definition graph_set :: "string \<Rightarrow> string list \<Rightarrow> graph \<Rightarrow> graph" where
  "graph_set k ds g = map (\<lambda>(n, es). if n = k then (n, ds) else (n, es)) g"

definition delete_deps :: "string \<Rightarrow> string \<Rightarrow> db \<Rightarrow> db" where
  "delete_deps pid k s = s\<lparr>deps := filter (\<lambda>d. \<not> (d_project d = pid \<and> d_node d = k)) (deps s)\<rparr>"

definition revise_node :: "env \<Rightarrow> string \<Rightarrow> string \<Rightarrow> int \<Rightarrow> string \<Rightarrow> string option \<Rightarrow> pyval option \<Rightarrow> pyval option
    \<Rightarrow> db \<Rightarrow> (pyval \<times> db) result" where
  "revise_node ev pid k expected reason goal acceptance new_deps s =
     bindE (get_node s pid k) (\<lambda>old.
     bindE (check_integer (PInt expected) 1 1000000) (\<lambda>_.
     bindE (check_text (PStr reason) 4000) (\<lambda>reason'.
     bindE (raise_if (n_revision old \<noteq> expected) (StateConflict ''node revision changed; reload before editing'')) (\<lambda>_.
     bindE (raise_if (n_status old = SUPERSEDED) (StateConflict ''a superseded node cannot be revised'')) (\<lambda>_.
     bindE (case new_deps of
              None \<Rightarrow> Inr (graph_of s pid)
            | Some v \<Rightarrow> bindE (check_dependencies v) (\<lambda>ds. Inr (graph_set k ds (graph_of s pid)))) (\<lambda>graph.
     let ds = graph_get graph k in
     bindE (raise_if (list_ex (superseded_key s pid) ds) (StateConflict ''cannot depend on a superseded node'')) (\<lambda>_.
     bindE (validate_dag graph) (\<lambda>_.
     bindE (check_facets (facets_of s pid) graph) (\<lambda>_.
     bindE (case goal of None \<Rightarrow> Inr (n_goal old) | Some g \<Rightarrow> check_text (PStr g) 20000) (\<lambda>new_goal.
     bindE (case acceptance of None \<Rightarrow> Inr (n_contract old) | Some v \<Rightarrow> check_contract v) (\<lambda>checks.
     let revision = expected + 1;
         (invalidated, s1) = invalidate ev pid k s;
         s2 = update_node pid k (\<lambda>n. n\<lparr>n_revision := revision, n_goal := new_goal, n_contract := checks,
                n_contract_hash := digest ev (contract_py checks), n_updated := now_at ev\<rparr>) s1;
         s3 = insert_deps pid k ds (delete_deps pid k s2)
     in bindE (get_node s3 pid k) (\<lambda>n.
        let s4 = snapshot_revision ev n ds s3;
            s5 = add_event ev pid (Some k) ''node_revised''
                   (PDict [(''revision'', PInt revision), (''reason'', PStr reason'), (''invalidated'', py_strs invalidated)]) s4
        in Inr (PDict [(''key'', PStr k), (''revision'', PInt revision), (''invalidated'', py_strs invalidated)], s5)))))))))))))"

definition split_node :: "env \<Rightarrow> string \<Rightarrow> string \<Rightarrow> int \<Rightarrow> pyval \<Rightarrow> string \<Rightarrow> db \<Rightarrow> (pyval \<times> db) result" where
  "split_node ev pid k expected children reason s =
     bindE (get_node s pid k) (\<lambda>_.
     bindE (add_nodes ev pid children s) (\<lambda>(new_keys, s1).
     let ds = sort (remdups (graph_get (graph_of s1 pid) k @ new_keys)) in
     bindE (revise_node ev pid k expected reason None None (Some (py_strs ds)) s1) (\<lambda>(result, s2).
     Inr (dict_set ''children'' (py_strs new_keys) result, s2))))"

definition supersede_node :: "env \<Rightarrow> string \<Rightarrow> string \<Rightarrow> int \<Rightarrow> string \<Rightarrow> db \<Rightarrow> (pyval \<times> db) result" where
  "supersede_node ev pid k expected reason s =
     bindE (get_node s pid k) (\<lambda>old.
     bindE (check_integer (PInt expected) 1 1000000) (\<lambda>_.
     bindE (check_text (PStr reason) 4000) (\<lambda>reason'.
     bindE (raise_if (n_revision old \<noteq> expected) (StateConflict ''node revision changed'')) (\<lambda>_.
     if n_status old = SUPERSEDED
     then Inr (PDict [(''key'', PStr k), (''status'', PStr ''SUPERSEDED''), (''changed'', PBool False)], s)
     else
       let (invalidated, s1) = invalidate ev pid k s;
           s2 = update_node pid k (\<lambda>n. n\<lparr>n_status := SUPERSEDED, n_updated := now_at ev\<rparr>) s1;
           s3 = add_event ev pid (Some k) ''node_superseded''
                  (PDict [(''reason'', PStr reason'), (''invalidated'', py_strs invalidated)]) s2
       in Inr (PDict [(''key'', PStr k), (''status'', PStr ''SUPERSEDED''), (''invalidated'', py_strs invalidated)], s3)))))"

section \<open>Reads\<close>

definition node_pin :: "node \<Rightarrow> pin" where
  "node_pin n = \<lparr>pin_key = n_key n, pin_revision = n_revision n, pin_hash = n_contract_hash n,
     pin_status = n_status n, pin_receipt = n_receipt n\<rparr>"

text \<open>\<open>dependency_snapshot\<close>: the join of the dependency rows of a node with their nodes, in key order.\<close>

definition dependency_snapshot :: "db \<Rightarrow> string \<Rightarrow> string \<Rightarrow> pin list" where
  "dependency_snapshot s pid k = map node_pin (sort_key n_key
     (filter (\<lambda>n. n_project n = pid \<and> n_key n \<in> set (node_deps s pid k)) (nodes s)))"

definition events_after :: "db \<Rightarrow> string \<Rightarrow> int \<Rightarrow> int \<Rightarrow> event list result" where
  "events_after s pid after limit =
     bindE (check_integer (PInt after) 0 (2 ^ 63 - 1)) (\<lambda>_.
     bindE (check_integer (PInt limit) 1 500) (\<lambda>_.
     bindE (get_project s pid) (\<lambda>_.
     Inr (take (nat limit) (filter (\<lambda>e. e_project e = pid \<and> after < int (e_seq e)) (events s))))))"

record lint =
  l_violations :: "facet_problem list"
  l_warnings :: "facet_warning list"
  l_shipping_gaps :: "(string \<times> string list) list"
  l_faceted :: nat
  l_legacy :: nat
  l_facets :: "(string \<times> facet) list"

definition facet_lint :: "db \<Rightarrow> string \<Rightarrow> lint result" where
  "facet_lint s pid = bindE (get_project s pid) (\<lambda>_.
     let fs = facets_of s pid; g = graph_of s pid in
     Inr \<lparr>l_violations = facet_violations fs g, l_warnings = facet_warnings fs g,
          l_shipping_gaps = shipping_gaps fs g,
          l_faceted = length (filter (\<lambda>(k, f). f \<noteq> None) fs),
          l_legacy = length (filter (\<lambda>(k, f). f = None) fs),
          l_facets = sort_key fst (List.map_filter (\<lambda>(k, f). map_option (Pair k) f) fs)\<rparr>)"

end
