(* ===== verification/Graph_Invariant.thy ===== *)
theory Graph_Invariant
  imports Graph_Store
begin

text \<open>
  What every operation of \<open>StateGraphStore\<close> keeps: the key and reference constraints of the schema
  (so SQLite never refuses one of these inserts), that the stored graph of every project passes
  \<open>_validate_dag\<close> and the facet rules, and the shape of a node row.
\<close>

section \<open>The graph of a database\<close>

definition node_ids :: "db \<Rightarrow> (string \<times> string) list" where
  "node_ids s = map (\<lambda>n. (n_project n, n_key n)) (nodes s)"

definition node_facets :: "db \<Rightarrow> (string \<times> string \<times> facet option) list" where
  "node_facets s = map (\<lambda>n. (n_project n, n_key n, n_facet n)) (nodes s)"

lemma graph_of_alt:
  "graph_of s pid = map (\<lambda>(p, k). (k, node_deps s pid k)) (filter (\<lambda>(p, k). p = pid) (node_ids s))"
  by (simp add: graph_of_def project_nodes_def node_ids_def filter_map comp_def)

lemma facets_of_alt:
  "facets_of s pid = map snd (filter (\<lambda>(p, k, f). p = pid) (node_facets s))"
  by (simp add: facets_of_def project_nodes_def node_facets_def filter_map comp_def)

lemma node_ids_facets: "node_ids s = map (\<lambda>(p, k, f). (p, k)) (node_facets s)"
  by (simp add: node_ids_def node_facets_def)

lemma graph_of_cong: "node_ids s' = node_ids s \<Longrightarrow> deps s' = deps s \<Longrightarrow> graph_of s' pid = graph_of s pid"
  by (simp add: graph_of_alt node_deps_def)

lemma facets_of_cong: "node_facets s' = node_facets s \<Longrightarrow> facets_of s' pid = facets_of s pid"
  by (simp add: facets_of_alt)

lemma map_fst_graph_of: "map fst (graph_of s pid) = map snd (filter (\<lambda>(p, k). p = pid) (node_ids s))"
  by (simp add: graph_of_alt comp_def case_prod_unfold)

lemma graph_keys_graph_of: "k \<in> graph_keys (graph_of s pid) \<longleftrightarrow> (pid, k) \<in> set (node_ids s)"
  by (force simp: graph_keys_def graph_of_alt)

lemma graph_get_graph_of:
  "(pid, k) \<in> set (node_ids s) \<Longrightarrow> graph_get (graph_of s pid) k = node_deps s pid k"
proof -
  assume "(pid, k) \<in> set (node_ids s)"
  then have "k \<in> fst ` set (graph_of s pid)" using graph_keys_graph_of[of k s pid] by (simp add: graph_keys_def)
  moreover have "\<forall>(k, ds) \<in> set (graph_of s pid). ds = node_deps s pid k" by (auto simp: graph_of_def)
  ultimately show ?thesis
    unfolding graph_get_def by (auto split: option.splits dest: map_of_SomeD simp: map_of_eq_None_iff)
qed

lemma distinct_graph_of: "distinct (node_ids s) \<Longrightarrow> distinct (map fst (graph_of s pid))"
  unfolding map_fst_graph_of by (auto simp: distinct_map inj_on_def)

lemma node_at_Some_iff:
  "distinct (node_ids s) \<Longrightarrow> node_at s pid k = Some n \<longleftrightarrow> n \<in> set (nodes s) \<and> n_project n = pid \<and> n_key n = k"
proof -
  assume "distinct (node_ids s)"
  then have u: "unique_on (\<lambda>n. (n_project n, n_key n)) (nodes s)" by (simp add: unique_on_def node_ids_def)
  have "node_at s pid k = find (\<lambda>x. (n_project x, n_key x) = (pid, k)) (nodes s)"
    by (simp add: node_at_def is_node_def[abs_def])
  then show ?thesis using find_unique_iff[OF u, of "(pid, k)" n] by auto
qed

lemma node_at_unique:
  "distinct (node_ids s) \<Longrightarrow> node_at s pid k = Some n \<Longrightarrow> m \<in> set (nodes s) \<Longrightarrow> is_node pid k m \<Longrightarrow> m = n"
  using node_at_Some_iff[of s pid k m] by (simp add: is_node_def)

lemma node_at_exists: "(pid, k) \<in> set (node_ids s) \<longleftrightarrow> (\<exists>n. node_at s pid k = Some n)"
  by (auto simp: node_ids_def node_at_def is_node_def find_None_set not_None_eq[symmetric] simp del: not_None_eq)

lemma get_node_iff: "get_node s pid k = Inr n \<longleftrightarrow> KEY pid \<and> KEY k \<and> node_at s pid k = Some n"
  by (auto simp: get_node_def)

lemma get_project_iff: "get_project s pid = Inr p \<longleftrightarrow> KEY pid \<and> find (\<lambda>r. p_id r = pid) (projects s) = Some p"
  by (auto simp: get_project_def)

section \<open>The invariant\<close>

definition schema_ok :: "db \<Rightarrow> bool" where
  "schema_ok s \<longleftrightarrow> distinct (map p_id (projects s)) \<and> distinct (node_ids s) \<and> distinct (deps s) \<and>
     (\<forall>n \<in> set (nodes s). n_project n \<in> p_id ` set (projects s)) \<and>
     (\<forall>d \<in> set (deps s). (d_project d, d_node d) \<in> set (node_ids s))"

definition dag_ok :: "db \<Rightarrow> bool" where
  "dag_ok s \<longleftrightarrow> (\<forall>pid. validate_dag (graph_of s pid) = Inr ())"

definition facets_ok :: "db \<Rightarrow> bool" where
  "facets_ok s \<longleftrightarrow> (\<forall>pid. facets_legal (facets_of s pid) (graph_of s pid))"

definition node_ok :: "node \<Rightarrow> bool" where
  "node_ok n \<longleftrightarrow> KEY (n_project n) \<and> KEY (n_key n) \<and> 1 \<le> n_revision n \<and> wf_contract (n_contract n) \<and>
     n_goal n \<noteq> [] \<and> -100000 \<le> n_priority n \<and> n_priority n \<le> 100000 \<and>
     (n_status n = VERIFIED \<longleftrightarrow> n_receipt n \<noteq> None)"

definition graph_inv :: "db \<Rightarrow> bool" where
  "graph_inv s \<longleftrightarrow> schema_ok s \<and> dag_ok s \<and> facets_ok s \<and> (\<forall>n \<in> set (nodes s). node_ok n)"

lemma graph_inv_ids [simp]: "graph_inv s \<Longrightarrow> distinct (node_ids s)"
  by (simp add: graph_inv_def schema_ok_def)

lemma graph_inv_node:
  "graph_inv s \<Longrightarrow> node_at s pid k = Some n \<Longrightarrow>
   n \<in> set (nodes s) \<and> n_project n = pid \<and> n_key n = k \<and> node_ok n"
  using node_at_Some_iff[of s pid k n] by (auto simp: graph_inv_def)

lemma graph_inv_cong:
  assumes "projects s' = projects s" "nodes s' = nodes s" "deps s' = deps s"
  shows "graph_inv s' = graph_inv s"
proof -
  have "node_ids s' = node_ids s" "node_facets s' = node_facets s"
    using assms by (simp_all add: node_ids_def node_facets_def)
  then show ?thesis
    using assms graph_of_cong[of s' s] facets_of_cong[of s' s]
    by (simp add: graph_inv_def schema_ok_def dag_ok_def facets_ok_def)
qed

text \<open>Writing columns other than the keys and the facet keeps the graph and the facets.\<close>

lemma node_facets_update:
  "(\<And>n. n \<in> set (nodes s) \<Longrightarrow> P n \<Longrightarrow> n_project (f n) = n_project n \<and> n_key (f n) = n_key n \<and> n_facet (f n) = n_facet n) \<Longrightarrow>
   node_facets (s\<lparr>nodes := update_where P f (nodes s)\<rparr>) = node_facets s"
  unfolding node_facets_def by (simp add: map_update_where)

lemma graph_inv_update_nodes:
  assumes inv: "graph_inv s" and "projects s' = projects s" "deps s' = deps s"
    and "nodes s' = update_where P f (nodes s)"
    and keys: "\<And>n. n \<in> set (nodes s) \<Longrightarrow> P n \<Longrightarrow> n_project (f n) = n_project n \<and> n_key (f n) = n_key n \<and> n_facet (f n) = n_facet n"
    and ok: "\<And>n. n \<in> set (nodes s) \<Longrightarrow> P n \<Longrightarrow> node_ok n \<Longrightarrow> node_ok (f n)"
  shows "graph_inv s'"
proof -
  have nf: "node_facets s' = node_facets s"
    unfolding node_facets_def assms(4) by (rule map_update_where) (use keys in auto)
  then have ni: "node_ids s' = node_ids s" by (simp add: node_ids_facets)
  have "n_project ` set (nodes s') = n_project ` set (nodes s)"
    using arg_cong[OF ni, of "\<lambda>xs. fst ` set xs"] by (simp add: node_ids_def image_image)
  then have "\<forall>n \<in> set (nodes s'). n_project n \<in> p_id ` set (projects s')"
    using inv assms(2) unfolding graph_inv_def schema_ok_def by (metis (no_types, lifting) image_iff)
  moreover have "\<forall>n \<in> set (nodes s'). node_ok n"
    using inv ok assms(4) unfolding graph_inv_def by (auto simp: set_update_where)
  ultimately show ?thesis
    using inv ni assms(2,3) graph_of_cong[OF ni assms(3)] facets_of_cong[OF nf]
    by (simp add: graph_inv_def schema_ok_def dag_ok_def facets_ok_def)
qed

section \<open>Reading the invariant\<close>

lemma dep_in_iff:
  "\<lparr>d_project = pid, d_node = k, d_dep = x\<rparr> \<in> set ds \<longleftrightarrow> (\<exists>d \<in> set ds. d_project d = pid \<and> d_node d = k \<and> d_dep d = x)"
proof
  assume "\<exists>d \<in> set ds. d_project d = pid \<and> d_node d = k \<and> d_dep d = x"
  then obtain d where "d \<in> set ds" "d_project d = pid" "d_node d = k" "d_dep d = x" by blast
  moreover from this have "\<lparr>d_project = pid, d_node = k, d_dep = x\<rparr> = d" by auto
  ultimately show "\<lparr>d_project = pid, d_node = k, d_dep = x\<rparr> \<in> set ds" by metis
qed force

lemma set_node_deps: "x \<in> set (node_deps s pid k) \<longleftrightarrow> \<lparr>d_project = pid, d_node = k, d_dep = x\<rparr> \<in> set (deps s)"
  by (auto simp: node_deps_def dep_in_iff)

lemma dep_rel_graph_of:
  assumes "schema_ok s"
  shows "dep_rel (graph_of s pid) = set (project_edges s pid)"
proof -
  have "(k, x) \<in> dep_rel (graph_of s pid) \<longleftrightarrow> (k, x) \<in> set (project_edges s pid)" for k x
  proof -
    have "(k, x) \<in> dep_rel (graph_of s pid) \<longleftrightarrow> (pid, k) \<in> set (node_ids s) \<and> x \<in> set (node_deps s pid k)"
      by (force simp: dep_rel_def graph_of_alt)
    also have "\<dots> \<longleftrightarrow> \<lparr>d_project = pid, d_node = k, d_dep = x\<rparr> \<in> set (deps s)"
      using assms by (auto simp: set_node_deps schema_ok_def)
    also have "\<dots> \<longleftrightarrow> (k, x) \<in> set (project_edges s pid)"
      by (auto simp: project_edges_def dep_in_iff)
    finally show ?thesis .
  qed
  then show ?thesis by auto
qed

lemma graph_inv_dag:
  assumes "graph_inv s"
  shows "acyclic (set (project_edges s pid))"
    and "length (graph_of s pid) \<le> MAX_NODES"
    and "(k, x) \<in> set (project_edges s pid) \<Longrightarrow> (pid, k) \<in> set (node_ids s) \<and> (pid, x) \<in> set (node_ids s)"
proof -
  have sch: "schema_ok s" and d: "validate_dag (graph_of s pid) = Inr ()"
    using assms by (auto simp: graph_inv_def dag_ok_def)
  have v: "length (graph_of s pid) \<le> MAX_NODES" "closed_graph (graph_of s pid)" "acyclic (dep_rel (graph_of s pid))"
    using validate_dag_iff[OF distinct_graph_of, of s pid] sch d by (auto simp: schema_ok_def)
  show "acyclic (set (project_edges s pid))" using v(3) dep_rel_graph_of[OF sch] by simp
  show "length (graph_of s pid) \<le> MAX_NODES" by (rule v(1))
  assume "(k, x) \<in> set (project_edges s pid)"
  then have "(k, x) \<in> dep_rel (graph_of s pid)" using dep_rel_graph_of[OF sch] by simp
  then obtain ds where "(k, ds) \<in> set (graph_of s pid)" "x \<in> set ds" by (auto simp: dep_rel_def)
  with v(2) have "k \<in> graph_keys (graph_of s pid)" "x \<in> graph_keys (graph_of s pid)"
    by (force simp: closed_graph_def graph_keys_def)+
  then show "(pid, k) \<in> set (node_ids s) \<and> (pid, x) \<in> set (node_ids s)" by (simp add: graph_keys_graph_of)
qed

lemma graph_inv_empty: "graph_inv empty_db"
proof -
  have "validate_dag [] = Inr ()" by code_simp
  then show ?thesis
    by (simp add: graph_inv_def schema_ok_def dag_ok_def facets_ok_def facets_legal_def node_ids_def empty_db_def
        graph_of_def facets_of_def project_nodes_def)
qed

end
