(* ===== verification/Graph_Preserve.thy ===== *)
theory Graph_Preserve
  imports Graph_Invariant
begin

text \<open>
  Every write operation of \<open>StateGraphStore\<close> keeps \<^const>\<open>graph_inv\<close>, changes no table of another
  component, and only appends to the event and revision logs. The effect of each operation on the
  stored graph is given as an equation.
\<close>

section \<open>Frames and logs\<close>

text \<open>The tables the graph store never writes.\<close>

definition non_graph :: "db \<Rightarrow> db" where
  "non_graph s = s\<lparr>projects := [], nodes := [], deps := [], revisions := [], events := [], accesses := []\<rparr>"

lemma non_graph_simps [simp]:
  "non_graph (s\<lparr>projects := ps\<rparr>) = non_graph s"
  "non_graph (s\<lparr>nodes := ns\<rparr>) = non_graph s"
  "non_graph (s\<lparr>deps := ds\<rparr>) = non_graph s"
  "non_graph (s\<lparr>revisions := rs\<rparr>) = non_graph s"
  "non_graph (s\<lparr>events := es\<rparr>) = non_graph s"
  "non_graph (s\<lparr>accesses := as\<rparr>) = non_graph s"
  by (simp_all add: non_graph_def)

lemma non_graphD:
  assumes "non_graph s' = non_graph s"
  shows "attempts s' = attempts s" "evidences s' = evidences s" "acceptances s' = acceptances s"
    "observations s' = observations s" "blobs s' = blobs s" "owners s' = owners s"
    "claims s' = claims s" "claim_log s' = claim_log s" "policies s' = policies s"
    "enforcements s' = enforcements s" "holds s' = holds s" "bindings s' = bindings s" "links s' = links s"
  using arg_cong[OF assms, of attempts] arg_cong[OF assms, of evidences] arg_cong[OF assms, of acceptances]
    arg_cong[OF assms, of observations] arg_cong[OF assms, of blobs] arg_cong[OF assms, of owners]
    arg_cong[OF assms, of claims] arg_cong[OF assms, of claim_log] arg_cong[OF assms, of policies]
    arg_cong[OF assms, of enforcements] arg_cong[OF assms, of holds] arg_cong[OF assms, of bindings]
    arg_cong[OF assms, of links]
  by (simp_all add: non_graph_def)

text \<open>A log only grows: what was recorded stays, at its position.\<close>

definition logs_grow :: "db \<Rightarrow> db \<Rightarrow> bool" where
  "logs_grow s s' \<longleftrightarrow> prefix (events s) (events s') \<and> prefix (revisions s) (revisions s')"

lemma logs_grow_refl [simp]: "logs_grow s s"
  by (simp add: logs_grow_def)

lemma logs_grow_trans: "logs_grow s t \<Longrightarrow> logs_grow t u \<Longrightarrow> logs_grow s u"
  unfolding logs_grow_def by (metis prefix_order.trans)

text \<open>The two log writers change nothing else.\<close>

lemma add_event_simps [simp]:
  "projects (add_event ev pid nk ty pl s) = projects s"
  "nodes (add_event ev pid nk ty pl s) = nodes s"
  "deps (add_event ev pid nk ty pl s) = deps s"
  "revisions (add_event ev pid nk ty pl s) = revisions s"
  "accesses (add_event ev pid nk ty pl s) = accesses s"
  "attempts (add_event ev pid nk ty pl s) = attempts s"
  "evidences (add_event ev pid nk ty pl s) = evidences s"
  "acceptances (add_event ev pid nk ty pl s) = acceptances s"
  "observations (add_event ev pid nk ty pl s) = observations s"
  "blobs (add_event ev pid nk ty pl s) = blobs s"
  "owners (add_event ev pid nk ty pl s) = owners s"
  "claims (add_event ev pid nk ty pl s) = claims s"
  "claim_log (add_event ev pid nk ty pl s) = claim_log s"
  "policies (add_event ev pid nk ty pl s) = policies s"
  "enforcements (add_event ev pid nk ty pl s) = enforcements s"
  "holds (add_event ev pid nk ty pl s) = holds s"
  "node_ids (add_event ev pid nk ty pl s) = node_ids s"
  "node_at (add_event ev pid nk ty pl s) = node_at s"
  "non_graph (add_event ev pid nk ty pl s) = non_graph s"
  "events (add_event ev pid nk ty pl s) = events s @ [\<lparr>e_seq = Suc (length (events s)), e_project = pid, e_node = nk,
     e_type = ty, e_payload = pl, e_created = now_at ev\<rparr>]"
  by (simp_all add: add_event_def node_ids_def node_at_def[abs_def])

lemma snapshot_revision_simps [simp]:
  "projects (snapshot_revision ev n ds s) = projects s"
  "nodes (snapshot_revision ev n ds s) = nodes s"
  "deps (snapshot_revision ev n ds s) = deps s"
  "events (snapshot_revision ev n ds s) = events s"
  "accesses (snapshot_revision ev n ds s) = accesses s"
  "node_ids (snapshot_revision ev n ds s) = node_ids s"
  "non_graph (snapshot_revision ev n ds s) = non_graph s"
  "revisions (snapshot_revision ev n ds s) = revisions s @ [\<lparr>r_project = n_project n, r_node = n_key n,
     r_revision = n_revision n, r_goal = n_goal n, r_contract = n_contract n, r_contract_hash = n_contract_hash n,
     r_deps = ds, r_created = now_at ev\<rparr>]"
  by (simp_all add: snapshot_revision_def node_ids_def)

lemma insert_deps_simps [simp]:
  "projects (insert_deps pid k ds s) = projects s"
  "nodes (insert_deps pid k ds s) = nodes s"
  "events (insert_deps pid k ds s) = events s"
  "revisions (insert_deps pid k ds s) = revisions s"
  "node_ids (insert_deps pid k ds s) = node_ids s"
  "non_graph (insert_deps pid k ds s) = non_graph s"
  "deps (insert_deps pid k ds s) = deps s @ map (\<lambda>d. \<lparr>d_project = pid, d_node = k, d_dep = d\<rparr>) ds"
  by (simp_all add: insert_deps_def node_ids_def)

lemma delete_deps_simps [simp]:
  "projects (delete_deps pid k s) = projects s"
  "nodes (delete_deps pid k s) = nodes s"
  "events (delete_deps pid k s) = events s"
  "revisions (delete_deps pid k s) = revisions s"
  "node_ids (delete_deps pid k s) = node_ids s"
  "non_graph (delete_deps pid k s) = non_graph s"
  "deps (delete_deps pid k s) = filter (\<lambda>d. \<not> (d_project d = pid \<and> d_node d = k)) (deps s)"
  by (simp_all add: delete_deps_def node_ids_def)

lemma update_node_simps [simp]:
  "projects (update_node pid k f s) = projects s"
  "deps (update_node pid k f s) = deps s"
  "events (update_node pid k f s) = events s"
  "revisions (update_node pid k f s) = revisions s"
  "nodes (update_node pid k f s) = update_where (is_node pid k) f (nodes s)"
  "non_graph (update_node pid k f s) = non_graph s"
  "attempts (update_node pid k f s) = attempts s"
  "evidences (update_node pid k f s) = evidences s"
  "acceptances (update_node pid k f s) = acceptances s"
  "observations (update_node pid k f s) = observations s"
  "blobs (update_node pid k f s) = blobs s"
  "owners (update_node pid k f s) = owners s"
  "claims (update_node pid k f s) = claims s"
  "claim_log (update_node pid k f s) = claim_log s"
  by (simp_all add: update_node_def)

section \<open>Projects\<close>

lemma create_project_effect:
  assumes "create_project ev pid title source s = Inr (p, s')" "graph_inv s"
  shows "graph_inv s'" "non_graph s' = non_graph s" "logs_grow s s'"
    "p_id p = pid" "find (\<lambda>r. p_id r = pid) (projects s') = Some p"
proof -
  have "graph_inv s' \<and> non_graph s' = non_graph s \<and> logs_grow s s' \<and> p_id p = pid \<and>
    find (\<lambda>r. p_id r = pid) (projects s') = Some p"
  proof (cases "find (\<lambda>r. p_id r = pid) (projects s)")
    case (Some q)
    then have "s' = s" "p = q" using assms(1) by (simp_all add: create_project_def split: if_splits)
    then show ?thesis using assms(2) Some by (auto dest: find_SomeD)
  next
    case None
    obtain title' where s': "s' = add_event ev pid None ''project_created''
         (PDict [(''title'', PStr title'), (''source_project_id'', py_str_opt source)])
         (s\<lparr>projects := projects s @ [\<lparr>p_id = pid, p_title = title', p_source = source, p_created = now_at ev\<rparr>]\<rparr>)"
      and p: "find (\<lambda>r. p_id r = pid) (projects s') = Some p"
      using assms(1) None by (simp add: create_project_def get_project_iff Let_def) metis
    have "distinct (map p_id (projects s'))"
      using None assms(2) unfolding s' graph_inv_def schema_ok_def by (auto simp: find_None_set)
    moreover have "nodes s' = nodes s" "deps s' = deps s" "node_ids s' = node_ids s" "p_id ` set (projects s) \<subseteq> p_id ` set (projects s')"
      "node_facets s' = node_facets s"
      unfolding s' by (auto simp: node_ids_def node_facets_def)
    ultimately have "graph_inv s'"
      using assms(2) graph_of_cong[of s' s] facets_of_cong[of s' s]
      unfolding graph_inv_def schema_ok_def dag_ok_def facets_ok_def by (auto dest: subsetD)
    moreover have "logs_grow s s'" unfolding s' logs_grow_def by (simp add: add_event_def)
    moreover have "non_graph s' = non_graph s" unfolding s' by simp
    ultimately show ?thesis using p find_SomeD[OF p] by simp
  qed
  then show "graph_inv s'" "non_graph s' = non_graph s" "logs_grow s s'"
    "p_id p = pid" "find (\<lambda>r. p_id r = pid) (projects s') = Some p" by auto
qed

lemma set_project_access_effect:
  assumes "set_project_access ev pid vis actor s = Inr (a, s')" "graph_inv s"
  shows "graph_inv s'" "non_graph s' = non_graph s" "logs_grow s s'"
proof -
  have "nodes s' = nodes s \<and> deps s' = deps s \<and> projects s' = projects s \<and> non_graph s' = non_graph s \<and>
      prefix (events s) (events s') \<and> revisions s' = revisions s"
    using assms(1) by (auto simp: set_project_access_def Let_def add_event_def)
  then show "graph_inv s'" "non_graph s' = non_graph s" "logs_grow s s'"
    using assms(2) graph_inv_cong[of s' s] by (auto simp: logs_grow_def)
qed

section \<open>Adding nodes\<close>

definition spec_ok :: "spec \<Rightarrow> bool" where
  "spec_ok sp \<longleftrightarrow> KEY (sp_key sp) \<and> sp_goal sp \<noteq> [] \<and> wf_contract (sp_checks sp) \<and>
     distinct (sp_deps sp) \<and> sorted (sp_deps sp) \<and> -100000 \<le> sp_priority sp \<and> sp_priority sp \<le> 100000"

definition dep_rows :: "string \<Rightarrow> spec \<Rightarrow> dep list" where
  "dep_rows pid sp = map (\<lambda>d. \<lparr>d_project = pid, d_node = sp_key sp, d_dep = d\<rparr>) (sp_deps sp)"

lemma prepare_spec_Inr:
  assumes "prepare_spec s pid v (g, fs, ps) = Inr (g', fs', ps')"
  shows "\<exists>sp. spec_ok sp \<and> sp_key sp \<notin> graph_keys g \<and> \<not> list_ex (superseded_key s pid) (sp_deps sp) \<and>
    g' = g @ [(sp_key sp, sp_deps sp)] \<and> fs' = fs @ [(sp_key sp, sp_facet sp)] \<and> ps' = ps @ [sp]"
proof -
  obtain nk goal checks ds priority own where
    c: "KEY nk" "nk \<notin> graph_keys g" "check_text (get_or ''goal'' v PNone) 20000 = Inr goal"
       "check_contract (get_or ''acceptance'' v PNone) = Inr checks"
       "check_dependencies (get_or ''dependencies'' v (PList [])) = Inr ds"
       "-100000 \<le> priority" "priority \<le> 100000" "\<not> list_ex (superseded_key s pid) ds"
    and r: "g' = g @ [(nk, ds)]" "fs' = fs @ [(nk, own)]"
      "ps' = ps @ [\<lparr>sp_key = nk, sp_goal = goal, sp_checks = checks, sp_deps = ds, sp_priority = priority, sp_facet = own\<rparr>]"
    using assms unfolding prepare_spec_def
    by (simp, elim exE conjE) (rule that; (assumption | rule sym, assumption))
  then show ?thesis
    using check_text_wf[OF c(3)] check_contract_wf[OF c(4)] check_dependencies_wf[OF c(5)]
    by (intro exI[of _ "\<lparr>sp_key = nk, sp_goal = goal, sp_checks = checks, sp_deps = ds, sp_priority = priority, sp_facet = own\<rparr>"])
       (simp add: spec_ok_def)
qed

lemma graph_keys_append [simp]: "graph_keys (g @ g') = graph_keys g \<union> graph_keys g'"
  by (auto simp: graph_keys_def)

lemma graph_keys_Cons [simp]: "graph_keys ((k, ds) # g) = insert k (graph_keys g)"
  by (simp add: graph_keys_def)

lemma prepare_specs_Inr:
  assumes "foldE (prepare_spec s pid) vs (g, fs, ps) = Inr (g', fs', ps')"
  shows "\<exists>new. ps' = ps @ new \<and> g' = g @ map (\<lambda>sp. (sp_key sp, sp_deps sp)) new \<and>
    fs' = fs @ map (\<lambda>sp. (sp_key sp, sp_facet sp)) new \<and> distinct (map sp_key new) \<and> length new = length vs \<and>
    (\<forall>sp \<in> set new. spec_ok sp \<and> sp_key sp \<notin> graph_keys g \<and> \<not> list_ex (superseded_key s pid) (sp_deps sp))"
  using assms
proof (induction vs arbitrary: g fs ps)
  case Nil
  then show ?case by simp
next
  case (Cons v vs)
  obtain g1 fs1 ps1 where 1: "prepare_spec s pid v (g, fs, ps) = Inr (g1, fs1, ps1)"
    and 2: "foldE (prepare_spec s pid) vs (g1, fs1, ps1) = Inr (g', fs', ps')"
    using Cons.prems by (auto simp: bindE_Inr_iff)
  from prepare_spec_Inr[OF 1] obtain sp where sp: "spec_ok sp" "sp_key sp \<notin> graph_keys g"
    "\<not> list_ex (superseded_key s pid) (sp_deps sp)"
    "g1 = g @ [(sp_key sp, sp_deps sp)]" "fs1 = fs @ [(sp_key sp, sp_facet sp)]" "ps1 = ps @ [sp]" by blast
  from Cons.IH[OF 2] obtain new where new: "ps' = ps1 @ new" "g' = g1 @ map (\<lambda>sp. (sp_key sp, sp_deps sp)) new"
    "fs' = fs1 @ map (\<lambda>sp. (sp_key sp, sp_facet sp)) new" "distinct (map sp_key new)" "length new = length vs"
    "\<forall>sp \<in> set new. spec_ok sp \<and> sp_key sp \<notin> graph_keys g1 \<and> \<not> list_ex (superseded_key s pid) (sp_deps sp)" by blast
  show ?case by (rule exI[of _ "sp # new"]) (use sp new in \<open>auto simp: graph_keys_def\<close>)
qed

lemma finish_specs_Inr:
  assumes "foldE (finish_spec ev pid) sps s = Inr s'"
  shows "nodes s' = nodes s \<and> projects s' = projects s \<and> non_graph s' = non_graph s \<and> logs_grow s s' \<and>
    deps s' = deps s @ concat (map (dep_rows pid) sps)"
  using assms
proof (induction sps arbitrary: s)
  case Nil
  then show ?case by simp
next
  case (Cons sp sps)
  obtain t where t: "finish_spec ev pid sp s = Inr t" "foldE (finish_spec ev pid) sps t = Inr s'"
    using Cons.prems by auto
  have "nodes t = nodes s \<and> projects t = projects s \<and> non_graph t = non_graph s \<and> logs_grow s t \<and>
      deps t = deps s @ dep_rows pid sp"
    using t(1) by (auto simp: finish_spec_def Let_def dep_rows_def logs_grow_def snapshot_revision_def add_event_def)
  with Cons.IH[OF t(2)] show ?case by (auto intro: logs_grow_trans)
qed

lemma filter_dep_rows_other:
  "p \<noteq> pid \<or> k \<notin> sp_key ` set sps \<Longrightarrow>
   filter (\<lambda>d. d_project d = p \<and> d_node d = k) (concat (map (dep_rows pid) sps)) = []"
  by (auto simp: dep_rows_def filter_empty_conv)

lemma filter_dep_rows_own:
  "distinct (map sp_key sps) \<Longrightarrow> sp \<in> set sps \<Longrightarrow>
   filter (\<lambda>d. d_project d = pid \<and> d_node d = sp_key sp) (concat (map (dep_rows pid) sps)) = dep_rows pid sp"
proof (induction sps)
  case Nil
  then show ?case by simp
next
  case (Cons x sps)
  have own: "filter (\<lambda>d. d_project d = pid \<and> d_node d = sp_key sp) (dep_rows pid x) = (if sp_key x = sp_key sp then dep_rows pid x else [])"
    by (auto simp: dep_rows_def filter_empty_conv)
  show ?case
  proof (cases "x = sp")
    case True
    then have "sp_key sp \<notin> sp_key ` set sps" using Cons.prems by auto
    then show ?thesis using own True filter_dep_rows_other[of pid pid "sp_key sp" sps] by simp
  next
    case False
    then have "sp \<in> set sps" "sp_key x \<noteq> sp_key sp" using Cons.prems by auto
    then show ?thesis using own Cons by simp
  qed
qed

text \<open>The graph and the facets after the rows of a batch are stored.\<close>

lemma add_rows_graph:
  assumes s': "nodes s' = nodes s @ map (new_node ev pid) sps" "deps s' = deps s @ concat (map (dep_rows pid) sps)"
    and sch: "schema_ok s" and d: "distinct (map sp_key sps)"
    and ok: "\<forall>sp \<in> set sps. spec_ok sp \<and> sp_key sp \<notin> graph_keys (graph_of s pid)"
  shows "graph_of s' p = (if p = pid then graph_of s pid @ map (\<lambda>sp. (sp_key sp, sp_deps sp)) sps else graph_of s p)"
    and "facets_of s' p = (if p = pid then facets_of s pid @ map (\<lambda>sp. (sp_key sp, sp_facet sp)) sps else facets_of s p)"
proof -
  have new: "n_project (new_node ev pid sp) = pid" "n_key (new_node ev pid sp) = sp_key sp"
    "n_facet (new_node ev pid sp) = sp_facet sp" for sp by (simp_all add: new_node_def)
  have old: "node_deps s' q k = node_deps s q k" if "(q, k) \<in> set (node_ids s)" for q k
  proof -
    have "q \<noteq> pid \<or> k \<notin> sp_key ` set sps" using that ok by (auto simp: graph_keys_graph_of)
    then show ?thesis by (simp add: node_deps_def s'(2) filter_dep_rows_other)
  qed
  have own: "node_deps s' pid (sp_key sp) = sp_deps sp" if "sp \<in> set sps" for sp
  proof -
    have "(pid, sp_key sp) \<notin> set (node_ids s)" using ok that by (simp add: graph_keys_graph_of)
    then have "filter (\<lambda>d. d_project d = pid \<and> d_node d = sp_key sp) (deps s) = []"
      using sch by (auto simp: schema_ok_def filter_empty_conv)
    then have "node_deps s' pid (sp_key sp) = sort (map d_dep (dep_rows pid sp))"
      by (simp add: node_deps_def s'(2) filter_dep_rows_own[OF d that])
    also have "map d_dep (dep_rows pid sp) = sp_deps sp" by (simp add: dep_rows_def comp_def)
    finally show ?thesis using ok that by (simp add: spec_ok_def sorted_sort_id)
  qed
  have "project_nodes s' p = project_nodes s p @ (if p = pid then map (new_node ev pid) sps else [])"
    by (simp add: project_nodes_def s'(1) new filter_map comp_def)
  moreover have "(p, n_key n) \<in> set (node_ids s)" if "n \<in> set (project_nodes s p)" for n
    using that by (auto simp: project_nodes_def node_ids_def)
  ultimately show "graph_of s' p = (if p = pid then graph_of s pid @ map (\<lambda>sp. (sp_key sp, sp_deps sp)) sps else graph_of s p)"
    "facets_of s' p = (if p = pid then facets_of s pid @ map (\<lambda>sp. (sp_key sp, sp_facet sp)) sps else facets_of s p)"
    using old own by (auto simp: graph_of_def facets_of_def new)
qed

lemma distinct_dep_rows:
  "distinct (map sp_key sps) \<Longrightarrow> \<forall>sp \<in> set sps. distinct (sp_deps sp) \<Longrightarrow> distinct (concat (map (dep_rows pid) sps))"
  by (induction sps) (auto simp: dep_rows_def distinct_map inj_on_def)

lemma add_nodes_effect:
  assumes a: "add_nodes ev pid specs s = Inr (ks, s')" and inv: "graph_inv s"
  obtains sps where "ks = map sp_key sps" "distinct ks" "nodes s' = nodes s @ map (new_node ev pid) sps"
    "\<forall>sp \<in> set sps. spec_ok sp \<and> sp_key sp \<notin> graph_keys (graph_of s pid) \<and> \<not> list_ex (superseded_key s pid) (sp_deps sp)"
    "graph_of s' pid = graph_of s pid @ map (\<lambda>sp. (sp_key sp, sp_deps sp)) sps"
    "graph_inv s'" "non_graph s' = non_graph s" "logs_grow s s'" "projects s' = projects s"
proof -
  obtain vs graph facets sps p where gp: "get_project s pid = Inr p" and
    prep: "foldE (prepare_spec s pid) vs (graph_of s pid, facets_of s pid, []) = Inr (graph, facets, sps)"
    and dag: "validate_dag graph = Inr ()" and fac: "facet_violations facets graph = []"
    and fin: "foldE (finish_spec ev pid) sps (s\<lparr>nodes := nodes s @ map (new_node ev pid) sps\<rparr>) = Inr s'"
    and ks: "ks = map sp_key sps"
    using a by (auto simp: add_nodes_def check_facets_def Let_def split: pyval.splits)
  have g: "graph = graph_of s pid @ map (\<lambda>sp. (sp_key sp, sp_deps sp)) sps"
    "facets = facets_of s pid @ map (\<lambda>sp. (sp_key sp, sp_facet sp)) sps" "distinct (map sp_key sps)"
    and ok: "\<forall>sp \<in> set sps. spec_ok sp \<and> sp_key sp \<notin> graph_keys (graph_of s pid) \<and> \<not> list_ex (superseded_key s pid) (sp_deps sp)"
    using prepare_specs_Inr[OF prep] by auto
  have s': "nodes s' = nodes s @ map (new_node ev pid) sps" "deps s' = deps s @ concat (map (dep_rows pid) sps)"
    "projects s' = projects s" "non_graph s' = non_graph s" "logs_grow s s'"
    using finish_specs_Inr[OF fin] by (simp_all add: logs_grow_def)
  have sch: "schema_ok s" using inv by (simp add: graph_inv_def)
  note G = add_rows_graph[OF s'(1,2) sch g(3)]
  have ids: "node_ids s' = node_ids s @ map (\<lambda>sp. (pid, sp_key sp)) sps"
    by (simp add: node_ids_def s'(1) new_node_def)
  have "distinct (node_ids s')"
    using sch g(3) ok unfolding ids schema_ok_def by (auto simp: distinct_map inj_on_def graph_keys_graph_of)
  moreover have "distinct (deps s')"
  proof -
    have "set (deps s) \<inter> set (concat (map (dep_rows pid) sps)) = {}"
      using sch ok by (force simp: schema_ok_def dep_rows_def graph_keys_graph_of)
    moreover have "distinct (concat (map (dep_rows pid) sps))"
      by (rule distinct_dep_rows[OF g(3)]) (use ok in \<open>simp add: spec_ok_def\<close>)
    moreover have "distinct (deps s)" using sch by (simp add: schema_ok_def)
    ultimately show ?thesis unfolding s'(2) distinct_append by blast
  qed
  moreover have "\<forall>n \<in> set (nodes s'). n_project n \<in> p_id ` set (projects s')"
    using sch gp find_SomeD[of "\<lambda>r. p_id r = pid" "projects s" p]
    unfolding s'(1,3) by (auto simp: schema_ok_def new_node_def get_project_iff)
  moreover have "\<forall>d \<in> set (deps s'). (d_project d, d_node d) \<in> set (node_ids s')"
    using sch unfolding s'(2) ids by (auto simp: schema_ok_def dep_rows_def)
  ultimately have sch': "schema_ok s'" using sch by (simp add: schema_ok_def s'(3))
  have gr: "graph_of s' p = (if p = pid then graph else graph_of s p)"
    "facets_of s' p = (if p = pid then facets else facets_of s p)" for p
    using G[of p] ok g(1,2) by auto
  have "\<forall>n \<in> set (nodes s'). node_ok n"
    using inv ok gp unfolding s'(1) by (auto simp: graph_inv_def node_ok_def new_node_def spec_ok_def get_project_iff)
  with sch' have "graph_inv s'"
    using inv gr dag fac by (auto simp: graph_inv_def dag_ok_def facets_ok_def facet_violations_Nil)
  then show thesis using that[OF ks] g(1,3) ok s' ks gr(1)[of pid] by simp
qed

section \<open>Labels and priorities\<close>

lemma map_snd_update_facet:
  "(\<And>n. n \<in> set ns \<Longrightarrow> n_project n = pid) \<Longrightarrow>
   map (\<lambda>n. (n_key n, n_facet n)) (update_where (is_node pid k) (\<lambda>n. n\<lparr>n_facet := f, n_updated := t\<rparr>) ns) =
   set_facet_of k f (map (\<lambda>n. (n_key n, n_facet n)) ns)"
  by (induction ns) (auto simp: update_where_Cons set_facet_of_def is_node_def)

lemma filter_update_where:
  "(\<And>n. P n \<Longrightarrow> Q (f n) = Q n) \<Longrightarrow> filter Q (update_where P f ns) = update_where P f (filter Q ns)"
  by (induction ns) (auto simp: update_where_Cons)

lemma set_node_facet_effect:
  assumes a: "set_node_facet ev pid k v s = Inr (r, s')" and inv: "graph_inv s"
  shows "graph_inv s'" "non_graph s' = non_graph s" "logs_grow s s'"
proof -
  have "graph_inv s' \<and> non_graph s' = non_graph s \<and> logs_grow s s'"
  proof (cases "s' = s")
    case True
    then show ?thesis using inv by simp
  next
    case False
    then obtain own n pl where own: "check_facets (set_facet_of k own (facets_of s pid)) (graph_of s pid) = Inr ()"
      and s': "s' = add_event ev pid (Some k) ''node_facet_set'' pl
          (update_node pid k (\<lambda>n. n\<lparr>n_facet := own, n_updated := now_at ev\<rparr>) s)"
      using a by (auto simp: set_node_facet_def Let_def split: if_splits)
    let ?f = "\<lambda>n. n\<lparr>n_facet := own, n_updated := now_at ev\<rparr>"
    have nodes': "nodes s' = update_where (is_node pid k) ?f (nodes s)" by (simp add: s')
    have ids: "node_ids s' = node_ids s"
      unfolding node_ids_def nodes' by (rule map_update_where) simp
    have fo: "facets_of s' p = (if p = pid then set_facet_of k own (facets_of s pid) else facets_of s p)" for p
    proof (cases "p = pid")
      case True
      then show ?thesis
        by (simp add: facets_of_def project_nodes_def nodes' filter_update_where) (subst map_snd_update_facet, auto)
    next
      case False
      then have "update_where (is_node pid k) ?f (filter (\<lambda>n. n_project n = p) (nodes s)) = filter (\<lambda>n. n_project n = p) (nodes s)"
        by (auto intro!: update_where_none simp: is_node_def)
      with False show ?thesis by (simp add: facets_of_def project_nodes_def nodes' filter_update_where)
    qed
    have gr: "graph_of s' p = graph_of s p" for p by (rule graph_of_cong[OF ids]) (simp add: s')
    have "schema_ok s'"
      using inv ids by (auto simp: graph_inv_def schema_ok_def s' set_update_where)
    moreover have "facets_ok s'"
      using inv own by (auto simp: graph_inv_def facets_ok_def fo gr check_facets_def facet_violations_Nil)
    ultimately have "graph_inv s'"
      using inv gr by (auto simp: graph_inv_def dag_ok_def nodes' set_update_where node_ok_def)
    moreover have "logs_grow s s'" by (auto simp: s' logs_grow_def add_event_def)
    ultimately show ?thesis by (simp add: s')
  qed
  then show "graph_inv s'" "non_graph s' = non_graph s" "logs_grow s s'" by auto
qed

lemma set_node_priority_effect:
  assumes a: "set_node_priority ev pid k pr ex re ac di s = Inr (r, s')" and inv: "graph_inv s"
  shows "graph_inv s'" "non_graph s' = non_graph s" "logs_grow s s'"
    "nodes s' = nodes s \<or> nodes s' = update_where (is_node pid k) (\<lambda>n. n\<lparr>n_priority := pr, n_updated := now_at ev\<rparr>) (nodes s)"
    "deps s' = deps s" "revisions s' = revisions s"
proof -
  let ?f = "\<lambda>n. n\<lparr>n_priority := pr, n_updated := now_at ev\<rparr>"
  have pr: "-100000 \<le> pr" "pr \<le> 100000" using a by (auto simp: set_node_priority_def)
  consider "s' = s" | pl where "s' = add_event ev pid (Some k) ''node_priority_set'' pl (update_node pid k ?f s)"
    using a by (auto simp: set_node_priority_def Let_def split: if_splits)
  then have "graph_inv s' \<and> non_graph s' = non_graph s \<and> logs_grow s s' \<and>
    (nodes s' = nodes s \<or> nodes s' = update_where (is_node pid k) ?f (nodes s)) \<and> deps s' = deps s \<and> revisions s' = revisions s"
  proof cases
    case 1
    then show ?thesis using inv by simp
  next
    case 2
    have "graph_inv s'"
      by (rule graph_inv_update_nodes[OF inv, where P = "is_node pid k" and f = ?f]) (use pr in \<open>auto simp: 2 node_ok_def\<close>)
    then show ?thesis by (simp add: 2 logs_grow_def)
  qed
  then show "graph_inv s'" "non_graph s' = non_graph s" "logs_grow s s'"
    "nodes s' = nodes s \<or> nodes s' = update_where (is_node pid k) ?f (nodes s)" "deps s' = deps s" "revisions s' = revisions s"
    by auto
qed

section \<open>Invalidation\<close>

definition goes_stale :: "db \<Rightarrow> string \<Rightarrow> string \<Rightarrow> node \<Rightarrow> bool" where
  "goes_stale s pid k n \<longleftrightarrow> n_project n = pid \<and> (n_key n, k) \<in> (set (project_edges s pid))\<^sup>* \<and> n_status n \<noteq> SUPERSEDED"

definition stale :: "env \<Rightarrow> node \<Rightarrow> node" where
  "stale ev n = n\<lparr>n_status := STALE, n_receipt := None, n_updated := now_at ev\<rparr>"

lemma stale_simps [simp]:
  "n_project (stale ev n) = n_project n" "n_key (stale ev n) = n_key n" "n_revision (stale ev n) = n_revision n"
  "n_facet (stale ev n) = n_facet n" "n_status (stale ev n) = STALE" "n_receipt (stale ev n) = None"
  "n_contract (stale ev n) = n_contract n" "n_contract_hash (stale ev n) = n_contract_hash n"
  "n_goal (stale ev n) = n_goal n" "n_priority (stale ev n) = n_priority n"
  by (simp_all add: stale_def)

lemma node_ok_stale [simp]: "node_ok n \<Longrightarrow> node_ok (stale ev n)"
  by (simp add: node_ok_def)

text \<open>Exactly the node and its transitive dependents that are not superseded become stale.\<close>

lemma invalidate_effect:
  assumes "invalidate ev pid k s = (keys, s')"
  shows "nodes s' = update_where (goes_stale s pid k) (stale ev) (nodes s)"
    "s' = s\<lparr>nodes := nodes s'\<rparr>"
    "set keys = {n. (n, k) \<in> (set (project_edges s pid))\<^sup>*}" "sorted keys" "distinct keys"
  using assms affected_sorted[of "project_edges s pid" k] unfolding invalidate_def Let_def
  by (auto simp: set_affected goes_stale_def[abs_def] stale_def[abs_def])

lemma invalidate_frame:
  assumes "invalidate ev pid k s = (keys, s')"
  shows "projects s' = projects s" "deps s' = deps s" "events s' = events s" "revisions s' = revisions s"
    "accesses s' = accesses s" "non_graph s' = non_graph s" "node_ids s' = node_ids s" "node_facets s' = node_facets s"
proof -
  note e = invalidate_effect[OF assms]
  show "projects s' = projects s" "deps s' = deps s" "events s' = events s" "revisions s' = revisions s"
    "accesses s' = accesses s" "non_graph s' = non_graph s"
    by (subst e(2), simp)+
  show "node_facets s' = node_facets s"
    unfolding node_facets_def e(1) by (rule map_update_where) simp
  then show "node_ids s' = node_ids s" by (simp add: node_ids_facets)
qed

lemma invalidate_inv: "invalidate ev pid k s = (keys, s') \<Longrightarrow> graph_inv s \<Longrightarrow> graph_inv s'"
  by (rule graph_inv_update_nodes[where P = "goes_stale s pid k" and f = "stale ev"])
     (simp_all add: invalidate_effect(1) invalidate_frame)

section \<open>Revising\<close>

lemma map_of_graph_set: "map_of (graph_set k ds g) x = (if x = k then map_option (\<lambda>_. ds) (map_of g k) else map_of g x)"
  by (induction g) (auto simp: graph_set_def)

lemma map_fst_graph_set [simp]: "map fst (graph_set k ds g) = map fst g"
  by (simp add: graph_set_def comp_def case_prod_unfold if_distrib)

lemma graph_set_same: "distinct (map fst g) \<Longrightarrow> graph_set k (graph_get g k) g = g"
proof -
  assume d: "distinct (map fst g)"
  have "(if n = k then (n, graph_get g k) else (n, es)) = (n, es)" if "(n, es) \<in> set g" for n es
    using that d by (auto simp: graph_get_def map_of_is_SomeI)
  then show ?thesis unfolding graph_set_def by (intro map_idI) auto
qed

lemma graph_get_set: "k \<in> graph_keys g \<Longrightarrow> graph_get (graph_set k ds g) k = ds"
proof -
  assume "k \<in> graph_keys g"
  then obtain es where "map_of g k = Some es" unfolding graph_keys_map_of by blast
  then show ?thesis by (simp add: graph_get_def map_of_graph_set)
qed

lemma sorted_node_deps: "sorted (node_deps s pid k)"
  by (simp add: node_deps_def)

lemma distinct_node_deps: "distinct (deps s) \<Longrightarrow> distinct (node_deps s pid k)"
proof -
  assume "distinct (deps s)"
  moreover have "inj_on d_dep {d \<in> set (deps s). d_project d = pid \<and> d_node d = k}"
    by (rule inj_onI) (metis (mono_tags, lifting) dep.equality mem_Collect_eq old.unit.exhaust)
  ultimately show ?thesis by (simp add: node_deps_def distinct_map)
qed

text \<open>The dependency rows of one node replaced by a sorted list: the stored graph is \<open>graph_set\<close> of it.\<close>

lemma replace_deps_graph:
  assumes "node_ids s' = node_ids s" "sorted ds"
    and "deps s' = filter (\<lambda>d. \<not> (d_project d = pid \<and> d_node d = k)) (deps s) @
         map (\<lambda>d. \<lparr>d_project = pid, d_node = k, d_dep = d\<rparr>) ds"
  shows "graph_of s' p = (if p = pid then graph_set k ds (graph_of s pid) else graph_of s p)"
proof -
  have nd: "node_deps s' q x = (if q = pid \<and> x = k then ds else node_deps s q x)" for q x
  proof (cases "q = pid \<and> x = k")
    case True
    then show ?thesis using assms(2) by (simp add: node_deps_def assms(3) comp_def filter_map sorted_sort_id)
  next
    case False
    then have "filter (\<lambda>d. d_project d = q \<and> d_node d = x) (deps s') = filter (\<lambda>d. d_project d = q \<and> d_node d = x) (deps s)"
      by (auto simp: assms(3) filter_map comp_def intro!: filter_cong)
    with False show ?thesis by (auto simp: node_deps_def)
  qed
  show ?thesis by (auto simp: graph_of_alt assms(1) nd graph_set_def)
qed

lemma revise_node_cases:
  assumes a: "revise_node ev pid k ex re goal acc nd s = Inr (r, s')" and inv: "graph_inv s"
  obtains old ds goal' checks keys s1 n pl where
    "KEY pid" "KEY k" "node_at s pid k = Some old" "n_revision old = ex" "1 \<le> ex" "n_status old \<noteq> SUPERSEDED"
    "sorted ds" "distinct ds" "\<not> list_ex (superseded_key s pid) ds"
    "validate_dag (graph_set k ds (graph_of s pid)) = Inr ()"
    "facet_violations (facets_of s pid) (graph_set k ds (graph_of s pid)) = []"
    "goal' \<noteq> []" "wf_contract checks" "invalidate ev pid k s = (keys, s1)"
    "node_at (insert_deps pid k ds (delete_deps pid k (update_node pid k (\<lambda>n. n\<lparr>n_revision := ex + 1, n_goal := goal',
        n_contract := checks, n_contract_hash := digest ev (contract_py checks), n_updated := now_at ev\<rparr>) s1))) pid k = Some n"
    "s' = add_event ev pid (Some k) ''node_revised'' pl (snapshot_revision ev n ds (insert_deps pid k ds (delete_deps pid k
       (update_node pid k (\<lambda>n. n\<lparr>n_revision := ex + 1, n_goal := goal',
        n_contract := checks, n_contract_hash := digest ev (contract_py checks), n_updated := now_at ev\<rparr>) s1))))"
    "r = PDict [(''key'', PStr k), (''revision'', PInt (ex + 1)), (''invalidated'', py_strs keys)]"
    "nd = None \<Longrightarrow> ds = node_deps s pid k" "\<And>v. nd = Some v \<Longrightarrow> check_dependencies v = Inr ds"
proof -
  obtain keys s1 where i: "invalidate ev pid k s = (keys, s1)" by force
  obtain old graph goal' checks n pl re' where
    c: "KEY pid" "KEY k" "node_at s pid k = Some old" "n_revision old = ex" "1 \<le> ex" "n_status old \<noteq> SUPERSEDED"
       "(case nd of None \<Rightarrow> Inr (graph_of s pid)
            | Some v \<Rightarrow> bindE (check_dependencies v) (\<lambda>ds. Inr (graph_set k ds (graph_of s pid)))) = Inr graph"
       "\<not> list_ex (superseded_key s pid) (graph_get graph k)" "validate_dag graph = Inr ()"
       "check_facets (facets_of s pid) graph = Inr ()"
       "(case goal of None \<Rightarrow> Inr (n_goal old) | Some g \<Rightarrow> check_text (PStr g) 20000) = Inr goal'"
       "(case acc of None \<Rightarrow> Inr (n_contract old) | Some v \<Rightarrow> check_contract v) = Inr checks"
       "node_at (insert_deps pid k (graph_get graph k) (delete_deps pid k (update_node pid k (\<lambda>n. n\<lparr>n_revision := ex + 1, n_goal := goal',
        n_contract := checks, n_contract_hash := digest ev (contract_py checks), n_updated := now_at ev\<rparr>) s1))) pid k = Some n"
       "s' = add_event ev pid (Some k) ''node_revised'' pl (snapshot_revision ev n (graph_get graph k)
          (insert_deps pid k (graph_get graph k) (delete_deps pid k
       (update_node pid k (\<lambda>n. n\<lparr>n_revision := ex + 1, n_goal := goal',
        n_contract := checks, n_contract_hash := digest ev (contract_py checks), n_updated := now_at ev\<rparr>) s1))))"
    "r = PDict [(''key'', PStr k), (''revision'', PInt (ex + 1)), (''invalidated'', py_strs keys)]"
    using a unfolding revise_node_def get_node_iff Let_def i
    by (simp add: get_node_iff Let_def, elim exE conjE) (rule that; (assumption | rule sym, assumption | simp))
  have mem: "(pid, k) \<in> set (node_ids s)" using c(3) node_at_exists by blast
  have sch: "schema_ok s" "node_ok old"
    using inv c(3) node_at_Some_iff[of s pid k old] by (auto simp: graph_inv_def schema_ok_def)
  have ds: "graph = graph_set k (graph_get graph k) (graph_of s pid)" "sorted (graph_get graph k)" "distinct (graph_get graph k)"
    "nd = None \<Longrightarrow> graph_get graph k = node_deps s pid k" "\<And>v. nd = Some v \<Longrightarrow> check_dependencies v = Inr (graph_get graph k)"
  proof -
    have dg: "distinct (map fst (graph_of s pid))" using sch by (intro distinct_graph_of) (simp add: schema_ok_def)
    have gs: "graph_set k (node_deps s pid k) (graph_of s pid) = graph_of s pid"
      using graph_set_same[OF dg, of k] graph_get_graph_of[OF mem] by simp
    consider "nd = None" "graph = graph_of s pid" |
      v es where "nd = Some v" "check_dependencies v = Inr es" "graph = graph_set k es (graph_of s pid)"
      using c(7) by (auto split: option.splits)
    then have "graph = graph_set k (graph_get graph k) (graph_of s pid) \<and> sorted (graph_get graph k) \<and> distinct (graph_get graph k) \<and>
      (nd = None \<longrightarrow> graph_get graph k = node_deps s pid k) \<and> (\<forall>v. nd = Some v \<longrightarrow> check_dependencies v = Inr (graph_get graph k))"
    proof cases
      case 1
      then show ?thesis
        using gs graph_get_graph_of[OF mem] sorted_node_deps distinct_node_deps[of s pid k] sch
        by (simp add: schema_ok_def)
    next
      case 2
      then show ?thesis
        using graph_get_set[of k "graph_of s pid" es] mem check_dependencies_wf[OF 2(2)] by (simp add: graph_keys_graph_of)
    qed
    then show "graph = graph_set k (graph_get graph k) (graph_of s pid)" "sorted (graph_get graph k)" "distinct (graph_get graph k)"
      "nd = None \<Longrightarrow> graph_get graph k = node_deps s pid k" "\<And>v. nd = Some v \<Longrightarrow> check_dependencies v = Inr (graph_get graph k)"
      by auto
  qed
  have "goal' \<noteq> []" using c(11) sch(2) check_text_wf[of _ 20000 goal'] by (auto simp: node_ok_def split: option.splits)
  moreover have "wf_contract checks" using c(12) sch(2) check_contract_wf by (auto simp: node_ok_def split: option.splits)
  ultimately show thesis
    using that[OF c(1-6) ds(2,3) c(8) _ _ _ _ i c(13-15)] c(9,10) ds by (simp add: check_facets_def)
qed

lemma revise_node_effect:
  assumes a: "revise_node ev pid k ex re goal acc nd s = Inr (r, s')" and inv: "graph_inv s"
  shows "graph_inv s'" "non_graph s' = non_graph s" "logs_grow s s'" "projects s' = projects s"
proof -
  obtain old ds goal' checks keys s1 n pl where c:
    "node_at s pid k = Some old" "1 \<le> ex" "sorted ds" "distinct ds"
    "validate_dag (graph_set k ds (graph_of s pid)) = Inr ()"
    "facet_violations (facets_of s pid) (graph_set k ds (graph_of s pid)) = []"
    "goal' \<noteq> []" "wf_contract checks" and i: "invalidate ev pid k s = (keys, s1)"
    and s': "s' = add_event ev pid (Some k) ''node_revised'' pl (snapshot_revision ev n ds (insert_deps pid k ds (delete_deps pid k
       (update_node pid k (\<lambda>n. n\<lparr>n_revision := ex + 1, n_goal := goal',
        n_contract := checks, n_contract_hash := digest ev (contract_py checks), n_updated := now_at ev\<rparr>) s1))))"
    by (rule revise_node_cases[OF a inv])
  let ?f = "\<lambda>n. n\<lparr>n_revision := ex + 1, n_goal := goal', n_contract := checks,
     n_contract_hash := digest ev (contract_py checks), n_updated := now_at ev\<rparr>"
  let ?s2 = "update_node pid k ?f s1"
  have inv2: "graph_inv ?s2"
    by (rule graph_inv_update_nodes[OF invalidate_inv[OF i inv], where P = "is_node pid k" and f = ?f])
       (use c in \<open>auto simp: node_ok_def\<close>)
  have nf: "node_facets ?s2 = node_facets s"
    unfolding update_node_def by (subst node_facets_update) (auto simp: invalidate_frame[OF i])
  then have ids: "node_ids s' = node_ids s" by (simp add: s' node_ids_facets node_facets_def)
  have d2: "deps ?s2 = deps s" by (simp add: invalidate_frame[OF i])
  have mem: "(pid, k) \<in> set (node_ids s)" using c(1) node_at_exists by blast
  have gr: "graph_of s' p = (if p = pid then graph_set k ds (graph_of s pid) else graph_of s p)" for p
    by (rule replace_deps_graph[OF ids c(3)]) (simp add: s' invalidate_frame[OF i])
  have fo: "facets_of s' p = facets_of s p" for p
    by (rule facets_of_cong) (use nf in \<open>simp add: s' node_facets_def\<close>)
  have "distinct (deps s')"
    using inv c(4) by (auto simp: s' invalidate_frame[OF i] graph_inv_def schema_ok_def distinct_map inj_on_def)
  moreover have "\<forall>d \<in> set (deps s'). (d_project d, d_node d) \<in> set (node_ids s')"
    using inv mem unfolding ids by (auto simp: s' invalidate_frame[OF i] graph_inv_def schema_ok_def)
  ultimately have "schema_ok s'"
    using inv2 ids inv unfolding graph_inv_def schema_ok_def by (simp add: s')
  moreover have "dag_ok s'" "facets_ok s'"
    using inv c(5,6) by (auto simp: graph_inv_def dag_ok_def facets_ok_def gr fo facet_violations_Nil)
  moreover have "\<forall>n \<in> set (nodes s'). node_ok n" using inv2 by (simp add: graph_inv_def s')
  ultimately have "graph_inv s'" by (simp add: graph_inv_def)
  moreover have "logs_grow s s'" by (simp add: s' logs_grow_def invalidate_frame[OF i])
  ultimately show "graph_inv s'" "non_graph s' = non_graph s" "logs_grow s s'" "projects s' = projects s"
    by (simp_all add: s' invalidate_frame[OF i])
qed

lemma split_node_effect:
  assumes a: "split_node ev pid k ex children re s = Inr (r, s')" and inv: "graph_inv s"
  shows "graph_inv s'" "non_graph s' = non_graph s" "logs_grow s s'"
proof -
  obtain new_keys s1 r1 ds where 1: "add_nodes ev pid children s = Inr (new_keys, s1)"
    and 2: "revise_node ev pid k ex re None None (Some (py_strs ds)) s1 = Inr (r1, s')"
    using a by (auto simp: split_node_def Let_def)
  from add_nodes_effect[OF 1 inv] have i1: "graph_inv s1" "non_graph s1 = non_graph s" "logs_grow s s1" by metis+
  note r = revise_node_effect[OF 2 i1(1)]
  show "graph_inv s'" by (rule r(1))
  show "non_graph s' = non_graph s" using r(2) i1(2) by simp
  show "logs_grow s s'" using logs_grow_trans[OF i1(3) r(3)] .
qed

lemma supersede_node_effect:
  assumes a: "supersede_node ev pid k ex re s = Inr (r, s')" and inv: "graph_inv s"
  shows "graph_inv s'" "non_graph s' = non_graph s" "logs_grow s s'"
proof -
  obtain keys s1 where i: "invalidate ev pid k s = (keys, s1)" by force
  let ?f = "\<lambda>n. n\<lparr>n_status := SUPERSEDED, n_updated := now_at ev\<rparr>"
  have "graph_inv s' \<and> non_graph s' = non_graph s \<and> logs_grow s s'"
  proof (cases "s' = s")
    case True
    then show ?thesis using inv by simp
  next
    case False
    then obtain old pl where old: "node_at s pid k = Some old" "n_status old \<noteq> SUPERSEDED"
      and s': "s' = add_event ev pid (Some k) ''node_superseded'' pl (update_node pid k ?f s1)"
      using a by (auto simp: supersede_node_def i get_node_iff Let_def split: if_splits)
    have gone: "n_receipt n = None" if n: "n \<in> set (nodes s1)" "is_node pid k n" for n
    proof -
      obtain m where m: "m \<in> set (nodes s)" "n = (if goes_stale s pid k m then stale ev m else m)"
        using n(1) unfolding invalidate_effect(1)[OF i] update_where_def set_map by blast
      then have "m = old"
        using n(2) node_at_unique[OF graph_inv_ids[OF inv] old(1), of m] by (auto simp: is_node_def split: if_splits)
      then have "goes_stale s pid k m"
        using old m node_at_Some_iff[of s pid k old] inv by (auto simp: goes_stale_def graph_inv_def schema_ok_def)
      with m show ?thesis by simp
    qed
    have "graph_inv s'"
      by (rule graph_inv_update_nodes[OF invalidate_inv[OF i inv], where P = "is_node pid k" and f = ?f])
         (use gone in \<open>auto simp: s' node_ok_def\<close>)
    then show ?thesis by (simp add: s' logs_grow_def invalidate_frame[OF i])
  qed
  then show "graph_inv s'" "non_graph s' = non_graph s" "logs_grow s s'" by auto
qed

end
