(* ===== verification/Metadata.thy ===== *)
theory Metadata
  imports Graph_Preserve
begin

text \<open>
  Project metadata: \<open>src/core/state_metadata.py\<close> (the dispatch policy, the enforcement switch, node
  holds, and the dispatch guard built from them) and its writers in \<open>StatePortfolio\<close>
  (src/core/state_portfolio.py). The absence of a row is the documented default, so every reader
  is total.
\<close>

section \<open>Readers\<close>

definition policy_row :: "db \<Rightarrow> string \<Rightarrow> policy option" where
  "policy_row s pid = find (\<lambda>p. pol_project p = pid) (policies s)"

definition claim_enforcement :: "db \<Rightarrow> string \<Rightarrow> bool" where
  "claim_enforcement s pid = (case find (\<lambda>e. enf_project e = pid) (enforcements s) of None \<Rightarrow> False | Some e \<Rightarrow> enf_claims e)"

definition review_independence :: "db \<Rightarrow> string \<Rightarrow> bool" where
  "review_independence s pid = (case find (\<lambda>e. enf_project e = pid) (enforcements s) of None \<Rightarrow> False | Some e \<Rightarrow> enf_review_advisory e)"

text \<open>\<open>project_policy\<close> with its derived fields; \<open>multi_driver\<close> is the constant \<open>on\<close>.\<close>

record policy_view =
  pv_project :: string
  pv_revision :: int
  pv_dispatch :: dispatch
  pv_reason :: string
  pv_actor :: string
  pv_updated :: "int option"
  pv_claims :: bool
  pv_review_advisory :: bool

definition project_policy :: "db \<Rightarrow> string \<Rightarrow> policy_view" where
  "project_policy s pid = (case policy_row s pid of
     Some p \<Rightarrow> \<lparr>pv_project = pol_project p, pv_revision = pol_revision p, pv_dispatch = pol_dispatch p, pv_reason = pol_reason p,
                pv_actor = pol_actor p, pv_updated = Some (pol_updated p),
                pv_claims = claim_enforcement s pid, pv_review_advisory = review_independence s pid\<rparr>
   | None \<Rightarrow> \<lparr>pv_project = pid, pv_revision = 0, pv_dispatch = Active, pv_reason = [], pv_actor = [], pv_updated = None,
              pv_claims = claim_enforcement s pid, pv_review_advisory = review_independence s pid\<rparr>)"

record hold_view =
  hv_project :: string
  hv_node :: string
  hv_revision :: int
  hv_held :: bool
  hv_reason :: string
  hv_actor :: string
  hv_updated :: "int option"

definition hold_row :: "db \<Rightarrow> string \<Rightarrow> string \<Rightarrow> hold option" where
  "hold_row s pid k = find (\<lambda>h. h_project h = pid \<and> h_node h = k) (holds s)"

definition node_hold :: "db \<Rightarrow> string \<Rightarrow> string \<Rightarrow> hold_view" where
  "node_hold s pid k = (case hold_row s pid k of
     Some h \<Rightarrow> \<lparr>hv_project = h_project h, hv_node = h_node h, hv_revision = h_revision h, hv_held = h_held h,
                hv_reason = h_reason h, hv_actor = h_actor h, hv_updated = Some (h_updated h)\<rparr>
   | None \<Rightarrow> \<lparr>hv_project = pid, hv_node = k, hv_revision = 0, hv_held = False, hv_reason = [], hv_actor = [], hv_updated = None\<rparr>)"

datatype block = ProjectBlock policy_view | NodeBlock hold_view

definition dispatch_block :: "db \<Rightarrow> string \<Rightarrow> string \<Rightarrow> block option" where
  "dispatch_block s pid k =
     (let pol = project_policy s pid; h = node_hold s pid k in
      if pv_dispatch pol \<noteq> Active then Some (ProjectBlock pol)
      else if hv_held h then Some (NodeBlock h)
      else None)"

definition require_dispatch :: "db \<Rightarrow> string \<Rightarrow> string \<Rightarrow> unit result" where
  "require_dispatch s pid k = raise_if (dispatch_block s pid k \<noteq> None) (StateConflict ''dispatch is held'')"

text \<open>\<open>effective_run_references\<close>: protected run references that no matching retirement corrects.\<close>

definition effective_run_references :: "db \<Rightarrow> string \<Rightarrow> string \<Rightarrow> (string \<times> string \<times> string) list" where
  "effective_run_references s pid k =
     map (\<lambda>h. (hl_reference h, hl_payload_hash h, hl_ref h))
       (sort_key hl_reference
         (filter (\<lambda>h. hl_project h = pid \<and> hl_node h = k \<and> hl_kind h = ''run'' \<and> hl_protection h \<and>
            \<not> list_ex (\<lambda>r. rt_project r = hl_project h \<and> rt_reference r = hl_reference h \<and>
                        rt_payload_hash r = hl_payload_hash h) (retirements s)) (links s)))"

section \<open>The source binding\<close>

record source_view =
  sv_kind :: string
  sv_source :: "string option"
  sv_repo :: "string option"
  sv_common :: "string option"
  sv_revision :: int
  sv_row :: "source_binding option"

definition binding_row :: "db \<Rightarrow> string \<Rightarrow> source_binding option" where
  "binding_row s pid = find (\<lambda>b. sb_project b = pid) (bindings s)"

definition source_of :: "db \<Rightarrow> project \<Rightarrow> source_view" where
  "source_of s p = (case binding_row s (p_id p) of
     Some b \<Rightarrow> \<lparr>sv_kind = ''stable_binding'', sv_source = None, sv_repo = Some (sb_repo b), sv_common = Some (sb_common b),
                sv_revision = sb_revision b, sv_row = Some b\<rparr>
   | None \<Rightarrow>
       \<lparr>sv_kind = (case p_source p of None \<Rightarrow> ''none'' | Some _ \<Rightarrow> ''legacy_binding''), sv_source = p_source p,
        sv_repo = Option.bind (p_source p) (\<lambda>l. Option.bind (find (\<lambda>r. run_project r = l) (run_rows s)) run_repo),
        sv_common = None, sv_revision = 0, sv_row = None\<rparr>)"

definition bind_source :: "env \<Rightarrow> caller \<Rightarrow> string \<Rightarrow> string \<Rightarrow> string \<Rightarrow> int \<Rightarrow> db \<Rightarrow> (source_binding \<times> db) result" where
  "bind_source ev c pid repo common expected s =
     bindE (check_integer (PInt expected) 0 1000000) (\<lambda>_.
     bindE (get_project s pid) (\<lambda>_.
     let prior = binding_row s pid; actual = (case prior of None \<Rightarrow> 0 | Some b \<Rightarrow> sb_revision b) in
     bindE (raise_if (actual \<noteq> expected) (StateConflict ''source binding revision changed'')) (\<lambda>_.
     bindE (raise_if (list_ex (\<lambda>a. a_project a = pid) (attempts s))
              (StateConflict ''source bindings cannot be retargeted after attempts exist; preserve old provenance'')) (\<lambda>_.
     let new = \<lparr>sb_project = pid, sb_revision = actual + 1, sb_repo = repo, sb_common = common,
                sb_actor = by_actor c, sb_updated = now_at ev\<rparr>;
         s1 = s\<lparr>bindings := (if prior = None then bindings s @ [new]
                            else update_where (\<lambda>b. sb_project b = pid) (\<lambda>_. new) (bindings s))\<rparr>;
         s2 = add_event ev pid None ''source_bound''
                (PDict [(''revision'', PInt (actual + 1)), (''repo_path'', PStr repo), (''common_dir'', PStr common),
                        (''actor'', PStr (by_actor c))]) s1
     in Inr (new, s2)))))"

section \<open>The dispatch policy and the switches\<close>

text \<open>\<open>INSERT ... ON CONFLICT(project_id) DO UPDATE\<close> of the policy row.\<close>

definition put_policy :: "env \<Rightarrow> caller \<Rightarrow> string \<Rightarrow> int \<Rightarrow> dispatch \<Rightarrow> string \<Rightarrow> db \<Rightarrow> db" where
  "put_policy ev c pid revno d reason s =
     (let new = \<lparr>pol_project = pid, pol_revision = revno, pol_dispatch = d, pol_reason = reason,
                 pol_actor = by_actor c, pol_updated = now_at ev\<rparr> in
      s\<lparr>policies := (if policy_row s pid = None then policies s @ [new]
                    else update_where (\<lambda>p. pol_project p = pid) (\<lambda>_. new) (policies s))\<rparr>)"

definition parse_dispatch :: "string \<Rightarrow> dispatch option" where
  "parse_dispatch d = (if d = ''active'' then Some Active else if d = ''hold'' then Some Hold
     else if d = ''archive'' then Some Archive else None)"

definition set_dispatch :: "env \<Rightarrow> caller \<Rightarrow> string \<Rightarrow> string \<Rightarrow> int \<Rightarrow> string \<Rightarrow> db \<Rightarrow> (policy_view \<times> db) result" where
  "set_dispatch ev c pid dispatch expected reason s =
     bindE (require_some (parse_dispatch dispatch) (StateGraphError ''dispatch must be active, hold or archive'')) (\<lambda>d.
     bindE (check_integer (PInt expected) 0 1000000) (\<lambda>_.
     bindE (check_text (PStr reason) 4000) (\<lambda>reason'.
     bindE (get_project s pid) (\<lambda>_.
     bindE (raise_if (pv_revision (project_policy s pid) \<noteq> expected) (StateConflict ''project policy revision changed'')) (\<lambda>_.
     let s1 = put_policy ev c pid (expected + 1) d reason' s;
         s2 = add_event ev pid None ''dispatch_policy_changed''
                (PDict [(''dispatch'', PStr dispatch), (''reason'', PStr reason'), (''revision'', PInt (expected + 1)),
                        (''actor'', PStr (by_actor c))]) s1
     in Inr (project_policy s2 pid, s2))))))"

definition put_enforcement :: "env \<Rightarrow> caller \<Rightarrow> string \<Rightarrow> (enforcement \<Rightarrow> enforcement) \<Rightarrow> enforcement \<Rightarrow> string \<Rightarrow> db \<Rightarrow> db" where
  "put_enforcement ev c pid set_switch fresh reason s =
     s\<lparr>enforcements :=
        (if list_ex (\<lambda>e. enf_project e = pid) (enforcements s)
         then update_where (\<lambda>e. enf_project e = pid)
                (\<lambda>e. (set_switch e)\<lparr>enf_reason := reason, enf_actor := by_actor c, enf_updated := now_at ev\<rparr>) (enforcements s)
         else enforcements s @ [fresh])\<rparr>"

definition set_claim_enforcement :: "env \<Rightarrow> caller \<Rightarrow> string \<Rightarrow> string \<Rightarrow> int \<Rightarrow> string \<Rightarrow> db \<Rightarrow> (policy_view \<times> db) result" where
  "set_claim_enforcement ev c pid switch expected reason s =
     bindE (raise_if (\<not> by_admin c) (ClaimError ''admin_required'')) (\<lambda>_.
     bindE (raise_if (switch \<notin> {''off'', ''on''}) (StateGraphError ''claim_enforcement must be off or on'')) (\<lambda>_.
     bindE (check_integer (PInt expected) 0 1000000) (\<lambda>_.
     bindE (check_text (PStr reason) 4000) (\<lambda>reason'.
     bindE (get_project s pid) (\<lambda>_.
     let old = project_policy s pid in
     bindE (raise_if (pv_revision old \<noteq> expected) (StateConflict ''project policy revision changed'')) (\<lambda>_.
     let s1 = put_policy ev c pid (expected + 1) (pv_dispatch old) reason' s;
         s2 = put_enforcement ev c pid (\<lambda>e. e\<lparr>enf_claims := (switch = ''on'')\<rparr>)
                \<lparr>enf_project = pid, enf_claims = (switch = ''on''), enf_reason = reason', enf_actor = by_actor c,
                 enf_updated = now_at ev, enf_review_advisory = False\<rparr> reason' s1;
         s3 = add_event ev pid None ''claim_enforcement_policy_changed''
                (PDict [(''claim_enforcement'', PStr switch), (''reason'', PStr reason'), (''revision'', PInt (expected + 1)),
                        (''actor'', PStr (by_actor c))]) s2
     in Inr (project_policy s3 pid, s3)))))))"

definition set_review_independence :: "env \<Rightarrow> caller \<Rightarrow> string \<Rightarrow> string \<Rightarrow> int \<Rightarrow> string \<Rightarrow> db \<Rightarrow> (policy_view \<times> db) result" where
  "set_review_independence ev c pid mode expected reason s =
     bindE (raise_if (\<not> by_admin c) (ClaimError ''admin_required'')) (\<lambda>_.
     bindE (raise_if (mode \<notin> {''off'', ''advisory''}) (StateGraphError ''review_independence must be off or advisory'')) (\<lambda>_.
     bindE (check_integer (PInt expected) 0 1000000) (\<lambda>_.
     bindE (check_text (PStr reason) 4000) (\<lambda>reason'.
     bindE (get_project s pid) (\<lambda>_.
     let old = project_policy s pid in
     bindE (raise_if (pv_revision old \<noteq> expected) (StateConflict ''project policy revision changed'')) (\<lambda>_.
     let s1 = put_policy ev c pid (expected + 1) (pv_dispatch old) reason' s;
         s2 = put_enforcement ev c pid (\<lambda>e. e\<lparr>enf_review_advisory := (mode = ''advisory'')\<rparr>)
                \<lparr>enf_project = pid, enf_claims = pv_claims old, enf_reason = reason', enf_actor = by_actor c,
                 enf_updated = now_at ev, enf_review_advisory = (mode = ''advisory'')\<rparr> reason' s1;
         s3 = add_event ev pid None ''review_independence_policy_changed''
                (PDict [(''review_independence'', PStr mode), (''reason'', PStr reason'), (''revision'', PInt (expected + 1)),
                        (''actor'', PStr (by_actor c))]) s2
     in Inr (project_policy s3 pid, s3)))))))"

section \<open>Holds and references\<close>

definition set_hold :: "env \<Rightarrow> caller \<Rightarrow> string \<Rightarrow> string \<Rightarrow> bool \<Rightarrow> int \<Rightarrow> string \<Rightarrow> db \<Rightarrow> (hold_view \<times> db) result" where
  "set_hold ev c pid k held expected reason s =
     bindE (get_node s pid k) (\<lambda>_.
     bindE (check_integer (PInt expected) 0 1000000) (\<lambda>_.
     bindE (check_text (PStr reason) 4000) (\<lambda>reason'.
     bindE (raise_if (hv_revision (node_hold s pid k) \<noteq> expected) (StateConflict ''node hold revision changed'')) (\<lambda>_.
     let new = \<lparr>h_project = pid, h_node = k, h_revision = expected + 1, h_held = held, h_reason = reason',
                h_actor = by_actor c, h_updated = now_at ev\<rparr>;
         s1 = s\<lparr>holds := (if hold_row s pid k = None then holds s @ [new]
                         else update_where (\<lambda>h. h_project h = pid \<and> h_node h = k) (\<lambda>_. new) (holds s))\<rparr>;
         s2 = add_event ev pid (Some k) ''node_hold_changed''
                (PDict [(''held'', PBool held), (''reason'', PStr reason'), (''revision'', PInt (expected + 1)),
                        (''actor'', PStr (by_actor c))]) s1
     in Inr (node_hold s2 pid k, s2)))))"

definition link_at :: "db \<Rightarrow> string \<Rightarrow> string \<Rightarrow> history_link option" where
  "link_at s pid rid = find (\<lambda>h. hl_project h = pid \<and> hl_reference h = rid) (links s)"

definition add_reference :: "env \<Rightarrow> caller \<Rightarrow> string \<Rightarrow> string \<Rightarrow> string \<Rightarrow> string \<Rightarrow> string \<Rightarrow> string \<Rightarrow> string \<Rightarrow> string
    \<Rightarrow> string option \<Rightarrow> string option \<Rightarrow> bool \<Rightarrow> db \<Rightarrow> (history_link \<times> db) result" where
  "add_reference ev c pid k rid kind ref label provenance status artifact report protect s =
     bindE (check_key (PStr rid)) (\<lambda>_.
     bindE (raise_if (kind \<notin> {''run'', ''commit'', ''report'', ''note''})
              (StateGraphError ''reference kind must be run, commit, report or note'')) (\<lambda>_.
     bindE (check_text (PStr ref) 2000) (\<lambda>ref'.
     bindE (check_text (PStr label) 2000) (\<lambda>label'.
     bindE (check_text (PStr provenance) 300) (\<lambda>prov'.
     bindE (check_text (PStr status) 100) (\<lambda>status'.
     bindE (raise_if (case artifact of None \<Rightarrow> False | Some a \<Rightarrow> \<not> SHA a)
              (StateGraphError ''artifact_ref must be an exact lowercase digest'')) (\<lambda>_.
     bindE (raise_if (case report of None \<Rightarrow> False | Some r \<Rightarrow> \<not> hex_of_length 64 r)
              (StateGraphError ''report_sha256 must be an exact lowercase digest'')) (\<lambda>_.
     let payload = [(''node_key'', PStr k), (''kind'', PStr kind), (''ref'', PStr ref'), (''label'', PStr label'),
                    (''provenance_actor'', PStr prov'), (''observed_status'', PStr status'),
                    (''artifact_ref'', py_str_opt artifact), (''report_sha256'', py_str_opt report),
                    (''protection'', PInt (if protect then 1 else 0))];
         fingerprint = digest ev (PDict payload) in
     bindE (get_node s pid k) (\<lambda>n.
     case link_at s pid rid of
       Some previous \<Rightarrow>
         if hl_payload_hash previous \<noteq> fingerprint
         then Inl (StateConflict ''reference id already records different history; append a new correction'')
         else Inr (previous, s)
     | None \<Rightarrow>
         let new = \<lparr>hl_project = pid, hl_reference = rid, hl_node = k, hl_kind = kind, hl_ref = ref', hl_label = label',
                    hl_status = status', hl_artifact = artifact, hl_report = report, hl_provenance = prov',
                    hl_recorded_by = by_actor c, hl_revision = n_revision n, hl_protection = protect,
                    hl_payload_hash = fingerprint, hl_created = now_at ev\<rparr>;
             s1 = s\<lparr>links := links s @ [new]\<rparr> in
         bindE (if protect
                then bindE (set_hold ev c pid k True (hv_revision (node_hold s1 pid k)) (''Existing external work: '' @ label') s1)
                       (\<lambda>(_, s2). Inr s2)
                else Inr s1) (\<lambda>s2.
         let s3 = add_event ev pid (Some k) ''historical_reference_added''
                    (PDict (payload @ [(''reference_id'', PStr rid), (''acceptance'', PBool False)])) s2
         in Inr (new, s3)))))))))))"

definition retirement_py :: "retirement \<Rightarrow> pyval" where
  "retirement_py r = PDict [(''project_id'', PStr (rt_project r)), (''reference_id'', PStr (rt_reference r)),
     (''node_key'', PStr (rt_node r)), (''node_revision'', PInt (rt_revision r)),
     (''original_payload_hash'', PStr (rt_payload_hash r)), (''run_id'', PStr (rt_run r)),
     (''foreign_project_id'', PStr (rt_foreign_project r)), (''foreign_attempt_id'', PStr (rt_foreign_attempt r)),
     (''foreign_execution_project_id'', PStr (rt_foreign_execution r)), (''request_key'', PStr (rt_request_key r)),
     (''request_hash'', PStr (rt_request_hash r)), (''actor'', PStr (rt_actor r)), (''reason'', PStr (rt_reason r)),
     (''created_at'', PInt (rt_created r))]"

definition retire_context_run_protection :: "env \<Rightarrow> caller \<Rightarrow> string \<Rightarrow> string \<Rightarrow> string \<Rightarrow> string \<Rightarrow> int \<Rightarrow> string
    \<Rightarrow> string \<Rightarrow> string \<Rightarrow> db \<Rightarrow> (retirement \<times> db) result" where
  "retire_context_run_protection ev c pid k rid run expected payload_hash request_key reason s =
     bindE (raise_if (\<not> by_admin c \<or> \<not> by_trusted c) (ClaimError ''admin_required'')) (\<lambda>_.
     bindE (mapE (\<lambda>v. check_key (PStr v)) [pid, k, rid, run, request_key]) (\<lambda>_.
     bindE (check_integer (PInt expected) 1 1000000) (\<lambda>_.
     bindE (raise_if (\<not> hex_of_length 64 payload_hash)
              (StateGraphError ''expected_payload_hash must be an exact lowercase sha256'')) (\<lambda>_.
     bindE (check_text (PStr reason) 4000) (\<lambda>reason'.
     let request_hash = digest ev (PDict [(''project_id'', PStr pid), (''node_key'', PStr k), (''reference_id'', PStr rid),
           (''run_id'', PStr run), (''expected_revision'', PInt expected), (''expected_payload_hash'', PStr payload_hash),
           (''reason'', PStr reason'), (''actor'', PStr (by_actor c))]) in
     case find (\<lambda>r. rt_project r = pid \<and> rt_request_key r = request_key) (retirements s) of
       Some prior \<Rightarrow>
         if rt_request_hash prior \<noteq> request_hash
         then Inl (StateConflict ''retirement request key already records a different correction'')
         else Inr (prior, s)
     | None \<Rightarrow>
         bindE (get_node s pid k) (\<lambda>n.
         bindE (raise_if (n_revision n \<noteq> expected) (StateConflict ''node revision changed'')) (\<lambda>_.
         bindE (require_some (find (\<lambda>h. hl_project h = pid \<and> hl_reference h = rid) (links s))
                  (StateConflict ''correction requires this node's exact protected run reference'')) (\<lambda>h.
         bindE (raise_if (hl_node h \<noteq> k \<or> hl_ref h \<noteq> run \<or> hl_kind h \<noteq> ''run'' \<or> \<not> hl_protection h)
                  (StateConflict ''correction requires this node's exact protected run reference'')) (\<lambda>_.
         bindE (raise_if (hl_payload_hash h \<noteq> payload_hash) (StateConflict ''reference payload hash changed'')) (\<lambda>_.
         bindE (raise_if (list_ex (\<lambda>r. rt_project r = pid \<and> rt_reference r = rid) (retirements s))
                  (StateConflict ''reference protection already retired by a different request'')) (\<lambda>_.
         case filter (\<lambda>a. a_run a = Some run) (attempts s) of
           [b] \<Rightarrow>
             bindE (raise_if (a_kind b \<noteq> Skillflow \<or> a_execution_project b = None \<or> a_workflow b = None \<or> a_project b = pid)
                      (StateConflict ''run lacks an unambiguous binding wholly to another State project'')) (\<lambda>_.
             let new = \<lparr>rt_project = pid, rt_reference = rid, rt_node = k, rt_revision = expected,
                        rt_payload_hash = payload_hash, rt_run = run, rt_foreign_project = a_project b,
                        rt_foreign_attempt = a_id b, rt_foreign_execution = the (a_execution_project b),
                        rt_request_key = request_key, rt_request_hash = request_hash, rt_actor = by_actor c,
                        rt_reason = reason', rt_created = now_at ev\<rparr>;
                 s1 = s\<lparr>retirements := retirements s @ [new]\<rparr>;
                 s2 = add_event ev pid (Some k) ''context_run_protection_retired'' (retirement_py new) s1
             in Inr (new, s2))
         | _ \<Rightarrow> Inl (StateConflict ''run lacks an unambiguous binding wholly to another State project''))))))))))))"

end
