(* ===== verification/Presence.thy ===== *)
theory Presence
  imports Metadata
begin

text \<open>
  Driver presence: the derived presence of \<open>src/core/drivers.py\<close> and its combination with
  declarations and waits in \<open>src/core/driver_presence.py\<close>. Presence is information, except that it
  admits the takeovers of the theory \<open>Recovery\<close>; so the lemmas say exactly when a driver counts as
  offline. Time is in microseconds.
\<close>

definition add_seconds :: "int \<Rightarrow> int \<Rightarrow> int" where
  "add_seconds t seconds = t + seconds * 1000000"

section \<open>Derived presence\<close>

datatype presence_status = Online | Away | Offline

datatype presence_basis = ByWait | ByDeclaration | ByLastSeen

definition positive_seconds :: "env \<Rightarrow> string \<Rightarrow> int \<Rightarrow> int" where
  "positive_seconds ev name dflt = (case env_int ev name of None \<Rightarrow> dflt | Some v \<Rightarrow> if 0 < v then v else dflt)"

definition PRESENCE_ONLINE_DEFAULT :: int where "PRESENCE_ONLINE_DEFAULT = 900"
definition PRESENCE_OFFLINE_DEFAULT :: int where "PRESENCE_OFFLINE_DEFAULT = 21600"
definition PRESENCE_FUTURE_SKEW_SECONDS :: int where "PRESENCE_FUTURE_SKEW_SECONDS = 60"

definition presence_thresholds :: "env \<Rightarrow> int \<times> int" where
  "presence_thresholds ev =
     (let on = positive_seconds ev ''AITELIER_PRESENCE_ONLINE_SECONDS'' PRESENCE_ONLINE_DEFAULT;
          st = positive_seconds ev ''AITELIER_PRESENCE_OFFLINE_SECONDS'' PRESENCE_OFFLINE_DEFAULT in
      if st \<le> on then (PRESENCE_ONLINE_DEFAULT, PRESENCE_OFFLINE_DEFAULT) else (on, st))"

text \<open>\<open>presence_of\<close>: the status and, where the stamp is usable, the age in whole seconds.\<close>

definition presence_of :: "int option \<Rightarrow> int \<Rightarrow> int \<Rightarrow> int \<Rightarrow> presence_status \<times> int option" where
  "presence_of last_seen now online_seconds stale_seconds = (case last_seen of
     None \<Rightarrow> (Offline, None)
   | Some seen \<Rightarrow>
       let delta = now - seen in
       if delta < - (PRESENCE_FUTURE_SKEW_SECONDS * 1000000) then (Offline, None)
       else let age = max 0 (delta div 1000000) in
         (if age \<le> online_seconds then Online else if age \<le> stale_seconds then Away else Offline, Some age))"

definition presence_now :: "env \<Rightarrow> int option \<Rightarrow> presence_status \<times> int option" where
  "presence_now ev last_seen = (case presence_thresholds ev of (on, st) \<Rightarrow> presence_of last_seen (now_at ev) on st)"

section \<open>Effective presence\<close>

record presence =
  pr_status :: presence_status
  pr_basis :: presence_basis
  pr_derived :: presence_status
  pr_determinable :: bool
  pr_declaration :: "presence_decl option"
  pr_waiting :: bool
  pr_last_wait_end :: "int option"
  pr_last_seen :: "int option"
  pr_age :: "int option"

definition decl_of :: "db \<Rightarrow> string \<Rightarrow> presence_decl option" where
  "decl_of s d = find (\<lambda>x. dc_driver x = d) (declarations s)"

definition wait_grace_seconds :: "env \<Rightarrow> int" where
  "wait_grace_seconds ev = positive_seconds ev ''AITELIER_PRESENCE_WAIT_GRACE_SECONDS'' 120"

text \<open>\<open>_wait_state\<close>: is a wait in progress, and when did the latest finished one end.\<close>

definition wait_open :: "int \<Rightarrow> wait \<Rightarrow> bool" where
  "wait_open now w \<longleftrightarrow> w_ended w = None \<and> now \<le> w_until w"

definition wait_finish :: "wait \<Rightarrow> int" where
  "wait_finish w = (case w_ended w of Some e \<Rightarrow> e | None \<Rightarrow> w_until w)"

definition later :: "int \<Rightarrow> int option \<Rightarrow> int option" where
  "later t acc = (case acc of None \<Rightarrow> Some t | Some e \<Rightarrow> Some (max e t))"

definition wait_state :: "db \<Rightarrow> string \<Rightarrow> int \<Rightarrow> bool \<times> int option" where
  "wait_state s d now =
     (let rows = filter (\<lambda>w. w_driver w = d) (waits s) in
      (list_ex (wait_open now) rows,
       fold (\<lambda>w acc. if wait_open now w then acc else later (wait_finish w) acc) rows None))"

definition effective_presence :: "env \<Rightarrow> db \<Rightarrow> string \<Rightarrow> presence" where
  "effective_presence ev s d =
     (let row = find (\<lambda>x. dr_id x = d) (drivers s);
          seen = Option.bind row dr_last_seen;
          (derived, age) = presence_now ev seen;
          declaration = decl_of s d;
          (waiting, ended) = wait_state s d (now_at ev);
          recent = (case ended of None \<Rightarrow> False | Some e \<Rightarrow> now_at ev - e \<le> wait_grace_seconds ev * 1000000);
          (status, basis) = (if waiting \<or> recent then (Online, ByWait)
             else if declaration \<noteq> None then (Offline, ByDeclaration) else (derived, ByLastSeen)) in
      \<lparr>pr_status = status, pr_basis = basis, pr_derived = derived,
       pr_determinable = (basis \<noteq> ByLastSeen \<or> (row \<noteq> None \<and> age \<noteq> None)),
       pr_declaration = declaration, pr_waiting = waiting, pr_last_wait_end = ended,
       pr_last_seen = seen, pr_age = age\<rparr>)"

definition owner_is_offline :: "presence \<Rightarrow> bool" where
  "owner_is_offline p \<longleftrightarrow> pr_status p = Offline \<and> pr_determinable p"

definition PUBLIC_DRIVER_ID :: string where "PUBLIC_DRIVER_ID = ''public''"

definition shared_identity :: "string \<Rightarrow> bool" where
  "shared_identity d \<longleftrightarrow> d = PUBLIC_DRIVER_ID"

section \<open>Declarations and waits\<close>

definition driver_actor :: "string \<Rightarrow> string" where
  "driver_actor d = ''driver:'' @ d"

definition presence_audit :: "env \<Rightarrow> string \<Rightarrow> string \<Rightarrow> string \<Rightarrow> string \<Rightarrow> db \<Rightarrow> db" where
  "presence_audit ev d status cause act s =
     s\<lparr>audits := audits s @ [\<lparr>au_driver = d, au_operation = ''presence'',
        au_payload = PDict [(''cause'', PStr cause), (''status'', PStr status)], au_actor = act, au_created = now_at ev\<rparr>]\<rparr>"

text \<open>\<open>_clear\<close>: remove the declaration; audited when there was one.\<close>

definition clear_declaration :: "env \<Rightarrow> string \<Rightarrow> string \<Rightarrow> string \<Rightarrow> db \<Rightarrow> bool \<times> db" where
  "clear_declaration ev d cause act s =
     (if decl_of s d = None then (False, s)
      else (True, presence_audit ev d ''online'' cause act
              (s\<lparr>declarations := filter (\<lambda>x. dc_driver x \<noteq> d) (declarations s)\<rparr>)))"

definition CLEAR_CAUSES :: "string list" where
  "CLEAR_CAUSES = [''declared'', ''wait'', ''claim_node'', ''heartbeat'', ''start_external_attempt'', ''report_external_attempt'']"

definition mark_back :: "env \<Rightarrow> string option \<Rightarrow> string \<Rightarrow> db \<Rightarrow> db" where
  "mark_back ev driver cause s = (case driver of
     None \<Rightarrow> s
   | Some d \<Rightarrow>
       if d = [] \<or> cause \<notin> set CLEAR_CAUSES then s
       else let s1 = snd (clear_declaration ev d cause (driver_actor d) s) in
         s1\<lparr>drivers := update_where (\<lambda>x. dr_id x = d) (\<lambda>x. x\<lparr>dr_last_seen := Some (now_at ev)\<rparr>) (drivers s1)\<rparr>)"

text \<open>
  \<open>declare\<close>: a driver declares itself offline or online. \<open>DriverError\<close> is reported as
  \<open>StateGraphError\<close> with its message; the expected return arrives parsed.
\<close>

definition declare_presence :: "env \<Rightarrow> string option \<Rightarrow> string \<Rightarrow> string \<Rightarrow> int option \<Rightarrow> string option \<Rightarrow> db \<Rightarrow> (bool \<times> db) result" where
  "declare_presence ev driver status reason returning who s = (case driver of
     None \<Rightarrow> Inl (StateGraphError ''driver_identity_required'')
   | Some d \<Rightarrow>
     bindE (raise_if (d = []) (StateGraphError ''driver_identity_required'')) (\<lambda>_.
     bindE (raise_if (shared_identity d) (StateGraphError ''shared_identity'')) (\<lambda>_.
     bindE (raise_if (status \<notin> {''offline'', ''online''}) (StateGraphError ''status must be offline or online'')) (\<lambda>_.
     bindE (raise_if (length reason > 200) (StateGraphError ''reason must be text of at most 200 characters'')) (\<lambda>_.
     bindE (raise_if (returning \<noteq> None \<and> status \<noteq> ''offline'')
              (StateGraphError ''expected_return belongs to an offline declaration'')) (\<lambda>_.
     let act = (case who of None \<Rightarrow> driver_actor d | Some a \<Rightarrow> if a = [] then driver_actor d else a) in
     if status = ''online'' then Inr (clear_declaration ev d ''declared'' act s)
     else case decl_of s d of
       None \<Rightarrow> Inr (True, presence_audit ev d ''offline'' ''declared'' act
                (s\<lparr>declarations := declarations s @ [\<lparr>dc_driver = d, dc_declared = now_at ev, dc_reason = reason, dc_return = returning\<rparr>]\<rparr>))
     | Some old \<Rightarrow>
         if (dc_reason old, dc_return old) \<noteq> (reason, returning)
         then Inr (True, presence_audit ev d ''offline'' ''declared'' act
                (s\<lparr>declarations := update_where (\<lambda>x. dc_driver x = d)
                     (\<lambda>x. x\<lparr>dc_reason := reason, dc_return := returning\<rparr>) (declarations s)\<rparr>))
         else Inr (False, s)))))))"

definition WAIT_SLACK_SECONDS :: int where "WAIT_SLACK_SECONDS = 30"
definition WAIT_ROW_KEEP_SECONDS :: int where "WAIT_ROW_KEEP_SECONDS = 3600"

text \<open>\<open>_wait_begin\<close>, one successful transaction of its retry loop; the timeout is in seconds.\<close>

definition wait_begin :: "env \<Rightarrow> string \<Rightarrow> int \<Rightarrow> db \<Rightarrow> string \<times> db" where
  "wait_begin ev d timeout s =
     (let wid = fresh_id ev ''wait-'' 0;
          keep = add_seconds (now_at ev) (- max WAIT_ROW_KEEP_SECONDS (2 * wait_grace_seconds ev));
          s1 = s\<lparr>waits := filter (\<lambda>w. \<not> (w_driver w = d \<and> wait_finish w < keep)) (waits s) @
                 [\<lparr>w_id = wid, w_driver = d, w_started = now_at ev,
                   w_until = add_seconds (now_at ev) (timeout + WAIT_SLACK_SECONDS), w_ended = None\<rparr>]\<rparr>
      in (wid, snd (clear_declaration ev d ''wait'' (driver_actor d) s1)))"

definition wait_end :: "env \<Rightarrow> string \<Rightarrow> db \<Rightarrow> db" where
  "wait_end ev wid s = s\<lparr>waits := update_where (\<lambda>w. w_id w = wid) (\<lambda>w. w\<lparr>w_ended := Some (now_at ev)\<rparr>) (waits s)\<rparr>"

section \<open>Who counts as offline\<close>

lemma positive_seconds_pos: "0 < dflt \<Longrightarrow> 0 < positive_seconds ev name dflt"
  by (simp add: positive_seconds_def split: option.splits)

lemma presence_thresholds_pos: "presence_thresholds ev = (on, st) \<Longrightarrow> 0 < on \<and> on < st"
  using positive_seconds_pos[of PRESENCE_ONLINE_DEFAULT ev "''AITELIER_PRESENCE_ONLINE_SECONDS''"]
  by (auto simp: presence_thresholds_def Let_def PRESENCE_ONLINE_DEFAULT_def PRESENCE_OFFLINE_DEFAULT_def split: if_splits)

text \<open>A finished wait that ended within the grace.\<close>

definition recent_wait :: "env \<Rightarrow> db \<Rightarrow> string \<Rightarrow> bool" where
  "recent_wait ev s d \<longleftrightarrow> (\<exists>w \<in> set (waits s). w_driver w = d \<and> \<not> wait_open (now_at ev) w \<and>
     now_at ev - wait_finish w \<le> wait_grace_seconds ev * 1000000)"

lemma later_Some: "(case later t acc of None \<Rightarrow> False | Some e \<Rightarrow> now - e \<le> g) \<longleftrightarrow>
    now - t \<le> (g :: int) \<or> (case acc of None \<Rightarrow> False | Some e \<Rightarrow> now - e \<le> g)"
  by (auto simp: later_def split: option.splits)

lemma fold_later:
  "(case fold (\<lambda>w acc. if P w then acc else later (f w) acc) ws acc of None \<Rightarrow> False | Some e \<Rightarrow> now - e \<le> g) \<longleftrightarrow>
   (\<exists>w \<in> set ws. \<not> P w \<and> now - f w \<le> (g :: int)) \<or> (case acc of None \<Rightarrow> False | Some e \<Rightarrow> now - e \<le> g)"
  by (induction ws arbitrary: acc) (auto simp: later_Some)

lemma effective_presence_status:
  "pr_status (effective_presence ev s d) =
     (if (\<exists>w \<in> set (waits s). w_driver w = d \<and> wait_open (now_at ev) w) \<or> recent_wait ev s d then Online
      else if decl_of s d \<noteq> None then Offline
      else fst (presence_now ev (Option.bind (find (\<lambda>x. dr_id x = d) (drivers s)) dr_last_seen)))"
  "pr_determinable (effective_presence ev s d) \<longleftrightarrow>
     (\<exists>w \<in> set (waits s). w_driver w = d \<and> wait_open (now_at ev) w) \<or> recent_wait ev s d \<or> decl_of s d \<noteq> None \<or>
     (find (\<lambda>x. dr_id x = d) (drivers s) \<noteq> None \<and>
      snd (presence_now ev (Option.bind (find (\<lambda>x. dr_id x = d) (drivers s)) dr_last_seen)) \<noteq> None)"
  using fold_later[where acc = None and P = "wait_open (now_at ev)" and f = wait_finish and now = "now_at ev"
      and g = "wait_grace_seconds ev * 1000000" and ws = "filter (\<lambda>w. w_driver w = d) (waits s)"]
  by (auto simp: effective_presence_def wait_state_def recent_wait_def list_ex_iff Let_def split: prod.splits if_splits)

lemma presence_now_offline_age:
  "presence_now ev seen = (Offline, Some age) \<longleftrightarrow>
   (\<exists>t. seen = Some t \<and> age = (now_at ev - t) div 1000000 \<and> snd (presence_thresholds ev) < age)"
proof -
  obtain on st where th: "presence_thresholds ev = (on, st)" by force
  note pos = presence_thresholds_pos[OF th]
  show ?thesis
    using pos by (auto simp: presence_now_def th presence_of_def Let_def PRESENCE_FUTURE_SKEW_SECONDS_def max_def split: option.splits)
qed

text \<open>
  The takeover test reads an owner as offline exactly when no wait of the owner is in progress or
  recent, and the owner either declared itself offline or is a registered driver unseen for longer
  than the stale bound.
\<close>

lemma owner_is_offline_iff:
  "owner_is_offline (effective_presence ev s d) \<longleftrightarrow>
     \<not> (\<exists>w \<in> set (waits s). w_driver w = d \<and> wait_open (now_at ev) w) \<and> \<not> recent_wait ev s d \<and>
     (decl_of s d \<noteq> None \<or>
      (\<exists>row t. find (\<lambda>x. dr_id x = d) (drivers s) = Some row \<and> dr_last_seen row = Some t \<and>
         snd (presence_thresholds ev) < (now_at ev - t) div 1000000))"
proof -
  define seen where "seen = Option.bind (find (\<lambda>x. dr_id x = d) (drivers s)) dr_last_seen"
  have "fst (presence_now ev seen) = Offline \<and> snd (presence_now ev seen) \<noteq> None \<longleftrightarrow> (\<exists>age. presence_now ev seen = (Offline, Some age))"
    by (cases "presence_now ev seen") auto
  then show ?thesis
    unfolding owner_is_offline_def effective_presence_status seen_def[symmetric]
    by (auto simp: presence_now_offline_age seen_def bind_eq_Some_conv)
qed

lemma decl_of_filter: "decl_of (s\<lparr>declarations := filter (\<lambda>x. dc_driver x \<noteq> d) (declarations s)\<rparr>) d = None"
  by (auto simp: decl_of_def find_None_set)

lemma clear_declaration_none: "decl_of (snd (clear_declaration ev d cause act s)) d = None"
  using decl_of_filter[where s = s and d = d] by (auto simp: clear_declaration_def presence_audit_def decl_of_def)

lemma clear_declaration_frame [simp]:
  "drivers (snd (clear_declaration ev d cause act s)) = drivers s"
  "waits (snd (clear_declaration ev d cause act s)) = waits s"
  by (simp_all add: clear_declaration_def presence_audit_def)

text \<open>An action by a driver makes it present: it is not offline when the action commits.\<close>

lemma mark_back_not_offline:
  assumes "d \<noteq> []" "cause \<in> set CLEAR_CAUSES"
  shows "\<not> owner_is_offline (effective_presence ev (mark_back ev (Some d) cause s) d)"
proof -
  let ?t = "mark_back ev (Some d) cause s"
  have nd: "decl_of ?t d = None"
    using clear_declaration_none[of ev d cause "driver_actor d" s] assms by (simp add: mark_back_def Let_def decl_of_def)
  have dr: "drivers ?t = update_where (\<lambda>x. dr_id x = d) (\<lambda>x. x\<lparr>dr_last_seen := Some (now_at ev)\<rparr>) (drivers s)"
    using assms by (simp add: mark_back_def Let_def)
  have "dr_last_seen row = Some (now_at ev)" if row: "find (\<lambda>x. dr_id x = d) (drivers ?t) = Some row" for row
  proof -
    have "find (\<lambda>x. dr_id x = d) (drivers ?t) =
        map_option (\<lambda>r. if dr_id r = d then r\<lparr>dr_last_seen := Some (now_at ev)\<rparr> else r) (find (\<lambda>x. dr_id x = d) (drivers s))"
      unfolding dr by (rule find_update_where) simp
    then obtain r where "find (\<lambda>x. dr_id x = d) (drivers s) = Some r"
      "row = (if dr_id r = d then r\<lparr>dr_last_seen := Some (now_at ev)\<rparr> else r)" using row
      by (cases "find (\<lambda>x. dr_id x = d) (drivers s)") simp_all
    then show ?thesis using find_SomeD by fastforce
  qed
  moreover obtain on st where "presence_thresholds ev = (on, st)" by force
  ultimately show ?thesis
    using presence_thresholds_pos[of ev on st] by (auto simp: owner_is_offline_iff nd)
qed

text \<open>A registered wait keeps its driver online until its bound, whatever was declared.\<close>

lemma wait_begin_online:
  assumes "wait_begin ev d timeout s = (wid, t)" "now_at ev' \<le> add_seconds (now_at ev) (timeout + WAIT_SLACK_SECONDS)"
  shows "pr_status (effective_presence ev' t d) = Online"
proof -
  have "\<exists>w \<in> set (waits t). w_driver w = d \<and> wait_open (now_at ev') w"
    using assms by (auto simp: wait_begin_def Let_def wait_open_def)
  then show ?thesis by (simp add: effective_presence_status)
qed

end
