(* ===== verification/Claims.thy ===== *)
theory Claims
  imports Presence "HOL-Library.Product_Lexorder"
begin

text \<open>
  \<open>src/core/state_claims.py\<close>: node claims, leases, fences and heartbeats. A claim is a recorded
  declaration; only the lapse of its grace, a release, a takeover or a transfer ends it. The sweep
  emits each expiry event once and never touches an attempt.
\<close>

section \<open>Leases\<close>

definition DEFAULT_LEASE_SECONDS :: int where "DEFAULT_LEASE_SECONDS = 7200"
definition MIN_LEASE_SECONDS :: int where "MIN_LEASE_SECONDS = 60"
definition MAX_LEASE_SECONDS :: int where "MAX_LEASE_SECONDS = 86400"
definition GRACE_SECONDS :: int where "GRACE_SECONDS = 900"
definition MAX_HEARTBEAT_ITEMS :: nat where "MAX_HEARTBEAT_ITEMS = 100"

datatype lease = Healthy | LeaseExpired | Reclaimable | LegacyUnleased

fun lease_name :: "lease \<Rightarrow> string" where
  "lease_name Healthy = ''healthy''"
| "lease_name LeaseExpired = ''expired''"
| "lease_name Reclaimable = ''reclaimable''"
| "lease_name LegacyUnleased = ''legacy_unleased''"

definition lease_state :: "int option \<Rightarrow> int \<Rightarrow> lease" where
  "lease_state expires current = (case expires of
     None \<Rightarrow> LegacyUnleased
   | Some e \<Rightarrow> if current < e then Healthy
              else if current < add_seconds e GRACE_SECONDS then LeaseExpired
              else Reclaimable)"

definition PURPOSES :: "purpose list" where
  "PURPOSES = [Implement, Review, Investigate, Plan]"

definition EXCLUSIVE_PURPOSES :: "purpose list" where
  "EXCLUSIVE_PURPOSES = [Implement, Plan]"

definition parse_purpose :: "string \<Rightarrow> purpose option" where
  "parse_purpose p = find (\<lambda>x. purpose_name x = p) PURPOSES"

record attempt_lease =
  al_owner :: "string option"
  al_fence :: "int option"
  al_expires :: "int option"
  al_state :: "lease option"
  al_reclaimable_at :: "int option"

definition attempt_lease_view :: "attempt \<Rightarrow> int \<Rightarrow> attempt_lease" where
  "attempt_lease_view a current =
     (if a_status a \<notin> set ACTIVE
      then \<lparr>al_owner = a_owner a, al_fence = None, al_expires = a_lease a, al_state = None, al_reclaimable_at = None\<rparr>
      else \<lparr>al_owner = a_owner a, al_fence = Some (a_fence a), al_expires = a_lease a,
            al_state = Some (lease_state (a_lease a) current),
            al_reclaimable_at = map_option (\<lambda>e. add_seconds e GRACE_SECONDS) (a_lease a)\<rparr>)"

record claim_view =
  cv_claim :: claim
  cv_lease :: "lease option"
  cv_reclaimable_at :: int

definition view_claim :: "int \<Rightarrow> claim \<Rightarrow> claim_view" where
  "view_claim current c = \<lparr>cv_claim = c,
     cv_lease = (if c_status c = Live then Some (lease_state (Some (c_expires c)) current) else None),
     cv_reclaimable_at = add_seconds (c_expires c) GRACE_SECONDS\<rparr>"

definition live_claims :: "db \<Rightarrow> string \<Rightarrow> string option \<Rightarrow> int \<Rightarrow> claim_view list" where
  "live_claims s pid nk current = map (view_claim current)
     (sort_key (\<lambda>c. (c_created c, c_id c))
       (filter (\<lambda>c. c_project c = pid \<and> c_status c = Live \<and> (case nk of None \<Rightarrow> True | Some k \<Rightarrow> c_node c = k)) (claims s)))"

section \<open>Rows\<close>

definition require_driver :: "caller \<Rightarrow> string result" where
  "require_driver c = (case by_driver c of
     None \<Rightarrow> Inl (ClaimError ''driver_identity_required'')
   | Some d \<Rightarrow> if d = [] then Inl (ClaimError ''driver_identity_required'') else Inr d)"

definition claim_at :: "db \<Rightarrow> string \<Rightarrow> claim option" where
  "claim_at s cid = find (\<lambda>c. c_id c = cid) (claims s)"

definition get_claim_row :: "db \<Rightarrow> string \<Rightarrow> string \<Rightarrow> claim result" where
  "get_claim_row s pid cid =
     bindE (check_key (PStr cid)) (\<lambda>k.
     require_some (find (\<lambda>c. c_id c = k \<and> c_project c = pid) (claims s)) (StateNotFound ''claim not found in project''))"

definition update_claim :: "string \<Rightarrow> (claim \<Rightarrow> claim) \<Rightarrow> db \<Rightarrow> db" where
  "update_claim cid f s = s\<lparr>claims := update_where (\<lambda>c. c_id c = cid) f (claims s)\<rparr>"

text \<open>\<open>_history\<close>.\<close>

definition add_history :: "env \<Rightarrow> string \<Rightarrow> claim \<Rightarrow> claim_status \<Rightarrow> string \<Rightarrow> db \<Rightarrow> db" where
  "add_history ev act c status reason s =
     s\<lparr>claim_log := claim_log s @ [\<lparr>ch_claim = c_id c, ch_project = c_project c, ch_node = c_node c, ch_driver = c_driver c,
        ch_purpose = c_purpose c, ch_status = status, ch_fence = c_fence c, ch_expires = c_expires c,
        ch_actor = act, ch_reason = reason, ch_created = now_at ev\<rparr>]\<rparr>"

text \<open>\<open>1 + COALESCE(MAX(fence), 0)\<close> over the claims of a node.\<close>

definition next_fence :: "db \<Rightarrow> string \<Rightarrow> string \<Rightarrow> int" where
  "next_fence s pid k = 1 + fold (\<lambda>c m. if c_project c = pid \<and> c_node c = k then max m (c_fence c) else m) (claims s) 0"

definition live_exclusive :: "string \<Rightarrow> string \<Rightarrow> claim \<Rightarrow> bool" where
  "live_exclusive pid k c \<longleftrightarrow> c_project c = pid \<and> c_node c = k \<and> c_status c = Live \<and> c_purpose c \<in> set EXCLUSIVE_PURPOSES"

text \<open>A claim row as every insert builds it: live, with a fresh lease.\<close>

definition new_claim :: "string \<Rightarrow> string \<Rightarrow> string \<Rightarrow> string \<Rightarrow> purpose \<Rightarrow> int \<Rightarrow> int \<Rightarrow> string option \<Rightarrow> string \<Rightarrow> string option
    \<Rightarrow> int \<Rightarrow> int \<Rightarrow> string \<Rightarrow> string \<Rightarrow> claim" where
  "new_claim cid pid k driver pu fence revno attempt workspace subagent secs current request_key request_hash =
     \<lparr>c_id = cid, c_project = pid, c_node = k, c_driver = driver, c_purpose = pu, c_status = Live, c_fence = fence,
      c_revision = revno, c_attempt = attempt, c_workspace = workspace, c_subagent = subagent, c_lease_seconds = secs,
      c_expires = add_seconds current secs, c_heartbeat = current, c_request_key = request_key,
      c_request_hash = request_hash, c_created = current, c_updated = current\<rparr>"

lemma new_claim_simps [simp]:
  "c_id (new_claim cid pid k dr pu fe rv at ws su se cu rk rh) = cid"
  "c_project (new_claim cid pid k dr pu fe rv at ws su se cu rk rh) = pid"
  "c_node (new_claim cid pid k dr pu fe rv at ws su se cu rk rh) = k"
  "c_driver (new_claim cid pid k dr pu fe rv at ws su se cu rk rh) = dr"
  "c_purpose (new_claim cid pid k dr pu fe rv at ws su se cu rk rh) = pu"
  "c_status (new_claim cid pid k dr pu fe rv at ws su se cu rk rh) = Live"
  "c_fence (new_claim cid pid k dr pu fe rv at ws su se cu rk rh) = fe"
  "c_attempt (new_claim cid pid k dr pu fe rv at ws su se cu rk rh) = at"
  "c_lease_seconds (new_claim cid pid k dr pu fe rv at ws su se cu rk rh) = se"
  "c_expires (new_claim cid pid k dr pu fe rv at ws su se cu rk rh) = add_seconds cu se"
  "c_request_key (new_claim cid pid k dr pu fe rv at ws su se cu rk rh) = rk"
  by (simp_all add: new_claim_def)

section \<open>Lazy expiry\<close>

definition expiry_seen :: "db \<Rightarrow> string \<Rightarrow> string \<Rightarrow> string \<Rightarrow> int \<Rightarrow> lease \<Rightarrow> bool" where
  "expiry_seen s pid k lease_id expires phase \<longleftrightarrow>
     list_ex (\<lambda>e. e_project e = pid \<and> e_node e = Some k \<and> e_type e = ''lease_expired'' \<and>
        dict_get ''lease_id'' (e_payload e) = Some (PStr lease_id) \<and>
        dict_get ''lease_expires_at'' (e_payload e) = Some (PInt expires) \<and>
        dict_get ''phase'' (e_payload e) = Some (PStr (lease_name phase))) (events s)"

datatype due = DueClaim claim lease | DueAttempt attempt lease

definition of_node :: "string option \<Rightarrow> string \<Rightarrow> bool" where
  "of_node nk k = (case nk of None \<Rightarrow> True | Some k' \<Rightarrow> k = k')"

definition due_leases :: "db \<Rightarrow> string \<Rightarrow> int \<Rightarrow> string option \<Rightarrow> due list" where
  "due_leases s pid current nk =
     map (\<lambda>c. DueClaim c (lease_state (Some (c_expires c)) current))
       (filter (\<lambda>c. c_project c = pid \<and> c_status c = Live \<and> c_expires c \<le> current \<and> of_node nk (c_node c) \<and>
          (lease_state (Some (c_expires c)) current = Reclaimable \<or>
           \<not> expiry_seen s pid (c_node c) (c_id c) (c_expires c) (lease_state (Some (c_expires c)) current))) (claims s)) @
     map (\<lambda>a. DueAttempt a (lease_state (a_lease a) current))
       (filter (\<lambda>a. a_project a = pid \<and> (case a_lease a of None \<Rightarrow> False | Some e \<Rightarrow> e \<le> current \<and>
            \<not> expiry_seen s pid (a_node a) (a_id a) e (lease_state (a_lease a) current)) \<and>
          a_status a \<in> set ACTIVE \<and> of_node nk (a_node a)) (attempts s))"

definition expiry_payload :: "string \<Rightarrow> string \<Rightarrow> int \<Rightarrow> lease \<Rightarrow> (string \<times> pyval) list" where
  "expiry_payload subject lease_id expires phase =
     [(''subject'', PStr subject), (''lease_id'', PStr lease_id), (''phase'', PStr (lease_name phase)),
      (''lease_expires_at'', PInt expires), (''reclaimable_at'', PInt (add_seconds expires GRACE_SECONDS))]"

definition sweep_one :: "env \<Rightarrow> string \<Rightarrow> string \<Rightarrow> int \<Rightarrow> due \<Rightarrow> db \<Rightarrow> db" where
  "sweep_one ev act pid current d s = (case d of
     DueClaim c phase \<Rightarrow>
       let payload = PDict (expiry_payload ''claim'' (c_id c) (c_expires c) phase @
             [(''claim_id'', PStr (c_id c)), (''driver_id'', PStr (c_driver c)), (''purpose'', PStr (purpose_name (c_purpose c))),
              (''fence'', PInt (c_fence c))]);
           s1 = (if phase = Reclaimable
                 then add_history ev act c Expired ''lease expired and its grace passed''
                        (update_claim (c_id c) (\<lambda>x. x\<lparr>c_status := Expired, c_updated := current\<rparr>) s)
                 else s)
       in add_event ev pid (Some (c_node c)) ''lease_expired'' payload s1
   | DueAttempt a phase \<Rightarrow>
       add_event ev pid (Some (a_node a)) ''lease_expired''
         (PDict (expiry_payload ''attempt'' (a_id a) (the (a_lease a)) phase @
            [(''attempt_id'', PStr (a_id a)), (''driver_id'', py_str_opt (a_owner a)), (''fence'', PInt (a_fence a)),
             (''attempt_status'', PStr (attempt_status_name (a_status a)))])) s)"

definition sweep_conn :: "env \<Rightarrow> string \<Rightarrow> string \<Rightarrow> int \<Rightarrow> string option \<Rightarrow> db \<Rightarrow> db" where
  "sweep_conn ev act pid current nk s = fold (sweep_one ev act pid current) (due_leases s pid current nk) s"

definition sweep :: "env \<Rightarrow> caller \<Rightarrow> string \<Rightarrow> db \<Rightarrow> db" where
  "sweep ev c pid s = (if \<not> by_trusted c then s else sweep_conn ev (by_actor c) pid (now_at ev) None s)"

section \<open>Claiming and releasing\<close>

definition refuse_exclusive_holder :: "db \<Rightarrow> string \<Rightarrow> string \<Rightarrow> string \<Rightarrow> unit result" where
  "refuse_exclusive_holder s pid k driver = (case find (live_exclusive pid k) (claims s) of
     None \<Rightarrow> Inr ()
   | Some holder \<Rightarrow> if c_driver holder = driver then Inl (ClaimError ''already_held'') else Inl (ClaimError ''claimed_by_other''))"

text \<open>
  The insert of a claim: the primary key, the request key and the partial unique index on live
  exclusive claims are SQLite's to enforce.
\<close>

definition claim_conflict :: "db \<Rightarrow> claim \<Rightarrow> bool" where
  "claim_conflict s c \<longleftrightarrow> list_ex (\<lambda>x. c_id x = c_id c \<or>
     (c_project x = c_project c \<and> c_node x = c_node c \<and> c_driver x = c_driver c \<and> c_request_key x = c_request_key c) \<or>
     (live_exclusive (c_project c) (c_node c) x \<and> live_exclusive (c_project c) (c_node c) c)) (claims s)"

definition insert_claim :: "claim \<Rightarrow> db \<Rightarrow> db result" where
  "insert_claim c s = (if claim_conflict s c then Inl (IntegrityError ''state_node_claims'') else Inr (s\<lparr>claims := claims s @ [c]\<rparr>))"

definition acquired_payload :: "caller \<Rightarrow> claim \<Rightarrow> (string \<times> pyval) list" where
  "acquired_payload c cl = [(''claim_id'', PStr (c_id cl)), (''driver_id'', PStr (c_driver cl)),
     (''purpose'', PStr (purpose_name (c_purpose cl))), (''fence'', PInt (c_fence cl)),
     (''lease_expires_at'', PInt (c_expires cl)), (''workspace'', PStr (c_workspace cl)),
     (''subagent'', py_str_opt (c_subagent cl))]"

definition claim_node :: "env \<Rightarrow> caller \<Rightarrow> string \<Rightarrow> string \<Rightarrow> string \<Rightarrow> int \<Rightarrow> string \<Rightarrow> int \<Rightarrow> string \<Rightarrow> string option
    \<Rightarrow> db \<Rightarrow> ((claim_view \<times> bool) \<times> db) result" where
  "claim_node ev c pid k purpose expected request_key lease_seconds workspace subagent s =
     bindE (require_driver c) (\<lambda>driver.
     bindE (require_some (parse_purpose purpose) (StateGraphError ''purpose must be implement, review, investigate or plan'')) (\<lambda>pu.
     bindE (raise_if (\<not> (MIN_LEASE_SECONDS \<le> lease_seconds \<and> lease_seconds \<le> MAX_LEASE_SECONDS))
              (StateGraphError ''lease_seconds must be an integer in range'')) (\<lambda>_.
     bindE (check_key (PStr request_key)) (\<lambda>_.
     bindE (raise_if (length workspace > 500) (StateGraphError ''workspace must be text of at most 500 characters'')) (\<lambda>_.
     bindE (raise_if (case subagent of None \<Rightarrow> False | Some sub \<Rightarrow> \<not> (starts_with sub (driver @ ''/'') \<and>
                length sub > length driver + 1 \<and> length sub \<le> 320)) (ClaimError ''not_your_subagent'')) (\<lambda>_.
     let request_hash = digest ev (PDict [(''purpose'', PStr purpose), (''revision'', PInt expected),
           (''lease_seconds'', PInt lease_seconds), (''workspace'', PStr workspace), (''subagent'', py_str_opt subagent)]);
         s0 = mark_back ev (Some driver) ''claim_node'' s in
     bindE (get_node s0 pid k) (\<lambda>n.
     case find (\<lambda>x. c_project x = pid \<and> c_node x = k \<and> c_driver x = driver \<and> c_request_key x = request_key) (claims s0) of
       Some old \<Rightarrow>
         if c_request_hash old \<noteq> request_hash then Inl (ClaimError ''request_key_reused'')
         else Inr ((view_claim (now_at ev) old, True), s0)
     | None \<Rightarrow>
         bindE (raise_if (n_revision n \<noteq> expected) (ClaimError ''revision_changed'')) (\<lambda>_.
         bindE (raise_if (n_status n = SUPERSEDED \<or> pu = Implement \<and> n_status n = VERIFIED) (ClaimError ''node_closed'')) (\<lambda>_.
         let current = now_at ev;
             s1 = sweep_conn ev (by_actor c) pid current (Some k) s0 in
         bindE (if pu \<in> set EXCLUSIVE_PURPOSES then refuse_exclusive_holder s1 pid k driver else Inr ()) (\<lambda>_.
         let cl = new_claim (fresh_id ev ''claim-'' 0) pid k driver pu (next_fence s1 pid k) (n_revision n) None workspace
                     subagent lease_seconds current request_key request_hash in
         bindE (case insert_claim cl s1 of
                  Inr s2 \<Rightarrow> Inr s2
                | Inl _ \<Rightarrow> bindE (refuse_exclusive_holder s1 pid k driver) (\<lambda>_. Inl (ClaimError ''claimed_by_other''))) (\<lambda>s2.
         let s3 = add_history ev (by_actor c) cl Live [] s2;
             s4 = add_event ev pid (Some k) ''claim_acquired'' (PDict (acquired_payload c cl @ [(''actor'', PStr (by_actor c))])) s3
         in Inr ((view_claim current cl, False), s4))))))))))))"

definition released_payload :: "caller \<Rightarrow> claim \<Rightarrow> string \<Rightarrow> bool \<Rightarrow> pyval" where
  "released_payload c cl reason break_glass = PDict [(''claim_id'', PStr (c_id cl)), (''driver_id'', PStr (c_driver cl)),
     (''purpose'', PStr (purpose_name (c_purpose cl))), (''fence'', PInt (c_fence cl)), (''reason'', PStr reason),
     (''actor'', PStr (by_actor c)), (''break_glass'', PBool break_glass)]"

definition release_claim :: "env \<Rightarrow> caller \<Rightarrow> string \<Rightarrow> string \<Rightarrow> int \<Rightarrow> string \<Rightarrow> db \<Rightarrow> ((claim_view \<times> bool) \<times> db) result" where
  "release_claim ev c pid cid fence reason s =
     bindE (check_text (PStr reason) 2000) (\<lambda>reason'.
     bindE (if by_admin c then Inr [] else require_driver c) (\<lambda>_.
     bindE (get_project s pid) (\<lambda>_.
     bindE (get_claim_row s pid cid) (\<lambda>cl.
     let own = (by_driver c = Some (c_driver cl)) in
     bindE (raise_if (\<not> own \<and> \<not> by_admin c) (ClaimError ''not_claim_owner'')) (\<lambda>_.
     bindE (raise_if (fence \<noteq> c_fence cl) (ClaimError ''stale_fence'')) (\<lambda>_.
     if c_status cl = Released then Inr ((view_claim (now_at ev) cl, True), s)
     else if c_status cl = TakenOver then Inl (ClaimError ''stale_fence'')
     else if c_status cl \<noteq> Live then Inl (ClaimError ''claim_not_live'')
     else
       let cl' = cl\<lparr>c_status := Released, c_updated := now_at ev\<rparr>;
           s1 = update_claim cid (\<lambda>x. x\<lparr>c_status := Released, c_updated := now_at ev\<rparr>) s;
           s2 = add_history ev (by_actor c) cl' Released reason' s1;
           s3 = add_event ev pid (Some (c_node cl)) ''claim_released'' (released_payload c cl' reason' (\<not> own)) s2
       in Inr ((view_claim (now_at ev) cl', False), s3)))))))"

section \<open>Heartbeats\<close>

datatype renewal =
    Renewed string string int int
  | Refused string string string

definition renew_claim :: "env \<Rightarrow> claim \<Rightarrow> renewal list \<times> db \<Rightarrow> renewal list \<times> db" where
  "renew_claim ev cl = (\<lambda>(out, s).
     let expires = add_seconds (now_at ev) (c_lease_seconds cl) in
     (out @ [Renewed ''claim'' (c_id cl) (c_fence cl) expires],
      update_claim (c_id cl) (\<lambda>x. x\<lparr>c_expires := expires, c_heartbeat := now_at ev\<rparr>) s))"

definition beat_claim :: "env \<Rightarrow> string \<Rightarrow> string \<Rightarrow> string \<times> int \<Rightarrow> renewal list \<times> db \<Rightarrow> renewal list \<times> db" where
  "beat_claim ev pid driver = (\<lambda>(cid, fence) (out, s).
     (case find (\<lambda>c. c_id c = cid \<and> c_project c = pid) (claims s) of
        None \<Rightarrow> (out @ [Refused ''claim'' cid ''not_found''], s)
      | Some row \<Rightarrow>
          if c_driver row \<noteq> driver then (out @ [Refused ''claim'' cid ''not_claim_owner''], s)
          else if c_fence row \<noteq> fence \<or> c_status row = TakenOver then (out @ [Refused ''claim'' cid ''stale_fence''], s)
          else if c_status row \<noteq> Live then (out @ [Refused ''claim'' cid ''claim_not_live''], s)
          else renew_claim ev row (out, s)))"

definition attempt_at :: "db \<Rightarrow> string \<Rightarrow> attempt option" where
  "attempt_at s aid = find (\<lambda>a. a_id a = aid) (attempts s)"

definition update_attempt :: "string \<Rightarrow> (attempt \<Rightarrow> attempt) \<Rightarrow> db \<Rightarrow> db" where
  "update_attempt aid f s = s\<lparr>attempts := update_where (\<lambda>a. a_id a = aid) f (attempts s)\<rparr>"

definition beat_attempt :: "env \<Rightarrow> string \<Rightarrow> string \<Rightarrow> string \<times> int \<Rightarrow> renewal list \<times> db \<Rightarrow> renewal list \<times> db" where
  "beat_attempt ev pid driver = (\<lambda>(aid, fence) (out, s).
     (case find (\<lambda>a. a_id a = aid \<and> a_project a = pid) (attempts s) of
        None \<Rightarrow> (out @ [Refused ''attempt'' aid ''not_found''], s)
      | Some row \<Rightarrow>
          if a_status row \<notin> set ACTIVE then (out @ [Refused ''attempt'' aid ''attempt_not_active''], s)
          else if a_owner row = None \<or> a_lease row = None then (out @ [Refused ''attempt'' aid ''legacy_unleased''], s)
          else if a_owner row \<noteq> Some driver then (out @ [Refused ''attempt'' aid ''not_attempt_owner''], s)
          else if a_fence row \<noteq> fence then (out @ [Refused ''attempt'' aid ''stale_fence''], s)
          else let expires = add_seconds (now_at ev) DEFAULT_LEASE_SECONDS in
            (out @ [Renewed ''attempt'' aid (a_fence row) expires],
             update_attempt aid (\<lambda>a. a\<lparr>a_lease := Some expires, a_heartbeat := Some (now_at ev)\<rparr>) s)))"

definition beat_subagent :: "env \<Rightarrow> string \<Rightarrow> string \<Rightarrow> string \<Rightarrow> renewal list \<times> db \<Rightarrow> renewal list \<times> db" where
  "beat_subagent ev pid driver label = (\<lambda>(out, s).
     if \<not> starts_with label (driver @ ''/'') \<or> length label \<le> length driver + 1
     then (out @ [Refused ''subagent'' label ''not_your_subagent''], s)
     else
       let rows = sort_key c_id (filter (\<lambda>c. c_project c = pid \<and> c_driver c = driver \<and> c_subagent c = Some label \<and> c_status c = Live) (claims s)) in
       if rows = [] then (out @ [Refused ''subagent'' label ''no_live_claims''], s)
       else fold (renew_claim ev) rows (out, s))"

definition heartbeat :: "env \<Rightarrow> caller \<Rightarrow> string \<Rightarrow> (string \<times> int) list \<Rightarrow> (string \<times> int) list \<Rightarrow> string list
    \<Rightarrow> db \<Rightarrow> (renewal list \<times> db) result" where
  "heartbeat ev c pid cs as subs s =
     bindE (require_driver c) (\<lambda>driver.
     let total = length cs + length as + length subs in
     bindE (raise_if (\<not> (1 \<le> total \<and> total \<le> MAX_HEARTBEAT_ITEMS)) (StateGraphError ''heartbeat takes 1 to 100 items'')) (\<lambda>_.
     bindE (get_project s pid) (\<lambda>_.
     let s0 = mark_back ev (Some driver) ''heartbeat'' s in
     Inr (fold (beat_subagent ev pid driver) subs
           (fold (beat_attempt ev pid driver) as
             (fold (beat_claim ev pid driver) cs ([], s0)))))))"

section \<open>Reads\<close>

text \<open>
  \<open>annotate_claims\<close>: a claim as others see it, with its holder's presence (without the declared reason, which
  is the holder's own) and, for a live claim whose holder is offline, the claim and fence a takeover
  would name.
\<close>

definition without_reason :: "presence \<Rightarrow> presence" where
  "without_reason p = p\<lparr>pr_declaration := map_option (\<lambda>d. d\<lparr>dc_reason := []\<rparr>) (pr_declaration p)\<rparr>"

record annotated_claim =
  ac_view :: claim_view
  ac_presence :: presence
  ac_takeover_hint :: "(string \<times> int) option"

definition annotate_claim :: "env \<Rightarrow> db \<Rightarrow> claim_view \<Rightarrow> annotated_claim" where
  "annotate_claim ev s v =
     (let c = cv_claim v; p = without_reason (effective_presence ev s (c_driver c)) in
      \<lparr>ac_view = v, ac_presence = p,
       ac_takeover_hint = (if c_status c = Live \<and> pr_status p = Offline then Some (c_id c, c_fence c) else None)\<rparr>)"

text \<open>
  \<open>get_claim\<close> and \<open>list_claims\<close> sweep in a transaction of their own and then read in another: the sweep
  stays even when the read that follows it fails.
\<close>

definition read_claim :: "env \<Rightarrow> string \<Rightarrow> string \<Rightarrow> db \<Rightarrow> (annotated_claim \<times> claim_history list) result" where
  "read_claim ev pid cid s =
     bindE (get_project s pid) (\<lambda>_.
     bindE (get_claim_row s pid cid) (\<lambda>cl.
     Inr (annotate_claim ev s (view_claim (now_at ev) cl), filter (\<lambda>h. ch_claim h = cid) (claim_log s))))"

definition get_claim :: "env \<Rightarrow> caller \<Rightarrow> string \<Rightarrow> string \<Rightarrow> db \<Rightarrow> (annotated_claim \<times> claim_history list) result \<times> db" where
  "get_claim ev c pid cid s =
     (if \<not> by_trusted c then (Inl (StateGraphError ''project_private''), s)
      else let s1 = sweep ev c pid s in (read_claim ev pid cid s1, s1))"

definition read_claims :: "env \<Rightarrow> string \<Rightarrow> string list option \<Rightarrow> claim_status list \<Rightarrow> string option \<Rightarrow> nat \<Rightarrow> db
    \<Rightarrow> (annotated_claim list \<times> bool) result" where
  "read_claims ev pid node_keys wanted driver limit s =
     bindE (get_project s pid) (\<lambda>_.
     let rows = sort_key (\<lambda>x. (- c_created x, c_id x))
           (filter (\<lambda>x. c_project x = pid \<and> c_status x \<in> set wanted \<and>
               (case node_keys of None \<Rightarrow> True | Some ks \<Rightarrow> c_node x \<in> set ks) \<and>
               (case driver of None \<Rightarrow> True | Some d \<Rightarrow> c_driver x = d)) (claims s))
     in Inr (map (\<lambda>x. annotate_claim ev s (view_claim (now_at ev) x)) (take limit rows), limit < length rows))"

definition list_claims :: "env \<Rightarrow> caller \<Rightarrow> string \<Rightarrow> string list option \<Rightarrow> claim_status list \<Rightarrow> string option \<Rightarrow> nat
    \<Rightarrow> db \<Rightarrow> (annotated_claim list \<times> bool) result \<times> db" where
  "list_claims ev c pid node_keys statuses driver limit s =
     (if \<not> by_trusted c then (Inl (StateGraphError ''project_private''), s)
      else case (case node_keys of None \<Rightarrow> Inr [] | Some ks \<Rightarrow> mapE (\<lambda>k. check_key (PStr k)) ks) of
        Inl e \<Rightarrow> (Inl e, s)
      | Inr _ \<Rightarrow>
          let s1 = sweep ev c pid s in (read_claims ev pid node_keys (if statuses = [] then [Live] else statuses) driver limit s1, s1))"

end
