(* ===== verification/Claims_Inv.thy ===== *)
theory Claims_Inv
  imports Claims
begin

text \<open>
  What the claim operations keep: unique identifiers, at most one live exclusive claim per node,
  fences that are distinct per node (so a new holder always has a higher fence than every earlier
  one), lease lengths in range. A claim that left \<open>live\<close> never returns to it. The sweep and every
  claim operation leave nodes, attempts' outcomes, evidence and receipts alone.
\<close>

section \<open>The table invariant\<close>

definition claims_ok :: "claim list \<Rightarrow> bool" where
  "claims_ok cs \<longleftrightarrow> distinct (map c_id cs) \<and>
     (\<forall>c \<in> set cs. \<forall>d \<in> set cs. \<forall>pid k. live_exclusive pid k c \<and> live_exclusive pid k d \<longrightarrow> c_id c = c_id d) \<and>
     distinct (map (\<lambda>c. (c_project c, c_node c, c_fence c)) cs) \<and>
     (\<forall>c \<in> set cs. 1 \<le> c_fence c \<and> MIN_LEASE_SECONDS \<le> c_lease_seconds c \<and> c_lease_seconds c \<le> MAX_LEASE_SECONDS)"

lemma claims_ok_Nil [simp]: "claims_ok []"
  by (simp add: claims_ok_def)

lemma claims_ok_unique: "claims_ok cs \<Longrightarrow> c \<in> set cs \<Longrightarrow> d \<in> set cs \<Longrightarrow> c_id c = c_id d \<Longrightarrow> c = d"
  by (auto simp: claims_ok_def distinct_map inj_on_def)

lemma claims_ok_one_exclusive:
  assumes "claims_ok cs"
  shows "length (filter (live_exclusive pid k) cs) \<le> 1"
proof -
  have "distinct (filter (live_exclusive pid k) cs)" using assms by (auto simp: claims_ok_def distinct_map)
  then have "length (filter (live_exclusive pid k) cs) = card {c \<in> set cs. live_exclusive pid k c}"
    using distinct_card by fastforce
  also have "\<dots> \<le> 1"
  proof -
    have "c = d" if "c \<in> {c \<in> set cs. live_exclusive pid k c}" "d \<in> {c \<in> set cs. live_exclusive pid k c}" for c d
      using that assms claims_ok_unique[OF assms, of c d] by (auto simp: claims_ok_def)
    then show ?thesis by (auto intro!: card_le_Suc0_iff_eq[THEN iffD2])
  qed
  finally show ?thesis .
qed

text \<open>An update that keeps the keys, the fence and the purpose and does not revive a claim.\<close>

definition keeps_claim :: "claim \<Rightarrow> claim \<Rightarrow> bool" where
  "keeps_claim c c' \<longleftrightarrow> c_id c' = c_id c \<and> c_project c' = c_project c \<and> c_node c' = c_node c \<and> c_driver c' = c_driver c \<and>
     c_purpose c' = c_purpose c \<and> c_fence c' = c_fence c \<and> c_lease_seconds c' = c_lease_seconds c \<and>
     c_request_key c' = c_request_key c \<and> (c_status c' = c_status c \<or> c_status c = Live)"

lemma keeps_claim_refl [simp]: "keeps_claim c c"
  by (simp add: keeps_claim_def)

lemma claims_ok_list_update:
  assumes ok: "claims_ok cs" and k: "list_all2 keeps_claim cs cs'"
  shows "claims_ok cs'"
proof -
  have m: "map c_id cs' = map c_id cs" "map (\<lambda>c. (c_project c, c_node c, c_fence c)) cs' = map (\<lambda>c. (c_project c, c_node c, c_fence c)) cs"
    using k by (induction rule: list_all2_induct) (auto simp: keeps_claim_def)
  have pre: "\<exists>c \<in> set cs. keeps_claim c c'" if "c' \<in> set cs'" for c'
    using k that by (induction rule: list_all2_induct) auto
  have "c_id c = c_id d" if cd: "c \<in> set cs'" "d \<in> set cs'" "live_exclusive pid k c" "live_exclusive pid k d" for c d pid k
  proof -
    obtain c0 d0 where o: "c0 \<in> set cs" "keeps_claim c0 c" "d0 \<in> set cs" "keeps_claim d0 d" using pre cd(1,2) by blast
    then have "live_exclusive pid k c0" "live_exclusive pid k d0" using cd(3,4) by (auto simp: live_exclusive_def keeps_claim_def)
    then have "c_id c0 = c_id d0" using o ok unfolding claims_ok_def by blast
    then show ?thesis using o by (simp add: keeps_claim_def)
  qed
  moreover have "\<forall>c \<in> set cs'. 1 \<le> c_fence c \<and> MIN_LEASE_SECONDS \<le> c_lease_seconds c \<and> c_lease_seconds c \<le> MAX_LEASE_SECONDS"
    using pre ok by (fastforce simp: claims_ok_def keeps_claim_def)
  ultimately show ?thesis using ok m unfolding claims_ok_def by (simp only:) blast
qed

lemma keeps_update_where:
  "(\<And>c. c \<in> set cs \<Longrightarrow> P c \<Longrightarrow> keeps_claim c (f c)) \<Longrightarrow> list_all2 keeps_claim cs (update_where P f cs)"
  by (induction cs) (auto simp: update_where_Cons)

lemma keeps_claim_trans: "keeps_claim a b \<Longrightarrow> keeps_claim b c \<Longrightarrow> keeps_claim a c"
  by (auto simp: keeps_claim_def)

lemma list_all2_keeps_trans: "list_all2 keeps_claim as bs \<Longrightarrow> list_all2 keeps_claim bs cs \<Longrightarrow> list_all2 keeps_claim as cs"
  using list_all2_trans[of keeps_claim keeps_claim keeps_claim] keeps_claim_trans by blast

lemma list_all2_keeps_refl [simp]: "list_all2 keeps_claim cs cs"
  by (rule list.rel_refl) simp

section \<open>Fences\<close>

lemma fold_max_ge: "(m :: int) \<le> fold (\<lambda>c m. if P c then max m (f c) else m) cs m"
proof (induction cs arbitrary: m)
  case (Cons c cs)
  have "m \<le> (if P c then max m (f c) else m)" by simp
  also have "\<dots> \<le> fold (\<lambda>c m. if P c then max m (f c) else m) cs (if P c then max m (f c) else m)" by (rule Cons.IH)
  finally show ?case by simp
qed simp

lemma fold_max_mem: "c \<in> set cs \<Longrightarrow> P c \<Longrightarrow> f c \<le> fold (\<lambda>c m. if P c then max m (f c) else m) cs (m :: int)"
proof (induction cs arbitrary: m)
  case (Cons x cs)
  show ?case
  proof (cases "c = x")
    case True
    have "f x \<le> max m (f x)" by simp
    also have "\<dots> \<le> fold (\<lambda>c m. if P c then max m (f c) else m) cs (max m (f x))" by (rule fold_max_ge)
    finally show ?thesis using True Cons.prems by simp
  next
    case False
    then show ?thesis using Cons by simp
  qed
qed simp

text \<open>The next fence of a node exceeds every fence ever given on it.\<close>

lemma next_fence_gt: "c \<in> set (claims s) \<Longrightarrow> c_project c = pid \<Longrightarrow> c_node c = k \<Longrightarrow> c_fence c < next_fence s pid k"
  using fold_max_mem[of c "claims s" "\<lambda>c. c_project c = pid \<and> c_node c = k" c_fence 0]
  by (simp add: next_fence_def)

lemma next_fence_pos: "1 \<le> next_fence s pid k"
  using fold_max_ge[of 0 "\<lambda>c. c_project c = pid \<and> c_node c = k" c_fence "claims s"] by (simp add: next_fence_def)

lemma insert_claim_ok:
  assumes "insert_claim c s = Inr s'" "claims_ok (claims s)" "c_fence c = next_fence s (c_project c) (c_node c)"
    and "MIN_LEASE_SECONDS \<le> c_lease_seconds c" "c_lease_seconds c \<le> MAX_LEASE_SECONDS"
  shows "claims_ok (claims s')" "claims s' = claims s @ [c]" "s' = s\<lparr>claims := claims s @ [c]\<rparr>"
proof -
  have nc: "\<not> claim_conflict s c" and s': "s' = s\<lparr>claims := claims s @ [c]\<rparr>"
    using assms(1) by (auto simp: insert_claim_def split: if_splits)
  have "c_id c \<notin> c_id ` set (claims s)" using nc by (auto simp: claim_conflict_def list_ex_iff)
  moreover have "(c_project c, c_node c, c_fence c) \<notin> (\<lambda>c. (c_project c, c_node c, c_fence c)) ` set (claims s)"
    using next_fence_gt[of _ s "c_project c" "c_node c"] assms(3) by fastforce
  moreover have "\<not> (live_exclusive pid k d \<and> live_exclusive pid k c)" if "d \<in> set (claims s)" for d pid k
    using nc that by (auto simp: claim_conflict_def list_ex_iff live_exclusive_def)
  ultimately show "claims_ok (claims s')" "claims s' = claims s @ [c]" "s' = s\<lparr>claims := claims s @ [c]\<rparr>"
    using assms(2,4,5) next_fence_pos[of s "c_project c" "c_node c"] unfolding s' claims_ok_def assms(3)[symmetric] by auto
qed

section \<open>The sweep\<close>

text \<open>The tables no claim operation writes.\<close>

definition non_claims :: "db \<Rightarrow> db" where
  "non_claims s = s\<lparr>claims := [], claim_log := [], events := []\<rparr>"

lemma non_claims_simps [simp]:
  "non_claims (s\<lparr>claims := cs\<rparr>) = non_claims s"
  "non_claims (s\<lparr>claim_log := hs\<rparr>) = non_claims s"
  "non_claims (add_event ev pid nk ty pl s) = non_claims s"
  "non_claims (add_history ev act c st re s) = non_claims s"
  "non_claims (update_claim cid f s) = non_claims s"
  by (simp_all add: non_claims_def add_event_def add_history_def update_claim_def)

lemma non_claimsD:
  assumes "non_claims s' = non_claims s"
  shows "projects s' = projects s" "nodes s' = nodes s" "deps s' = deps s" "revisions s' = revisions s"
    "attempts s' = attempts s" "evidences s' = evidences s" "acceptances s' = acceptances s"
    "observations s' = observations s" "blobs s' = blobs s" "owners s' = owners s" "enforcements s' = enforcements s"
  using arg_cong[OF assms, of projects] arg_cong[OF assms, of nodes] arg_cong[OF assms, of deps]
    arg_cong[OF assms, of revisions] arg_cong[OF assms, of attempts] arg_cong[OF assms, of evidences]
    arg_cong[OF assms, of acceptances] arg_cong[OF assms, of observations] arg_cong[OF assms, of blobs]
    arg_cong[OF assms, of owners] arg_cong[OF assms, of enforcements]
  by (simp_all add: non_claims_def)

lemma claims_simps [simp]:
  "claims (add_history ev act c st re s) = claims s"
  "claim_log (add_history ev act c st re s) = claim_log s @ [\<lparr>ch_claim = c_id c, ch_project = c_project c, ch_node = c_node c,
     ch_driver = c_driver c, ch_purpose = c_purpose c, ch_status = st, ch_fence = c_fence c, ch_expires = c_expires c,
     ch_actor = act, ch_reason = re, ch_created = now_at ev\<rparr>]"
  "events (add_history ev act c st re s) = events s"
  "events (update_claim cid f s) = events s"
  "claim_log (update_claim cid f s) = claim_log s"
  "claims (update_claim cid f s) = update_where (\<lambda>c. c_id c = cid) f (claims s)"
  by (simp_all add: add_history_def update_claim_def)

definition claim_logs_grow :: "db \<Rightarrow> db \<Rightarrow> bool" where
  "claim_logs_grow s s' \<longleftrightarrow> prefix (events s) (events s') \<and> prefix (claim_log s) (claim_log s')"

lemma claim_logs_grow_refl [simp]: "claim_logs_grow s s"
  by (simp add: claim_logs_grow_def)

lemma claim_logs_grow_trans: "claim_logs_grow s t \<Longrightarrow> claim_logs_grow t u \<Longrightarrow> claim_logs_grow s u"
  unfolding claim_logs_grow_def by (metis prefix_order.trans)

lemma sweep_one_frame:
  "non_claims (sweep_one ev act pid cur d s) = non_claims s"
  "claim_logs_grow s (sweep_one ev act pid cur d s)"
  by (simp_all add: sweep_one_def Let_def claim_logs_grow_def split: due.splits)

text \<open>The sweep ends the live claims of the due list and no other.\<close>

definition swept :: "due list \<Rightarrow> claim \<Rightarrow> bool" where
  "swept ds c \<longleftrightarrow> (\<exists>d. DueClaim d Reclaimable \<in> set ds \<and> c_id d = c_id c)"

lemma sweep_fold:
  "non_claims (fold (sweep_one ev act pid cur) ds s) = non_claims s \<and>
   claims (fold (sweep_one ev act pid cur) ds s) =
     update_where (swept ds) (\<lambda>x. x\<lparr>c_status := Expired, c_updated := cur\<rparr>) (claims s) \<and>
   claim_logs_grow s (fold (sweep_one ev act pid cur) ds s)"
proof (induction ds arbitrary: s)
  case Nil
  then show ?case by (simp add: swept_def[abs_def] update_where_none)
next
  case (Cons d ds)
  have "claims (sweep_one ev act pid cur d s) = update_where (swept [d]) (\<lambda>x. x\<lparr>c_status := Expired, c_updated := cur\<rparr>) (claims s)"
  proof (cases d)
    case (DueClaim c ph)
    have "swept [d] = (if ph = Reclaimable then (\<lambda>x. c_id x = c_id c) else (\<lambda>_. False))"
      by (auto simp: swept_def DueClaim)
    then show ?thesis by (simp add: sweep_one_def Let_def DueClaim update_where_none)
  next
    case (DueAttempt a ph)
    then show ?thesis by (simp add: sweep_one_def swept_def[abs_def] update_where_none)
  qed
  moreover have "update_where (swept ds) (\<lambda>x. x\<lparr>c_status := Expired, c_updated := cur\<rparr>)
      (update_where (swept [d]) (\<lambda>x. x\<lparr>c_status := Expired, c_updated := cur\<rparr>) cs) =
      update_where (swept (d # ds)) (\<lambda>x. x\<lparr>c_status := Expired, c_updated := cur\<rparr>) cs" for cs
    by (induction cs) (auto simp: update_where_Cons swept_def)
  ultimately show ?case
    using Cons.IH[of "sweep_one ev act pid cur d s"] sweep_one_frame[where s = s and d = d and ev = ev and act = act and pid = pid and cur = cur]
    by (auto intro: claim_logs_grow_trans)
qed

lemma swept_due:
  assumes "claims_ok (claims s)" "c \<in> set (claims s)"
  shows "swept (due_leases s pid cur nk) c \<longleftrightarrow> c_project c = pid \<and> c_status c = Live \<and> of_node nk (c_node c) \<and>
     add_seconds (c_expires c) GRACE_SECONDS \<le> cur"
proof -
  have "swept (due_leases s pid cur nk) c \<longleftrightarrow>
     c_project c = pid \<and> c_status c = Live \<and> c_expires c \<le> cur \<and> of_node nk (c_node c) \<and> lease_state (Some (c_expires c)) cur = Reclaimable"
  proof -
    have "DueClaim d Reclaimable \<in> set (due_leases s pid cur nk) \<longleftrightarrow> d \<in> set (claims s) \<and> c_project d = pid \<and>
        c_status d = Live \<and> c_expires d \<le> cur \<and> of_node nk (c_node d) \<and> lease_state (Some (c_expires d)) cur = Reclaimable" for d
      unfolding due_leases_def by (force simp: image_iff)
    then show ?thesis unfolding swept_def using claims_ok_unique[OF assms(1) assms(2)] assms(2) by metis
  qed
  also have "\<dots> \<longleftrightarrow> c_project c = pid \<and> c_status c = Live \<and> of_node nk (c_node c) \<and> add_seconds (c_expires c) GRACE_SECONDS \<le> cur"
    by (auto simp: lease_state_def add_seconds_def GRACE_SECONDS_def)
  finally show ?thesis .
qed

lemma sweep_conn_effect:
  assumes ok: "claims_ok (claims s)"
  shows "non_claims (sweep_conn ev act pid cur nk s) = non_claims s"
    "claims (sweep_conn ev act pid cur nk s) =
       update_where (\<lambda>c. c_project c = pid \<and> c_status c = Live \<and> of_node nk (c_node c) \<and> add_seconds (c_expires c) GRACE_SECONDS \<le> cur)
         (\<lambda>x. x\<lparr>c_status := Expired, c_updated := cur\<rparr>) (claims s)"
    "list_all2 keeps_claim (claims s) (claims (sweep_conn ev act pid cur nk s))"
    "claim_logs_grow s (sweep_conn ev act pid cur nk s)"
proof -
  note f = sweep_fold[where ds = "due_leases s pid cur nk" and s = s and ev = ev and act = act and pid = pid and cur = cur]
  show "non_claims (sweep_conn ev act pid cur nk s) = non_claims s" "claim_logs_grow s (sweep_conn ev act pid cur nk s)"
    using f by (simp_all add: sweep_conn_def)
  show e: "claims (sweep_conn ev act pid cur nk s) =
       update_where (\<lambda>c. c_project c = pid \<and> c_status c = Live \<and> of_node nk (c_node c) \<and> add_seconds (c_expires c) GRACE_SECONDS \<le> cur)
         (\<lambda>x. x\<lparr>c_status := Expired, c_updated := cur\<rparr>) (claims s)"
    using f swept_due[OF ok, of _ pid cur nk] by (auto simp: sweep_conn_def update_where_def)
  show "list_all2 keeps_claim (claims s) (claims (sweep_conn ev act pid cur nk s))"
    unfolding e by (rule keeps_update_where) (simp add: keeps_claim_def)
qed

section \<open>Claim operations\<close>

lemma mark_back_simps [simp]:
  "projects (mark_back ev d ca s) = projects s" "nodes (mark_back ev d ca s) = nodes s"
  "deps (mark_back ev d ca s) = deps s" "revisions (mark_back ev d ca s) = revisions s"
  "events (mark_back ev d ca s) = events s" "attempts (mark_back ev d ca s) = attempts s"
  "evidences (mark_back ev d ca s) = evidences s" "acceptances (mark_back ev d ca s) = acceptances s"
  "observations (mark_back ev d ca s) = observations s" "blobs (mark_back ev d ca s) = blobs s"
  "owners (mark_back ev d ca s) = owners s" "claims (mark_back ev d ca s) = claims s"
  "claim_log (mark_back ev d ca s) = claim_log s" "policies (mark_back ev d ca s) = policies s"
  "enforcements (mark_back ev d ca s) = enforcements s" "holds (mark_back ev d ca s) = holds s"
  by (simp_all add: mark_back_def clear_declaration_def presence_audit_def Let_def split: option.splits)

text \<open>The tables that neither a claim nor a presence write changes.\<close>

definition durable :: "db \<Rightarrow> db" where
  "durable s = s\<lparr>claims := [], claim_log := [], events := [], drivers := [], declarations := [], audits := []\<rparr>"

lemma durable_simps [simp]:
  "durable (s\<lparr>claims := cs\<rparr>) = durable s"
  "durable (add_event ev pid nk ty pl s) = durable s"
  "durable (add_history ev act c st re s) = durable s"
  "durable (update_claim cid f s) = durable s"
  "durable (mark_back ev d ca s) = durable s"
  by (simp_all add: durable_def add_event_def add_history_def update_claim_def mark_back_def clear_declaration_def
      presence_audit_def Let_def split: option.splits)

lemma durable_non_claims: "non_claims s' = non_claims s \<Longrightarrow> durable s' = durable s"
  using arg_cong[of "non_claims s'" "non_claims s" durable] by (simp add: non_claims_def durable_def)

lemma durableD:
  assumes "durable s' = durable s"
  shows "projects s' = projects s" "nodes s' = nodes s" "deps s' = deps s" "revisions s' = revisions s"
    "attempts s' = attempts s" "evidences s' = evidences s" "acceptances s' = acceptances s"
    "observations s' = observations s" "blobs s' = blobs s" "owners s' = owners s" "enforcements s' = enforcements s"
  using arg_cong[OF assms, of projects] arg_cong[OF assms, of nodes] arg_cong[OF assms, of deps]
    arg_cong[OF assms, of revisions] arg_cong[OF assms, of attempts] arg_cong[OF assms, of evidences]
    arg_cong[OF assms, of acceptances] arg_cong[OF assms, of observations] arg_cong[OF assms, of blobs]
    arg_cong[OF assms, of owners] arg_cong[OF assms, of enforcements]
  by (simp_all add: durable_def)

lemma claim_node_cases:
  assumes "claim_node ev c pid k pu ex rk ls ws sub s = Inr ((v, idem), s')"
  obtains (replay) old where "idem" "s' = mark_back ev (by_driver c) ''claim_node'' s"
      "v = view_claim (now_at ev) old" "old \<in> set (claims s)"
    | (fresh) driver n p cl s2 rh where "\<not> idem" "by_driver c = Some driver" "node_at s pid k = Some n" "n_revision n = ex"
      "n_status n \<noteq> SUPERSEDED" "p = Implement \<longrightarrow> n_status n \<noteq> VERIFIED"
      "MIN_LEASE_SECONDS \<le> ls" "ls \<le> MAX_LEASE_SECONDS"
      "cl = new_claim (fresh_id ev ''claim-'' 0) pid k driver p
         (next_fence (sweep_conn ev (by_actor c) pid (now_at ev) (Some k) (mark_back ev (Some driver) ''claim_node'' s)) pid k)
         (n_revision n) None ws sub ls (now_at ev) rk rh"
      "insert_claim cl (sweep_conn ev (by_actor c) pid (now_at ev) (Some k) (mark_back ev (Some driver) ''claim_node'' s)) = Inr s2"
      "v = view_claim (now_at ev) cl"
      "s' = add_event ev pid (Some k) ''claim_acquired'' (PDict (acquired_payload c cl @ [(''actor'', PStr (by_actor c))]))
              (add_history ev (by_actor c) cl Live [] s2)"
proof -
  obtain driver where dr: "by_driver c = Some driver" "require_driver c = Inr driver"
    using assms by (auto simp: claim_node_def require_driver_def split: option.splits if_splits)
  obtain p n where pn: "parse_purpose pu = Some p" "MIN_LEASE_SECONDS \<le> ls" "ls \<le> MAX_LEASE_SECONDS"
    "get_node (mark_back ev (Some driver) ''claim_node'' s) pid k = Inr n"
    using assms by (auto simp: claim_node_def dr Let_def)
  have n: "node_at s pid k = Some n" using pn(4) by (simp add: get_node_iff node_at_def)
  show thesis
  proof (cases "find (\<lambda>x. c_project x = pid \<and> c_node x = k \<and> c_driver x = driver \<and> c_request_key x = rk) (claims s)")
    case (Some old)
    have "idem \<and> s' = mark_back ev (Some driver) ''claim_node'' s \<and> v = view_claim (now_at ev) old"
      using assms Some by (auto simp: claim_node_def dr pn Let_def split: if_splits)
    then show thesis using replay[of old] find_SomeD[OF Some] dr by simp
  next
    case None
    define rh where "rh = digest ev (PDict [(''purpose'', PStr pu), (''revision'', PInt ex),
           (''lease_seconds'', PInt ls), (''workspace'', PStr ws), (''subagent'', py_str_opt sub)])"
    define s1 where "s1 = sweep_conn ev (by_actor c) pid (now_at ev) (Some k) (mark_back ev (Some driver) ''claim_node'' s)"
    define cl where "cl = new_claim (fresh_id ev ''claim-'' 0) pid k driver p (next_fence s1 pid k) (n_revision n) None ws sub ls (now_at ev) rk rh"
    have "n_revision n = ex" "n_status n \<noteq> SUPERSEDED" "p = Implement \<longrightarrow> n_status n \<noteq> VERIFIED"
      using assms None by (auto simp: claim_node_def dr pn Let_def)
    moreover obtain s2 where "insert_claim cl s1 = Inr s2" "\<not> idem" "v = view_claim (now_at ev) cl"
      "s' = add_event ev pid (Some k) ''claim_acquired'' (PDict (acquired_payload c cl @ [(''actor'', PStr (by_actor c))]))
              (add_history ev (by_actor c) cl Live [] s2)"
      using assms None
      by (simp add: claim_node_def dr pn Let_def rh_def[symmetric] s1_def[symmetric] cl_def[symmetric])
         (auto split: sum.splits)
    ultimately show thesis using fresh[OF _ dr(1) n _ _ _ pn(2,3) cl_def[unfolded s1_def]] by (simp add: s1_def)
  qed
qed

lemma sweep_back_effect:
  assumes "claims_ok (claims s)" and t_def: "t = sweep_conn ev act pid cur nk (mark_back ev d ca s)"
  shows "claims_ok (claims t)" "durable t = durable s" "claim_logs_grow s t" "list_all2 keeps_claim (claims s) (claims t)"
proof -
  let ?m = "mark_back ev d ca s"
  have ok: "claims_ok (claims ?m)" using assms(1) by simp
  note e = sweep_conn_effect[OF ok, of ev act pid cur nk, folded t_def]
  show "list_all2 keeps_claim (claims s) (claims t)" using e(3) by simp
  then show "claims_ok (claims t)" using claims_ok_list_update assms(1) by blast
  show "durable t = durable s" using durable_non_claims[OF e(1)] by simp
  show "claim_logs_grow s t" using e(4) by (simp add: claim_logs_grow_def)
qed

lemma claim_node_effect:
  assumes a: "claim_node ev c pid k pu ex rk ls ws sub s = Inr ((v, idem), s')" and ok: "claims_ok (claims s)"
  shows "claims_ok (claims s')" "durable s' = durable s" "claim_logs_grow s s'"
    "idem \<Longrightarrow> claims s' = claims s"
    "\<not> idem \<Longrightarrow> \<exists>cs. claims s' = cs @ [cv_claim v] \<and> list_all2 keeps_claim (claims s) cs \<and> c_status (cv_claim v) = Live \<and>
       c_project (cv_claim v) = pid \<and> c_node (cv_claim v) = k \<and>
       (\<forall>d \<in> set (claims s). c_project d = pid \<and> c_node d = k \<longrightarrow> c_fence d < c_fence (cv_claim v))"
proof -
  from a have "claims_ok (claims s') \<and> durable s' = durable s \<and> claim_logs_grow s s' \<and> (idem \<longrightarrow> claims s' = claims s) \<and>
    (\<not> idem \<longrightarrow> (\<exists>cs. claims s' = cs @ [cv_claim v] \<and> list_all2 keeps_claim (claims s) cs \<and> c_status (cv_claim v) = Live \<and>
       c_project (cv_claim v) = pid \<and> c_node (cv_claim v) = k \<and>
       (\<forall>d \<in> set (claims s). c_project d = pid \<and> c_node d = k \<longrightarrow> c_fence d < c_fence (cv_claim v))))"
  proof (cases rule: claim_node_cases)
    case (replay old)
    then show ?thesis using ok by (simp add: claim_logs_grow_def)
  next
    case (fresh driver n p cl s2 rh)
    define t where "t = sweep_conn ev (by_actor c) pid (now_at ev) (Some k) (mark_back ev (Some driver) ''claim_node'' s)"
    note t = sweep_back_effect[OF ok t_def]
    note cl = fresh(9)[folded t_def] and ins = fresh(10)[folded t_def]
    note i = insert_claim_ok[OF ins t(1)]
    have fence: "c_fence cl = next_fence t pid k" by (simp add: cl)
    have i1: "claims_ok (claims s2)" "claims s2 = claims t @ [cl]" "s2 = t\<lparr>claims := claims t @ [cl]\<rparr>"
      using i fence fresh(7,8) by (simp_all add: cl)
    have gt: "c_fence d < c_fence cl" if d: "d \<in> set (claims s)" "c_project d = pid" "c_node d = k" for d
    proof -
      obtain d' where "d' \<in> set (claims t)" "keeps_claim d d'"
        using list_all2_mem1[OF t(4) d(1)] by blast
      then show ?thesis using next_fence_gt[of d' t pid k] d fence by (simp add: keeps_claim_def)
    qed
    have "claim_logs_grow s s'"
      using t(3) by (auto simp: fresh(12) i1(3) claim_logs_grow_def prefix_def)
    moreover have "durable s' = durable s" using t(2) by (simp add: fresh(12) i1(3))
    moreover have "claims s' = claims t @ [cl]" by (simp add: fresh(12) i1(2))
    moreover have "cv_claim v = cl" by (simp add: fresh(11) view_claim_def)
    ultimately show ?thesis using i1(1,2) t(4) gt fresh(1) by (auto simp: cl)
  qed
  then show "claims_ok (claims s')" "durable s' = durable s" "claim_logs_grow s s'"
    "idem \<Longrightarrow> claims s' = claims s"
    "\<not> idem \<Longrightarrow> \<exists>cs. claims s' = cs @ [cv_claim v] \<and> list_all2 keeps_claim (claims s) cs \<and> c_status (cv_claim v) = Live \<and>
       c_project (cv_claim v) = pid \<and> c_node (cv_claim v) = k \<and>
       (\<forall>d \<in> set (claims s). c_project d = pid \<and> c_node d = k \<longrightarrow> c_fence d < c_fence (cv_claim v))" by auto
qed

lemma release_claim_effect:
  assumes a: "release_claim ev c pid cid fence re s = Inr ((v, idem), s')" and ok: "claims_ok (claims s)"
  shows "claims_ok (claims s')" "durable s' = durable s" "claim_logs_grow s s'" "list_all2 keeps_claim (claims s) (claims s')"
proof -
  obtain cl where cl: "get_claim_row s pid cid = Inr cl" using a by (auto simp: release_claim_def)
  then have mem: "cl \<in> set (claims s)" "c_id cl = cid" by (auto simp: get_claim_row_def dest!: find_SomeD)
  consider "s' = s" | re' where "c_status cl = Live"
      "s' = add_event ev pid (Some (c_node cl)) ''claim_released''
        (released_payload c (cl\<lparr>c_status := Released, c_updated := now_at ev\<rparr>) re' (by_driver c \<noteq> Some (c_driver cl)))
        (add_history ev (by_actor c) (cl\<lparr>c_status := Released, c_updated := now_at ev\<rparr>) Released re'
          (update_claim cid (\<lambda>x. x\<lparr>c_status := Released, c_updated := now_at ev\<rparr>) s))"
    using a cl by (auto simp: release_claim_def Let_def split: if_splits)
  then have "list_all2 keeps_claim (claims s) (claims s') \<and> durable s' = durable s \<and> claim_logs_grow s s'"
  proof cases
    case 1
    then show ?thesis by simp
  next
    case 2
    have "list_all2 keeps_claim (claims s) (update_where (\<lambda>x. c_id x = cid) (\<lambda>x. x\<lparr>c_status := Released, c_updated := now_at ev\<rparr>) (claims s))"
    proof (rule keeps_update_where)
      fix x assume "x \<in> set (claims s)" "c_id x = cid"
      then have "x = cl" using claims_ok_unique[OF ok] mem by blast
      then show "keeps_claim x (x\<lparr>c_status := Released, c_updated := now_at ev\<rparr>)" using 2(1) by (simp add: keeps_claim_def)
    qed
    then show ?thesis by (simp add: 2(2) claim_logs_grow_def)
  qed
  then show "claims_ok (claims s')" "durable s' = durable s" "claim_logs_grow s s'" "list_all2 keeps_claim (claims s) (claims s')"
    using claims_ok_list_update[OF ok] by auto
qed

section \<open>A heartbeat writes two lease columns\<close>

definition lease_only :: "attempt \<Rightarrow> attempt \<Rightarrow> bool" where
  "lease_only a a' \<longleftrightarrow> a'\<lparr>a_lease := None, a_heartbeat := None\<rparr> = a\<lparr>a_lease := None, a_heartbeat := None\<rparr>"

definition lease_only_claim :: "claim \<Rightarrow> claim \<Rightarrow> bool" where
  "lease_only_claim c c' \<longleftrightarrow> c'\<lparr>c_expires := 0, c_heartbeat := 0\<rparr> = c\<lparr>c_expires := 0, c_heartbeat := 0\<rparr>"

definition beats :: "db \<Rightarrow> db \<Rightarrow> bool" where
  "beats s s' \<longleftrightarrow> s'\<lparr>claims := [], attempts := []\<rparr> = s\<lparr>claims := [], attempts := []\<rparr> \<and>
     list_all2 lease_only (attempts s) (attempts s') \<and> list_all2 lease_only_claim (claims s) (claims s')"

lemma lease_only_refl [simp]: "lease_only a a" "lease_only_claim c c"
  by (simp_all add: lease_only_def lease_only_claim_def)

lemma beats_refl [simp]: "beats s s"
  by (simp add: beats_def list.rel_refl)

lemma beats_trans: "beats s t \<Longrightarrow> beats t u \<Longrightarrow> beats s u"
  unfolding beats_def
  using list_all2_trans[of lease_only lease_only lease_only "attempts s" "attempts t" "attempts u"]
    list_all2_trans[of lease_only_claim lease_only_claim lease_only_claim "claims s" "claims t" "claims u"]
  by (simp add: lease_only_def lease_only_claim_def)

lemma list_all2_update_where:
  "(\<And>x. R x x) \<Longrightarrow> (\<And>x. P x \<Longrightarrow> R x (f x)) \<Longrightarrow> list_all2 R xs (update_where P f xs)"
  by (induction xs) (auto simp: update_where_Cons)

lemma renew_claim_beats: "beats s (snd (renew_claim ev cl (out, s)))"
  by (auto simp: renew_claim_def Let_def beats_def update_claim_def lease_only_claim_def list.rel_refl intro!: list_all2_update_where)

lemma beat_claim_beats: "beats s (snd (beat_claim ev pid d x (out, s)))"
  using renew_claim_beats by (auto simp: beat_claim_def split: prod.splits option.splits)

lemma beat_attempt_beats: "beats s (snd (beat_attempt ev pid d x (out, s)))"
  by (auto simp: beat_attempt_def Let_def beats_def update_attempt_def lease_only_def list.rel_refl
      split: prod.splits option.splits intro!: list_all2_update_where)

lemma fold_beats:
  "(\<And>x out s. beats s (snd (f x (out, s)))) \<Longrightarrow> beats (snd acc) (snd (fold f xs acc))"
proof (induction xs arbitrary: acc)
  case (Cons x xs)
  have "beats (snd acc) (snd (f x acc))" using Cons.prems[of "snd acc" x "fst acc"] by simp
  then show ?case using Cons beats_trans by (metis comp_apply fold.simps(2))
qed simp

lemma beat_subagent_beats: "beats s (snd (beat_subagent ev pid d l (out, s)))"
  using fold_beats[where f = "renew_claim ev" and acc = "(out, s)"] renew_claim_beats
  by (auto simp: beat_subagent_def Let_def)

lemma heartbeat_effect:
  assumes "heartbeat ev c pid cs as subs s = Inr (out, s')"
  shows "beats (mark_back ev (by_driver c) ''heartbeat'' s) s'"
proof -
  obtain d where d: "by_driver c = Some d" "require_driver c = Inr d"
    using assms by (auto simp: heartbeat_def require_driver_def split: option.splits if_splits)
  let ?s0 = "mark_back ev (Some d) ''heartbeat'' s"
  let ?a = "fold (beat_claim ev pid d) cs ([], ?s0)"
  let ?b = "fold (beat_attempt ev pid d) as ?a"
  have 1: "beats ?s0 (snd ?a)" using fold_beats[where f = "beat_claim ev pid d" and acc = "([], ?s0)"] beat_claim_beats by simp
  have 2: "beats (snd ?a) (snd ?b)" using fold_beats[where f = "beat_attempt ev pid d" and acc = ?a] beat_attempt_beats by blast
  have 3: "beats (snd ?b) (snd (fold (beat_subagent ev pid d) subs ?b))"
    using fold_beats[where f = "beat_subagent ev pid d" and acc = ?b] beat_subagent_beats by blast
  have 4: "s' = snd (fold (beat_subagent ev pid d) subs ?b)" using assms by (auto simp: heartbeat_def d Let_def)
  show ?thesis unfolding d(1) 4 by (rule beats_trans[OF beats_trans[OF 1 2] 3])
qed

lemma lease_only_claim_keeps: "lease_only_claim c c' \<Longrightarrow> keeps_claim c c'"
proof -
  assume "lease_only_claim c c'"
  then have E: "c'\<lparr>c_expires := 0, c_heartbeat := 0\<rparr> = c\<lparr>c_expires := 0, c_heartbeat := 0\<rparr>" by (simp add: lease_only_claim_def)
  show ?thesis
    using arg_cong[OF E, of c_id] arg_cong[OF E, of c_project] arg_cong[OF E, of c_node] arg_cong[OF E, of c_driver]
      arg_cong[OF E, of c_purpose] arg_cong[OF E, of c_fence] arg_cong[OF E, of c_lease_seconds]
      arg_cong[OF E, of c_request_key] arg_cong[OF E, of c_status]
    by (simp add: keeps_claim_def)
qed

end
