(* ===== verification/Enforcement.thy ===== *)
theory Enforcement
  imports Claims_Inv
begin

text \<open>
  \<open>src/core/state_enforcement.py\<close>: the rules that turn recorded claims into refusals, all behind the
  project's \<open>claim_enforcement\<close> switch. Every function reads the database and either passes, passes
  as an admin (\<open>break_glass\<close>), or refuses with a stable code.
\<close>

definition enforced :: "db \<Rightarrow> string \<Rightarrow> bool" where
  "enforced s pid \<longleftrightarrow> claim_enforcement s pid"

definition override_reason_text :: "string option \<Rightarrow> string option result" where
  "override_reason_text v = (case v of None \<Rightarrow> Inr None | Some r \<Rightarrow> bindE (check_text (PStr r) 2000) (\<lambda>t. Inr (Some t)))"

section \<open>Dispatch\<close>

text \<open>\<open>live_implement_claim\<close>: the claim that authorizes, and the lapsed one that does not.\<close>

definition live_implement_claim :: "db \<Rightarrow> string \<Rightarrow> string \<Rightarrow> int \<Rightarrow> claim option \<times> claim option" where
  "live_implement_claim s pid k current =
     (case find (\<lambda>c. c_project c = pid \<and> c_node c = k \<and> c_status c = Live \<and> c_purpose c = Implement) (claims s) of
        None \<Rightarrow> (None, None)
      | Some row \<Rightarrow> if lease_state (Some (c_expires row)) current = Reclaimable then (None, Some row) else (Some row, None))"

definition review_claim :: "db \<Rightarrow> string \<Rightarrow> string \<Rightarrow> string option \<Rightarrow> claim \<Rightarrow> int option \<Rightarrow> int \<Rightarrow> (claim option \<times> bool) result" where
  "review_claim s pid k driver rv fence current =
     bindE (raise_if (driver \<noteq> Some (c_driver rv)) (ClaimError ''not_claim_owner'')) (\<lambda>_.
     bindE (raise_if (fence \<noteq> Some (c_fence rv)) (ClaimError ''stale_fence'')) (\<lambda>_.
     bindE (raise_if (c_status rv = TakenOver) (ClaimError ''stale_fence'')) (\<lambda>_.
     bindE (raise_if (c_status rv \<noteq> Live \<or> lease_state (Some (c_expires rv)) current = Reclaimable) (ClaimError ''claim_required'')) (\<lambda>_.
     bindE (raise_if (map_option n_revision (node_at s pid k) \<noteq> Some (c_revision rv)) (ClaimError ''stale_fence'')) (\<lambda>_.
     Inr (Some rv, False))))))"

definition named_claim_check :: "string option \<Rightarrow> string \<Rightarrow> int option \<Rightarrow> claim option \<Rightarrow> claim option \<Rightarrow> unit result" where
  "named_claim_check driver cid fence live lapsed = (case live of
     Some l \<Rightarrow>
       if c_id l \<noteq> cid then
         (if map_option c_id lapsed = Some cid then Inl (ClaimError ''claim_required'') else Inl (ClaimError ''stale_fence''))
       else
         bindE (raise_if (driver \<noteq> Some (c_driver l)) (ClaimError ''not_claim_owner'')) (\<lambda>_.
         raise_if (fence \<noteq> None \<and> fence \<noteq> Some (c_fence l)) (ClaimError ''stale_fence''))
   | None \<Rightarrow>
       if map_option c_id lapsed = Some cid then Inl (ClaimError ''claim_required'') else Inl (ClaimError ''stale_fence''))"

definition dispatch_claim :: "db \<Rightarrow> string \<Rightarrow> string \<Rightarrow> string option \<Rightarrow> bool \<Rightarrow> string option \<Rightarrow> int option \<Rightarrow> int \<Rightarrow> bool
    \<Rightarrow> (claim option \<times> bool) result" where
  "dispatch_claim s pid k driver admin claim_id fence current allow_review =
     (let (live, lapsed) = live_implement_claim s pid k current;
          review = (if allow_review then Option.bind claim_id (\<lambda>cid.
              find (\<lambda>c. c_id c = cid \<and> c_project c = pid \<and> c_node c = k \<and> c_purpose c = Review) (claims s)) else None) in
      case review of
        Some rv \<Rightarrow> review_claim s pid k driver rv fence current
      | None \<Rightarrow>
          bindE (case claim_id of None \<Rightarrow> Inr () | Some cid \<Rightarrow> named_claim_check driver cid fence live lapsed) (\<lambda>_.
          if \<not> enforced s pid then Inr (if claim_id \<noteq> None then live else None, False)
          else case live of
            Some l \<Rightarrow>
              if driver = Some (c_driver l) then
                bindE (raise_if (fence \<noteq> None \<and> fence \<noteq> Some (c_fence l)) (ClaimError ''stale_fence'')) (\<lambda>_. Inr (Some l, False))
              else if admin then Inr (None, True)
              else Inl (ClaimError ''claimed_by_other'')
          | None \<Rightarrow> if admin then Inr (None, True) else Inl (ClaimError ''claim_required'')))"

text \<open>The owner of an attempt as truth value: \<open>None\<close> and the empty text are no owner.\<close>

definition owned :: "attempt \<Rightarrow> bool" where
  "owned a \<longleftrightarrow> a_owner a \<noteq> None \<and> a_owner a \<noteq> Some []"

definition launch_authorization :: "db \<Rightarrow> attempt \<Rightarrow> string option \<Rightarrow> bool \<Rightarrow> string option \<Rightarrow> int option \<Rightarrow> int
    \<Rightarrow> (bool \<times> claim option) result" where
  "launch_authorization s a driver admin claim_id fence current =
     (if \<not> enforced s (a_project a) \<or> \<not> owned a then
        bindE (if claim_id \<noteq> None \<or> fence \<noteq> None
               then bindE (dispatch_claim s (a_project a) (a_node a) driver admin claim_id fence current False) (\<lambda>_. Inr ())
               else Inr ()) (\<lambda>_. Inr (False, None))
      else if a_owner a = driver then
        let (live, lapsed) = live_implement_claim s (a_project a) (a_node a) current in
        case live of
          None \<Rightarrow> if admin then Inr (True, None) else Inl (ClaimError ''claim_required'')
        | Some l \<Rightarrow>
            if driver \<noteq> Some (c_driver l) then (if admin then Inr (True, None) else Inl (ClaimError ''claim_required''))
            else
              bindE (raise_if (claim_id \<noteq> None \<and> claim_id \<noteq> Some (c_id l)) (ClaimError ''stale_fence'')) (\<lambda>_.
              bindE (raise_if (fence \<noteq> None \<and> fence \<noteq> Some (c_fence l)) (ClaimError ''stale_fence'')) (\<lambda>_.
              if c_attempt l = Some (a_id a) then Inr (False, None)
              else if claim_id = Some (c_id l) then Inr (False, Some l)
              else Inl (ClaimError ''claim_required'')))
      else if admin then Inr (True, None)
      else Inl (ClaimError ''not_attempt_owner''))"

section \<open>Membership\<close>

definition project_membership :: "env \<Rightarrow> db \<Rightarrow> string \<Rightarrow> string option \<Rightarrow> bool option" where
  "project_membership ev s pid driver = (case driver of
     None \<Rightarrow> None
   | Some d \<Rightarrow> if d = [] \<or> \<not> identity_on ev then None
             else Some (list_ex (\<lambda>m. mb_project m = pid \<and> mb_driver m = d \<and> mb_member m) (memberships s)))"

definition require_member :: "env \<Rightarrow> db \<Rightarrow> string \<Rightarrow> string option \<Rightarrow> bool \<Rightarrow> bool result" where
  "require_member ev s pid driver admin =
     (if project_membership ev s pid driver \<noteq> Some False then Inr False
      else if admin then Inr True
      else Inl (ClaimError ''not_project_member''))"

section \<open>Structural writes\<close>

definition dependents :: "db \<Rightarrow> string \<Rightarrow> string \<Rightarrow> string list" where
  "dependents s pid k = affected (project_edges s pid) k"

datatype holder =
    ClaimHolder string string string purpose int
  | AttemptHolder string string string int

fun holder_driver :: "holder \<Rightarrow> string" where
  "holder_driver (ClaimHolder i k d p f) = d"
| "holder_driver (AttemptHolder i k d f) = d"

definition holders :: "db \<Rightarrow> string \<Rightarrow> string list \<Rightarrow> string option \<Rightarrow> holder list" where
  "holders s pid keys driver =
     (if keys = [] then [] else
      map (\<lambda>c. ClaimHolder (c_id c) (c_node c) (c_driver c) (c_purpose c) (c_fence c))
        (filter (\<lambda>c. c_project c = pid \<and> c_status c = Live \<and> c_node c \<in> set keys \<and> driver \<noteq> Some (c_driver c)) (claims s)) @
      map (\<lambda>a. AttemptHolder (a_id a) (a_node a) (the (a_owner a)) (a_fence a))
        (filter (\<lambda>a. a_project a = pid \<and> a_owner a \<noteq> None \<and> a_node a \<in> set keys \<and> a_status a \<in> set ACTIVE \<and>
                   a_owner a \<noteq> driver) (attempts s)))"

definition structural_owner_check :: "db \<Rightarrow> string \<Rightarrow> string \<Rightarrow> string option \<Rightarrow> bool \<Rightarrow> holder list option result" where
  "structural_owner_check s pid k driver admin =
     (if \<not> enforced s pid then Inr None
      else let held = holders s pid (dependents s pid k) driver in
        if held = [] then Inr None
        else if admin then Inr (Some held)
        else Inl (ClaimError ''not_owner''))"

text \<open>
  \<open>StateService._structural\<close>: every structural edit of a goal runs the owner check in its own transaction; an
  administrator who wrote around other holders is recorded with them.
\<close>

fun holder_py :: "holder \<Rightarrow> pyval" where
  "holder_py (ClaimHolder i k d p f) = PDict [(''kind'', PStr ''claim''), (''id'', PStr i), (''node_key'', PStr k), (''driver_id'', PStr d),
     (''purpose'', PStr (purpose_name p)), (''fence'', PInt f)]"
| "holder_py (AttemptHolder i k d f) = PDict [(''kind'', PStr ''attempt''), (''id'', PStr i), (''node_key'', PStr k), (''driver_id'', PStr d),
     (''fence'', PInt f)]"

definition override_payload :: "string \<Rightarrow> caller \<Rightarrow> holder list \<Rightarrow> pyval" where
  "override_payload action c held = PDict [(''action'', PStr action), (''actor'', PStr (by_actor c)), (''driver_id'', py_str_opt (by_driver c)),
     (''break_glass'', PBool True), (''held'', PList (map holder_py held))]"

definition structural :: "env \<Rightarrow> caller \<Rightarrow> string \<Rightarrow> string \<Rightarrow> string \<Rightarrow> (db \<Rightarrow> ('a \<times> db) result) \<Rightarrow> db \<Rightarrow> ('a \<times> db) result" where
  "structural ev c action pid k body s =
     bindE (structural_owner_check s pid k (by_driver c) (by_admin c)) (\<lambda>held.
     bindE (body s) (\<lambda>(r, t).
     Inr (r, case held of None \<Rightarrow> t | Some hs \<Rightarrow> add_event ev pid (Some k) ''claim_overridden'' (override_payload action c hs) t)))"

definition edit_revise :: "env \<Rightarrow> caller \<Rightarrow> string \<Rightarrow> string \<Rightarrow> int \<Rightarrow> string \<Rightarrow> string option \<Rightarrow> pyval option \<Rightarrow> pyval option
    \<Rightarrow> db \<Rightarrow> (pyval \<times> db) result" where
  "edit_revise ev c pid k expected reason goal acceptance new_deps s =
     structural ev c ''revise_node'' pid k (revise_node ev pid k expected reason goal acceptance new_deps) s"

definition edit_split :: "env \<Rightarrow> caller \<Rightarrow> string \<Rightarrow> string \<Rightarrow> int \<Rightarrow> pyval \<Rightarrow> string \<Rightarrow> db \<Rightarrow> (pyval \<times> db) result" where
  "edit_split ev c pid k expected children reason s = structural ev c ''split_node'' pid k (split_node ev pid k expected children reason) s"

definition edit_supersede :: "env \<Rightarrow> caller \<Rightarrow> string \<Rightarrow> string \<Rightarrow> int \<Rightarrow> string \<Rightarrow> db \<Rightarrow> (pyval \<times> db) result" where
  "edit_supersede ev c pid k expected reason s = structural ev c ''supersede_node'' pid k (supersede_node ev pid k expected reason) s"

definition edit_facet :: "env \<Rightarrow> caller \<Rightarrow> string \<Rightarrow> string \<Rightarrow> pyval \<Rightarrow> db \<Rightarrow> (pyval \<times> db) result" where
  "edit_facet ev c pid k facet s = structural ev c ''set_node_facet'' pid k (set_node_facet ev pid k facet) s"

lemmas edit_defs = edit_revise_def edit_split_def edit_supersede_def edit_facet_def

record hold_override =
  hov_placer :: string
  hov_placer_driver :: "string option"
  hov_reason :: "string option"
  hov_break_glass :: bool

definition hold_release_check :: "db \<Rightarrow> string \<Rightarrow> string \<Rightarrow> string \<Rightarrow> string option \<Rightarrow> bool \<Rightarrow> string option \<Rightarrow> hold_override option result" where
  "hold_release_check s pid k act driver admin override =
     (if \<not> enforced s pid then Inr None
      else case hold_row s pid k of
        None \<Rightarrow> Inr None
      | Some row \<Rightarrow>
          if \<not> h_held row \<or> h_actor row = act then Inr None
          else
            let placer_driver = (if starts_with (h_actor row) ''driver:'' then Some (drop 7 (h_actor row)) else None) in
            if placer_driver = driver then Inr None
            else if override = None \<and> \<not> admin then Inl (ClaimError ''override_reason_required'')
            else Inr (Some \<lparr>hov_placer = h_actor row, hov_placer_driver = placer_driver, hov_reason = override,
                            hov_break_glass = (override = None \<and> admin)\<rparr>))"

section \<open>One controller per run\<close>

record checkpoint =
  cp_enforced :: bool
  cp_attempt :: "string option"
  cp_owner :: "string option"
  cp_fence :: "int option"
  cp_break_glass :: bool

definition checkpoint_controller :: "env \<Rightarrow> caller \<Rightarrow> string \<Rightarrow> db \<Rightarrow> (checkpoint \<times> db) result" where
  "checkpoint_controller ev c run s =
     (let none = \<lparr>cp_enforced = False, cp_attempt = None, cp_owner = None, cp_fence = None, cp_break_glass = False\<rparr> in
      if run = [] then Inr (none, s)
      else case find (\<lambda>a. a_run a = Some run) (attempts s) of
        None \<Rightarrow> Inr (none, s)
      | Some a \<Rightarrow>
          if \<not> enforced s (a_project a) \<or> \<not> owned a then Inr (none\<lparr>cp_attempt := Some (a_id a)\<rparr>, s)
          else
            let result = \<lparr>cp_enforced = True, cp_attempt = Some (a_id a), cp_owner = a_owner a, cp_fence = Some (a_fence a), cp_break_glass = False\<rparr> in
            if a_owner a = by_driver c then Inr (result, s)
            else if \<not> by_admin c then Inl (ClaimError ''not_attempt_owner'')
            else Inr (result\<lparr>cp_break_glass := True\<rparr>,
                   add_event ev (a_project a) (Some (a_node a)) ''checkpoint_break_glass''
                     (PDict [(''attempt_id'', PStr (a_id a)), (''run_id'', PStr run), (''actor'', PStr (by_actor c)),
                             (''owner_driver_id'', py_str_opt (a_owner a)), (''owner_fence'', PInt (a_fence a)),
                             (''break_glass'', PBool True)]) s))"

section \<open>What the rules guarantee\<close>

lemma live_implement_claimD:
  assumes "live_implement_claim s pid k cur = (Some l, lapsed)"
  shows "l \<in> set (claims s)" "c_project l = pid" "c_node l = k" "c_status l = Live" "c_purpose l = Implement"
    "cur < add_seconds (c_expires l) GRACE_SECONDS"
proof -
  have f: "find (\<lambda>c. c_project c = pid \<and> c_node c = k \<and> c_status c = Live \<and> c_purpose c = Implement) (claims s) = Some l"
    and r: "lease_state (Some (c_expires l)) cur \<noteq> Reclaimable"
    using assms by (auto simp: live_implement_claim_def split: option.splits if_splits)
  show "l \<in> set (claims s)" "c_project l = pid" "c_node l = k" "c_status l = Live" "c_purpose l = Implement"
    using find_SomeD[OF f] by auto
  show "cur < add_seconds (c_expires l) GRACE_SECONDS"
    using r by (auto simp: lease_state_def add_seconds_def GRACE_SECONDS_def split: if_splits)
qed

text \<open>
  In an enforced project a dispatch that is not an admin's break glass rides on a live claim of the
  caller whose grace has not passed: its implement claim, or its review claim where one was allowed.
\<close>

lemma dispatch_claim_enforced:
  assumes "dispatch_claim s pid k driver admin cid fence cur allow = Inr (r, glass)" "enforced s pid"
  shows "(glass \<and> admin \<and> r = None) \<or>
    (\<not> glass \<and> (\<exists>l. r = Some l \<and> l \<in> set (claims s) \<and> c_project l = pid \<and> c_node l = k \<and> driver = Some (c_driver l) \<and>
       c_status l = Live \<and> cur < add_seconds (c_expires l) GRACE_SECONDS \<and> (fence \<noteq> None \<longrightarrow> fence = Some (c_fence l)) \<and>
       (c_purpose l = Implement \<or> allow \<and> c_purpose l = Review \<and> cid = Some (c_id l))))"
proof -
  obtain live lapsed where li: "live_implement_claim s pid k cur = (live, lapsed)" by force
  define rv where "rv = (if allow then Option.bind cid (\<lambda>cid.
              find (\<lambda>c. c_id c = cid \<and> c_project c = pid \<and> c_node c = k \<and> c_purpose c = Review) (claims s)) else None)"
  show ?thesis
  proof (cases rv)
    case (Some l)
    then obtain i where i: "allow" "cid = Some i"
      "find (\<lambda>c. c_id c = i \<and> c_project c = pid \<and> c_node c = k \<and> c_purpose c = Review) (claims s) = Some l"
      unfolding rv_def by (auto split: if_splits simp: bind_eq_Some_conv)
    have "review_claim s pid k driver l fence cur = Inr (r, glass)"
      using assms(1) Some by (simp add: dispatch_claim_def li rv_def)
    then show ?thesis using find_SomeD[OF i(3)] i(1,2)
      by (auto simp: review_claim_def lease_state_def add_seconds_def GRACE_SECONDS_def split: if_splits)
  next
    case None
    then show ?thesis
      using assms live_implement_claimD[of s pid k cur] li
      by (auto simp: dispatch_claim_def rv_def split: option.splits if_splits)
  qed
qed

text \<open>
  The holders the owner check looks for are the live claims and the owned attempts in progress of
  other drivers, on the goal itself or on anything that depends on it transitively.
\<close>

lemma set_holders_dependents:
  "set (holders s pid (dependents s pid k) driver) =
     {ClaimHolder (c_id cl) (c_node cl) (c_driver cl) (c_purpose cl) (c_fence cl) | cl.
        cl \<in> set (claims s) \<and> c_project cl = pid \<and> c_status cl = Live \<and> (c_node cl, k) \<in> (set (project_edges s pid))\<^sup>* \<and> driver \<noteq> Some (c_driver cl)} \<union>
     {AttemptHolder (a_id a) (a_node a) d (a_fence a) | a d.
        a \<in> set (attempts s) \<and> a_project a = pid \<and> a_status a \<in> set ACTIVE \<and> (a_node a, k) \<in> (set (project_edges s pid))\<^sup>* \<and>
        a_owner a = Some d \<and> driver \<noteq> Some d}"
    (is "?L = ?C \<union> ?A")
proof -
  have d: "n \<in> set (dependents s pid k) \<longleftrightarrow> (n, k) \<in> (set (project_edges s pid))\<^sup>*" for n by (simp add: dependents_def set_affected)
  then have ne: "dependents s pid k \<noteq> []" by force
  show ?thesis
    unfolding holders_def if_not_P[OF ne] set_append set_map set_filter d
    by (intro arg_cong2[of _ _ _ _ "(\<union>)"]) (force simp: image_iff)+
qed

lemma bindE_Inr_right: "bindE x Inr = x"
  by (cases x) simp_all

lemma structural_spec:
  "\<exists>held. set held = (if enforced s pid then
       {ClaimHolder (c_id cl) (c_node cl) (c_driver cl) (c_purpose cl) (c_fence cl) | cl.
          cl \<in> set (claims s) \<and> c_project cl = pid \<and> c_status cl = Live \<and> (c_node cl, k) \<in> (set (project_edges s pid))\<^sup>* \<and> by_driver c \<noteq> Some (c_driver cl)} \<union>
       {AttemptHolder (a_id a) (a_node a) d (a_fence a) | a d.
          a \<in> set (attempts s) \<and> a_project a = pid \<and> a_status a \<in> set ACTIVE \<and> (a_node a, k) \<in> (set (project_edges s pid))\<^sup>* \<and>
          a_owner a = Some d \<and> by_driver c \<noteq> Some d} else {}) \<and>
     structural ev c action pid k body s =
       (if held = [] then body s
        else if by_admin c then bindE (body s) (\<lambda>(r, t). Inr (r, add_event ev pid (Some k) ''claim_overridden'' (override_payload action c held) t))
        else Inl (ClaimError ''not_owner''))"
proof (cases "enforced s pid")
  case False
  then show ?thesis
    by (intro exI[of _ "[]"]) (cases "body s", auto simp: structural_def structural_owner_check_def)
next
  case True
  show ?thesis unfolding set_holders_dependents[symmetric]
    by (intro exI[of _ "holders s pid (dependents s pid k) (by_driver c)"] conjI)
       (simp_all add: True structural_def structural_owner_check_def Let_def bindE_Inr_right)
qed

end
