(* ===== verification/Attempts.thy ===== *)
theory Attempts
  imports Enforcement
begin

text \<open>
  \<open>StateAttempts\<close> (src/core/state_attempts.py), first half: the reservation of an attempt, what is
  pinned before dispatch, and the launch transition. The previous-candidate account of
  \<open>src/core/state_prior_candidate.py\<close> is an input (it is computed by Git outside the transaction);
  the model has the part that stores it.
\<close>

section \<open>Rows and views\<close>

definition get_attempt :: "db \<Rightarrow> string \<Rightarrow> attempt result" where
  "get_attempt s aid = bindE (check_key (PStr aid)) (\<lambda>k. require_some (attempt_at s k) (StateNotFound ''attempt not found''))"

text \<open>\<open>_public\<close>: the row with the digest of its frozen context and its derived lease state.\<close>

record public =
  pub_attempt :: attempt
  pub_context_hash :: string
  pub_lease :: "lease option"

definition public_view :: "env \<Rightarrow> attempt \<Rightarrow> public" where
  "public_view ev a = \<lparr>pub_attempt = a, pub_context_hash = digest ev (a_context a),
     pub_lease = (if a_status a \<in> set ACTIVE then Some (lease_state (a_lease a) (now_at ev)) else None)\<rparr>"

definition pub_result :: "env \<Rightarrow> string \<Rightarrow> db \<Rightarrow> (public \<times> db) result" where
  "pub_result ev aid s = bindE (get_attempt s aid) (\<lambda>a. Inr (public_view ev a, s))"

definition node_attempts :: "db \<Rightarrow> string \<Rightarrow> string \<Rightarrow> attempt list" where
  "node_attempts s pid k = filter (\<lambda>a. a_project a = pid \<and> a_node a = k) (attempts s)"

text \<open>\<open>ORDER BY seq DESC LIMIT 1\<close>.\<close>

definition latest_attempt :: "db \<Rightarrow> string \<Rightarrow> string \<Rightarrow> attempt option" where
  "latest_attempt s pid k = (case node_attempts s pid k of [] \<Rightarrow> None | as \<Rightarrow> Some (last as))"

definition pin_verified :: "pin \<Rightarrow> bool" where
  "pin_verified p \<longleftrightarrow> pin_status p = VERIFIED \<and> pin_receipt p \<noteq> None"

definition pins_current :: "db \<Rightarrow> attempt \<Rightarrow> bool result" where
  "pins_current s a = bindE (get_node s (a_project a) (a_node a)) (\<lambda>n.
     if n_revision n \<noteq> a_revision a \<or> n_contract_hash n \<noteq> a_contract_hash a \<or> n_status n = SUPERSEDED then Inr False
     else let snapshot = dependency_snapshot s (a_project a) (a_node a) in
       Inr (snapshot = a_pins a \<and> list_all pin_verified snapshot))"

definition pin_py :: "pin \<Rightarrow> pyval" where
  "pin_py p = PDict [(''node_key'', PStr (pin_key p)), (''revision'', PInt (pin_revision p)), (''contract_hash'', PStr (pin_hash p)),
     (''status'', PStr (node_status_name (pin_status p))), (''verified_receipt'', py_str_opt (pin_receipt p))]"

definition pins_py :: "pin list \<Rightarrow> pyval" where
  "pins_py ps = PDict (map (\<lambda>p. (pin_key p, pin_py p)) ps)"

text \<open>\<open>attempt["run_id"]\<close> as a truth value.\<close>

definition bound :: "attempt \<Rightarrow> bool" where
  "bound a \<longleftrightarrow> a_run a \<noteq> None \<and> a_run a \<noteq> Some []"

text \<open>Equality of JSON values, which ignores the order of object keys.\<close>

definition same_value :: "pyval \<Rightarrow> pyval \<Rightarrow> bool" where
  "same_value v w \<longleftrightarrow> canonical v = canonical w"

section \<open>The previous candidate\<close>

definition prior_before :: "db \<Rightarrow> string \<Rightarrow> string \<Rightarrow> string option \<Rightarrow> attempt list" where
  "prior_before s pid k till = (let as = attempts s in
     filter (\<lambda>a. a_project a = pid \<and> a_node a = k \<and> (case a_artifact a of None \<Rightarrow> False | Some r \<Rightarrow> length r = 40))
       (case till of None \<Rightarrow> as | Some b \<Rightarrow> if list_ex (\<lambda>a. a_id a = b) as then takeWhile (\<lambda>a. a_id a \<noteq> b) as else []))"

definition latest_prior :: "db \<Rightarrow> string \<Rightarrow> string \<Rightarrow> string option \<Rightarrow> attempt option" where
  "latest_prior s pid k till = (case prior_before s pid k till of [] \<Rightarrow> None | as \<Rightarrow> Some (last as))"

text \<open>\<open>unresolved\<close>: an explicit \<open>unknown\<close> account of the previous candidate.\<close>

definition unresolved :: "attempt \<Rightarrow> string \<Rightarrow> bool \<Rightarrow> string option \<Rightarrow> string \<Rightarrow> pyval" where
  "unresolved prior reason is_pending base origin = PDict ([(''version'', PInt 1), (''prior_attempt_id'', PStr (a_id prior)),
     (''prior_attempt_status'', PStr (attempt_status_name (a_status prior))), (''prior_artifact'', py_str_opt (a_artifact prior)),
     (''selected_base'', py_str_opt base), (''base_origin'', PStr origin), (''state'', PStr ''unknown''), (''reason'', PStr reason)] @
     (if is_pending then [(''pending_base'', PBool True)] else []))"

definition prior_event_type :: "pyval \<Rightarrow> string" where
  "prior_event_type v = (if get_or ''state'' v PNone = PStr ''included'' then ''prior_candidate_included'' else ''prior_candidate_unreconciled'')"

definition emit_prior :: "env \<Rightarrow> string \<Rightarrow> string \<Rightarrow> string \<Rightarrow> pyval \<Rightarrow> bool \<Rightarrow> db \<Rightarrow> db" where
  "emit_prior ev pid k aid v reconciled s = add_event ev pid (Some k) (prior_event_type v)
     (PDict ([(''attempt_id'', PStr aid), (''prior_candidate'', v)] @
       (if reconciled then [(''reconciled_from_provision_receipt'', PBool True)] else []))) s"

section \<open>The reservation request\<close>

record external =
  ex_harness :: string
  ex_id :: string
  ex_reporter :: string

definition external_py :: "external \<Rightarrow> (string \<times> pyval) list" where
  "external_py x = [(''harness'', PStr (ex_harness x)), (''external_id'', PStr (ex_id x)), (''reporting_actor'', PStr (ex_reporter x))]"

text \<open>The account computed before the transaction: the prior it was computed for, and its value.\<close>

record prior_account =
  pa_prior :: "(string \<times> string) option"
  pa_value :: pyval

record reservation =
  rq_workflow :: "string option"
  rq_key :: string
  rq_instruction :: string
  rq_external :: "external option"
  rq_continue :: "string option"
  rq_relay_digest :: "string option"
  rq_frozen :: "pyval option"
  rq_base :: "string option"
  rq_handoff :: "pyval option"
  rq_owner :: "string option"
  rq_claim :: "string option"
  rq_fence :: "int option"
  rq_admin :: bool
  rq_prior :: "prior_account option"

definition is_dict :: "pyval \<Rightarrow> bool" where
  "is_dict v = (case v of PDict _ \<Rightarrow> True | _ \<Rightarrow> False)"

text \<open>The argument checks of \<open>_reserve_once\<close> and the request whose digest makes it idempotent.\<close>

definition request_of :: "int \<Rightarrow> reservation \<Rightarrow> pyval result" where
  "request_of expected rq =
     bindE (check_key (PStr (rq_key rq))) (\<lambda>_.
     bindE (check_integer (PInt expected) 1 1000000) (\<lambda>_.
     bindE (raise_if (length (rq_instruction rq) > 20000) (StateGraphError ''instruction must be text of at most 20000 characters'')) (\<lambda>_.
     bindE (case rq_frozen rq of None \<Rightarrow> Inr () | Some f \<Rightarrow>
              bindE (raise_if (rq_external rq \<noteq> None) (StateGraphError ''frozen_prerequisites apply to SkillFlow attempts only'')) (\<lambda>_.
              raise_if (\<not> is_dict f) (StateGraphError ''frozen_prerequisites must be an object''))) (\<lambda>_.
     bindE (case rq_handoff rq of None \<Rightarrow> Inr () | Some h \<Rightarrow>
              bindE (raise_if (rq_external rq = None) (StateGraphError ''relay_handoff applies to external attempts only'')) (\<lambda>_.
              raise_if (\<not> is_dict h) (StateGraphError ''relay_handoff must be an object''))) (\<lambda>_.
     bindE (case rq_continue rq of None \<Rightarrow> Inr () | Some _ \<Rightarrow>
              bindE (raise_if (rq_external rq \<noteq> None) (StateGraphError ''continue_from applies to SkillFlow attempts only'')) (\<lambda>_.
              raise_if (case rq_relay_digest rq of None \<Rightarrow> False | Some d \<Rightarrow> \<not> hex_of_length 64 d)
                (StateGraphError ''relay_digest must be the 64-hex digest from relay_inventory''))) (\<lambda>_.
     Inr (PDict (
       [(''revision'', PInt expected), (''workflow'', py_str_opt (rq_workflow rq)), (''instruction'', PStr (rq_instruction rq))] @
       (case rq_base rq of None \<Rightarrow> [] | Some b \<Rightarrow> [(''base_sha'', PStr b)]) @
       (case rq_frozen rq of None \<Rightarrow> [] | Some f \<Rightarrow> [(''frozen_prerequisites'', f)]) @
       (case rq_external rq of None \<Rightarrow> [] | Some x \<Rightarrow> [(''external'', PDict (external_py x))]) @
       (case rq_handoff rq of None \<Rightarrow> [] | Some h \<Rightarrow> [(''relay_handoff'', h)]) @
       (case rq_continue rq of None \<Rightarrow> [] | Some p \<Rightarrow> [(''continue_from'', PStr p)] @
          (case rq_relay_digest rq of None \<Rightarrow> [] | Some d \<Rightarrow> [(''relay_digest'', PStr d)])))))))))) "

fun truthy :: "pyval \<Rightarrow> bool" where
  "truthy PNone = False"
| "truthy (PBool b) = b"
| "truthy (PInt i) = (i \<noteq> 0)"
| "truthy (PStr t) = (t \<noteq> [])"
| "truthy (PList vs) = (vs \<noteq> [])"
| "truthy (PDict kvs) = (kvs \<noteq> [])"

text \<open>\<open>_relay_source\<close>: the failed attempt a relay continues, with the first failure of the chain.\<close>

definition relay_source :: "db \<Rightarrow> string \<Rightarrow> string \<Rightarrow> string \<Rightarrow> string option \<Rightarrow> node \<Rightarrow> pin list \<Rightarrow> (string \<times> pyval) list result" where
  "relay_source s prior_id pid k workflow n pins =
     bindE (check_key (PStr prior_id)) (\<lambda>_.
     bindE (require_some (attempt_at s prior_id) (StateConflict ''continue_from must name an attempt of this node'')) (\<lambda>prior.
     bindE (raise_if (a_project prior \<noteq> pid \<or> a_node prior \<noteq> k) (StateConflict ''continue_from must name an attempt of this node'')) (\<lambda>_.
     bindE (raise_if (a_status prior \<noteq> Failed \<or> a_kind prior \<noteq> Skillflow \<or> \<not> bound prior)
              (StateConflict ''continue_from must name a FAILED SkillFlow attempt with a bound run'')) (\<lambda>_.
     bindE (raise_if (a_workflow prior \<noteq> workflow) (StateConflict ''a relay must reuse the failed attempt's workflow'')) (\<lambda>_.
     bindE (raise_if (a_revision prior \<noteq> n_revision n \<or> a_contract_hash prior \<noteq> n_contract_hash n \<or> a_pins prior \<noteq> pins)
              (StateConflict ''the failed attempt targeted a different revision, contract or dependency snapshot'')) (\<lambda>_.
     let relay = get_or ''relay_of'' (a_context prior) PNone;
         first = get_or ''first_failure_run_id'' relay PNone;
         hop = get_or ''run_id'' relay PNone
     in Inr [(''attempt_id'', PStr (a_id prior)), (''run_id'', py_str_opt (a_run prior)),
             (''first_failure_run_id'', if truthy first then first else if truthy hop then hop else py_str_opt (a_run prior)),
             (''execution_project_id'', py_str_opt (a_execution_project prior)), (''error'', py_str_opt (a_error prior))]))))))"

text \<open>\<open>_after_unknown_abandon\<close>: two possibly live workers never share a checkout.\<close>

definition checkout_of :: "string \<Rightarrow> string" where
  "checkout_of workspace = takeWhile (\<lambda>c. c \<noteq> CHR ''#'') workspace"

definition old_workspace :: "db \<Rightarrow> string \<Rightarrow> string option" where
  "old_workspace s aid = (case sort_key (\<lambda>c. - c_created c) (filter (\<lambda>c. c_attempt c = Some aid \<and> c_workspace c \<noteq> []) (claims s)) of
     [] \<Rightarrow> None | c # _ \<Rightarrow> Some (c_workspace c))"

definition after_unknown_abandon :: "db \<Rightarrow> string \<Rightarrow> string \<Rightarrow> claim option \<Rightarrow> string option \<Rightarrow> bool \<Rightarrow> unit result" where
  "after_unknown_abandon s pid k cl base admin = (case latest_attempt s pid k of
     None \<Rightarrow> Inr ()
   | Some prior \<Rightarrow>
       if a_abandon prior \<noteq> Some UnknownQuiescence \<or> admin then Inr ()
       else raise_if (base = None \<or>
              (case cl of None \<Rightarrow> True | Some c \<Rightarrow> c_workspace c = [] \<or>
                 (case old_workspace s (a_id prior) of None \<Rightarrow> False | Some w \<Rightarrow> checkout_of (c_workspace c) = checkout_of w)))
              (ClaimError ''workspace_in_use''))"

text \<open>\<open>binding_snapshot\<close> of state_design.py: the design binding of the highest node revision.\<close>

definition binding_snapshot :: "db \<Rightarrow> string \<Rightarrow> string \<Rightarrow> pyval option" where
  "binding_snapshot s pid k = (case sort_key (\<lambda>b. - db_revision b) (filter (\<lambda>b. db_project b = pid \<and> db_node b = k) (designs s)) of
     [] \<Rightarrow> None | b # _ \<Rightarrow> Some (db_snapshot b))"

text \<open>The constraints of \<open>state_attempts\<close> that an insert can violate.\<close>

definition attempt_conflict :: "db \<Rightarrow> attempt \<Rightarrow> bool" where
  "attempt_conflict s a \<longleftrightarrow>
     (a_kind a = Skillflow \<and> (a_workflow a = None \<or> a_execution_project a = None)) \<or>
     list_ex (\<lambda>x. a_id x = a_id a \<or>
       (a_execution_project x \<noteq> None \<and> a_execution_project x = a_execution_project a) \<or>
       (a_project x = a_project a \<and> a_node x = a_node a \<and>
        (a_request_key x = a_request_key a \<or>
         a_status x \<in> set ACTIVE \<and> a_status a \<in> set ACTIVE \<or>
         a_kind x = External \<and> a_kind a = External \<and> a_harness x = a_harness a \<and> a_external_id x = a_external_id a))) (attempts s)"

definition bind_claim :: "env \<Rightarrow> string \<Rightarrow> string \<Rightarrow> db \<Rightarrow> db" where
  "bind_claim ev aid cid s = update_claim cid (\<lambda>c. c\<lparr>c_attempt := Some aid, c_updated := now_at ev\<rparr>) s"

section \<open>Reserving\<close>

text \<open>A request key seen before: the recorded attempt is returned, or the replay is refused.\<close>

definition replay :: "env \<Rightarrow> string \<Rightarrow> string \<Rightarrow> reservation \<Rightarrow> string \<Rightarrow> attempt \<Rightarrow> db \<Rightarrow> (public \<times> db) result" where
  "replay ev pid k rq request_hash old s =
     bindE (raise_if (a_request_hash old \<noteq> request_hash) (StateConflict ''request key already used with a different launch request'')) (\<lambda>_.
     bindE (raise_if (owned old \<and> a_owner old \<noteq> rq_owner rq \<and> \<not> rq_admin rq \<and> enforced s pid) (ClaimError ''not_attempt_owner'')) (\<lambda>_.
     let review_pin = get_or ''review_claim'' (a_context old) PNone in
     bindE (raise_if (review_pin \<noteq> PNone \<and> (map_option PStr (rq_claim rq) \<noteq> dict_get ''claim_id'' review_pin \<or>
                map_option PInt (rq_fence rq) \<noteq> dict_get ''fence'' review_pin)) (ClaimError ''stale_fence'')) (\<lambda>_.
     if review_pin \<noteq> PNone \<and> a_status old \<notin> set ACTIVE then Inr (public_view ev old, s)
     else if rq_claim rq \<noteq> None \<or> rq_fence rq \<noteq> None then
       bindE (dispatch_claim s pid k (rq_owner rq) (rq_admin rq) (rq_claim rq) (rq_fence rq) (now_at ev)
                (rq_external rq \<noteq> None \<and> review_pin \<noteq> PNone)) (\<lambda>(named, _).
       case named of
         Some c \<Rightarrow> if a_status old \<in> set ACTIVE \<and> (c_attempt c = None \<or> c_attempt c = Some (a_id old))
                   then Inr (public_view ev old, bind_claim ev (a_id old) (c_id c) s)
                   else Inr (public_view ev old, s)
       | None \<Rightarrow> Inr (public_view ev old, s))
     else Inr (public_view ev old, s))))"

text \<open>The frozen context of a new attempt (\<open>ctx\<close>), without the previous-candidate account and the executor.\<close>

definition context_of :: "env \<Rightarrow> db \<Rightarrow> string \<Rightarrow> string \<Rightarrow> int \<Rightarrow> node \<Rightarrow> pin list \<Rightarrow> claim option \<Rightarrow> reservation
    \<Rightarrow> (string \<times> pyval) list option \<Rightarrow> (string \<times> pyval) list" where
  "context_of ev s pid k expected n pins cl rq relay =
     [(''state_project_id'', PStr pid), (''node_key'', PStr k), (''revision'', PInt expected), (''goal'', PStr (n_goal n)),
      (''acceptance'', contract_py (n_contract n)), (''contract_hash'', PStr (n_contract_hash n)),
      (''dependencies'', pins_py pins), (''instruction'', PStr (rq_instruction rq))] @
     (case cl of Some c \<Rightarrow> if c_purpose c = Review then [(''review_claim'', PDict [(''claim_id'', PStr (c_id c)),
         (''fence'', PInt (c_fence c)), (''purpose'', PStr ''review'')])] else [] | None \<Rightarrow> []) @
     (case rq_base rq of None \<Rightarrow> [] | Some b \<Rightarrow> [(''base_sha'', PStr b)]) @
     (case rq_frozen rq of None \<Rightarrow> [] | Some f \<Rightarrow> [(''frozen_prerequisites'', f)]) @
     (case relay of None \<Rightarrow> [] | Some r \<Rightarrow> [(''relay_of'', PDict r)]) @
     (case rq_handoff rq of None \<Rightarrow> [] | Some h \<Rightarrow> [(''relay_handoff'', h)]) @
     (case binding_snapshot s pid k of None \<Rightarrow> []
      | Some d \<Rightarrow> [(''design_context'', d), (''binding_snapshot_hash'', PStr (digest ev d))])"

definition prior_value :: "db \<Rightarrow> string \<Rightarrow> string \<Rightarrow> reservation \<Rightarrow> pyval option" where
  "prior_value s pid k rq = (case rq_prior rq of
     None \<Rightarrow> None
   | Some acct \<Rightarrow> (case latest_prior s pid k None of
       None \<Rightarrow> None
     | Some prior \<Rightarrow>
         if pa_prior acct = Some (a_id prior, the (a_artifact prior)) then Some (pa_value acct)
         else Some (unresolved prior ''the previous candidate changed while admission was judged; not evaluated'' False (rq_base rq)
                (if rq_base rq = None then ''unresolved'' else ''requested_base''))))"

definition new_attempt :: "env \<Rightarrow> string \<Rightarrow> string \<Rightarrow> int \<Rightarrow> node \<Rightarrow> pin list \<Rightarrow> pyval \<Rightarrow> reservation \<Rightarrow> string \<Rightarrow> attempt" where
  "new_attempt ev pid k expected n pins ctx rq request_hash =
     (let owner = (case rq_owner rq of Some d \<Rightarrow> if d = [] then None else Some d | None \<Rightarrow> None) in
      \<lparr>a_id = fresh_id ev ''attempt-'' 0, a_project = pid, a_node = k, a_revision = expected, a_contract_hash = n_contract_hash n,
       a_pins = pins, a_context = ctx, a_request_key = rq_key rq, a_request_hash = request_hash, a_workflow = rq_workflow rq,
       a_execution_project = (if rq_external rq = None then Some (fresh_id ev ''sg-'' 0) else None), a_run = None,
       a_graph_version = None, a_graph_digest = None, a_status = (if rq_external rq = None then Reserved else Running),
       a_artifact = None, a_error = None, a_created = now_at ev, a_updated = now_at ev,
       a_kind = (if rq_external rq = None then Skillflow else External),
       a_harness = map_option ex_harness (rq_external rq), a_external_id = map_option ex_id (rq_external rq),
       a_reporter = map_option ex_reporter (rq_external rq), a_version = 0, a_artifact_kind = None, a_terminal = None,
       a_abandon = None, a_owner = owner, a_fence = (if owner = None then 0 else 1),
       a_lease = (if owner = None then None else Some (add_seconds (now_at ev) DEFAULT_LEASE_SECONDS)),
       a_heartbeat = (if owner = None then None else Some (now_at ev))\<rparr>)"

text \<open>
  The guards of a new reservation, in the order of the code: dispatch is open, the node is not
  closed and has the expected revision, every dependency is verified, and the claim rule. The
  result is the node, the dependency snapshot, the claim to bind and whether an admin broke glass.
\<close>

definition admission :: "env \<Rightarrow> string \<Rightarrow> string \<Rightarrow> int \<Rightarrow> reservation \<Rightarrow> node \<Rightarrow> db \<Rightarrow> (pin list \<times> claim option \<times> bool) result" where
  "admission ev pid k expected rq n s =
     bindE (require_dispatch s pid k) (\<lambda>_.
     bindE (raise_if (n_revision n \<noteq> expected \<or> n_status n = VERIFIED \<or> n_status n = SUPERSEDED)
              (StateConflict ''node is closed or revision changed; revise/reload before attempting it'')) (\<lambda>_.
     let pins = dependency_snapshot s pid k in
     bindE (raise_if (\<not> list_all pin_verified pins) (StateConflict ''dependencies are not verified'')) (\<lambda>_.
     bindE (dispatch_claim s pid k (rq_owner rq) (rq_admin rq) (rq_claim rq) (rq_fence rq) (now_at ev)
              (rq_external rq \<noteq> None \<and> n_status n = CANDIDATE)) (\<lambda>(cl, glass).
     bindE (if enforced s pid then after_unknown_abandon s pid k cl (rq_base rq) (rq_admin rq) else Inr ()) (\<lambda>_.
     Inr (pins, cl, glass))))))"

text \<open>The guards of the artifact preflight, used by both of its passes.\<close>

definition preflight_guard :: "db \<Rightarrow> string \<Rightarrow> string \<Rightarrow> reservation \<Rightarrow> unit result" where
  "preflight_guard s pid k rq =
     bindE (raise_if (list_ex (\<lambda>a. a_project a = pid \<and> a_node a = k \<and> a_status a \<in> set ACTIVE) (attempts s))
              (StateConflict ''node has an active attempt'')) (\<lambda>_.
     raise_if (case rq_external rq of None \<Rightarrow> False | Some x \<Rightarrow>
                list_ex (\<lambda>a. a_project a = pid \<and> a_node a = k \<and> a_harness a = Some (ex_harness x) \<and> a_external_id a = Some (ex_id x)) (attempts s))
       (StateConflict ''external execution identity was already registered''))"

definition reserved_payload :: "attempt \<Rightarrow> reservation \<Rightarrow> (string \<times> pyval) list option \<Rightarrow> claim option \<Rightarrow> bool \<Rightarrow> pyval" where
  "reserved_payload a rq relay cl glass = PDict (
     [(''attempt_id'', PStr (a_id a)), (''execution_project_id'', py_str_opt (a_execution_project a)),
      (''execution_kind'', PStr (execution_kind_name (a_kind a))), (''workflow'', py_str_opt (rq_workflow rq)),
      (''revision'', PInt (a_revision a)), (''external'', py_opt (\<lambda>x. PDict (external_py x)) (rq_external rq)),
      (''relay_of'', py_opt PDict relay)] @
     (if a_owner a = None then [] else [(''owner_driver_id'', py_str_opt (a_owner a)), (''owner_fence'', PInt 1),
        (''lease_expires_at'', py_opt PInt (a_lease a))]) @
     (case cl of None \<Rightarrow> [] | Some c \<Rightarrow> [(''claim_id'', PStr (c_id c))]) @
     (if glass then [(''break_glass'', PBool True)] else []))"

definition admit :: "env \<Rightarrow> string \<Rightarrow> string \<Rightarrow> reservation \<Rightarrow> attempt \<Rightarrow> (string \<times> pyval) list option \<Rightarrow> claim option \<Rightarrow> bool
    \<Rightarrow> pyval option \<Rightarrow> db \<Rightarrow> (public \<times> db) result" where
  "admit ev pid k rq a relay cl glass prior s =
     bindE (raise_if (attempt_conflict s a)
              (StateConflict ''node has an active attempt or this external execution identity was already registered'')) (\<lambda>_.
     let s1 = s\<lparr>attempts := attempts s @ [a]\<rparr>;
         s2 = (case cl of None \<Rightarrow> s1 | Some c \<Rightarrow> bind_claim ev (a_id a) (c_id c) s1);
         s3 = (case rq_external rq of None \<Rightarrow> s2 | Some x \<Rightarrow>
                 s2\<lparr>owners := owners s2 @ [\<lparr>ow_attempt = a_id a, ow_project = pid, ow_node = k, ow_harness = ex_harness x,
                     ow_external = ex_id x, ow_status = OwActive, ow_admitted = now_at ev, ow_updated = now_at ev, ow_settled = None\<rparr>]\<rparr>);
         s4 = update_node pid k (\<lambda>n. n\<lparr>n_status := OPEN, n_updated := now_at ev\<rparr>) s3;
         s5 = add_event ev pid (Some k) (if rq_external rq = None then ''attempt_reserved'' else ''external_attempt_registered'')
                (reserved_payload a rq relay cl glass) s4;
         s6 = (case prior of None \<Rightarrow> s5 | Some v \<Rightarrow> if v = PNone then s5 else emit_prior ev pid k (a_id a) v False s5)
     in pub_result ev (a_id a) s6)"

text \<open>
  \<open>_reserve_once\<close>. \<open>check\<close> selects the check-only pass of a preflighted reservation, whose result is
  the source binding it saw; \<open>seen\<close> is the source the first pass saw (\<open>None\<close> without a preflight).
\<close>

definition reserve_once :: "env \<Rightarrow> string \<Rightarrow> string \<Rightarrow> int \<Rightarrow> reservation \<Rightarrow> bool \<Rightarrow> source_view option \<Rightarrow> db
    \<Rightarrow> ((public + source_view) \<times> db) result" where
  "reserve_once ev pid k expected rq check seen s =
     bindE (request_of expected rq) (\<lambda>request.
     let request_hash = digest ev request;
         s0 = (if rq_external rq \<noteq> None then mark_back ev (rq_owner rq) ''start_external_attempt'' s else s) in
     bindE (get_node s0 pid k) (\<lambda>n.
     case find (\<lambda>a. a_project a = pid \<and> a_node a = k \<and> a_request_key a = rq_key rq) (attempts s0) of
       Some old \<Rightarrow> bindE (replay ev pid k rq request_hash old s0) (\<lambda>(p, s1). Inr (Inl p, s1))
     | None \<Rightarrow>
         bindE (admission ev pid k expected rq n s0) (\<lambda>(pins, cl, glass).
         bindE (case rq_continue rq of None \<Rightarrow> Inr None
                | Some prior \<Rightarrow> bindE (relay_source s0 prior pid k (rq_workflow rq) n pins) (\<lambda>r.
                    Inr (Some (r @ (case rq_relay_digest rq of None \<Rightarrow> [] | Some d \<Rightarrow> [(''expected_digest'', PStr d)]))))) (\<lambda>relay.
         bindE (if check \<or> seen \<noteq> None
                then bindE (preflight_guard s0 pid k rq) (\<lambda>_. bindE (get_project s0 pid) (\<lambda>p. Inr (Some (source_of s0 p))))
                else Inr None) (\<lambda>source.
         if check then Inr (Inr (the source), s0)
         else
           bindE (raise_if (seen \<noteq> None \<and> source \<noteq> seen)
                    (StateConflict ''source binding changed during artifact preflight; reload before admission'')) (\<lambda>_.
           let prior = prior_value s0 pid k rq;
               ctx = PDict (context_of ev s0 pid k expected n pins cl rq relay @
                       (case prior of None \<Rightarrow> [] | Some v \<Rightarrow> [(''prior_candidate'', v)]) @
                       (case rq_external rq of None \<Rightarrow> [] | Some x \<Rightarrow> [(''executor'', PDict ([(''kind'', PStr ''external'')] @ external_py x))]));
               a = new_attempt ev pid k expected n pins ctx rq request_hash
           in bindE (admit ev pid k rq a relay cl glass prior s0) (\<lambda>(p, s1). Inr (Inl p, s1))))))))"

text \<open>
  A pass of \<open>_reserve\<close> is one transaction. Without a preflight there is one; with a preflight there is a
  check-only pass, then the import outside any transaction, then the admitting pass, which refuses a
  source binding that is not the one the first pass saw. Each pass commits by itself, and anything
  may happen between them.
\<close>

datatype pass = Only | Check | Admit source_view

definition reserve_pass :: "env \<Rightarrow> string \<Rightarrow> string \<Rightarrow> int \<Rightarrow> reservation \<Rightarrow> pass \<Rightarrow> db \<Rightarrow> ((public + source_view) \<times> db) result" where
  "reserve_pass ev pid k expected rq p s =
     reserve_once ev pid k expected rq (p = Check) (case p of Admit v \<Rightarrow> Some v | _ \<Rightarrow> None) s"

text \<open>
  \<open>_reserve\<close> when no other writer comes between its passes. \<open>preflight\<close> is the outcome of the import: none was
  asked for, it raised, or it returned.
\<close>

datatype preflight = NoPreflight | PreflightRaises error | PreflightReturns

definition reserve :: "env \<Rightarrow> string \<Rightarrow> string \<Rightarrow> int \<Rightarrow> reservation \<Rightarrow> preflight \<Rightarrow> db \<Rightarrow> (public + source_view) result \<times> db" where
  "reserve ev pid k expected rq pre s =
     (if pre = NoPreflight then commit s (reserve_pass ev pid k expected rq Only s)
      else case commit s (reserve_pass ev pid k expected rq Check s) of
        (Inr (Inr source), s1) \<Rightarrow>
          (case pre of
             PreflightRaises e \<Rightarrow> (Inl e, s1)
           | _ \<Rightarrow> commit s1 (reserve_pass ev pid k expected rq (Admit source) s1))
      | (r, s1) \<Rightarrow> (r, s1))"

text \<open>\<open>reserve\<close>: the SkillFlow entry, which names a workflow and has no preflight.\<close>

definition reserve_workflow :: "env \<Rightarrow> string \<Rightarrow> string \<Rightarrow> int \<Rightarrow> string \<Rightarrow> reservation \<Rightarrow> db \<Rightarrow> ((public + source_view) \<times> db) result" where
  "reserve_workflow ev pid k expected workflow rq s =
     bindE (check_key (PStr workflow)) (\<lambda>w.
     reserve_pass ev pid k expected (rq\<lparr>rq_workflow := Some w, rq_external := None, rq_handoff := None, rq_prior := None\<rparr>) Only s)"

section \<open>Between reservation and launch\<close>

definition set_context :: "env \<Rightarrow> string \<Rightarrow> pyval \<Rightarrow> db \<Rightarrow> db" where
  "set_context ev aid ctx s = update_attempt aid (\<lambda>a. a\<lparr>a_context := ctx, a_updated := now_at ev\<rparr>) s"

definition attempt_event :: "env \<Rightarrow> attempt \<Rightarrow> string \<Rightarrow> (string \<times> pyval) list \<Rightarrow> db \<Rightarrow> db" where
  "attempt_event ev a type payload s = add_event ev (a_project a) (Some (a_node a)) type (PDict ((''attempt_id'', PStr (a_id a)) # payload)) s"

definition record_preflight :: "env \<Rightarrow> string \<Rightarrow> pyval \<Rightarrow> string option \<Rightarrow> db \<Rightarrow> (public \<times> db) result" where
  "record_preflight ev aid report err s =
     bindE (raise_if (\<not> is_dict report) (StateGraphError ''preflight report must be an object'')) (\<lambda>_.
     bindE (get_attempt s aid) (\<lambda>a.
     bindE (raise_if (a_status a \<noteq> Reserved \<or> bound a) (StateConflict ''preflight belongs to an unlaunched reserved attempt'')) (\<lambda>_.
     case err of
       None \<Rightarrow> pub_result ev aid (attempt_event ev a ''attempt_preflight_passed'' [(''report'', report)] s)
     | Some msg \<Rightarrow>
         bindE (check_text (PStr msg) 4000) (\<lambda>e.
         pub_result ev aid (attempt_event ev a ''attempt_preflight_failed'' [(''report'', report), (''error'', PStr e)]
           (update_attempt aid (\<lambda>x. x\<lparr>a_status := Failed, a_error := Some e, a_updated := now_at ev\<rparr>) s))))))"

text \<open>\<open>_bound\<close> of \<open>pin_relay\<close>: the inventory without the advice that may move.\<close>

definition relay_bound :: "pyval \<Rightarrow> pyval" where
  "relay_bound v = (case v of PDict kvs \<Rightarrow> PDict (filter (\<lambda>(k, _). k \<noteq> ''mainline_ahead_by'') kvs) | _ \<Rightarrow> v)"

definition pin_relay :: "env \<Rightarrow> string \<Rightarrow> pyval \<Rightarrow> db \<Rightarrow> (public \<times> db) result" where
  "pin_relay ev aid relay s =
     bindE (raise_if (\<not> is_dict relay \<or> \<not> truthy (get_or ''base_sha'' relay PNone)) (StateGraphError ''invalid relay descriptor'')) (\<lambda>_.
     bindE (get_attempt s aid) (\<lambda>a.
     bindE (raise_if (dict_get ''relay_of'' (a_context a) = None) (StateConflict ''attempt was not reserved with continue_from'')) (\<lambda>_.
     let old = get_or ''relay'' (a_context a) PNone in
     if old \<noteq> PNone then
       bindE (raise_if (\<not> same_value (relay_bound old) (relay_bound relay))
                (StateConflict ''relay inventory changed between preparation and dispatch'')) (\<lambda>_. Inr (public_view ev a, s))
     else
       bindE (raise_if (a_status a \<noteq> Reserved) (StateConflict ''relay must be pinned before dispatch'')) (\<lambda>_.
       pub_result ev aid (attempt_event ev a ''attempt_relay_prepared''
         [(''relay_of'', get_or ''attempt_id'' (get_or ''relay_of'' (a_context a) PNone) PNone), (''relay'', relay)]
         (set_context ev aid (dict_set ''relay'' relay (a_context a)) s))))))"

definition latest_prior_candidate :: "db \<Rightarrow> string \<Rightarrow> string \<Rightarrow> attempt option" where
  "latest_prior_candidate s pid k = latest_prior s pid k None"

definition prior_candidate_pending :: "db \<Rightarrow> string \<Rightarrow> attempt option result" where
  "prior_candidate_pending s aid = bindE (get_attempt s aid) (\<lambda>a.
     if dict_get ''prior_candidate'' (a_context a) \<noteq> None \<or> a_status a \<noteq> Reserved then Inr None
     else Inr (latest_prior s (a_project a) (a_node a) (Some aid)))"

definition pin_prior_candidate :: "env \<Rightarrow> string \<Rightarrow> string \<times> string option \<Rightarrow> pyval \<Rightarrow> db \<Rightarrow> (public \<times> db) result" where
  "pin_prior_candidate ev aid prior value s = bindE (get_attempt s aid) (\<lambda>a.
     if dict_get ''prior_candidate'' (a_context a) \<noteq> None \<or> a_status a \<noteq> Reserved then Inr (public_view ev a, s)
     else case latest_prior s (a_project a) (a_node a) (Some aid) of
       None \<Rightarrow> Inr (public_view ev a, s)
     | Some current \<Rightarrow>
         let v = (if (a_id current, a_artifact current) \<noteq> prior
                  then unresolved current ''the previous candidate changed while admission was judged; not evaluated'' True None ''unresolved''
                  else value)
         in pub_result ev aid (emit_prior ev (a_project a) (a_node a) aid v False
              (set_context ev aid (dict_set ''prior_candidate'' v (a_context a)) s)))"

definition reconcile_prior_candidate :: "env \<Rightarrow> string \<Rightarrow> pyval \<Rightarrow> pyval \<Rightarrow> db \<Rightarrow> (public \<times> db) result" where
  "reconcile_prior_candidate ev aid expected value s = bindE (get_attempt s aid) (\<lambda>a.
     if \<not> same_value (get_or ''prior_candidate'' (a_context a) PNone) expected then Inr (public_view ev a, s)
     else pub_result ev aid (emit_prior ev (a_project a) (a_node a) aid value True
            (set_context ev aid (dict_set ''prior_candidate'' value (a_context a)) s)))"

definition HOST_FIELDS :: "string list" where
  "HOST_FIELDS = [''source_repo'', ''seed_file'', ''output_step'', ''scheduler_owned'', ''repo_mode'']"

definition host_descriptor_ok :: "pyval \<Rightarrow> bool" where
  "host_descriptor_ok d \<longleftrightarrow> is_dict d \<and> set (dict_keys d) = set HOST_FIELDS \<and>
     (case dict_get ''scheduler_owned'' d of Some (PBool _) \<Rightarrow> True | _ \<Rightarrow> False) \<and>
     (dict_get ''repo_mode'' d = Some (PStr ''code'') \<or> dict_get ''repo_mode'' d = Some (PStr ''none''))"

definition pin_host_contract :: "env \<Rightarrow> string \<Rightarrow> pyval \<Rightarrow> db \<Rightarrow> (public \<times> db) result" where
  "pin_host_contract ev aid descriptor s =
     bindE (raise_if (\<not> host_descriptor_ok descriptor) (StateGraphError ''invalid host launch descriptor'')) (\<lambda>_.
     bindE (mapE (\<lambda>f. let v = get_or f descriptor PNone in if v = PNone then Inr [] else check_text v 4000)
              (filter (\<lambda>f. f \<noteq> ''scheduler_owned'') HOST_FIELDS)) (\<lambda>_.
     bindE (get_attempt s aid) (\<lambda>a.
     bindE (raise_if (case binding_row s (a_project a) of None \<Rightarrow> False
                      | Some b \<Rightarrow> PStr (sb_repo b) \<noteq> get_or ''source_repo'' descriptor PNone)
              (StateConflict ''source binding changed between planning and reservation'')) (\<lambda>_.
     let old = get_or ''host_contract'' (a_context a) PNone in
     if old \<noteq> PNone then
       bindE (raise_if (\<not> same_value old descriptor)
                (StateConflict ''host launch contract changed; retire the unlaunched intent and choose a new request'')) (\<lambda>_. Inr (public_view ev a, s))
     else
       bindE (raise_if (a_status a \<noteq> Reserved) (StateConflict ''host contract must be pinned before dispatch'')) (\<lambda>_.
       pub_result ev aid (attempt_event ev a ''host_contract_pinned'' [(''descriptor'', descriptor)]
         (set_context ev aid (dict_set ''host_contract'' descriptor (a_context a)) s)))))))"

section \<open>Launch\<close>

definition set_attempt_status :: "env \<Rightarrow> string \<Rightarrow> attempt_status \<Rightarrow> db \<Rightarrow> db" where
  "set_attempt_status ev aid st s = update_attempt aid (\<lambda>a. a\<lparr>a_status := st, a_updated := now_at ev\<rparr>) s"

text \<open>\<open>claim_launch\<close>: \<open>True\<close> exactly for the caller that dispatches.\<close>

definition claim_launch :: "env \<Rightarrow> string \<Rightarrow> string option \<Rightarrow> bool \<Rightarrow> string option \<Rightarrow> string option \<Rightarrow> int option \<Rightarrow> db \<Rightarrow> (bool \<times> db) result" where
  "claim_launch ev aid driver admin act claim_id fence s =
     bindE (get_attempt s aid) (\<lambda>a.
     if a_status a \<noteq> Reserved then Inr (False, s)
     else
       bindE (launch_authorization s a driver admin claim_id fence (now_at ev)) (\<lambda>(glass, rebind).
       bindE (require_dispatch s (a_project a) (a_node a)) (\<lambda>_.
       bindE (pins_current s a) (\<lambda>fresh.
       if \<not> fresh then
         Inr (False, attempt_event ev a ''reservation_superseded'' [] (set_attempt_status ev aid Superseded s))
       else
         let s1 = set_attempt_status ev aid Launching s;
             s2 = (case rebind of None \<Rightarrow> s1 | Some c \<Rightarrow> bind_claim ev aid (c_id c) s1)
         in Inr (True, attempt_event ev a ''attempt_launching''
              ((case rebind of None \<Rightarrow> [] | Some c \<Rightarrow> [(''claim_id'', PStr (c_id c))]) @
               (if glass then [(''break_glass'', PBool True), (''launched_by'', py_str_opt driver), (''actor'', py_str_opt act),
                               (''owner_driver_id'', py_str_opt (a_owner a))] else [])) s2)))))"

definition retire_reservation :: "env \<Rightarrow> string \<Rightarrow> string \<Rightarrow> db \<Rightarrow> (public \<times> db) result" where
  "retire_reservation ev aid reason s =
     bindE (check_text (PStr reason) 4000) (\<lambda>r.
     bindE (get_attempt s aid) (\<lambda>a.
     if a_status a = Superseded \<and> \<not> bound a then Inr (public_view ev a, s)
     else
       bindE (raise_if (a_status a \<noteq> Reserved \<or> bound a)
                (StateConflict ''only an unlaunched reservation can be retired; recover/stop the actual run first'')) (\<lambda>_.
       pub_result ev aid (attempt_event ev a ''reservation_retired'' [(''reason'', PStr r)]
         (update_attempt aid (\<lambda>x. x\<lparr>a_status := Superseded, a_error := Some r, a_updated := now_at ev\<rparr>) s)))))"

definition launch_uncertain :: "env \<Rightarrow> string \<Rightarrow> string \<Rightarrow> db \<Rightarrow> (public \<times> db) result" where
  "launch_uncertain ev aid reason s =
     bindE (check_text (PStr reason) 4000) (\<lambda>r.
     bindE (get_attempt s aid) (\<lambda>a.
     if bound a \<or> a_status a \<notin> {Launching, Unknown} then Inr (public_view ev a, s)
     else pub_result ev aid (attempt_event ev a ''launch_uncertain'' [(''reason'', PStr r)]
            (update_attempt aid (\<lambda>x. x\<lparr>a_status := Unknown, a_error := Some r, a_updated := now_at ev\<rparr>) s))))"

text \<open>\<open>guard_generic_recovery\<close> on an initialised State database.\<close>

definition guard_generic_recovery :: "string option \<Rightarrow> string option \<Rightarrow> bool \<Rightarrow> db \<Rightarrow> unit result" where
  "guard_generic_recovery xp run allow_active s =
     (let rows = filter (\<lambda>a. (xp \<noteq> None \<and> a_execution_project a = xp) \<or> (run \<noteq> None \<and> a_run a = run)) (attempts s) in
      raise_if (rows \<noteq> [] \<and> (\<not> allow_active \<or> list_ex (\<lambda>a. a_status a \<notin> set ACTIVE) rows))
        (StateRecoveryRefused ''Generic recovery is unavailable; use an explicit State successor disposition.''))"

text \<open>\<open>retained_producer\<close>: a portable input's producer is a retained terminal candidate of this project.\<close>

definition observation_of :: "db \<Rightarrow> string \<Rightarrow> string option \<Rightarrow> observation option" where
  "observation_of s aid oid = find (\<lambda>o1. o_attempt o1 = aid \<and> Some (o_id o1) = oid) (observations s)"

definition retained_producer :: "db \<Rightarrow> string \<Rightarrow> string \<Rightarrow> string \<Rightarrow> attempt result" where
  "retained_producer s pid aid artifact =
     bindE (require_some (find (\<lambda>a. a_id a = aid \<and> a_project a = pid) (attempts s))
       (StateConflict ''review input producer attempt is not a retained terminal candidate of this State project'')) (\<lambda>a.
     bindE (raise_if (a_status a \<noteq> Candidate \<or> a_artifact a \<noteq> Some artifact \<or> \<not> SHA artifact)
       (StateConflict ''review input producer has no matching retained terminal candidate artifact'')) (\<lambda>_.
     bindE (if a_kind a = External then
              (case observation_of s aid (a_terminal a) of
                 None \<Rightarrow> Inl (StateConflict ''review input producer lacks a quiescent terminal observation'')
               | Some ob \<Rightarrow> raise_if (o_status ob \<noteq> Candidate \<or> \<not> o_quiescent ob \<or> o_artifact ob \<noteq> a_artifact a)
                   (StateConflict ''review input producer lacks a quiescent terminal observation''))
            else Inr ()) (\<lambda>_. Inr a)))"

definition list_attempts :: "env \<Rightarrow> db \<Rightarrow> string \<Rightarrow> string \<Rightarrow> int \<Rightarrow> public list result" where
  "list_attempts ev s pid k limit =
     bindE (check_integer (PInt limit) 1 500) (\<lambda>l.
     bindE (get_node s pid k) (\<lambda>_. Inr (map (public_view ev) (take (nat l) (rev (node_attempts s pid k))))))"

end
