(* ===== verification/Acceptance.thy ===== *)
theory Acceptance
  imports Attempts
begin

text \<open>
  \<open>StateAttempts\<close> (src/core/state_attempts.py), second half: the binding of a workflow run, its
  reconciliation, verifier evidence and the acceptance of a goal; \<open>store_report_blob\<close> of
  src/core/state_report_integrity.py and the review marking of src/core/state_review_independence.py.

  The workflow engine (SkillFlow) is a package outside the repository: the record \<open>engine\<close> has
  its three calls as functions, and no law about them is assumed. What the code awaits between two
  transactions is an argument of the second one: \<open>reconcile_observe\<close> is the part before the write
  transaction, \<open>reconcile_commit\<close> the transaction.
\<close>

section \<open>The workflow engine\<close>

record run_info =
  ri_id :: string
  ri_project :: string
  ri_graph :: "string option"
  ri_status :: string
  ri_version :: "int option"
  ri_digest :: "string option"
  ri_node :: "string option"
  ri_error :: "string option"

text \<open>Replies of \<open>get_run\<close>, \<open>get_graph_version\<close> (the recorded and the recomputed digest) and
  \<open>audit_operation_owners\<close> (lost and unknown operations, live ones).\<close>

datatype run_reply = RunRaises | RunMissing | RunIs run_info

datatype version_reply = VersionRaises | VersionMissing | VersionIs string string

datatype audit_reply = AuditRaises | AuditMalformed | AuditIs "string list" "string list" int

record engine =
  sf_run :: "string \<Rightarrow> run_reply"
  sf_version :: "string option \<Rightarrow> int \<Rightarrow> version_reply"
  sf_audit :: "string \<Rightarrow> audit_reply"

definition RUN_STATUSES :: "string list" where
  "RUN_STATUSES = [''pending'', ''running'', ''paused'', ''completed'', ''failed'', ''cancelled'', ''canceled'']"

definition sha256_pin :: "string \<Rightarrow> bool" where
  "sha256_pin d \<longleftrightarrow> starts_with d ''sha256:'' \<and> hex_of_length 64 (drop 7 d)"

definition engine_row :: "engine \<Rightarrow> string \<Rightarrow> attempt \<Rightarrow> run_info result" where
  "engine_row sf run a = (case sf_run sf run of
     RunRaises \<Rightarrow> Inl (StateConflict ''cannot observe workflow'')
   | RunMissing \<Rightarrow> Inl (StateConflict ''workflow run is unknown; a missing run is not successful'')
   | RunIs row \<Rightarrow>
       bindE (raise_if (ri_id row \<noteq> run) (StateConflict ''workflow run is unknown; a missing run is not successful'')) (\<lambda>_.
       bindE (raise_if (Some (ri_project row) \<noteq> a_execution_project a \<or> ri_graph row \<noteq> a_workflow a)
                (StateConflict ''run belongs to a different execution project or workflow'')) (\<lambda>_.
       bindE (raise_if (ri_status row \<notin> set RUN_STATUSES) (StateConflict ''unsupported workflow status; retain the attempt'')) (\<lambda>_.
       case (ri_version row, ri_digest row) of
         (Some v, Some d) \<Rightarrow>
           bindE (raise_if (v < 1 \<or> \<not> sha256_pin d) (StateConflict ''workflow has no valid version/digest pin'')) (\<lambda>_.
           case sf_version sf (ri_graph row) v of
             VersionRaises \<Rightarrow> Inl (StateConflict ''cannot verify workflow graph version history'')
           | VersionMissing \<Rightarrow> Inl (StateConflict ''pinned workflow graph version is missing or inconsistent'')
           | VersionIs recorded computed \<Rightarrow>
               bindE (raise_if (recorded \<noteq> d \<or> computed \<noteq> d)
                        (StateConflict ''pinned workflow graph version is missing or inconsistent'')) (\<lambda>_. Inr row))
       | _ \<Rightarrow> Inl (StateConflict ''workflow has no valid version/digest pin'')))))"

section \<open>Binding a run\<close>

definition bind_run_commit :: "env \<Rightarrow> string \<Rightarrow> run_info \<Rightarrow> db \<Rightarrow> (public \<times> db) result" where
  "bind_run_commit ev aid row s =
     bindE (get_attempt s aid) (\<lambda>a.
     if bound a then
       bindE (raise_if (a_run a \<noteq> Some (ri_id row)) (StateConflict ''attempt is already bound to another run'')) (\<lambda>_. Inr (public_view ev a, s))
     else
       bindE (raise_if (a_status a \<notin> set ACTIVE) (StateConflict ''terminal attempt cannot be rebound'')) (\<lambda>_.
       bindE (raise_if (list_ex (\<lambda>x. a_id x \<noteq> aid \<and> a_run x = Some (ri_id row)) (attempts s))
                (StateConflict ''run is already assigned to an attempt'')) (\<lambda>_.
       pub_result ev aid (attempt_event ev a ''attempt_bound''
         [(''run_id'', PStr (ri_id row)), (''graph_version'', py_opt PInt (ri_version row)), (''graph_digest'', py_str_opt (ri_digest row))]
         (update_attempt aid (\<lambda>x. x\<lparr>a_run := Some (ri_id row), a_graph_version := ri_version row, a_graph_digest := ri_digest row,
            a_status := (if ri_status row = ''paused'' then Paused else Running), a_error := None, a_updated := now_at ev\<rparr>) s)))))"

definition bind_run :: "env \<Rightarrow> string \<Rightarrow> string \<Rightarrow> engine \<Rightarrow> db \<Rightarrow> (public \<times> db) result" where
  "bind_run ev aid run sf s =
     bindE (check_key (PStr run)) (\<lambda>_.
     bindE (get_attempt s aid) (\<lambda>a.
     bindE (raise_if (a_kind a \<noteq> Skillflow) (StateConflict ''an external attempt cannot be bound to a SkillFlow run'')) (\<lambda>_.
     bindE (engine_row sf run a) (\<lambda>row. bind_run_commit ev aid row s))))"

section \<open>Releasing the claims of a settled attempt\<close>

definition bound_claims :: "db \<Rightarrow> attempt \<Rightarrow> claim list" where
  "bound_claims s a = filter (\<lambda>c. c_attempt c = Some (a_id a) \<and> c_project c = a_project a \<and> c_node c = a_node a \<and> c_status c = Live) (claims s)"

definition release_bound :: "env \<Rightarrow> attempt \<Rightarrow> string \<Rightarrow> string \<Rightarrow> claim \<Rightarrow> db \<Rightarrow> db" where
  "release_bound ev a act reason c s =
     add_event ev (a_project a) (Some (a_node a)) ''claim_released''
       (PDict [(''claim_id'', PStr (c_id c)), (''driver_id'', PStr (c_driver c)), (''purpose'', PStr (purpose_name (c_purpose c))),
               (''fence'', PInt (c_fence c)), (''reason'', PStr reason), (''attempt_id'', PStr (a_id a)), (''actor'', PStr act),
               (''break_glass'', PBool False)])
       (add_history ev act c Released reason
         (s\<lparr>claims := update_where (\<lambda>x. c_id x = c_id c \<and> c_attempt x = Some (a_id a) \<and> c_status x = Live)
                (\<lambda>x. x\<lparr>c_status := Released, c_updated := now_at ev\<rparr>) (claims s)\<rparr>))"

definition release_bound_claims :: "env \<Rightarrow> attempt \<Rightarrow> string \<Rightarrow> string \<Rightarrow> db \<Rightarrow> db" where
  "release_bound_claims ev a act result_status s =
     fold (release_bound ev a act (''attempt settled as '' @ result_status)) (bound_claims s a) s"

section \<open>Reconciling with the run\<close>

text \<open>The outcome the run shows: a terminal status counts only with a complete, quiet audit.\<close>

definition audited_outcome :: "engine \<Rightarrow> run_info \<Rightarrow> attempt_status result" where
  "audited_outcome sf row =
     (if ri_status row \<in> {''completed'', ''failed'', ''cancelled'', ''canceled''} then
        (case sf_audit sf (ri_id row) of
           AuditRaises \<Rightarrow> Inl (StateConflict ''cannot audit operation quiescence'')
         | AuditMalformed \<Rightarrow> Inl (StateConflict ''operation audit is incomplete; quiescence is unknown'')
         | AuditIs lost unknown alive \<Rightarrow>
             bindE (raise_if (alive < 0) (StateConflict ''operation audit is incomplete; quiescence is unknown'')) (\<lambda>_.
             Inr (if lost \<noteq> [] \<or> unknown \<noteq> [] \<or> alive \<noteq> 0 then Unknown
                  else if ri_status row = ''completed'' then Candidate else Failed)))
      else Inr (if ri_status row = ''paused'' then Paused else Running))"

definition reconcile_observe :: "engine \<Rightarrow> attempt \<Rightarrow> string option \<Rightarrow> (run_info \<times> attempt_status) result" where
  "reconcile_observe sf a candidate =
     bindE (raise_if (a_kind a \<noteq> Skillflow) (StateConflict ''use the external observation adapter, not SkillFlow reconciliation'')) (\<lambda>_.
     bindE (raise_if (\<not> bound a) (StateConflict ''attempt has no run; recover its launch first'')) (\<lambda>_.
     bindE (engine_row sf (the (a_run a)) a) (\<lambda>row.
     bindE (raise_if (ri_version row \<noteq> a_graph_version a \<or> ri_digest row \<noteq> a_graph_digest a) (StateConflict ''workflow definition pin changed'')) (\<lambda>_.
     bindE (case candidate of None \<Rightarrow> Inr () | Some c \<Rightarrow> bindE (check_artifact_ref (PStr c)) (\<lambda>_. Inr ())) (\<lambda>_.
     bindE (audited_outcome sf row) (\<lambda>outcome. Inr (row, outcome)))))))"

definition workflow_observation :: "run_info \<Rightarrow> pyval" where
  "workflow_observation row = PDict [(''workflow_status'', PStr (ri_status row)), (''current_node'', py_str_opt (ri_node row)),
     (''error_reason'', py_str_opt (ri_error row))]"

definition last_observation :: "db \<Rightarrow> attempt \<Rightarrow> pyval" where
  "last_observation s a = (case find (\<lambda>e. e_project e = a_project a \<and> e_node e = Some (a_node a) \<and> e_type e = ''attempt_observed'' \<and>
       dict_get ''attempt_id'' (e_payload e) = Some (PStr (a_id a))) (rev (events s)) of
     None \<Rightarrow> PNone | Some e \<Rightarrow> get_or ''workflow_observation'' (e_payload e) PNone)"

text \<open>The attempt whose acceptance a node carries.\<close>

definition receipt_at :: "db \<Rightarrow> string \<Rightarrow> acceptance option" where
  "receipt_at s rid = find (\<lambda>r. rc_id r = rid) (acceptances s)"

definition accepted_attempt :: "db \<Rightarrow> node \<Rightarrow> string option" where
  "accepted_attempt s n = Option.bind (n_receipt n) (\<lambda>rid. map_option rc_attempt (receipt_at s rid))"

definition withdraw_acceptance :: "env \<Rightarrow> attempt \<Rightarrow> string \<Rightarrow> db \<Rightarrow> db" where
  "withdraw_acceptance ev a reason s = (let (hit, s1) = invalidate ev (a_project a) (a_node a) s in
     attempt_event ev a ''acceptance_invalidated'' [(''reason'', PStr reason), (''invalidated'', py_strs hit)] s1)"

definition withdraw_if_accepted :: "env \<Rightarrow> attempt \<Rightarrow> node \<Rightarrow> string \<Rightarrow> db \<Rightarrow> db" where
  "withdraw_if_accepted ev a n reason s =
     (if accepted_attempt s n = Some (a_id a) then withdraw_acceptance ev a reason s else s)"

definition TERMINAL :: "attempt_status list" where
  "TERMINAL = [Candidate, Failed, Superseded, Abandoned]"

definition nonempty :: "string option \<Rightarrow> bool" where
  "nonempty x \<longleftrightarrow> x \<noteq> None \<and> x \<noteq> Some []"

definition reconcile_commit :: "env \<Rightarrow> string \<Rightarrow> run_info \<Rightarrow> attempt_status \<Rightarrow> string option \<Rightarrow> string option \<Rightarrow> db
    \<Rightarrow> ((public \<times> bool) \<times> db) result" where
  "reconcile_commit ev aid row observed candidate act s =
     bindE (get_attempt s aid) (\<lambda>a.
     bindE (raise_if (a_run a \<noteq> Some (ri_id row)) (StateConflict ''attempt binding changed'')) (\<lambda>_.
     bindE (pins_current s a) (\<lambda>fresh.
     let quiescent = (observed \<in> {Candidate, Failed});
         status = (if quiescent \<and> \<not> fresh then Superseded else observed) in
     bindE (raise_if (a_status a \<in> set TERMINAL \<and> status \<in> set ACTIVE) (StateConflict ''terminal attempt's run was revived; use a new attempt'')) (\<lambda>_.
     bindE (raise_if (a_status a = Abandoned) (StateConflict ''attempt was abandoned; its run outcome is historical - use a new attempt'')) (\<lambda>_.
     bindE (raise_if (candidate \<noteq> None \<and> status = Candidate \<and> nonempty (a_artifact a) \<and> a_artifact a \<noteq> candidate)
              (StateConflict ''candidate artifact is immutable; create another attempt'')) (\<lambda>_.
     let artifact = (if candidate \<noteq> None \<and> status = Candidate then candidate else a_artifact a);
         attention = (status \<in> {Paused, Unknown, Failed} \<and> \<not> same_value (last_observation s a) (workflow_observation row));
         changed = (a_status a \<noteq> status \<or> artifact \<noteq> a_artifact a \<or> attention) in
     bindE (get_node s (a_project a) (a_node a)) (\<lambda>n.
     let s1 = (if changed \<and> status \<noteq> Candidate
               then withdraw_if_accepted ev a n ''accepted workflow no longer has a valid candidate outcome'' s else s);
         s2 = (if changed then update_attempt aid (\<lambda>x. x\<lparr>a_status := status, a_artifact := artifact, a_error := ri_error row, a_updated := now_at ev\<rparr>) s1
               else s1);
         s3 = (if changed \<and> status = Candidate
               then s2\<lparr>nodes := update_where (\<lambda>x. is_node (a_project a) (a_node a) x \<and> n_status x \<noteq> VERIFIED)
                                  (\<lambda>x. x\<lparr>n_status := CANDIDATE, n_updated := now_at ev\<rparr>) (nodes s2)\<rparr> else s2);
         s4 = (if changed then attempt_event ev a ''attempt_observed''
                 [(''status'', PStr (attempt_status_name status)), (''artifact_ref'', py_str_opt artifact),
                  (''stale_inputs'', PBool (\<not> fresh)), (''workflow_observation'', workflow_observation row)] s3 else s3);
         s5 = (if quiescent then release_bound_claims ev a (case act of Some d \<Rightarrow> if d = [] then ''workflow-reconcile'' else d | None \<Rightarrow> ''workflow-reconcile'')
                 (attempt_status_name status) s4 else s4)
     in bindE (pub_result ev aid s5) (\<lambda>(p, t). Inr ((p, \<not> fresh), t)))))))))"

definition reconcile :: "env \<Rightarrow> string \<Rightarrow> engine \<Rightarrow> string option \<Rightarrow> string option \<Rightarrow> db \<Rightarrow> ((public \<times> bool) \<times> db) result" where
  "reconcile ev aid sf candidate act s =
     bindE (get_attempt s aid) (\<lambda>a.
     bindE (reconcile_observe sf a candidate) (\<lambda>(row, observed).
     reconcile_commit ev aid row observed candidate act s))"

section \<open>Retained report bytes\<close>

definition store_report_blob :: "env \<Rightarrow> string \<Rightarrow> string \<Rightarrow> string \<Rightarrow> db \<Rightarrow> db result" where
  "store_report_blob ev ref sha bytes s = (case find (\<lambda>b. rb_sha b = sha) (blobs s) of
     Some b \<Rightarrow> bindE (raise_if (rb_bytes b \<noteq> bytes \<or> rb_ref b \<noteq> ref)
                 (StateConflict ''persistent report bytes conflict with the supplied digest'')) (\<lambda>_. Inr s)
   | None \<Rightarrow> Inr (s\<lparr>blobs := blobs s @ [\<lparr>rb_sha = sha, rb_bytes = bytes, rb_ref = ref, rb_created = now_at ev\<rparr>]\<rparr>))"

definition store_optional_blob :: "env \<Rightarrow> string \<Rightarrow> string \<Rightarrow> string option \<Rightarrow> db \<Rightarrow> db result" where
  "store_optional_blob ev ref sha bytes s = (case bytes of None \<Rightarrow> Inr s | Some b \<Rightarrow> store_report_blob ev ref sha b s)"

text \<open>Immutable validated report bytes: retained under the digest they have, at the recorded reference.\<close>

definition retained_ok :: "env \<Rightarrow> db \<Rightarrow> string \<Rightarrow> string \<Rightarrow> bool" where
  "retained_ok ev s sha ref = (case find (\<lambda>b. rb_sha b = sha) (blobs s) of
     None \<Rightarrow> False
   | Some b \<Rightarrow> rb_bytes b \<noteq> [] \<and> sha256_hex ev (rb_bytes b) = sha \<and> rb_ref b = ref)"

section \<open>Eligibility\<close>

definition newest :: "db \<Rightarrow> attempt \<Rightarrow> bool" where
  "newest s a \<longleftrightarrow> map_option a_id (latest_attempt s (a_project a) (a_node a)) = Some (a_id a)"

definition candidate_report_ok :: "env \<Rightarrow> db \<Rightarrow> attempt \<Rightarrow> unit result" where
  "candidate_report_ok ev s a = (case observation_of s (a_id a) (a_terminal a) of
     None \<Rightarrow> Inl (StateConflict ''external candidate lacks a complete scoped quiescent observation'')
   | Some ob \<Rightarrow>
       bindE (raise_if (o_status ob \<noteq> Candidate \<or> \<not> o_quiescent ob \<or> o_artifact ob \<noteq> a_artifact a \<or> o_artifact_kind ob \<noteq> a_artifact_kind a)
                (StateConflict ''external candidate lacks a complete scoped quiescent observation'')) (\<lambda>_.
       raise_if (\<not> retained_ok ev s (o_report_sha ob) (o_report_ref ob))
         (StateConflict ''external candidate lacks immutable validated report bytes'')))"

definition eligible_candidate :: "env \<Rightarrow> db \<Rightarrow> attempt \<Rightarrow> unit result" where
  "eligible_candidate ev s a =
     bindE (if a_kind a = External then candidate_report_ok ev s a else Inr ()) (\<lambda>_.
     bindE (raise_if (a_status a \<noteq> Candidate \<or> \<not> nonempty (a_artifact a)) (StateConflict ''a completed candidate with a pinned artifact is required'')) (\<lambda>_.
     bindE (pins_current s a) (\<lambda>fresh.
     bindE (raise_if (\<not> fresh) (StateConflict ''candidate inputs are stale; re-run/re-validate against current dependencies'')) (\<lambda>_.
     raise_if (\<not> newest s a) (StateConflict ''a newer attempt supersedes this candidate'')))))"

definition failed_run_quiet :: "engine option \<Rightarrow> attempt \<Rightarrow> unit result" where
  "failed_run_quiet sf a = (case sf of
     None \<Rightarrow> Inl (StateConflict ''failed workflow evidence requires its bound execution runtime'')
   | Some e \<Rightarrow>
       bindE (raise_if (\<not> bound a) (StateConflict ''failed workflow evidence requires its bound execution runtime'')) (\<lambda>_.
       bindE (engine_row e (the (a_run a)) a) (\<lambda>row.
       bindE (raise_if (ri_status row \<noteq> ''failed'' \<or> ri_version row \<noteq> a_graph_version a \<or> ri_digest row \<noteq> a_graph_digest a)
                (StateConflict ''failed workflow outcome or definition pin changed'')) (\<lambda>_.
       case sf_audit e (the (a_run a)) of
         AuditRaises \<Rightarrow> Inl (StateConflict ''cannot confirm failed workflow operation quiescence'')
       | AuditMalformed \<Rightarrow> Inl (StateConflict ''failed workflow has unretired or unknown operations'')
       | AuditIs lost unknown alive \<Rightarrow> raise_if (lost \<noteq> [] \<or> unknown \<noteq> [] \<or> alive \<noteq> 0)
           (StateConflict ''failed workflow has unretired or unknown operations'')))))"

definition failed_report_ok :: "env \<Rightarrow> db \<Rightarrow> attempt \<Rightarrow> unit result" where
  "failed_report_ok ev s a = (case (observation_of s (a_id a) (a_terminal a), find (\<lambda>w. ow_attempt w = a_id a) (owners s)) of
     (Some ob, Some w) \<Rightarrow>
       bindE (raise_if (o_status ob \<noteq> Failed \<or> o_resulting ob \<noteq> Failed \<or> \<not> o_quiescent ob \<or> ow_status w \<noteq> OwSettled \<or> ow_settled w = None)
                (StateConflict ''failed external attempt lacks a complete scoped quiescent observation'')) (\<lambda>_.
       raise_if (\<not> retained_ok ev s (o_report_sha ob) (o_report_ref ob))
         (StateConflict ''failed external attempt lacks immutable validated report bytes''))
   | _ \<Rightarrow> Inl (StateConflict ''failed external attempt lacks a complete scoped quiescent observation''))"

definition eligible_failed_evidence :: "env \<Rightarrow> db \<Rightarrow> attempt \<Rightarrow> string \<Rightarrow> engine option \<Rightarrow> unit result" where
  "eligible_failed_evidence ev s a artifact sf =
     bindE (raise_if (a_status a \<noteq> Failed) (StateConflict ''a completed candidate with a pinned artifact is required'')) (\<lambda>_.
     bindE (case a_kind a of Skillflow \<Rightarrow> failed_run_quiet sf a | External \<Rightarrow> failed_report_ok ev s a) (\<lambda>_.
     bindE (pins_current s a) (\<lambda>fresh.
     bindE (raise_if (\<not> fresh) (StateConflict ''failed attempt inputs are stale; evidence must match the current contract'')) (\<lambda>_.
     bindE (raise_if (\<not> newest s a) (StateConflict ''a newer attempt supersedes this failed attempt'')) (\<lambda>_.
     let scoped = (if nonempty (a_artifact a) then a_artifact a
                   else map_option ev_artifact (find (\<lambda>e. ev_attempt e = a_id a) (evidences s)))
     in raise_if (nonempty scoped \<and> scoped \<noteq> Some artifact) (StateConflict ''failed-attempt criterion evidence must describe the same artifact''))))))"

section \<open>Evidence\<close>

record evidence_in =
  vi_id :: string
  vi_criterion :: string
  vi_verdict :: string
  vi_artifact :: string
  vi_report_ref :: string
  vi_report_sha :: string
  vi_reviewer :: string
  vi_detail :: string
  vi_bytes :: "string option"
  vi_director :: pyval

definition parse_verdict :: "string \<Rightarrow> verdict option" where
  "parse_verdict t = find (\<lambda>v. verdict_name v = t) [Pass, Fail, Skip]"

text \<open>The kind a pinned acceptance contract gives a criterion.\<close>

definition acceptance_kind :: "pyval \<Rightarrow> string \<Rightarrow> string option" where
  "acceptance_kind ctx cid = (case dict_get ''acceptance'' ctx of
     Some (PList cs) \<Rightarrow> (case find (\<lambda>c. dict_get ''id'' c = Some (PStr cid)) (rev cs) of
       Some c \<Rightarrow> (case dict_get ''kind'' c of Some (PStr kd) \<Rightarrow> Some kd | _ \<Rightarrow> None)
     | None \<Rightarrow> None)
   | _ \<Rightarrow> None)"

definition evidence_payload :: "string \<Rightarrow> evidence_in \<Rightarrow> string \<Rightarrow> string \<Rightarrow> string option \<Rightarrow> (string \<times> pyval) list" where
  "evidence_payload aid vi ref reviewer director =
     [(''attempt_id'', PStr aid), (''criterion_id'', PStr (vi_criterion vi)), (''verdict'', PStr (vi_verdict vi)),
      (''artifact_ref'', PStr (vi_artifact vi)), (''report_ref'', PStr ref), (''report_sha256'', PStr (vi_report_sha vi)),
      (''reviewer'', PStr reviewer), (''detail'', PStr (vi_detail vi))] @
     (case director of None \<Rightarrow> [] | Some d \<Rightarrow> [(''director_identity'', PStr d)])"

definition evidence_scope :: "env \<Rightarrow> db \<Rightarrow> attempt \<Rightarrow> evidence_in \<Rightarrow> verdict \<Rightarrow> engine option \<Rightarrow> unit result" where
  "evidence_scope ev s a vi v sf =
     (if a_status a = Failed then
        bindE (raise_if (v = Skip) (StateGraphError ''failed-attempt criterion evidence verdict must be pass or fail'')) (\<lambda>_.
        bindE (eligible_failed_evidence ev s a (vi_artifact vi) sf) (\<lambda>_.
        raise_if (list_ex (\<lambda>e. ev_attempt e = a_id a \<and> ev_criterion e = vi_criterion vi) (evidences s))
          (StateConflict ''failed attempt already has evidence for this criterion; exactly one row is permitted'')))
      else
        bindE (eligible_candidate ev s a) (\<lambda>_.
        raise_if (a_artifact a \<noteq> Some (vi_artifact vi)) (StateConflict ''evidence describes a different artifact'')))"

definition record_evidence_commit :: "env \<Rightarrow> string \<Rightarrow> evidence_in \<Rightarrow> string option \<Rightarrow> verdict \<Rightarrow> string \<Rightarrow> string \<Rightarrow> engine option \<Rightarrow> db
    \<Rightarrow> (evidence \<times> db) result" where
  "record_evidence_commit ev aid vi director v ref reviewer sf s =
     (let payload = evidence_payload aid vi ref reviewer director;
          payload_hash = digest ev (PDict payload) in
     bindE (get_attempt s aid) (\<lambda>a.
     case find (\<lambda>e. ev_id e = vi_id vi) (evidences s) of
       Some old \<Rightarrow>
         bindE (raise_if (ev_payload_hash old \<noteq> payload_hash) (StateConflict ''evidence id already used with different content'')) (\<lambda>_.
         bindE (store_optional_blob ev ref (vi_report_sha vi) (vi_bytes vi) s) (\<lambda>s1. Inr (old, s1)))
     | None \<Rightarrow>
         bindE (evidence_scope ev s a vi v sf) (\<lambda>_.
         bindE (raise_if (list_ex (\<lambda>ob. o_report_sha ob = vi_report_sha vi) (observations s))
                  (StateConflict ''verifier evidence must have a report independent of every external candidate observation'')) (\<lambda>_.
         bindE (store_optional_blob ev ref (vi_report_sha vi) (vi_bytes vi) s) (\<lambda>s1.
         bindE (require_some (acceptance_kind (a_context a) (vi_criterion vi))
                  (StateGraphError ''evidence criterion is not in the pinned acceptance contract'')) (\<lambda>kind.
         let row = \<lparr>ev_id = vi_id vi, ev_attempt = aid, ev_criterion = vi_criterion vi, ev_kind = kind, ev_verdict = v,
                    ev_artifact = vi_artifact vi, ev_report_ref = ref, ev_report_sha = vi_report_sha vi, ev_reviewer = reviewer,
                    ev_detail = vi_detail vi, ev_payload_hash = payload_hash, ev_created = now_at ev, ev_director = director\<rparr>;
             s2 = s1\<lparr>evidences := evidences s1 @ [row]\<rparr> in
         bindE (get_node s2 (a_project a) (a_node a)) (\<lambda>n.
         let s3 = (if n_receipt n \<noteq> None \<and> a_status a \<noteq> Failed
                   then let (hit, t) = invalidate ev (a_project a) (a_node a) s2 in
                     add_event ev (a_project a) (Some (a_node a)) ''acceptance_invalidated''
                       (PDict [(''reason'', PStr ''new evidence supersedes an accepted observation''), (''invalidated'', py_strs hit)]) t
                   else s2)
         in Inr (row, add_event ev (a_project a) (Some (a_node a)) ''evidence_recorded''
                   (PDict (payload @ [(''evidence_id'', PStr (vi_id vi)), (''actor'', PStr reviewer)])) s3))))))))"

definition record_evidence :: "env \<Rightarrow> string \<Rightarrow> evidence_in \<Rightarrow> engine option \<Rightarrow> db \<Rightarrow> (evidence \<times> db) result" where
  "record_evidence ev aid vi sf s =
     bindE (evidence_director_identity (vi_director vi)) (\<lambda>director.
     bindE (check_key (PStr (vi_id vi))) (\<lambda>_.
     bindE (check_key (PStr (vi_criterion vi))) (\<lambda>_.
     bindE (check_artifact_ref (PStr (vi_artifact vi))) (\<lambda>_.
     bindE (require_some (parse_verdict (vi_verdict vi)) (StateGraphError ''verdict must be pass, fail or skip'')) (\<lambda>v.
     bindE (raise_if (\<not> hex_of_length 64 (vi_report_sha vi)) (StateGraphError ''report_sha256 must pin the complete report bytes'')) (\<lambda>_.
     bindE (check_text (PStr (vi_report_ref vi)) 2000) (\<lambda>ref.
     bindE (check_text (PStr (vi_reviewer vi)) 300) (\<lambda>reviewer.
     bindE (raise_if (length (vi_detail vi) > 8000) (StateGraphError ''evidence detail must be bounded text'')) (\<lambda>_.
     record_evidence_commit ev aid vi director v ref reviewer sf s)))))))))"

section \<open>Review independence\<close>

definition DRIVER_ACTOR_PREFIX :: string where
  "DRIVER_ACTOR_PREFIX = ''driver:''"

definition evidence_drivers :: "evidence \<Rightarrow> string list" where
  "evidence_drivers e =
     (if starts_with (ev_reviewer e) DRIVER_ACTOR_PREFIX \<and> length (ev_reviewer e) > length DRIVER_ACTOR_PREFIX
      then [drop (length DRIVER_ACTOR_PREFIX) (ev_reviewer e)] else []) @
     (case ev_director e of None \<Rightarrow> [] | Some d \<Rightarrow> if d = [] then [] else [takeWhile (\<lambda>c. c \<noteq> CHR ''/'') d])"

definition payload_driver :: "string \<Rightarrow> pyval \<Rightarrow> string list" where
  "payload_driver k v = (case dict_get k v of Some (PStr d) \<Rightarrow> if d = [] then [] else [d] | _ \<Rightarrow> [])"

definition attempt_owners :: "db \<Rightarrow> attempt \<Rightarrow> string list" where
  "attempt_owners s a = (if owned a then [the (a_owner a)] else []) @
     concat (map (\<lambda>e. payload_driver ''from_driver_id'' (e_payload e) @ payload_driver ''to_driver_id'' (e_payload e))
       (filter (\<lambda>e. e_project e = a_project a \<and> e_type e = ''attempt_ownership_transferred'' \<and>
          dict_get ''attempt_id'' (e_payload e) = Some (PStr (a_id a))) (events s)))"

text \<open>\<open>latest\<close>: the last evidence row of each criterion.\<close>

definition latest_evidence :: "db \<Rightarrow> string \<Rightarrow> string \<Rightarrow> evidence option" where
  "latest_evidence s aid cid = find (\<lambda>e. ev_attempt e = aid \<and> ev_criterion e = cid) (rev (evidences s))"

definition review_marking :: "db \<Rightarrow> attempt \<Rightarrow> check list \<Rightarrow> (string \<times> pyval) list" where
  "review_marking s a required =
     (if \<not> review_independence s (a_project a) then []
      else let flagged = sort (map ck_id (filter (\<lambda>c. ck_kind c = KReview \<and>
                 (case latest_evidence s (a_id a) (ck_id c) of None \<Rightarrow> False
                  | Some e \<Rightarrow> list_ex (\<lambda>d. List.member (attempt_owners s a) d) (evidence_drivers e))) required))
           in [(''review_independence'', PStr ''advisory''), (''self_reviewed'', PBool (flagged \<noteq> [])),
               (''self_reviewed_criteria'', py_strs flagged)])"

section \<open>Acceptance\<close>

definition unmet :: "db \<Rightarrow> string \<Rightarrow> check list \<Rightarrow> string list" where
  "unmet s aid required = map ck_id (filter (\<lambda>c. case latest_evidence s aid (ck_id c) of None \<Rightarrow> True | Some e \<Rightarrow> ev_verdict e \<noteq> Pass) required)"

definition latest_rows :: "db \<Rightarrow> string \<Rightarrow> evidence list" where
  "latest_rows s aid = filter (\<lambda>e. ev_attempt e = aid \<and> latest_evidence s aid (ev_criterion e) = Some e) (evidences s)"

definition provenance :: "env \<Rightarrow> db \<Rightarrow> attempt \<Rightarrow> check list \<Rightarrow> pyval" where
  "provenance ev s a required = PDict (
     [(''execution_kind'', PStr (execution_kind_name (a_kind a)))] @
     (case dict_get ''design_context'' (a_context a) of None \<Rightarrow> []
      | Some d \<Rightarrow> [(''design'', PDict [(''baseline_id'', get_or ''baseline_id'' d PNone), (''manifest_hash'', get_or ''manifest_hash'' d PNone),
                    (''binding_snapshot_hash'', get_or ''binding_snapshot_hash'' (a_context a) PNone)])]) @
     (case a_kind a of
        External \<Rightarrow>
          [(''harness'', py_str_opt (a_harness a)), (''external_id'', py_str_opt (a_external_id a)),
           (''reporting_actor'', py_str_opt (a_reporter a)),
           (''artifact_kind'', py_opt (\<lambda>k. PStr (artifact_kind_name k)) (a_artifact_kind a)),
           (''context_hash'', PStr (digest ev (a_context a)))] @
          (case observation_of s (a_id a) (a_terminal a) of None \<Rightarrow> []
           | Some ob \<Rightarrow> [(''observation_id'', PStr (o_id ob)), (''report_ref'', PStr (o_report_ref ob)),
                         (''report_sha256'', PStr (o_report_sha ob))]) @ [(''quiescent'', PBool True)]
      | Skillflow \<Rightarrow>
          [(''run_id'', py_str_opt (a_run a)), (''workflow'', py_str_opt (a_workflow a)),
           (''graph_version'', py_opt PInt (a_graph_version a)), (''graph_digest'', py_str_opt (a_graph_digest a))]) @
     review_marking s a required)"

definition verify :: "env \<Rightarrow> string \<Rightarrow> string \<Rightarrow> int \<Rightarrow> string \<Rightarrow> string \<Rightarrow> bool \<Rightarrow> db \<Rightarrow> (acceptance \<times> db) result" where
  "verify ev pid k expected aid reviewer require_bytes s =
     bindE (check_integer (PInt expected) 1 1000000) (\<lambda>_.
     bindE (check_text (PStr reviewer) 300) (\<lambda>rv.
     bindE (get_node s pid k) (\<lambda>n.
     bindE (get_attempt s aid) (\<lambda>a.
     bindE (raise_if (a_project a \<noteq> pid \<or> a_node a \<noteq> k \<or> n_revision n \<noteq> expected) (StateConflict ''acceptance target or revision mismatch'')) (\<lambda>_.
     bindE (eligible_candidate ev s a) (\<lambda>_.
     let required = n_contract n in
     bindE (raise_if (unmet s aid required \<noteq> []) (StateConflict ''missing/failed/skipped acceptance evidence'')) (\<lambda>_.
     bindE (raise_if (require_bytes \<and> \<not> list_all (\<lambda>e. retained_ok ev s (ev_report_sha e) (ev_report_ref e)) (latest_rows s aid))
              (StateConflict ''acceptance evidence lacks immutable validated report bytes'')) (\<lambda>_.
     let ids = map (\<lambda>c. ev_id (the (latest_evidence s aid (ck_id c)))) required in
     case n_receipt n of
       Some rid \<Rightarrow>
         (case receipt_at s rid of
            Some r \<Rightarrow> if rc_attempt r = aid \<and> rc_evidence r = ids then Inr (r, s)
                      else Inl (StateConflict ''different acceptance already exists; revise or record correcting evidence first'')
          | None \<Rightarrow> Inl (StateConflict ''different acceptance already exists; revise or record correcting evidence first''))
     | None \<Rightarrow>
         let r = \<lparr>rc_id = fresh_id ev ''receipt-'' 0, rc_project = pid, rc_node = k, rc_revision = expected, rc_attempt = aid,
                  rc_artifact = the (a_artifact a), rc_contract_hash = n_contract_hash n, rc_pins = a_pins a, rc_evidence = ids,
                  rc_reviewer = rv, rc_created = now_at ev, rc_provenance = provenance ev s a required\<rparr> in
         bindE (raise_if (receipt_at s (rc_id r) \<noteq> None) (IntegrityError ''UNIQUE constraint failed: state_acceptances.receipt_id'')) (\<lambda>_.
         Inr (r, add_event ev pid (Some k) ''node_verified''
           (PDict [(''receipt_id'', PStr (rc_id r)), (''attempt_id'', PStr aid), (''revision'', PInt expected),
                   (''artifact_ref'', py_str_opt (a_artifact a)), (''reviewer'', PStr rv)])
           (update_node pid k (\<lambda>x. x\<lparr>n_status := VERIFIED, n_receipt := Some (rc_id r), n_updated := now_at ev\<rparr>)
             (s\<lparr>acceptances := acceptances s @ [r]\<rparr>))))))))))))"

section \<open>Reads\<close>

definition evidence_of :: "db \<Rightarrow> string \<Rightarrow> evidence list result" where
  "evidence_of s aid = bindE (get_attempt s aid) (\<lambda>_. Inr (filter (\<lambda>e. ev_attempt e = aid) (evidences s)))"

text \<open>\<open>receipt\<close>: the acceptance and exactly the evidence it attests, in contract order.\<close>

definition receipt :: "db \<Rightarrow> string \<Rightarrow> string \<Rightarrow> (acceptance \<times> evidence list) result" where
  "receipt s pid rid =
     bindE (check_key (PStr pid)) (\<lambda>p. bindE (check_key (PStr rid)) (\<lambda>i.
     bindE (require_some (find (\<lambda>r. rc_id r = i \<and> rc_project r = p) (acceptances s)) (StateNotFound ''acceptance receipt not found in project'')) (\<lambda>r.
     bindE (mapE (\<lambda>eid. require_some (find (\<lambda>e. ev_attempt e = rc_attempt r \<and> ev_id e = eid) (rev (evidences s)))
                           (StateNotFound ''acceptance receipt names evidence that does not exist'')) (rc_evidence r)) (\<lambda>es.
     Inr (r, es)))))"

end
