(* ===== verification/External.thy ===== *)
theory External
  imports Acceptance
begin

text \<open>
  The external harness adapter (src/core/state_external.py), with the report checks of
  src/core/state_report_integrity.py and the custody row of src/core/state_git_artifacts.py.

  What these modules ask of the file system, of Git and of \<open>json.loads\<close> is the record
  \<open>report_io\<close>: reading the file a reference names, the path under which retained bytes are stored,
  decoding bytes as JSON, and importing the Git bundle a report describes. As in the code, reports
  are read between a read transaction (\<open>observe_check\<close>) and a write transaction (\<open>observe_commit\<close>).
\<close>

section \<open>Reports\<close>

record report_io =
  rp_read :: "string \<Rightarrow> string result"
  rp_path :: "string \<Rightarrow> string"
  rp_json :: "string \<Rightarrow> pyval option"
  rp_git :: "string \<Rightarrow> string \<Rightarrow> git_artifact result"

definition TERMINAL_REPORT_STATUSES :: "string list" where
  "TERMINAL_REPORT_STATUSES = [''candidate'', ''completed'', ''failed'', ''pass'', ''fail'']"

definition structured_terminal :: "report_io \<Rightarrow> string \<Rightarrow> pyval result" where
  "structured_terminal io bytes = (case rp_json io bytes of
     None \<Rightarrow> Inl (StateConflict ''terminal report must be a complete structured JSON envelope'')
   | Some v \<Rightarrow>
       bindE (raise_if (\<not> is_dict v \<or> dict_keys v = []) (StateConflict ''terminal report must be a non-empty structured JSON envelope'')) (\<lambda>_.
       bindE (raise_if (dict_get ''settled'' v \<noteq> Some (PBool True) \<or> dict_get ''usable'' v \<noteq> Some (PBool True))
                (StateConflict ''terminal report must explicitly declare settled=true and usable=true'')) (\<lambda>_.
       bindE (raise_if (\<not> (case dict_get ''status'' v of Some (PStr t) \<Rightarrow> t \<in> set TERMINAL_REPORT_STATUSES | _ \<Rightarrow> False))
                (StateConflict ''terminal report lacks an explicit terminal status'')) (\<lambda>_. Inr v))))"

definition retain_report :: "env \<Rightarrow> report_io \<Rightarrow> string \<Rightarrow> string \<Rightarrow> bool \<Rightarrow> (string \<times> string) result" where
  "retain_report ev io ref sha completed =
     bindE (rp_read io ref) (\<lambda>bytes.
     bindE (raise_if (bytes = []) (StateConflict ''local report is empty/interrupted and cannot become evidence'')) (\<lambda>_.
     bindE (raise_if (sha256_hex ev bytes \<noteq> sha) (StateConflict ''local report bytes do not match report SHA-256'')) (\<lambda>_.
     bindE (if completed then bindE (structured_terminal io bytes) (\<lambda>_. Inr ()) else Inr ()) (\<lambda>_.
     Inr (rp_path io sha, bytes)))))"

text \<open>Every supplied alias of a field must bind the expected identity.\<close>

definition declares :: "pyval \<Rightarrow> string list \<Rightarrow> string \<Rightarrow> unit result" where
  "declares v names expected = (let supplied = List.map_filter (\<lambda>n. dict_get n v) names in
     bindE (raise_if (supplied = []) (StateConflict ''evidence report must explicitly declare its scope'')) (\<lambda>_.
     raise_if (list_ex (\<lambda>x. x \<noteq> PStr expected \<or> x = PStr []) supplied) (StateConflict ''evidence report conflicts with the evidence row'')))"

definition validate_evidence_semantics :: "report_io \<Rightarrow> string \<Rightarrow> string \<Rightarrow> string \<Rightarrow> string \<Rightarrow> unit result" where
  "validate_evidence_semantics io bytes criterion v artifact =
     bindE (structured_terminal io bytes) (\<lambda>value.
     bindE (raise_if (dict_get ''status'' value \<noteq> Some (PStr ''completed'')) (StateConflict ''evidence report status is not completed'')) (\<lambda>_.
     bindE (declares value [''verdict''] v) (\<lambda>_.
     bindE (declares value [''criterion_id'', ''criterion''] criterion) (\<lambda>_.
     declares value [''artifact'', ''artifact_ref''] artifact))))"

text \<open>\<open>bytes.lstrip()\<close> removes ASCII whitespace.\<close>

definition ascii_space :: "char \<Rightarrow> bool" where
  "ascii_space c = (let n = (of_char c :: nat) in (9 \<le> n \<and> n \<le> 13) \<or> n = 32)"

definition validate_external_semantics :: "report_io \<Rightarrow> string \<Rightarrow> attempt_status \<Rightarrow> string option \<Rightarrow> unit result" where
  "validate_external_semantics io bytes st artifact =
     (if \<not> starts_with (dropWhile ascii_space bytes) ''{'' then Inr ()
      else case rp_json io bytes of
        Some (PDict kvs) \<Rightarrow>
          let reported = get_or ''status'' (PDict kvs) PNone;
              allowed = (if st = Candidate then [''candidate'', ''completed''] else [''failed'']);
              named = get_or ''artifact_ref'' (PDict kvs) (get_or ''artifact'' (PDict kvs) PNone)
          in bindE (raise_if (reported \<noteq> PNone \<and> reported \<notin> set (map PStr allowed))
                     (StateConflict ''external report status conflicts with the terminal observation'')) (\<lambda>_.
             raise_if (artifact \<noteq> None \<and> named \<noteq> PNone \<and> named \<noteq> py_str_opt artifact)
               (StateConflict ''external report artifact conflicts with the terminal observation''))
      | _ \<Rightarrow> Inr ())"

section \<open>Git custody\<close>

definition typed_ref :: "string \<Rightarrow> string" where
  "typed_ref sha = ''state-db:git-bundle:sha256:'' @ sha"

text \<open>\<open>store_candidate\<close>: the custody row; the bundle's bytes go to the content-addressed store.\<close>

definition store_candidate :: "env \<Rightarrow> git_artifact \<Rightarrow> db \<Rightarrow> db result" where
  "store_candidate ev g s =
     bindE (raise_if (ga_bytes g = []) (StateConflict ''Git artifact bundle bytes are missing'')) (\<lambda>_.
     bindE (raise_if (\<not> hex_of_length 64 (ga_sha g) \<or> sha256_hex ev (ga_bytes g) \<noteq> ga_sha g)
              (StateConflict ''Git artifact bundle bytes do not match bundle digest'')) (\<lambda>_.
     bindE (raise_if (ga_ref g \<noteq> typed_ref (ga_sha g)) (StateConflict ''custody reference does not match bundle digest'')) (\<lambda>_.
     bindE (raise_if (\<not> hex_of_length 40 (ga_commit g) \<or> \<not> hex_of_length 40 (ga_tree g)) (StateConflict ''must be 40 lowercase hex'')) (\<lambda>_.
     case find (\<lambda>x. ga_commit x = ga_commit g) (git_artifacts s) of
       Some old \<Rightarrow> bindE (raise_if (ga_tree old \<noteq> ga_tree g) (StateConflict ''retained commit has conflicting tree identity'')) (\<lambda>_. Inr s)
     | None \<Rightarrow> Inr (s\<lparr>git_artifacts := git_artifacts s @ [g\<lparr>ga_bytes := [], ga_created := now_at ev\<rparr>]\<rparr>)))))"

section \<open>Registration\<close>

definition register_external :: "env \<Rightarrow> caller \<Rightarrow> string \<Rightarrow> string \<Rightarrow> int \<Rightarrow> string \<Rightarrow> string \<Rightarrow> reservation \<Rightarrow> pass \<Rightarrow> db
    \<Rightarrow> ((public + source_view) \<times> db) result" where
  "register_external ev c pid k expected harness external_id rq p s =
     bindE (check_key (PStr harness)) (\<lambda>h.
     bindE (check_text (PStr external_id) 500) (\<lambda>x.
     reserve_pass ev pid k expected (rq\<lparr>rq_workflow := None, rq_external := Some \<lparr>ex_harness = h, ex_id = x, ex_reporter = by_actor c\<rparr>,
       rq_continue := None, rq_relay_digest := None, rq_frozen := None, rq_handoff := None, rq_owner := by_driver c,
       rq_admin := by_admin c\<rparr>) p s))"

definition register_relay_handoff :: "env \<Rightarrow> caller \<Rightarrow> string \<Rightarrow> string \<Rightarrow> int \<Rightarrow> string \<Rightarrow> string \<Rightarrow> string \<Rightarrow> string \<Rightarrow> pyval \<Rightarrow> db
    \<Rightarrow> ((public + source_view) \<times> db) result" where
  "register_relay_handoff ev c pid k expected harness external_id request_key instruction relay s =
     bindE (check_key (PStr harness)) (\<lambda>h.
     bindE (check_text (PStr external_id) 500) (\<lambda>x.
     reserve_pass ev pid k expected \<lparr>rq_workflow = None, rq_key = request_key, rq_instruction = instruction,
       rq_external = Some \<lparr>ex_harness = h, ex_id = x, ex_reporter = by_actor c\<rparr>, rq_continue = None, rq_relay_digest = None,
       rq_frozen = None, rq_base = None, rq_handoff = Some relay, rq_owner = by_driver c, rq_claim = None, rq_fence = None,
       rq_admin = False, rq_prior = None\<rparr> Only s))"

section \<open>Who may report\<close>

definition LEGACY_ACTOR :: string where
  "LEGACY_ACTOR = ''authorized-state-operator''"

definition actor_continues :: "string option \<Rightarrow> string \<Rightarrow> bool" where
  "actor_continues owner_actor act = (case owner_actor of
     None \<Rightarrow> False
   | Some w \<Rightarrow> w = act \<or> (w = LEGACY_ACTOR \<and> starts_with act ''driver:'') \<or> (w \<noteq> [] \<and> act = ''owner:'' @ w))"

text \<open>\<open>_authorize_report\<close>: the result says whether the report is late (the attempt was abandoned).\<close>

definition authorize_report :: "caller \<Rightarrow> db \<Rightarrow> attempt \<Rightarrow> int option \<Rightarrow> bool result" where
  "authorize_report c s a fence =
     (let continues = actor_continues (a_reporter a) (by_actor c) in
      if a_owner a = None \<or> by_driver c = None then
        bindE (raise_if (\<not> continues) (StateConflict ''external observation belongs to a different authenticated reporter'')) (\<lambda>_.
        bindE (raise_if (fence \<noteq> None \<and> a_fence a \<noteq> 0 \<and> fence \<noteq> Some (a_fence a)) (ClaimError ''stale_fence'')) (\<lambda>_.
        Inr (a_status a = Abandoned)))
      else if a_status a = Abandoned then
        bindE (raise_if (\<not> continues \<and> a_owner a \<noteq> by_driver c)
                 (StateConflict ''external observation belongs to a different authenticated reporter'')) (\<lambda>_. Inr True)
      else if a_owner a \<noteq> by_driver c then
        Inl (ClaimError (if continues then ''stale_fence'' else ''not_attempt_owner''))
      else
        bindE (raise_if (fence = None \<and> enforced s (a_project a)) (ClaimError ''fence_required'')) (\<lambda>_.
        bindE (raise_if (fence \<noteq> None \<and> fence \<noteq> Some (a_fence a)) (ClaimError ''stale_fence'')) (\<lambda>_. Inr False)))"

section \<open>Observations\<close>

record observation_in =
  oi_id :: string
  oi_expected :: int
  oi_context_hash :: string
  oi_status :: string
  oi_ref :: string
  oi_sha :: string
  oi_quiescent :: bool
  oi_artifact :: "string option"
  oi_artifact_kind :: "string option"
  oi_detail :: string
  oi_fence :: "int option"

definition parse_observed :: "string \<Rightarrow> attempt_status option" where
  "parse_observed t = find (\<lambda>st. attempt_status_name st = t) [Running, Paused, Unknown, Candidate, Failed]"

definition observation_payload :: "string \<Rightarrow> observation_in \<Rightarrow> string \<Rightarrow> string \<Rightarrow> pyval" where
  "observation_payload aid oi ref act = PDict [(''attempt_id'', PStr aid), (''observation_id'', PStr (oi_id oi)),
     (''expected_version'', PInt (oi_expected oi)), (''context_hash'', PStr (oi_context_hash oi)), (''status'', PStr (oi_status oi)),
     (''report_ref'', PStr ref), (''report_sha256'', PStr (oi_sha oi)), (''quiescent'', PBool (oi_quiescent oi)),
     (''artifact'', py_str_opt (oi_artifact oi)), (''artifact_kind'', py_str_opt (oi_artifact_kind oi)),
     (''detail'', PStr (oi_detail oi)), (''actor'', PStr act)]"

text \<open>The argument checks: the parsed status and the stripped report reference.\<close>

definition observe_args :: "observation_in \<Rightarrow> (attempt_status \<times> string) result" where
  "observe_args oi =
     bindE (check_key (PStr (oi_id oi))) (\<lambda>_.
     bindE (check_integer (PInt (oi_expected oi)) 0 (2 ^ 31 - 2)) (\<lambda>_.
     bindE (require_some (parse_observed (oi_status oi))
              (StateGraphError ''external status must be running, paused, unknown, candidate or failed; never VERIFIED'')) (\<lambda>st.
     bindE (raise_if (\<not> hex_of_length 64 (oi_context_hash oi) \<or> \<not> hex_of_length 64 (oi_sha oi))
              (StateGraphError ''must be 64 lowercase hexadecimal characters'')) (\<lambda>_.
     bindE (check_text (PStr (oi_ref oi)) 2000) (\<lambda>ref.
     bindE (raise_if (length (oi_detail oi) > 8000) (StateGraphError ''detail must be bounded text'')) (\<lambda>_.
     bindE (raise_if (st \<in> {Candidate, Failed} \<and> \<not> oi_quiescent oi)
              (StateConflict ''terminal result needs the external harness to attest all relevant workers/operations are quiescent'')) (\<lambda>_.
     Inr (st, ref))))))))"

text \<open>The guards of both transactions.\<close>

definition observe_guard :: "env \<Rightarrow> db \<Rightarrow> attempt \<Rightarrow> observation_in \<Rightarrow> unit result" where
  "observe_guard ev s a oi =
     bindE (raise_if (oi_context_hash oi \<noteq> digest ev (a_context a))
              (StateConflict ''report describes a different frozen goal/contract/dependency context'')) (\<lambda>_.
     bindE (raise_if (a_version a \<noteq> oi_expected oi) (StateConflict ''external observation version changed; reload before appending'')) (\<lambda>_.
     raise_if (a_status a \<in> {Failed, Superseded}) (StateConflict ''this external attempt is terminal; use a new attempt'')))"

definition report_used :: "db \<Rightarrow> string \<Rightarrow> bool" where
  "report_used s sha = list_ex (\<lambda>ob. o_report_sha ob = sha) (observations s)"

definition external_attempt :: "db \<Rightarrow> string \<Rightarrow> attempt result" where
  "external_attempt s aid = bindE (get_attempt s aid) (\<lambda>a.
     bindE (raise_if (a_kind a \<noteq> External) (StateConflict ''external reports cannot complete or override a SkillFlow attempt'')) (\<lambda>_. Inr a))"

definition observe_check :: "env \<Rightarrow> caller \<Rightarrow> string \<Rightarrow> observation_in \<Rightarrow> attempt_status \<Rightarrow> db \<Rightarrow> ((public \<times> observation) + bool) result" where
  "observe_check ev c aid oi st s =
     bindE (external_attempt s aid) (\<lambda>a.
     bindE (authorize_report c s a (oi_fence oi)) (\<lambda>late.
     bindE (raise_if (oi_context_hash oi \<noteq> digest ev (a_context a))
              (StateConflict ''report describes a different frozen goal/contract/dependency context'')) (\<lambda>_.
     case observation_of s aid (Some (oi_id oi)) of
       Some old \<Rightarrow>
         bindE (raise_if (digest ev (observation_payload aid oi (o_report_ref old) (by_actor c)) \<noteq> o_payload_hash old)
                  (StateConflict ''observation ID was already used with a different payload; append a new correction'')) (\<lambda>_.
         Inr (Inl (public_view ev a, old)))
     | None \<Rightarrow>
         bindE (observe_guard ev s a oi) (\<lambda>_.
         bindE (raise_if (st = Candidate \<and> report_used s (oi_sha oi))
                  (StateConflict ''candidate report digest was already bound to an earlier observation'')) (\<lambda>_.
         Inr (Inr late))))))"

text \<open>What happens between the transactions: the retained report, the artifact's kind and its Git custody.\<close>

record retained =
  re_ref :: string
  re_bytes :: "string option"
  re_kind :: "artifact_kind option"
  re_git :: "git_artifact option"

definition parse_artifact_kind :: "string option \<Rightarrow> artifact_kind option" where
  "parse_artifact_kind t = (case t of None \<Rightarrow> None | Some x \<Rightarrow> find (\<lambda>k. artifact_kind_name k = x) [GitSha1, Sha256])"

definition artifact_size :: "artifact_kind \<Rightarrow> nat" where
  "artifact_size k = (case k of GitSha1 \<Rightarrow> 40 | Sha256 \<Rightarrow> 64)"

definition observe_retain :: "env \<Rightarrow> report_io \<Rightarrow> observation_in \<Rightarrow> attempt_status \<Rightarrow> string \<Rightarrow> bool \<Rightarrow> retained result" where
  "observe_retain ev io oi st ref late =
     bindE (if st \<in> {Candidate, Failed} then
              bindE (retain_report ev io ref (oi_sha oi) True) (\<lambda>(r, b).
              bindE (validate_external_semantics io b st (oi_artifact oi)) (\<lambda>_. Inr (r, Some b)))
            else if oi_quiescent oi \<and> late then bindE (retain_report ev io ref (oi_sha oi) False) (\<lambda>(r, b). Inr (r, Some b))
            else Inr (ref, None)) (\<lambda>(r, b).
     if st = Candidate then
       (case (parse_artifact_kind (oi_artifact_kind oi), oi_artifact oi) of
          (Some kd, Some art) \<Rightarrow>
            bindE (raise_if (\<not> hex_of_length (artifact_size kd) art)
                     (StateGraphError ''candidate requires an exact artifact digest and explicit git-sha1 or sha256 kind'')) (\<lambda>_.
            bindE (if kd = GitSha1 then bindE (rp_git io (the b) art) (\<lambda>g. Inr (Some g)) else Inr None) (\<lambda>g.
            Inr \<lparr>re_ref = r, re_bytes = b, re_kind = Some kd, re_git = g\<rparr>))
        | _ \<Rightarrow> Inl (StateGraphError ''candidate requires an exact artifact digest and explicit git-sha1 or sha256 kind''))
     else
       bindE (raise_if (oi_artifact oi \<noteq> None \<or> oi_artifact_kind oi \<noteq> None)
                (StateGraphError ''only a candidate report may declare the immutable artifact'')) (\<lambda>_.
       Inr \<lparr>re_ref = r, re_bytes = b, re_kind = None, re_git = None\<rparr>))"

section \<open>Committing an observation\<close>

definition owner_status_of :: "attempt_status \<Rightarrow> owner_status" where
  "owner_status_of st = (case st of Running \<Rightarrow> OwActive | Paused \<Rightarrow> OwPaused | Unknown \<Rightarrow> OwUnknown | _ \<Rightarrow> OwSettled)"

definition set_owner :: "env \<Rightarrow> string \<Rightarrow> owner_status \<Rightarrow> db \<Rightarrow> db" where
  "set_owner ev aid st s = s\<lparr>owners := update_where (\<lambda>w. ow_attempt w = aid)
     (\<lambda>w. w\<lparr>ow_status := st, ow_updated := now_at ev, ow_settled := (if st = OwSettled then Some (now_at ev) else None)\<rparr>) (owners s)\<rparr>"

definition new_observation :: "env \<Rightarrow> caller \<Rightarrow> string \<Rightarrow> observation_in \<Rightarrow> attempt_status \<Rightarrow> attempt_status \<Rightarrow> retained \<Rightarrow> bool \<Rightarrow> observation" where
  "new_observation ev c aid oi st result re late =
     \<lparr>o_attempt = aid, o_id = oi_id oi, o_version = oi_expected oi + 1, o_status = st, o_resulting = result, o_quiescent = oi_quiescent oi,
      o_artifact = oi_artifact oi, o_artifact_kind = re_kind re, o_report_ref = re_ref re, o_report_sha = oi_sha oi, o_actor = by_actor c,
      o_detail = oi_detail oi, o_payload_hash = digest ev (observation_payload aid oi (re_ref re) (by_actor c)),
      o_context_hash = oi_context_hash oi, o_created = now_at ev, o_late = late, o_fence = oi_fence oi\<rparr>"

definition observed_payload :: "caller \<Rightarrow> observation_in \<Rightarrow> attempt_status \<Rightarrow> bool \<Rightarrow> (string \<times> pyval) list" where
  "observed_payload c oi result old_inputs =
     [(''observation_id'', PStr (oi_id oi)), (''version'', PInt (oi_expected oi + 1)), (''status'', PStr (attempt_status_name result)),
      (''report_sha256'', PStr (oi_sha oi)), (''quiescent'', PBool (oi_quiescent oi)), (''actor'', PStr (by_actor c)),
      (''stale_inputs'', PBool old_inputs), (''fence'', py_opt PInt (oi_fence oi))]"

text \<open>A report on an abandoned attempt is kept, never current; a quiescence attestation settles the owner row.\<close>

definition observe_late :: "env \<Rightarrow> caller \<Rightarrow> attempt \<Rightarrow> observation_in \<Rightarrow> attempt_status \<Rightarrow> bool \<Rightarrow> db \<Rightarrow> db" where
  "observe_late ev c a oi st old_inputs s =
     (let settle = (oi_quiescent oi \<and> list_ex (\<lambda>w. ow_attempt w = a_id a \<and> ow_status w = OwAbandoned) (owners s));
          s1 = update_attempt (a_id a) (\<lambda>x. x\<lparr>a_version := oi_expected oi + 1, a_updated := now_at ev\<rparr>) s;
          s2 = (if settle then s1\<lparr>owners := update_where (\<lambda>w. ow_attempt w = a_id a \<and> ow_status w = OwAbandoned)
                   (\<lambda>w. w\<lparr>ow_status := OwSettled, ow_updated := now_at ev, ow_settled := Some (now_at ev)\<rparr>) (owners s1)\<rparr> else s1)
      in attempt_event ev a ''external_attempt_observed''
           (observed_payload c oi Superseded old_inputs @ [(''reported_status'', PStr (attempt_status_name st)),
             (''late_after_abandon'', PBool True), (''owner_settled'', PBool settle)]) s2)"

definition observe_current :: "env \<Rightarrow> caller \<Rightarrow> attempt \<Rightarrow> observation_in \<Rightarrow> attempt_status \<Rightarrow> attempt_status \<Rightarrow> retained \<Rightarrow> bool \<Rightarrow> db \<Rightarrow> db result" where
  "observe_current ev c a oi st result re old_inputs s =
     (let terminal = (st \<in> {Candidate, Failed}); aid = a_id a in
      bindE (raise_if (\<not> list_ex (\<lambda>w. ow_attempt w = aid) (owners s)) (StateConflict ''external attempt has no durable owner registration'')) (\<lambda>_.
      let s1 = set_owner ev aid (owner_status_of result) s in
      bindE (get_node s1 (a_project a) (a_node a)) (\<lambda>n.
      let s2 = (if result \<noteq> Candidate then withdraw_if_accepted ev a n ''external harness retracted its accepted candidate'' s1 else s1);
          s3 = update_attempt aid (\<lambda>x. x\<lparr>a_status := result, a_version := oi_expected oi + 1,
                 a_artifact := (if st = Candidate then oi_artifact oi else a_artifact a),
                 a_artifact_kind := (if st = Candidate then re_kind re else a_artifact_kind a),
                 a_terminal := (if terminal then Some (oi_id oi) else a_terminal a),
                 a_error := (if st = Failed then Some (oi_detail oi) else None), a_updated := now_at ev\<rparr>) s2;
          s4 = (if result = Candidate \<and> newest s3 a \<and> n_status n \<noteq> VERIFIED
                then update_node (a_project a) (a_node a) (\<lambda>x. x\<lparr>n_status := CANDIDATE, n_updated := now_at ev\<rparr>) s3 else s3);
          s5 = attempt_event ev a ''external_attempt_observed'' (observed_payload c oi result old_inputs) s4
      in Inr (if terminal \<and> owned a then release_bound_claims ev a (by_actor c) (attempt_status_name result) s5 else s5))))"

definition observe_append :: "env \<Rightarrow> caller \<Rightarrow> attempt \<Rightarrow> observation_in \<Rightarrow> attempt_status \<Rightarrow> retained \<Rightarrow> bool \<Rightarrow> db \<Rightarrow> db result" where
  "observe_append ev c a oi st re late s =
     bindE (observe_guard ev s a oi) (\<lambda>_.
     bindE (raise_if (a_status a = Candidate \<and> st \<noteq> Failed)
              (StateConflict ''candidate completion is immutable; record evidence or start a new attempt'')) (\<lambda>_.
     bindE (raise_if (st = Candidate \<and> report_used s (oi_sha oi))
              (StateConflict ''candidate report digest was already bound to an earlier observation'')) (\<lambda>_.
     bindE (pins_current s a) (\<lambda>fresh.
     let result = (if late \<or> (st \<in> {Candidate, Failed} \<and> \<not> fresh) then Superseded else st) in
     bindE (store_optional_blob ev (re_ref re) (oi_sha oi) (re_bytes re) s) (\<lambda>s1.
     bindE (case re_git re of None \<Rightarrow> Inr s1 | Some g \<Rightarrow> store_candidate ev g s1) (\<lambda>s2.
     let s3 = s2\<lparr>observations := observations s2 @ [new_observation ev c (a_id a) oi st result re late]\<rparr> in
     if late then Inr (observe_late ev c a oi st (\<not> fresh) s3)
     else observe_current ev c a oi st result re (\<not> fresh) s3))))))"

definition observe_commit :: "env \<Rightarrow> caller \<Rightarrow> string \<Rightarrow> observation_in \<Rightarrow> attempt_status \<Rightarrow> retained \<Rightarrow> db
    \<Rightarrow> ((public \<times> observation \<times> bool) \<times> db) result" where
  "observe_commit ev c aid oi st re s =
     (let s0 = mark_back ev (by_driver c) ''report_external_attempt'' s in
     bindE (external_attempt s0 aid) (\<lambda>a.
     bindE (authorize_report c s0 a (oi_fence oi)) (\<lambda>late.
     bindE (raise_if (late \<and> oi_quiescent oi \<and> re_bytes re = None)
              (StateConflict ''a quiescence attestation on an abandoned attempt needs its retained report'')) (\<lambda>_.
     case observation_of s0 aid (Some (oi_id oi)) of
       Some old \<Rightarrow>
         bindE (raise_if (o_payload_hash old \<noteq> digest ev (observation_payload aid oi (re_ref re) (by_actor c)))
                  (StateConflict ''observation ID was already used with a different payload; append a new correction'')) (\<lambda>_.
         Inr ((public_view ev a, old, True), s0))
     | None \<Rightarrow>
         bindE (observe_append ev c a oi st re late s0) (\<lambda>t.
         bindE (get_attempt t aid) (\<lambda>a'.
         bindE (require_some (observation_of t aid (Some (oi_id oi))) (IntegrityError ''observation'')) (\<lambda>ob.
         Inr ((public_view ev a', ob, False), t))))))))"

definition observe :: "env \<Rightarrow> report_io \<Rightarrow> caller \<Rightarrow> string \<Rightarrow> observation_in \<Rightarrow> db \<Rightarrow> ((public \<times> observation \<times> bool) \<times> db) result" where
  "observe ev io c aid oi s =
     bindE (observe_args oi) (\<lambda>(st, ref).
     bindE (observe_check ev c aid oi st s) (\<lambda>checked.
     case checked of
       Inl (p, old) \<Rightarrow> Inr ((p, old, True), s)
     | Inr late \<Rightarrow>
         bindE (observe_retain ev io oi st ref late) (\<lambda>re. observe_commit ev c aid oi st re s)))"

text \<open>\<open>inspect\<close>: the attempt, whether its inputs are stale, and its last observation.\<close>

definition last_version :: "db \<Rightarrow> string \<Rightarrow> observation option" where
  "last_version s aid = (case sort_key (\<lambda>ob. - o_version ob) (filter (\<lambda>ob. o_attempt ob = aid) (observations s)) of
     [] \<Rightarrow> None | ob # _ \<Rightarrow> Some ob)"

definition inspect :: "env \<Rightarrow> db \<Rightarrow> string \<Rightarrow> (public \<times> bool \<times> observation option) result" where
  "inspect ev s aid = bindE (get_attempt s aid) (\<lambda>a.
     bindE (raise_if (a_kind a \<noteq> External) (StateConflict ''not an external attempt'')) (\<lambda>_.
     bindE (pins_current s a) (\<lambda>fresh. Inr (public_view ev a, \<not> fresh, last_version s aid))))"

end
