(* ===== verification/Recovery.thy ===== *)
theory Recovery
  imports External
begin

text \<open>
  Ownership that changes hands: driver notices (src/core/driver_notices.py, \<open>deliver_notice\<close> of
  src/core/driver_inbox.py), reclaiming an attempt nobody renews (src/core/state_recovery.py), and
  taking over the claim of an offline driver (src/core/state_takeover.py).
\<close>

section \<open>Notices\<close>

datatype notice = NotAddressed | Skipped string | Delivered string string string int

definition NOTICE_KINDS :: "(string \<times> string) list" where
  "NOTICE_KINDS = [(''takeover_notice'', ''takeover_notice''), (''handoff_offer'', ''handoff_offer''),
     (''handoff_reply'', ''handoff_reply''), (''override_notice'', ''lease_notice'')]"

definition REF_KEYS :: "string list" where
  "REF_KEYS = [''attempt_id'', ''claim_id'', ''handoff_id'', ''node_key'']"

definition deliver_notice :: "env \<Rightarrow> string \<Rightarrow> string option \<Rightarrow> string option \<Rightarrow> string \<Rightarrow> string \<Rightarrow> string \<Rightarrow> (string \<times> string) list \<Rightarrow> db
    \<Rightarrow> notice \<times> db" where
  "deliver_notice ev target sender pid kind subject body refs s =
     (if find (\<lambda>d. dr_id d = target) (drivers s) = None then (Skipped ''unregistered_driver'', s)
      else let mid = fresh_id ev [] 8; did = fresh_id ev [] 9;
               seq = 1 + fold (\<lambda>d m. if id_target d = target then max m (id_seq d) else m) (deliveries s) 0
           in (Delivered mid did target seq,
               s\<lparr>inbox := inbox s @ [\<lparr>im_id = mid, im_sender = sender, im_project = pid, im_kind = kind, im_subject = subject,
                    im_body = body, im_refs = refs, im_created = now_at ev\<rparr>],
                 deliveries := deliveries s @ [\<lparr>id_id = did, id_message = mid, id_target = target, id_seq = seq,
                    id_status = ''unread'', id_version = 1\<rparr>]\<rparr>))"

definition notify :: "env \<Rightarrow> string option \<Rightarrow> string \<Rightarrow> string \<Rightarrow> string \<Rightarrow> (string \<times> string option) list \<Rightarrow> string option \<Rightarrow> string option \<Rightarrow> db
    \<Rightarrow> (notice \<times> db) result" where
  "notify ev target kind subject body refs pid sender s = (case target of
     None \<Rightarrow> Inr (NotAddressed, s)
   | Some t \<Rightarrow> if t = [] then Inr (NotAddressed, s) else
       bindE (require_some (map_of NOTICE_KINDS kind) (StateGraphError ''unknown notice kind'')) (\<lambda>stored.
       bindE (check_text (PStr subject) 300) (\<lambda>subj.
       bindE (check_text (PStr body) 8000) (\<lambda>bod.
       Inr (deliver_notice ev t sender pid stored (take 200 subj) bod
         (List.map_filter (\<lambda>(k, v). if k \<in> set REF_KEYS \<and> nonempty v then Some (k, the v) else None) refs) s)))))"

section \<open>Moving claims with an attempt\<close>

text \<open>A live claim for a new holder, with the next fence of its node (\<open>new_claim_for\<close>).\<close>

definition new_claim_for :: "env \<Rightarrow> caller \<Rightarrow> string \<Rightarrow> string \<Rightarrow> int \<Rightarrow> string option \<Rightarrow> string \<Rightarrow> string \<Rightarrow> string \<Rightarrow> purpose \<Rightarrow> string option
    \<Rightarrow> db \<Rightarrow> (claim \<times> db) result" where
  "new_claim_for ev c pid k revno aid driver reason workspace pu subagent s =
     bindE (if pu \<in> set EXCLUSIVE_PURPOSES then refuse_exclusive_holder s pid k driver else Inr ()) (\<lambda>_.
     let fence = next_fence s pid k;
         subject = (case aid of Some a \<Rightarrow> if a = [] then k else a | None \<Rightarrow> k);
         cl = new_claim (fresh_id ev ''claim-'' (length (claims s))) pid k driver pu fence revno aid workspace subagent
                DEFAULT_LEASE_SECONDS (now_at ev) (concat [''transfer:'', subject, '':'', show_int fence])
                (digest ev (PDict [(''transfer'', py_str_opt aid), (''fence'', PInt fence), (''node_key'', PStr k)])) in
     bindE (insert_claim cl s) (\<lambda>s1.
     Inr (cl, add_event ev pid (Some k) ''claim_acquired'' (PDict (acquired_payload c cl @
            [(''attempt_id'', py_str_opt aid), (''transfer'', PBool True), (''actor'', PStr (by_actor c))]))
          (add_history ev (by_actor c) cl Live reason s1))))"

text \<open>The new holder's own live exclusive claim, bound with a fresh fence (\<open>_bind_held_claim\<close>).\<close>

definition bind_held_claim :: "env \<Rightarrow> caller \<Rightarrow> attempt \<Rightarrow> string \<Rightarrow> claim \<Rightarrow> db \<Rightarrow> claim \<times> db" where
  "bind_held_claim ev c a reason cl s =
     (let fence = next_fence s (a_project a) (a_node a);
          cl' = cl\<lparr>c_attempt := Some (a_id a), c_fence := fence, c_updated := now_at ev\<rparr>;
          s1 = update_claim (c_id cl) (\<lambda>x. x\<lparr>c_attempt := Some (a_id a), c_fence := fence, c_updated := now_at ev\<rparr>) s;
          s2 = add_history ev (by_actor c) cl' Live reason s1
      in (cl', add_event ev (a_project a) (Some (a_node a)) ''claim_acquired''
            (PDict (acquired_payload c cl' @ [(''previous_fence'', PInt (c_fence cl)), (''attempt_id'', PStr (a_id a)),
               (''transfer'', PBool True), (''actor'', PStr (by_actor c))])) s2))"

text \<open>The live claims an ownership change stops: bound ones, and the owner's exclusive claim on the node.\<close>

definition moved_claims :: "db \<Rightarrow> attempt \<Rightarrow> claim list" where
  "moved_claims s a = filter (\<lambda>c. c_project c = a_project a \<and> c_status c = Live \<and>
     (c_attempt c = Some (a_id a) \<or>
      c_node c = a_node a \<and> c_driver c = (case a_owner a of None \<Rightarrow> [] | Some d \<Rightarrow> d) \<and> c_purpose c \<in> set EXCLUSIVE_PURPOSES)) (claims s)"

definition stop_claim :: "env \<Rightarrow> caller \<Rightarrow> attempt \<Rightarrow> string \<Rightarrow> string option \<Rightarrow> claim \<Rightarrow> db \<Rightarrow> db" where
  "stop_claim ev c a reason new_holder cl s =
     (let st = (if new_holder = None then Released else Transferred);
          cl' = cl\<lparr>c_status := st, c_updated := now_at ev\<rparr>
      in add_event ev (a_project a) (Some (a_node a)) (if new_holder = None then ''claim_released'' else ''claim_transferred'')
           (PDict [(''claim_id'', PStr (c_id cl)), (''driver_id'', PStr (c_driver cl)), (''purpose'', PStr (purpose_name (c_purpose cl))),
              (''fence'', PInt (c_fence cl)), (''reason'', PStr reason), (''to_driver_id'', py_str_opt new_holder),
              (''attempt_id'', PStr (a_id a)), (''actor'', PStr (by_actor c))])
           (add_history ev (by_actor c) cl' st reason
             (update_claim (c_id cl) (\<lambda>x. x\<lparr>c_status := st, c_updated := now_at ev\<rparr>) s)))"

definition latest_bound :: "db \<Rightarrow> attempt \<Rightarrow> claim option" where
  "latest_bound s a = (case sort_key (\<lambda>c. (c_created c, c_id c)) (filter (\<lambda>c. c_project c = a_project a \<and> c_attempt c = Some (a_id a)) (claims s)) of
     [] \<Rightarrow> None | cs \<Rightarrow> Some (last cs))"

definition held_claim :: "db \<Rightarrow> attempt \<Rightarrow> string \<Rightarrow> claim option" where
  "held_claim s a driver = find (\<lambda>c. live_exclusive (a_project a) (a_node a) c \<and> c_driver c = driver) (claims s)"

definition move_one :: "env \<Rightarrow> caller \<Rightarrow> attempt \<Rightarrow> string \<Rightarrow> string \<Rightarrow> claim \<Rightarrow> claim option \<times> claim option \<times> db
    \<Rightarrow> (claim option \<times> claim option \<times> db) result" where
  "move_one ev c a reason driver src = (\<lambda>(held, created, s).
     bindE (case held of
              Some h \<Rightarrow> if c_purpose src \<in> set EXCLUSIVE_PURPOSES
                then (let (m, t) = bind_held_claim ev c a reason h s in Inr (None, m, t))
                else bindE (new_claim_for ev c (a_project a) (a_node a) (a_revision a) (Some (a_id a)) driver reason (c_workspace src)
                        (c_purpose src) (c_subagent src) s) (\<lambda>(m, t). Inr (held, m, t))
            | None \<Rightarrow> bindE (new_claim_for ev c (a_project a) (a_node a) (a_revision a) (Some (a_id a)) driver reason (c_workspace src)
                        (c_purpose src) (c_subagent src) s) (\<lambda>(m, t). Inr (None, m, t))) (\<lambda>(held', moved, t).
     Inr (held', (if created = None \<or> c_purpose src = Implement then Some moved else created), t)))"

definition move_claims :: "env \<Rightarrow> caller \<Rightarrow> attempt \<Rightarrow> string \<Rightarrow> string \<Rightarrow> claim list \<Rightarrow> db \<Rightarrow> (claim \<times> db) result" where
  "move_claims ev c a reason driver rows s =
     (let sources = (if rows \<noteq> [] then rows else case latest_bound s a of None \<Rightarrow> [] | Some l \<Rightarrow> [l]) in
      bindE (foldE (move_one ev c a reason driver) sources (held_claim s a driver, None, s)) (\<lambda>(held, created, t).
      case created of
        Some m \<Rightarrow> Inr (m, t)
      | None \<Rightarrow> (case held of
          Some h \<Rightarrow> Inr (bind_held_claim ev c a reason h t)
        | None \<Rightarrow> new_claim_for ev c (a_project a) (a_node a) (a_revision a) (Some (a_id a)) driver reason [] Implement None t)))"

text \<open>\<open>StateRecovery._release_bound_claims\<close>.\<close>

definition reassign_claims :: "env \<Rightarrow> caller \<Rightarrow> attempt \<Rightarrow> string \<Rightarrow> string option \<Rightarrow> db \<Rightarrow> ((string list \<times> claim option) \<times> db) result" where
  "reassign_claims ev c a reason new_holder s =
     (let rows = moved_claims s a; s1 = fold (stop_claim ev c a reason new_holder) rows s in
      case new_holder of
        None \<Rightarrow> Inr ((map c_id rows, None), s1)
      | Some d \<Rightarrow> bindE (move_claims ev c a reason d rows s1) (\<lambda>(m, t). Inr ((map c_id rows, Some m), t)))"

definition void_open_handoffs :: "env \<Rightarrow> string \<Rightarrow> string \<Rightarrow> db \<Rightarrow> nat \<times> db" where
  "void_open_handoffs ev aid reason s =
     (length (filter (\<lambda>h. ho_attempt h = Some aid \<and> ho_status h = HOffered) (handoffs s)),
      s\<lparr>handoffs := update_where (\<lambda>h. ho_attempt h = Some aid \<and> ho_status h = HOffered)
          (\<lambda>h. h\<lparr>ho_status := HWithdrawn, ho_decided_by := Some ''system'', ho_decision := Some reason, ho_updated := now_at ev\<rparr>) (handoffs s)\<rparr>)"

section \<open>Presence as authority\<close>

text \<open>\<open>_member\<close> of state_takeover.py: an active driver that is a member of the project.\<close>

definition active_member :: "db \<Rightarrow> string \<Rightarrow> string \<Rightarrow> bool" where
  "active_member s pid driver \<longleftrightarrow>
     list_ex (\<lambda>m. mb_project m = pid \<and> mb_driver m = driver \<and> mb_member m) (memberships s) \<and>
     list_ex (\<lambda>d. dr_id d = driver \<and> dr_active d) (drivers s)"

definition refuse_shared_identity :: "string \<Rightarrow> unit result" where
  "refuse_shared_identity driver = raise_if (shared_identity driver) (ClaimError ''shared_identity'')"

definition offline_owner_evidence :: "env \<Rightarrow> db \<Rightarrow> string \<Rightarrow> string option \<Rightarrow> string option \<Rightarrow> presence option result" where
  "offline_owner_evidence ev s pid owner driver = (case (owner, driver) of
     (Some w, Some d) \<Rightarrow>
       if w = [] \<or> d = [] \<or> w = d then Inr None
       else let p = effective_presence ev s w in
         if \<not> owner_is_offline p then Inr None
         else bindE (refuse_shared_identity d) (\<lambda>_.
              bindE (raise_if (\<not> active_member s pid d) (ClaimError ''not_project_member'')) (\<lambda>_. Inr (Some p)))
   | _ \<Rightarrow> Inr None)"

section \<open>Reclaiming an attempt\<close>

text \<open>\<open>_reclaimable\<close>: whether this is a break-glass write, and the presence it rests on.\<close>

definition reclaimable :: "env \<Rightarrow> caller \<Rightarrow> attempt \<Rightarrow> int \<Rightarrow> string option \<Rightarrow> bool \<Rightarrow> db \<Rightarrow> (bool \<times> presence option) result" where
  "reclaimable ev c a expected override by_presence s =
     bindE (raise_if (a_status a \<notin> set ACTIVE) (ClaimError ''attempt_not_active'')) (\<lambda>_.
     bindE (require_member ev s (a_project a) (by_driver c) (by_admin c)) (\<lambda>glass.
     bindE (raise_if (expected \<noteq> a_fence a) (ClaimError ''stale_fence'')) (\<lambda>_.
     case a_lease a of
       None \<Rightarrow> bindE (raise_if (override = None \<and> \<not> by_admin c) (ClaimError ''override_reason_required'')) (\<lambda>_.
               Inr (override = None \<or> glass, None))
     | Some expires \<Rightarrow>
         if lease_state (Some expires) (now_at ev) = Reclaimable then Inr (glass, None)
         else if by_admin c then Inr (True, None)
         else bindE (if by_presence then offline_owner_evidence ev s (a_project a) (a_owner a) (by_driver c) else Inr None) (\<lambda>p.
              case p of None \<Rightarrow> Inl (ClaimError ''lease_not_expired'') | Some q \<Rightarrow> Inr (glass, Some q)))))"

definition parse_abandon :: "string \<Rightarrow> abandon_kind option" where
  "parse_abandon t = find (\<lambda>k. abandon_kind_name k = t) [ConfirmedStopped, UnknownQuiescence]"

definition abandoned_body :: "caller \<Rightarrow> attempt \<Rightarrow> abandon_kind \<Rightarrow> string \<Rightarrow> int \<Rightarrow> string" where
  "abandoned_body c a kd reason fence = concat [by_actor c, '' abandoned attempt '', a_id a, '' (node '', a_node a,
     '') after its lease lapsed: '', reason, ''. Its fence is now '', show_int fence,
     ''; a late report from you is recorded as late_after_abandon/superseded and can no longer make the node CANDIDATE. '',
     ''If you really finished, register the same artifact under a NEW attempt.'',
     (if kd = UnknownQuiescence then '' quiescence=unknown: do not write that checkout again.'' else [])]"

definition abandon_commit :: "env \<Rightarrow> caller \<Rightarrow> string \<Rightarrow> int \<Rightarrow> abandon_kind \<Rightarrow> string \<Rightarrow> (string \<times> string \<times> string) option \<Rightarrow> string option \<Rightarrow> db
    \<Rightarrow> ((public \<times> bool \<times> string list \<times> notice) \<times> db) result" where
  "abandon_commit ev c aid expected kd reason report override s =
     bindE (get_attempt s aid) (\<lambda>a.
     bindE (raise_if (a_kind a \<noteq> External) (ClaimError ''not_external'')) (\<lambda>_.
     bindE (reclaimable ev c a expected override False s) (\<lambda>(glass, _).
     let fence = a_fence a + 1 in
     bindE (case report of None \<Rightarrow> Inr s | Some (ref, sha, bytes) \<Rightarrow> store_report_blob ev ref sha bytes s) (\<lambda>s1.
     let s2 = update_attempt aid (\<lambda>x. x\<lparr>a_status := Abandoned, a_abandon := Some kd, a_error := Some reason, a_fence := fence,
                a_updated := now_at ev\<rparr>) s1;
         s3 = s2\<lparr>owners := update_where (\<lambda>w. ow_attempt w = aid)
                (\<lambda>w. w\<lparr>ow_status := OwAbandoned, ow_updated := now_at ev, ow_settled := Some (now_at ev)\<rparr>) (owners s2)\<rparr> in
     bindE (reassign_claims ev c a (''attempt abandoned: '' @ reason) None s3) (\<lambda>((released, _), s4).
     let (voided, s5) = void_open_handoffs ev aid ''attempt abandoned'' s4;
         s6 = attempt_event ev a ''attempt_abandoned''
                [(''abandon_kind'', PStr (abandon_kind_name kd)), (''reason'', PStr reason),
                 (''previous_owner_driver_id'', py_str_opt (a_owner a)), (''previous_fence'', PInt (a_fence a)), (''fence'', PInt fence),
                 (''actor'', PStr (by_actor c)), (''driver_id'', py_str_opt (by_driver c)), (''break_glass'', PBool glass),
                 (''override_reason'', py_str_opt override), (''report_sha256'', py_opt (\<lambda>(_, sha, _). PStr sha) report),
                 (''released_claims'', py_strs released), (''voided_handoffs'', PInt (int voided))] s5 in
     bindE (if owned a \<and> a_owner a \<noteq> by_driver c
            then notify ev (a_owner a) ''takeover_notice''
                   (concat [''your attempt '', aid, '' on '', a_node a, '' was abandoned ('', abandon_kind_name kd, '')''])
                   (abandoned_body c a kd reason fence) [(''attempt_id'', Some aid), (''node_key'', Some (a_node a))]
                   (Some (a_project a)) None s6
            else Inr (NotAddressed, s6)) (\<lambda>(note, s7).
     bindE (pub_result ev aid s7) (\<lambda>(p, t). Inr ((p, glass, released, note), t))))))))"

definition abandon_external_attempt :: "env \<Rightarrow> report_io \<Rightarrow> caller \<Rightarrow> string \<Rightarrow> int \<Rightarrow> string \<Rightarrow> string \<Rightarrow> string option \<Rightarrow> string option
    \<Rightarrow> string option \<Rightarrow> db \<Rightarrow> ((public \<times> bool \<times> string list \<times> notice) \<times> db) result" where
  "abandon_external_attempt ev io c aid expected kind reason ref sha override s =
     bindE (check_text (PStr reason) 4000) (\<lambda>r.
     bindE (override_reason_text override) (\<lambda>ov.
     bindE (require_some (parse_abandon kind) (StateGraphError ''abandon_kind must be confirmed_stopped or unknown'')) (\<lambda>kd.
     bindE (raise_if (\<not> nonempty (by_driver c) \<and> \<not> by_admin c) (ClaimError ''driver_identity_required'')) (\<lambda>_.
     bindE (if kd = ConfirmedStopped then
              bindE (raise_if (\<not> nonempty ref \<or> \<not> nonempty sha)
                       (StateGraphError ''confirmed_stopped is an attestation: it needs report_ref and report_sha256'')) (\<lambda>_.
              bindE (retain_report ev io (the ref) (the sha) False) (\<lambda>(ref', bytes). Inr (Some (ref', the sha, bytes))))
            else
              bindE (raise_if (ref \<noteq> None \<or> sha \<noteq> None)
                       (StateGraphError ''abandon_kind=unknown carries no quiescence report; omit report_ref/report_sha256'')) (\<lambda>_. Inr None)) (\<lambda>report.
     abandon_commit ev c aid expected kd r report ov s)))))"

fun presence_status_name :: "presence_status \<Rightarrow> string" where
  "presence_status_name Online = ''online''"
| "presence_status_name Away = ''away''"
| "presence_status_name Offline = ''offline''"

fun basis_name :: "presence_basis \<Rightarrow> string" where
  "basis_name ByWait = ''wait''"
| "basis_name ByDeclaration = ''declared''"
| "basis_name ByLastSeen = ''last_seen''"

text \<open>\<open>_evidence\<close>: the presence facts a decision used, as recorded in its event.\<close>

definition presence_py :: "presence \<Rightarrow> pyval" where
  "presence_py p = PDict [(''status'', PStr (presence_status_name (pr_status p))), (''basis'', PStr (basis_name (pr_basis p))), (''determinable'', PBool (pr_determinable p)), (''declared'', PBool (pr_declaration p \<noteq> None)),
     (''since'', py_opt (\<lambda>d. PInt (dc_declared d)) (pr_declaration p)),
     (''expected_return'', py_opt PInt (Option.bind (pr_declaration p) dc_return)),
     (''last_seen_at'', py_opt PInt (pr_last_seen p)), (''seconds_since_seen'', py_opt PInt (pr_age p)),
     (''waiting'', PBool (pr_waiting p)), (''last_wait_end'', py_opt PInt (pr_last_wait_end p))]"

definition take_over_attempt :: "env \<Rightarrow> caller \<Rightarrow> string \<Rightarrow> int \<Rightarrow> string \<Rightarrow> string option \<Rightarrow> db
    \<Rightarrow> ((public \<times> bool \<times> claim option \<times> notice) \<times> db) result" where
  "take_over_attempt ev c aid expected reason override s =
     bindE (check_text (PStr reason) 4000) (\<lambda>r.
     bindE (override_reason_text override) (\<lambda>ov.
     bindE (raise_if (\<not> nonempty (by_driver c)) (ClaimError ''driver_identity_required'')) (\<lambda>_.
     let driver = the (by_driver c) in
     bindE (refuse_shared_identity driver) (\<lambda>_.
     bindE (get_attempt s aid) (\<lambda>a.
     bindE (raise_if (a_owner a = Some driver) (ClaimError ''already_owner'')) (\<lambda>_.
     bindE (reclaimable ev c a expected ov True s) (\<lambda>(glass, offline).
     let fence = a_fence a + 1; expires = add_seconds (now_at ev) DEFAULT_LEASE_SECONDS;
         s1 = update_attempt aid (\<lambda>x. x\<lparr>a_owner := Some driver, a_fence := fence, a_lease := Some expires,
                a_heartbeat := Some (now_at ev), a_updated := now_at ev\<rparr>) s in
     bindE (reassign_claims ev c a (''attempt taken over: '' @ r) (Some driver) s1) (\<lambda>((_, cl), s2).
     let (voided, s3) = void_open_handoffs ev aid ''attempt taken over'' s2;
         s4 = attempt_event ev a ''attempt_ownership_transferred''
                ([(''mode'', PStr ''takeover''), (''from_driver_id'', py_str_opt (a_owner a)), (''to_driver_id'', PStr driver),
                  (''previous_fence'', PInt (a_fence a)), (''fence'', PInt fence), (''lease_expires_at'', PInt expires), (''reason'', PStr r),
                  (''override_reason'', py_str_opt ov), (''break_glass'', PBool glass), (''actor'', PStr (by_actor c)),
                  (''voided_handoffs'', PInt (int voided))] @
                 (case offline of None \<Rightarrow> [] | Some p \<Rightarrow> [(''owner_offline'', PBool True), (''owner_presence'', presence_py p)])) s3 in
     bindE (if owned a then notify ev (a_owner a) ''takeover_notice''
                   (concat [''your attempt '', aid, '' on '', a_node a, '' was taken over by '', driver])
                   (concat [by_actor c, '' took over attempt '', aid, '' (node '', a_node a, '') '',
                      (if offline \<noteq> None then ''while you were offline'' else ''after its lease lapsed''), '': '', r,
                      ''. Fence is now '', show_int fence, ''; your observe/report calls with the old fence are refused (stale_fence). '',
                      ''Stop your workers on it: they are fenced out, not inherited.''])
                   [(''attempt_id'', Some aid), (''node_key'', Some (a_node a))] (Some (a_project a)) None s4
            else Inr (NotAddressed, s4)) (\<lambda>(note, s5).
     bindE (pub_result ev aid s5) (\<lambda>(p, t). Inr ((p, glass, cl, note), t)))))))))))"

section \<open>Taking over a claim\<close>

definition MIN_REASON_CHARS :: nat where "MIN_REASON_CHARS = 20"
definition MAX_REASON_CHARS :: nat where "MAX_REASON_CHARS = 300"

definition claim_handover :: "env \<Rightarrow> caller \<Rightarrow> string \<Rightarrow> claim \<Rightarrow> node \<Rightarrow> presence \<Rightarrow> string \<Rightarrow> string \<Rightarrow> string \<Rightarrow> db \<Rightarrow> (claim \<times> db) result" where
  "claim_handover ev c driver old n p reason stored_key request_hash s =
     (let pid = c_project old; k = c_node old; current = now_at ev;
          old' = old\<lparr>c_status := TakenOver, c_updated := current\<rparr>;
          s1 = update_claim (c_id old) (\<lambda>x. x\<lparr>c_status := TakenOver, c_updated := current\<rparr>) s;
          s2 = add_history ev (by_actor c) old' TakenOver (concat [''taken over by '', driver, '': '', reason]) s1;
          fence = next_fence s2 pid k;
          cl = new_claim (fresh_id ev ''claim-'' 0) pid k driver (c_purpose old) fence (n_revision n) None (c_workspace old) None
                 (c_lease_seconds old) current stored_key request_hash in
      bindE (insert_claim cl s2) (\<lambda>s3.
      let s4 = add_history ev (by_actor c) cl Live (concat [''took over '', c_id old, '' from '', c_driver old, '': '', reason]) s3;
          s5 = add_event ev pid (Some k) ''claim_taken_over''
                 (PDict [(''claim_id'', PStr (c_id old)), (''new_claim_id'', PStr (c_id cl)), (''from_driver_id'', PStr (c_driver old)),
                    (''to_driver_id'', PStr driver), (''purpose'', PStr (purpose_name (c_purpose old))), (''fence'', PInt (c_fence old)),
                    (''new_fence'', PInt fence), (''reason'', PStr reason), (''owner_presence'', presence_py p), (''actor'', PStr (by_actor c))]) s4;
          s6 = add_event ev pid (Some k) ''claim_acquired'' (PDict (acquired_payload c cl @ [(''taken_over_from'', PStr (c_id old)),
                 (''actor'', PStr (by_actor c))])) s5
      in Inr (cl, s6)))"

text \<open>
  \<open>take_over_claim\<close>. The tables of the model are at the current schema, so the refusal \<open>takeover_unavailable\<close>
  of \<open>_status_check_current\<close>, which guards a pending migration of the claim table, cannot arise.
\<close>

definition take_over_claim :: "env \<Rightarrow> caller \<Rightarrow> string \<Rightarrow> string \<Rightarrow> int \<Rightarrow> string \<Rightarrow> string \<Rightarrow> db
    \<Rightarrow> ((claim_view \<times> claim_view \<times> bool) \<times> db) result" where
  "take_over_claim ev c pid cid expected reason request_key s =
     bindE (require_driver c) (\<lambda>driver.
     bindE (refuse_shared_identity driver) (\<lambda>_.
     bindE (check_text (PStr reason) MAX_REASON_CHARS) (\<lambda>r.
     bindE (raise_if (length r < MIN_REASON_CHARS) (StateGraphError ''reason must say why, in 20..300 characters'')) (\<lambda>_.
     bindE (check_key (PStr request_key)) (\<lambda>_.
     bindE (check_key (PStr cid)) (\<lambda>_.
     let stored_key = ''takeover:'' @ request_key;
         request_hash = digest ev (PDict [(''take_over_claim'', PStr cid), (''expected_fence'', PInt expected), (''reason'', PStr r)]);
         current = now_at ev in
     bindE (get_project s pid) (\<lambda>_.
     case find (\<lambda>x. c_project x = pid \<and> c_driver x = driver \<and> c_request_key x = stored_key) (claims s) of
       Some rp \<Rightarrow>
         bindE (raise_if (c_request_hash rp \<noteq> request_hash) (ClaimError ''request_key_reused'')) (\<lambda>_.
         bindE (get_claim_row s pid cid) (\<lambda>old. Inr ((view_claim current old, view_claim current rp, True), s)))
     | None \<Rightarrow>
         bindE (get_claim_row s pid cid) (\<lambda>old0.
         bindE (raise_if (\<not> active_member s pid driver) (ClaimError ''not_project_member'')) (\<lambda>_.
         bindE (raise_if (c_driver old0 = driver) (ClaimError ''already_held'')) (\<lambda>_.
         let s1 = sweep_conn ev (by_actor c) pid current (Some (c_node old0)) s in
         bindE (get_claim_row s1 pid cid) (\<lambda>old.
         bindE (raise_if (expected \<noteq> c_fence old) (ClaimError ''stale_fence'')) (\<lambda>_.
         bindE (raise_if (c_status old \<noteq> Live) (ClaimError ''claim_not_live'')) (\<lambda>_.
         bindE (get_node s1 pid (c_node old)) (\<lambda>n.
         bindE (raise_if (n_status n = SUPERSEDED \<or> c_purpose old = Implement \<and> n_status n = VERIFIED) (ClaimError ''node_closed'')) (\<lambda>_.
         let p = effective_presence ev s1 (c_driver old) in
         bindE (raise_if (\<not> owner_is_offline p) (ClaimError ''owner_not_offline'')) (\<lambda>_.
         bindE (claim_handover ev c driver old n p r stored_key request_hash s1) (\<lambda>(cl, s2).
         bindE (notify ev (Some (c_driver old)) ''takeover_notice''
                  (concat [driver, '' took over your '', purpose_name (c_purpose old), '' claim on '', c_node old])
                  (concat [''You were '', presence_status_name (pr_status p), '' ('', basis_name (pr_basis p), ''). Claim '', cid, '' (fence '', show_int (c_fence old), '') is now taken_over; '', driver, '' holds '',
                     c_id cl, '' with fence '', show_int (c_fence cl), ''. Your fence is stale: stop renewing and stop writing that claim. Reason: '', r])
                  [(''claim_id'', Some cid), (''node_key'', Some (c_node old))] (Some pid) (Some driver) s2) (\<lambda>(note, s3).
         Inr ((view_claim current (old\<lparr>c_status := TakenOver, c_updated := current\<rparr>), view_claim current cl, False), s3)))))))))))))))))))"

end
