(* ===== verification/Handoffs.thy ===== *)
theory Handoffs
  imports Recovery
begin

text \<open>
  Voluntary handoffs (src/core/state_handoffs.py) and the record-only subagent registry
  (src/core/state_subagents.py).
\<close>

section \<open>Subagents\<close>

definition LABEL :: "string \<Rightarrow> bool" where
  "LABEL t \<longleftrightarrow> t \<noteq> [] \<and> length t \<le> 100 \<and> (py_letter (hd t) \<or> py_digit (hd t)) \<and> list_all key_char (tl t)"

definition register_subagent :: "env \<Rightarrow> caller \<Rightarrow> string \<Rightarrow> string \<Rightarrow> string \<Rightarrow> string \<Rightarrow> db \<Rightarrow> ((subagent \<times> bool) \<times> db) result" where
  "register_subagent ev c pid aid label workspace s =
     bindE (raise_if (\<not> nonempty (by_driver c)) (ClaimError ''driver_identity_required'')) (\<lambda>_.
     let driver = the (by_driver c) in
     bindE (raise_if (\<not> LABEL label) (StateGraphError ''label must match [A-Za-z0-9][A-Za-z0-9_.-]{0,99}'')) (\<lambda>_.
     bindE (check_text (PStr workspace) 500) (\<lambda>ws.
     let sid = concat [driver, ''/'', label];
         request_hash = digest ev (PDict [(''attempt_id'', PStr aid), (''workspace'', PStr ws)]) in
     bindE (get_project s pid) (\<lambda>_.
     case find (\<lambda>x. sa_id x = sid) (subagents s) of
       Some old \<Rightarrow> if sa_request_hash old = request_hash \<and> sa_project old = pid then Inr ((old, True), s)
                   else Inl (ClaimError ''subagent_exists'')
     | None \<Rightarrow>
         bindE (check_key (PStr aid)) (\<lambda>_.
         bindE (require_some (find (\<lambda>a. a_id a = aid \<and> a_project a = pid) (attempts s)) (StateNotFound ''attempt not found in project'')) (\<lambda>a.
         bindE (raise_if (a_status a \<notin> set ACTIVE) (ClaimError ''attempt_not_active'')) (\<lambda>_.
         bindE (raise_if (a_owner a \<noteq> Some driver) (ClaimError ''not_attempt_owner'')) (\<lambda>_.
         let row = \<lparr>sa_id = sid, sa_parent = driver, sa_project = pid, sa_attempt = aid, sa_node = a_node a, sa_workspace = ws,
                    sa_request_hash = request_hash, sa_created = now_at ev\<rparr>
         in Inr ((row, False), add_event ev pid (Some (a_node a)) ''subagent_registered''
              (PDict [(''subagent_id'', PStr sid), (''attempt_id'', PStr aid), (''parent_driver_id'', PStr driver),
                 (''workspace'', PStr ws), (''actor'', PStr (by_actor c))]) (s\<lparr>subagents := subagents s @ [row]\<rparr>)))))))))) "

definition list_subagents :: "db \<Rightarrow> string \<Rightarrow> string option \<Rightarrow> string option \<Rightarrow> nat \<Rightarrow> (subagent list \<times> bool) result" where
  "list_subagents s pid aid parent limit = bindE (get_project s pid) (\<lambda>_.
     let rows = sort_key (\<lambda>x. (sa_created x, sa_id x)) (filter (\<lambda>x. sa_project x = pid \<and> (aid = None \<or> aid = Some (sa_attempt x)) \<and>
                  (parent = None \<or> parent = Some (sa_parent x))) (subagents s))
     in Inr (take limit rows, length rows > limit))"

section \<open>The package of an offer\<close>

definition LIST_CAPS :: "(string \<times> nat) list" where
  "LIST_CAPS = [(''reports'', 20), (''open_issue_ids'', 100), (''note_entries'', 50), (''private_notes'', 50), (''subagents'', 100)]"

definition ALLOWED_KEYS :: "string list" where
  "ALLOWED_KEYS = [''context_hash'', ''observation_version'', ''event_cursor'', ''source'', ''workspace'', ''workers'',
     ''pending_checkpoint'', ''next_step''] @ map fst LIST_CAPS"

definition MAX_PACKAGE_BYTES :: nat where "MAX_PACKAGE_BYTES = 16384"
definition MAX_NEXT_STEP_CHARS :: nat where "MAX_NEXT_STEP_CHARS = 2000"
definition OFFER_LEASE_SECONDS :: int where "OFFER_LEASE_SECONDS = 86400"

definition high_water :: "db \<Rightarrow> string \<Rightarrow> nat" where
  "high_water s pid = fold (\<lambda>e m. if e_project e = pid then max m (e_seq e) else m) (events s) 0"

definition package_shape :: "pyval \<Rightarrow> unit result" where
  "package_shape p =
     bindE (raise_if (\<not> is_dict p) (StateGraphError ''package must be an object'')) (\<lambda>_.
     bindE (raise_if (\<not> list_all (\<lambda>k. List.member ALLOWED_KEYS k) (dict_keys p)) (StateGraphError ''package has unknown keys'')) (\<lambda>_.
     bindE (raise_if (length (utf8 (canonical p)) > MAX_PACKAGE_BYTES) (StateGraphError ''package exceeds 16384 bytes; it carries references, not content'')) (\<lambda>_.
     bindE (raise_if (list_ex (\<lambda>(name, cap). case dict_get name p of None \<Rightarrow> False | Some PNone \<Rightarrow> False
                        | Some (PList vs) \<Rightarrow> length vs > cap | Some _ \<Rightarrow> True) LIST_CAPS)
              (StateGraphError ''package lists must be lists of bounded length'')) (\<lambda>_.
     bindE (raise_if (case dict_get ''next_step'' p of None \<Rightarrow> False | Some (PStr t) \<Rightarrow> length t > MAX_NEXT_STEP_CHARS | Some _ \<Rightarrow> True)
              (StateGraphError ''package.next_step must be text of at most 2000 characters'')) (\<lambda>_.
     raise_if (case dict_get ''workers'' p of None \<Rightarrow> False | Some PNone \<Rightarrow> False
                 | Some w \<Rightarrow> \<not> is_dict w \<or> (case dict_get ''quiescent'' w of Some (PBool _) \<Rightarrow> False | _ \<Rightarrow> True))
       (StateGraphError ''package.workers must be {quiescent: bool, detail?, host?}''))))))"

definition package_report :: "env \<Rightarrow> report_io \<Rightarrow> pyval \<Rightarrow> unit result" where
  "package_report ev io r = (case (dict_get ''ref'' r, dict_get ''sha256'' r) of
     (Some (PStr ref), Some (PStr sha)) \<Rightarrow>
       bindE (raise_if (\<not> hex_of_length 64 sha) (StateGraphError ''package.reports items are {ref, sha256}'')) (\<lambda>_.
       bindE (retain_report ev io ref sha False) (\<lambda>_. Inr ()))
   | _ \<Rightarrow> Inl (StateGraphError ''package.reports items are {ref, sha256}''))"

definition check_package :: "env \<Rightarrow> report_io \<Rightarrow> db \<Rightarrow> string \<Rightarrow> pyval \<Rightarrow> attempt option \<Rightarrow> unit result" where
  "check_package ev io s pid p att =
     bindE (package_shape p) (\<lambda>_.
     bindE (case att of None \<Rightarrow> Inr () | Some a \<Rightarrow>
              bindE (raise_if (case dict_get ''context_hash'' p of None \<Rightarrow> False | Some h \<Rightarrow> h \<noteq> PStr (digest ev (a_context a)))
                       (ClaimError ''package_mismatch'')) (\<lambda>_.
              raise_if (case dict_get ''observation_version'' p of None \<Rightarrow> False | Some v \<Rightarrow> v \<noteq> PInt (a_version a)) (ClaimError ''package_mismatch''))) (\<lambda>_.
     bindE (raise_if (case dict_get ''event_cursor'' p of None \<Rightarrow> False
                      | Some (PInt i) \<Rightarrow> \<not> (0 \<le> i \<and> i \<le> int (high_water s pid)) | Some _ \<Rightarrow> True) (ClaimError ''package_mismatch'')) (\<lambda>_.
     bindE (mapE (package_report ev io) (case dict_get ''reports'' p of Some (PList rs) \<Rightarrow> rs | _ \<Rightarrow> [])) (\<lambda>_. Inr ()))))"

section \<open>Offers\<close>

definition view_handoff :: "int \<Rightarrow> handoff \<Rightarrow> handoff" where
  "view_handoff current h = (if ho_status h = HOffered \<and> ho_expires h \<le> current then h\<lparr>ho_status := HExpired\<rparr> else h)"

definition handoff_row :: "db \<Rightarrow> string \<Rightarrow> string \<Rightarrow> handoff result" where
  "handoff_row s pid hid = bindE (check_key (PStr hid)) (\<lambda>k.
     require_some (find (\<lambda>h. ho_id h = k \<and> ho_project h = pid) (handoffs s)) (StateNotFound ''handoff not found in project''))"

text \<open>The subject of an offer: the offerer must own it, live, with the fence it names.\<close>

definition offered_attempt :: "db \<Rightarrow> string \<Rightarrow> string \<Rightarrow> string \<Rightarrow> int \<Rightarrow> attempt result" where
  "offered_attempt s pid driver aid fence =
     bindE (check_key (PStr aid)) (\<lambda>_.
     bindE (require_some (find (\<lambda>a. a_id a = aid \<and> a_project a = pid) (attempts s)) (StateNotFound ''attempt not found in project'')) (\<lambda>a.
     bindE (raise_if (a_status a \<notin> set ACTIVE) (ClaimError ''attempt_not_active'')) (\<lambda>_.
     bindE (raise_if (a_owner a \<noteq> Some driver) (ClaimError ''not_attempt_owner'')) (\<lambda>_.
     bindE (raise_if (a_fence a \<noteq> fence) (ClaimError ''stale_fence'')) (\<lambda>_. Inr a)))))"

definition offered_claim :: "db \<Rightarrow> string \<Rightarrow> string \<Rightarrow> string \<Rightarrow> int \<Rightarrow> claim result" where
  "offered_claim s pid driver cid fence =
     bindE (get_claim_row s pid cid) (\<lambda>cl.
     bindE (raise_if (c_status cl \<noteq> Live) (ClaimError ''claim_not_live'')) (\<lambda>_.
     bindE (raise_if (c_driver cl \<noteq> driver) (ClaimError ''not_claim_owner'')) (\<lambda>_.
     bindE (raise_if (c_fence cl \<noteq> fence) (ClaimError ''stale_fence'')) (\<lambda>_. Inr cl))))"

definition handoff_pending :: "db \<Rightarrow> string \<Rightarrow> int \<Rightarrow> string option \<Rightarrow> string option \<Rightarrow> bool" where
  "handoff_pending s pid current aid cid = list_ex (\<lambda>h. ho_project h = pid \<and> ho_status h = HOffered \<and> current < ho_expires h \<and>
     ((aid \<noteq> None \<and> ho_attempt h = aid) \<or> (cid \<noteq> None \<and> ho_claim h = cid))) (handoffs s)"

definition subject_kind :: "handoff \<Rightarrow> string" where
  "subject_kind h = (if ho_attempt h \<noteq> None then ''attempt'' else ''claim'')"

definition handoff_refs :: "handoff \<Rightarrow> (string \<times> string option) list" where
  "handoff_refs h = [(''handoff_id'', Some (ho_id h)), (''attempt_id'', ho_attempt h), (''claim_id'', ho_claim h), (''node_key'', Some (ho_node h))]"

definition next_step_text :: "pyval \<Rightarrow> string" where
  "next_step_text p = (case dict_get ''next_step'' p of Some (PStr t) \<Rightarrow> take 500 t | _ \<Rightarrow> [])"

definition offer_handoff :: "env \<Rightarrow> report_io \<Rightarrow> caller \<Rightarrow> string \<Rightarrow> string \<Rightarrow> int \<Rightarrow> pyval \<Rightarrow> string option \<Rightarrow> string option \<Rightarrow> string \<Rightarrow> db
    \<Rightarrow> ((handoff \<times> bool) \<times> db) result" where
  "offer_handoff ev io c pid request_key fence package aid cid target s =
     bindE (raise_if (\<not> nonempty (by_driver c)) (ClaimError ''driver_identity_required'')) (\<lambda>_.
     let driver = the (by_driver c); current = now_at ev in
     bindE (check_key (PStr request_key)) (\<lambda>_.
     bindE (raise_if ((aid = None) = (cid = None)) (StateGraphError ''offer exactly one subject: attempt_id or claim_id'')) (\<lambda>_.
     bindE (raise_if (target = [] \<or> target = driver) (StateGraphError ''to_driver_id names the one other driver you offer to (point to point)'')) (\<lambda>_.
     bindE (get_project s pid) (\<lambda>_.
     bindE (case aid of
              Some i \<Rightarrow> bindE (offered_attempt s pid driver i fence) (\<lambda>a. Inr (Some a, a_node a))
            | None \<Rightarrow> bindE (offered_claim s pid driver (the cid) fence) (\<lambda>cl. Inr (None, c_node cl))) (\<lambda>(att, k).
     bindE (check_package ev io s pid package att) (\<lambda>_.
     let request_hash = digest ev (PDict [(''attempt_id'', py_str_opt aid), (''claim_id'', py_str_opt cid), (''to'', PStr target),
           (''fence'', PInt fence), (''package'', package)]) in
     case find (\<lambda>h. ho_project h = pid \<and> ho_from h = driver \<and> ho_request_key h = request_key) (handoffs s) of
       Some old \<Rightarrow> bindE (raise_if (ho_request_hash old \<noteq> request_hash) (ClaimError ''request_key_reused'')) (\<lambda>_.
                   Inr ((view_handoff current old, True), s))
     | None \<Rightarrow>
         bindE (raise_if (handoff_pending s pid current aid cid) (ClaimError ''handoff_pending'')) (\<lambda>_.
         let h = \<lparr>ho_id = fresh_id ev ''handoff-'' 0, ho_project = pid, ho_attempt = aid, ho_claim = cid, ho_node = k, ho_from = driver,
                  ho_to = target, ho_status = HOffered, ho_package = package, ho_fence = fence, ho_request_key = request_key,
                  ho_request_hash = request_hash, ho_expires = add_seconds current OFFER_LEASE_SECONDS, ho_created = current,
                  ho_updated = current, ho_decided_by = None, ho_decision = None\<rparr>;
             s1 = s\<lparr>handoffs := handoffs s @ [h]\<rparr>;
             s2 = add_event ev pid (Some k) ''handoff_offered'' (PDict [(''handoff_id'', PStr (ho_id h)), (''subject_kind'', PStr (subject_kind h)),
                    (''attempt_id'', py_str_opt aid), (''claim_id'', py_str_opt cid), (''from_driver_id'', PStr driver),
                    (''to_driver_id'', PStr target), (''lease_expires_at'', PInt (ho_expires h)), (''actor'', PStr (by_actor c))]) s1 in
         bindE (notify ev (Some target) ''handoff_offer''
                  (concat [driver, '' offers you '', subject_kind h, '' '', (case aid of Some i \<Rightarrow> i | None \<Rightarrow> the cid), '' on '', k])
                  (concat [''accept_handoff(project_id='', pid, '', handoff_id='', ho_id h, '', expected_owner_fence='', show_int fence,
                     '') before '', show_int (ho_expires h), ''; get_handoff shows the package. '', next_step_text package])
                  (handoff_refs h) (Some pid) (Some driver) s2) (\<lambda>(note, s3).
         Inr ((view_handoff current h, False), s3))))))))))"

section \<open>Decisions\<close>

definition eligible_receiver :: "handoff \<Rightarrow> string \<Rightarrow> unit result" where
  "eligible_receiver h driver = raise_if (ho_from h = driver \<or> ho_to h \<noteq> driver) (ClaimError ''not_handoff_target'')"

text \<open>
  \<open>_open\<close>. A lapsed offer is refused; the row it marks expired first is rolled back with the
  exception, so the database is as before.
\<close>

definition open_handoff :: "handoff \<Rightarrow> int \<Rightarrow> unit result" where
  "open_handoff h current = (let st = ho_status (view_handoff current h) in
     raise_if (st \<noteq> HOffered) (ClaimError (if st = HExpired then ''handoff_expired'' else ''handoff_closed'')))"

definition decide :: "env \<Rightarrow> string \<Rightarrow> handoff_status \<Rightarrow> string \<Rightarrow> string \<Rightarrow> db \<Rightarrow> db" where
  "decide ev hid st driver reason s = s\<lparr>handoffs := update_where (\<lambda>h. ho_id h = hid)
     (\<lambda>h. h\<lparr>ho_status := st, ho_decided_by := Some driver, ho_decision := Some reason, ho_updated := now_at ev\<rparr>) (handoffs s)\<rparr>"

definition quiescence_warning :: "db \<Rightarrow> pyval \<Rightarrow> attempt \<Rightarrow> pyval" where
  "quiescence_warning s package a =
     (let workers = get_or ''workers'' package PNone in
      if dict_get ''quiescent'' workers = Some (PBool True) then PNone
      else PDict [(''workers_quiescent'', get_or ''quiescent'' workers PNone), (''detail'', get_or ''detail'' workers PNone),
             (''registered_subagents'', py_strs (sort (map sa_id (filter (\<lambda>x. sa_attempt x = a_id a) (subagents s))))),
             (''warning'', PStr ''the offerer did not declare its workers quiescent: they are fenced out of State (fence+1) but may still write their checkouts - check before you write there'')])"

definition accept_attempt :: "env \<Rightarrow> caller \<Rightarrow> string \<Rightarrow> handoff \<Rightarrow> string \<Rightarrow> int \<Rightarrow> db \<Rightarrow> (claim option \<times> db) result" where
  "accept_attempt ev c driver h aid expected s =
     bindE (get_attempt s aid) (\<lambda>a.
     bindE (raise_if (a_status a \<notin> set ACTIVE) (ClaimError ''attempt_not_active'')) (\<lambda>_.
     bindE (raise_if (a_owner a \<noteq> Some (ho_from h) \<or> a_fence a \<noteq> expected \<or> a_fence a \<noteq> ho_fence h) (ClaimError ''stale_fence'')) (\<lambda>_.
     let fence = a_fence a + 1; expires = add_seconds (now_at ev) 7200;
         s1 = update_attempt aid (\<lambda>x. x\<lparr>a_owner := Some driver, a_fence := fence, a_lease := Some expires,
                a_heartbeat := Some (now_at ev), a_updated := now_at ev\<rparr>) s in
     bindE (reassign_claims ev c a (concat [''handoff '', ho_id h, '' accepted'']) (Some driver) s1) (\<lambda>((_, cl), s2).
     Inr (cl, attempt_event ev a ''attempt_ownership_transferred''
       [(''mode'', PStr ''handoff''), (''handoff_id'', PStr (ho_id h)), (''from_driver_id'', PStr (ho_from h)), (''to_driver_id'', PStr driver),
        (''previous_fence'', PInt (a_fence a)), (''fence'', PInt fence), (''lease_expires_at'', PInt expires),
        (''quiescence_warning'', quiescence_warning s (ho_package h) a), (''actor'', PStr (by_actor c))] s2)))))"

definition accept_claim :: "env \<Rightarrow> caller \<Rightarrow> string \<Rightarrow> handoff \<Rightarrow> string \<Rightarrow> int \<Rightarrow> db \<Rightarrow> (claim option \<times> db) result" where
  "accept_claim ev c driver h cid expected s =
     bindE (require_some (claim_at s cid) (IntegrityError ''claim'')) (\<lambda>cl.
     bindE (raise_if (c_status cl \<noteq> Live \<or> c_driver cl \<noteq> ho_from h \<or> c_fence cl \<noteq> expected \<or> c_fence cl \<noteq> ho_fence h) (ClaimError ''stale_fence'')) (\<lambda>_.
     let reason = concat [''handoff '', ho_id h, '' accepted''];
         s1 = update_claim cid (\<lambda>x. x\<lparr>c_status := Transferred, c_updated := now_at ev\<rparr>) s;
         s2 = add_history ev (by_actor c) (cl\<lparr>c_status := Transferred, c_updated := now_at ev\<rparr>) Transferred reason s1;
         s3 = add_event ev (ho_project h) (Some (c_node cl)) ''claim_transferred''
                (PDict [(''claim_id'', PStr cid), (''driver_id'', PStr (c_driver cl)), (''to_driver_id'', PStr driver),
                   (''purpose'', PStr (purpose_name (c_purpose cl))), (''fence'', PInt (c_fence cl)), (''handoff_id'', PStr (ho_id h)),
                   (''actor'', PStr (by_actor c))]) s2 in
     bindE (new_claim_for ev c (ho_project h) (c_node cl) (c_revision cl) (c_attempt cl) driver reason (c_workspace cl) (c_purpose cl)
              (c_subagent cl) s3) (\<lambda>(m, t). Inr (Some m, t))))"

definition accept_handoff :: "env \<Rightarrow> caller \<Rightarrow> string \<Rightarrow> string \<Rightarrow> int \<Rightarrow> db \<Rightarrow> ((handoff \<times> claim option) \<times> db) result" where
  "accept_handoff ev c pid hid expected s =
     bindE (raise_if (\<not> nonempty (by_driver c)) (ClaimError ''driver_identity_required'')) (\<lambda>_.
     let driver = the (by_driver c); current = now_at ev in
     bindE (handoff_row s pid hid) (\<lambda>h.
     bindE (eligible_receiver h driver) (\<lambda>_.
     bindE (open_handoff h current) (\<lambda>_.
     bindE (case ho_attempt h of
              Some aid \<Rightarrow> accept_attempt ev c driver h aid expected s
            | None \<Rightarrow> (case ho_claim h of Some cid \<Rightarrow> accept_claim ev c driver h cid expected s | None \<Rightarrow> Inl (IntegrityError ''handoff''))) (\<lambda>(cl, s1).
     bindE (notify ev (Some (ho_from h)) ''handoff_reply''
              (concat [driver, '' accepted handoff '', hid, '' ('', subject_kind h, '' on '', ho_node h, '')''])
              (concat [''Ownership moved to '', driver, ''; your fence is stale. Stop renewing and stop writing that subject.''])
              (handoff_refs h) (Some pid) (Some driver) (decide ev hid HAccepted driver ''accepted'' s1)) (\<lambda>(note, s2).
     bindE (handoff_row s2 pid hid) (\<lambda>h'. Inr ((view_handoff current h', cl), s2))))))))"

definition decline_handoff :: "env \<Rightarrow> caller \<Rightarrow> string \<Rightarrow> string \<Rightarrow> string \<Rightarrow> db \<Rightarrow> (handoff \<times> db) result" where
  "decline_handoff ev c pid hid reason s =
     bindE (raise_if (\<not> nonempty (by_driver c)) (ClaimError ''driver_identity_required'')) (\<lambda>_.
     let driver = the (by_driver c); current = now_at ev in
     bindE (check_text (PStr reason) 2000) (\<lambda>r.
     bindE (handoff_row s pid hid) (\<lambda>h.
     bindE (eligible_receiver h driver) (\<lambda>_.
     bindE (open_handoff h current) (\<lambda>_.
     let s1 = add_event ev pid (Some (ho_node h)) ''handoff_declined'' (PDict [(''handoff_id'', PStr hid), (''by_driver_id'', PStr driver),
                (''reason'', PStr r), (''actor'', PStr (by_actor c))]) (decide ev hid HDeclined driver r s) in
     bindE (notify ev (Some (ho_from h)) ''handoff_reply'' (concat [driver, '' declined handoff '', hid]) r (handoff_refs h) (Some pid) (Some driver) s1)
       (\<lambda>(note, s2). bindE (handoff_row s2 pid hid) (\<lambda>h'. Inr (view_handoff current h', s2))))))))"

definition withdraw_handoff :: "env \<Rightarrow> caller \<Rightarrow> string \<Rightarrow> string \<Rightarrow> string \<Rightarrow> db \<Rightarrow> ((handoff \<times> bool) \<times> db) result" where
  "withdraw_handoff ev c pid hid reason s =
     bindE (raise_if (\<not> nonempty (by_driver c)) (ClaimError ''driver_identity_required'')) (\<lambda>_.
     let driver = the (by_driver c); current = now_at ev in
     bindE (raise_if (length reason > 2000) (StateGraphError ''reason must be text of at most 2000 characters'')) (\<lambda>_.
     bindE (handoff_row s pid hid) (\<lambda>h.
     bindE (raise_if (ho_from h \<noteq> driver \<and> \<not> by_admin c) (ClaimError ''not_handoff_owner'')) (\<lambda>_.
     if ho_status h = HWithdrawn then Inr ((view_handoff current h, True), s)
     else
       bindE (open_handoff h current) (\<lambda>_.
       let s1 = add_event ev pid (Some (ho_node h)) ''handoff_withdrawn'' (PDict [(''handoff_id'', PStr hid), (''by_driver_id'', PStr driver),
                  (''reason'', PStr reason), (''actor'', PStr (by_actor c)), (''break_glass'', PBool (ho_from h \<noteq> driver))])
                  (decide ev hid HWithdrawn driver reason s) in
       bindE (handoff_row s1 pid hid) (\<lambda>h'. Inr ((view_handoff current h', False), s1)))))))"

definition list_handoffs :: "env \<Rightarrow> db \<Rightarrow> string \<Rightarrow> handoff_status list \<Rightarrow> nat \<Rightarrow> (handoff list \<times> bool) result" where
  "list_handoffs ev s pid statuses limit = bindE (get_project s pid) (\<lambda>_.
     let rows = take 1000 (sort_key (\<lambda>h. (- ho_created h, ho_id h)) (filter (\<lambda>h. ho_project h = pid) (handoffs s)));
         views = filter (\<lambda>h. statuses = [] \<or> ho_status h \<in> set statuses) (map (view_handoff (now_at ev)) rows)
     in Inr (take limit views, length views > limit))"

definition get_handoff :: "env \<Rightarrow> db \<Rightarrow> string \<Rightarrow> string \<Rightarrow> handoff result" where
  "get_handoff ev s pid hid = bindE (get_project s pid) (\<lambda>_. bindE (handoff_row s pid hid) (\<lambda>h. Inr (view_handoff (now_at ev) h)))"

end
