(* ===== verification/Issues.thy ===== *)
theory Issues
  imports Acceptance
begin

text \<open>
  The issue tracker of a State project (src/core/state_issues.py): reporting, linking to goals and
  resolving. Issues never change a goal; an open defect linked to an accepted or candidate goal is
  shown as contradicting its acceptance.
\<close>

definition ISSUE_KINDS :: "string list" where
  "ISSUE_KINDS = [''defect'', ''gap'', ''handoff'', ''question'']"

definition RESOLUTIONS :: "string list" where
  "RESOLUTIONS = [''absorbed'', ''promoted'', ''duplicate'', ''fixed'', ''observed'', ''rejected'']"

definition MAX_LINKS :: nat where "MAX_LINKS = 20"

section \<open>Reads\<close>

definition issue_node_keys :: "db \<Rightarrow> string \<Rightarrow> string list \<Rightarrow> string list result" where
  "issue_node_keys s pid ks =
     bindE (raise_if (length ks > MAX_LINKS) (StateGraphError ''node_keys must be a list of at most 20 node keys'')) (\<lambda>_.
     bindE (mapE (\<lambda>k. check_key (PStr k)) ks) (\<lambda>keys.
     let sorted_keys = sort (remdups keys) in
     bindE (mapE (\<lambda>k. require_some (node_at s pid k) (StateNotFound ''state node not found'')) sorted_keys) (\<lambda>_. Inr sorted_keys)))"

definition get_issue :: "db \<Rightarrow> string \<Rightarrow> string \<Rightarrow> issue result" where
  "get_issue s pid iid = bindE (check_key (PStr iid)) (\<lambda>k.
     require_some (find (\<lambda>i. i_project i = pid \<and> i_id i = k) (issues s)) (StateNotFound ''issue not found''))"

definition issue_links :: "db \<Rightarrow> string \<Rightarrow> string list" where
  "issue_links s iid = sort (map in_node (filter (\<lambda>l. in_issue l = iid) (issue_nodes s)))"

record issue_view =
  iv_issue :: issue
  iv_nodes :: "(string \<times> node_status option) list"
  iv_contradicts :: "string list"

definition view_issue :: "db \<Rightarrow> issue \<Rightarrow> issue_view" where
  "view_issue s i =
     (let links = issue_links s (i_id i); status = (\<lambda>k. map_option n_status (node_at s (i_project i) k)) in
      \<lparr>iv_issue = i, iv_nodes = map (\<lambda>k. (k, status k)) links,
       iv_contradicts = sort (filter (\<lambda>k. i_status i = ''open'' \<and> i_kind i = ''defect'' \<and>
          (status k = Some VERIFIED \<or> status k = Some CANDIDATE)) links)\<rparr>)"

definition issue_detail :: "db \<Rightarrow> string \<Rightarrow> string \<Rightarrow> issue_view result" where
  "issue_detail s pid iid = bindE (check_key (PStr pid)) (\<lambda>p. bindE (get_project s p) (\<lambda>_.
     bindE (get_issue s p iid) (\<lambda>i. Inr (view_issue s i))))"

definition open_for_node :: "db \<Rightarrow> string \<Rightarrow> string \<Rightarrow> issue_view list" where
  "open_for_node s pid k = map (view_issue s) (filter (\<lambda>i. i_status i = ''open'' \<and>
     list_ex (\<lambda>l. in_issue l = i_id i \<and> in_project l = pid \<and> in_node l = k) (issue_nodes s)) (issues s))"

section \<open>Reporting\<close>

definition add_links :: "string \<Rightarrow> string \<Rightarrow> string list \<Rightarrow> db \<Rightarrow> db" where
  "add_links iid pid ks s = s\<lparr>issue_nodes := issue_nodes s @ map (\<lambda>k. \<lparr>in_issue = iid, in_project = pid, in_node = k\<rparr>) ks\<rparr>"

definition report_issue :: "env \<Rightarrow> caller \<Rightarrow> string \<Rightarrow> string \<Rightarrow> string \<Rightarrow> string \<Rightarrow> string \<Rightarrow> string \<Rightarrow> string list \<Rightarrow> string option \<Rightarrow> db
    \<Rightarrow> ((issue_view \<times> bool) \<times> db) result" where
  "report_issue ev c pid request_key kind title body director ks source s =
     bindE (check_key (PStr pid)) (\<lambda>_.
     bindE (check_text (PStr request_key) 200) (\<lambda>rk.
     bindE (raise_if (kind \<notin> set ISSUE_KINDS) (StateGraphError ''kind must be one of defect, gap, handoff, question'')) (\<lambda>_.
     bindE (check_text (PStr title) 300) (\<lambda>ti.
     bindE (check_text (PStr body) 20000) (\<lambda>bo.
     bindE (check_text (PStr director) 320) (\<lambda>di.
     bindE (case source of None \<Rightarrow> Inr None | Some t \<Rightarrow> bindE (check_text (PStr t) 400) (\<lambda>x. Inr (Some x))) (\<lambda>so.
     bindE (get_project s pid) (\<lambda>_.
     bindE (issue_node_keys s pid ks) (\<lambda>links.
     let request_hash = digest ev (PDict [(''kind'', PStr kind), (''title'', PStr ti), (''body'', PStr bo), (''node_keys'', py_strs links),
           (''source'', py_str_opt so)]) in
     case find (\<lambda>i. i_project i = pid \<and> i_request_key i = rk) (issues s) of
       Some old \<Rightarrow> bindE (raise_if (i_request_hash old \<noteq> request_hash) (StateConflict ''request_key was already used for a different issue report'')) (\<lambda>_.
                   Inr ((view_issue s old, False), s))
     | None \<Rightarrow>
         let i = \<lparr>i_id = ''iss-'' @ take 16 (fresh_hex ev 0), i_project = pid, i_request_key = rk, i_request_hash = request_hash, i_kind = kind,
                  i_title = ti, i_body = bo, i_source = so, i_status = ''open'', i_version = 1, i_resolution = None, i_actor = by_actor c,
                  i_director = di, i_created = now_at ev, i_updated = now_at ev\<rparr> in
         bindE (raise_if (list_ex (\<lambda>x. i_id x = i_id i) (issues s)) (IntegrityError ''UNIQUE constraint failed: state_issues.issue_id'')) (\<lambda>_.
         let s1 = add_links (i_id i) pid links (s\<lparr>issues := issues s @ [i]\<rparr>);
             s2 = add_event ev pid None ''issue_reported'' (PDict [(''issue_id'', PStr (i_id i)), (''kind'', PStr kind), (''title'', PStr ti),
                    (''node_keys'', py_strs links)]) s1
         in Inr ((view_issue s2 i, True), s2)))))))))))"

section \<open>Linking and resolving\<close>

definition open_for_write :: "db \<Rightarrow> string \<Rightarrow> string \<Rightarrow> int \<Rightarrow> issue result" where
  "open_for_write s pid iid expected =
     bindE (get_project s pid) (\<lambda>_.
     bindE (get_issue s pid iid) (\<lambda>i.
     bindE (raise_if (i_version i \<noteq> expected) (StateConflict ''issue version conflict; read the issue and retry'')) (\<lambda>_.
     bindE (raise_if (i_status i \<noteq> ''open'') (StateConflict ''issue is already resolved; report a new issue instead of reopening'')) (\<lambda>_. Inr i))))"

definition update_issue :: "string \<Rightarrow> (issue \<Rightarrow> issue) \<Rightarrow> db \<Rightarrow> db" where
  "update_issue iid f s = s\<lparr>issues := update_where (\<lambda>i. i_id i = iid) f (issues s)\<rparr>"

definition link_issue :: "env \<Rightarrow> string \<Rightarrow> string \<Rightarrow> int \<Rightarrow> string list \<Rightarrow> string \<Rightarrow> bool \<Rightarrow> db
    \<Rightarrow> ((issue_view \<times> string list \<times> string list \<times> string list) \<times> db) result" where
  "link_issue ev pid iid expected ks reason replace s =
     bindE (check_key (PStr pid)) (\<lambda>_.
     bindE (check_text (PStr reason) 4000) (\<lambda>r.
     bindE (open_for_write s pid iid expected) (\<lambda>i.
     bindE (issue_node_keys s pid ks) (\<lambda>requested.
     let current = issue_links s (i_id i);
         links = (if replace then requested else sort (remdups (current @ requested))) in
     bindE (raise_if (length links > MAX_LINKS) (StateGraphError ''an issue can link at most 20 nodes'')) (\<lambda>_.
     let removed = sort (filter (\<lambda>k. k \<notin> set links) current);
         added = sort (filter (\<lambda>k. k \<notin> set current) links);
         s1 = s\<lparr>issue_nodes := filter (\<lambda>l. \<not> (in_issue l = i_id i \<and> in_node l \<in> set removed)) (issue_nodes s)\<rparr>;
         s2 = add_links (i_id i) pid added s1;
         s3 = update_issue (i_id i) (\<lambda>x. x\<lparr>i_version := i_version x + 1, i_updated := now_at ev\<rparr>) s2;
         s4 = add_event ev pid None ''issue_linked'' (PDict [(''issue_id'', PStr (i_id i)), (''node_keys'', py_strs links),
                (''requested_node_keys'', py_strs requested), (''added_node_keys'', py_strs added), (''removed_node_keys'', py_strs removed),
                (''replace_existing'', PBool replace), (''reason'', PStr r)]) s3 in
     bindE (get_issue s4 pid iid) (\<lambda>i'. Inr ((view_issue s4 i', links, added, removed), s4)))))))"

record resolution_in =
  ra_node :: "string option"
  ra_revision :: "int option"
  ra_duplicate :: "string option"
  ra_receipt :: "string option"
  ra_artifact :: "string option"

definition given_fields :: "resolution_in \<Rightarrow> string list" where
  "given_fields ra = (if ra_node ra \<noteq> None then [''node_key''] else []) @ (if ra_revision ra \<noteq> None then [''node_revision''] else []) @
     (if ra_duplicate ra \<noteq> None then [''duplicate_of''] else []) @ (if ra_receipt ra \<noteq> None then [''receipt_id''] else []) @
     (if ra_artifact ra \<noteq> None then [''artifact''] else [])"

definition resolution_shape :: "string \<Rightarrow> string list" where
  "resolution_shape res = (if res = ''absorbed'' then [''node_key'', ''node_revision''] else if res = ''promoted'' then [''node_key'']
     else if res = ''fixed'' then [''receipt_id'', ''artifact''] else if res = ''observed'' then [''artifact''] else [])"

definition resolve_args :: "string \<Rightarrow> resolution_in \<Rightarrow> unit result" where
  "resolve_args res ra =
     bindE (raise_if (ra_receipt ra \<noteq> None \<and> res \<noteq> ''fixed'') (StateGraphError ''receipt_id is only accepted for the fixed resolution'')) (\<lambda>_.
     bindE (raise_if (ra_artifact ra \<noteq> None \<and> res \<noteq> ''fixed'' \<and> res \<noteq> ''observed'')
              (StateGraphError ''artifact is only accepted for the fixed and observed resolutions'')) (\<lambda>_.
     if res = ''duplicate'' then
       raise_if (given_fields ra \<noteq> [''duplicate_of''] \<and> given_fields ra \<noteq> [''node_key''])
         (StateGraphError ''duplicate takes exactly one of duplicate_of (an issue) or node_key'')
     else raise_if (given_fields ra \<noteq> resolution_shape res) (StateGraphError ''resolution takes exactly its fields'')))"

definition ignore_link :: "string \<Rightarrow> string \<Rightarrow> string \<Rightarrow> db \<Rightarrow> db" where
  "ignore_link iid pid k s = (if list_ex (\<lambda>l. in_issue l = iid \<and> in_node l = k) (issue_nodes s) then s else add_links iid pid [k] s)"

text \<open>The goal an absorbed, promoted or duplicate resolution names: a revision made after the issue.\<close>

definition resolve_node :: "string \<Rightarrow> string \<Rightarrow> issue \<Rightarrow> string \<Rightarrow> int option \<Rightarrow> db \<Rightarrow> ((string \<times> pyval) list \<times> db) result" where
  "resolve_node pid res i k revision_no s =
     bindE (get_node s pid k) (\<lambda>n.
     let wanted = (if res = ''absorbed'' then the revision_no else 1) in
     bindE (if res = ''duplicate'' then Inr [] else
              bindE (require_some (find (\<lambda>r. r_project r = pid \<and> r_node r = n_key n \<and> r_revision r = wanted) (revisions s))
                       (StateNotFound ''node has no such revision'')) (\<lambda>r.
              bindE (raise_if (r_created r < i_created i) (StateConflict ''predates the issue, so it cannot be the change made for it'')) (\<lambda>_.
              Inr [(''node_revision'', PInt wanted)]))) (\<lambda>fields.
     Inr (fields @ [(''node_key'', PStr (n_key n))], ignore_link (i_id i) pid (n_key n) s)))"

definition resolve_fixed :: "string \<Rightarrow> issue \<Rightarrow> string \<Rightarrow> string \<Rightarrow> db \<Rightarrow> ((string \<times> pyval) list \<times> db) result" where
  "resolve_fixed pid i rid artifact s =
     bindE (check_key (PStr rid)) (\<lambda>_.
     bindE (require_some (receipt_at s rid) (StateNotFound ''acceptance receipt not found'')) (\<lambda>r.
     bindE (raise_if (rc_project r \<noteq> pid) (StateConflict ''that acceptance receipt was issued for a different project'')) (\<lambda>_.
     bindE (raise_if (rc_artifact r = []) (StateConflict ''that acceptance receipt has no artifact; its evidence is unresolved'')) (\<lambda>_.
     bindE (raise_if (artifact \<noteq> rc_artifact r) (StateConflict ''artifact must be the receipt's exact artifact'')) (\<lambda>_.
     bindE (raise_if (rc_evidence r = []) (StateConflict ''that acceptance receipt has no resolved evidence'')) (\<lambda>_.
     Inr ([(''receipt_id'', PStr rid), (''artifact_ref'', PStr (rc_artifact r)), (''node_key'', PStr (rc_node r)),
           (''node_revision'', PInt (rc_revision r))], ignore_link (i_id i) pid (rc_node r) s)))))))"

definition resolve_issue :: "env \<Rightarrow> caller \<Rightarrow> string \<Rightarrow> string \<Rightarrow> int \<Rightarrow> string \<Rightarrow> string \<Rightarrow> string \<Rightarrow> resolution_in \<Rightarrow> db \<Rightarrow> (issue_view \<times> db) result" where
  "resolve_issue ev c pid iid expected res reason director ra s =
     bindE (check_key (PStr pid)) (\<lambda>_.
     bindE (raise_if (res \<notin> set RESOLUTIONS) (StateGraphError ''resolution must be one of the resolutions'')) (\<lambda>_.
     bindE (check_text (PStr reason) 4000) (\<lambda>r.
     bindE (check_text (PStr director) 320) (\<lambda>di.
     bindE (resolve_args res ra) (\<lambda>_.
     bindE (open_for_write s pid iid expected) (\<lambda>i.
     bindE (case ra_node ra of None \<Rightarrow> Inr ([], s) | Some k \<Rightarrow> resolve_node pid res i k (ra_revision ra) s) (\<lambda>(f1, s1).
     bindE (if res = ''fixed'' then resolve_fixed pid i (the (ra_receipt ra)) (the (ra_artifact ra)) s1 else Inr ([], s1)) (\<lambda>(f2, s2).
     bindE (if res = ''observed'' then bindE (check_text (PStr (the (ra_artifact ra))) 200) (\<lambda>a. Inr [(''artifact_ref'', PStr a)]) else Inr []) (\<lambda>f3.
     bindE (case ra_duplicate ra of None \<Rightarrow> Inr []
            | Some d \<Rightarrow> bindE (raise_if (d = i_id i) (StateGraphError ''an issue cannot duplicate itself'')) (\<lambda>_.
                        bindE (get_issue s2 pid d) (\<lambda>dup. Inr [(''duplicate_of'', PStr (i_id dup))]))) (\<lambda>f4.
     let fields = f1 @ f2 @ f3 @ f4;
         record_py = PDict ([(''resolution'', PStr res), (''reason'', PStr r), (''actor'', PStr (by_actor c)), (''director_identity'', PStr di)] @ fields);
         s3 = update_issue (i_id i) (\<lambda>x. x\<lparr>i_status := res, i_version := i_version x + 1, i_resolution := Some record_py, i_updated := now_at ev\<rparr>) s2;
         s4 = add_event ev pid (case map_of fields ''node_key'' of Some (PStr k) \<Rightarrow> Some k | _ \<Rightarrow> None) ''issue_resolved''
                (PDict ([(''issue_id'', PStr (i_id i)), (''resolution'', PStr res), (''reason'', PStr r), (''director_identity'', PStr di)] @ fields)) s3 in
     bindE (get_issue s4 pid iid) (\<lambda>i'. Inr (view_issue s4 i', s4))))))))))))"

end
