(* ===== verification/Views.thy ===== *)
theory Views
  imports Attempts
begin

text \<open>
  The read side of the graph store (src/core/state_graph.py): the graph view with the readiness of
  every node, the frontier of goals a driver may pick, and the counts of their next actions.
\<close>

datatype readiness = Closed | InProgressLeaseExpired | InProgress | Held | Blocked | Ready

datatype next_action = CandidateReview | NewAttempt

definition READY_ACTIONS :: "next_action list" where
  "READY_ACTIONS = [CandidateReview, NewAttempt]"

definition ready_next_action :: "node_status \<Rightarrow> readiness \<Rightarrow> next_action option" where
  "ready_next_action st r =
     (if r \<noteq> Ready then None
      else if st = CANDIDATE then Some CandidateReview
      else if st \<in> {OPEN, STALE} then Some NewAttempt
      else None)"

record node_view =
  nv_node :: node
  nv_deps :: "string list"
  nv_blocked_by :: "string list"
  nv_hold :: "block option"
  nv_node_hold :: hold_view
  nv_readiness :: readiness
  nv_action :: "next_action option"

definition ready_action_counts :: "node_view list \<Rightarrow> (next_action \<times> nat) list" where
  "ready_action_counts vs = map (\<lambda>a. (a, length (filter (\<lambda>v. nv_action v = Some a) vs))) READY_ACTIONS"

text \<open>The nodes with an attempt in progress, and those whose attempt's lease ran out.\<close>

definition active_keys :: "db \<Rightarrow> string \<Rightarrow> string list" where
  "active_keys s pid = map a_node (filter (\<lambda>a. a_project a = pid \<and> a_status a \<in> set ACTIVE) (attempts s))"

definition lapsed_keys :: "db \<Rightarrow> string \<Rightarrow> int \<Rightarrow> string list" where
  "lapsed_keys s pid current = map a_node (filter (\<lambda>a. a_project a = pid \<and> a_status a \<in> set ACTIVE \<and>
     (case a_lease a of None \<Rightarrow> False | Some e \<Rightarrow> e \<le> current)) (attempts s))"

definition unverified_dep :: "db \<Rightarrow> string \<Rightarrow> string \<Rightarrow> bool" where
  "unverified_dep s pid d = (case node_at s pid d of None \<Rightarrow> True | Some n \<Rightarrow> n_status n \<noteq> VERIFIED \<or> n_receipt n = None)"

definition view_node :: "env \<Rightarrow> db \<Rightarrow> string \<Rightarrow> node \<Rightarrow> node_view" where
  "view_node ev s pid n =
     (let k = n_key n; ds = node_deps s pid k;
          blocked = filter (unverified_dep s pid) ds;
          hold = dispatch_block s pid k;
          r = (if n_status n \<in> {VERIFIED, SUPERSEDED} then Closed
               else if k \<in> set (lapsed_keys s pid (now_at ev)) then InProgressLeaseExpired
               else if k \<in> set (active_keys s pid) then InProgress
               else if hold \<noteq> None then Held
               else if blocked \<noteq> [] then Blocked
               else Ready)
      in \<lparr>nv_node = n, nv_deps = ds, nv_blocked_by = blocked, nv_hold = hold, nv_node_hold = node_hold s pid k,
          nv_readiness = r, nv_action = ready_next_action (n_status n) r\<rparr>)"

definition graph_view :: "env \<Rightarrow> db \<Rightarrow> string \<Rightarrow> (project \<times> node_view list) result" where
  "graph_view ev s pid = bindE (get_project s pid) (\<lambda>p.
     Inr (p, sort_key (\<lambda>v. (- n_priority (nv_node v), n_key (nv_node v))) (map (view_node ev s pid) (project_nodes s pid))))"

definition get_node_view :: "env \<Rightarrow> db \<Rightarrow> string \<Rightarrow> string \<Rightarrow> node_view result" where
  "get_node_view ev s pid k = bindE (check_key (PStr k)) (\<lambda>k'.
     bindE (graph_view ev s pid) (\<lambda>(_, vs). require_some (find (\<lambda>v. n_key (nv_node v) = k') vs) (StateNotFound ''state node not found'')))"

record summary =
  fs_key :: string
  fs_revision :: int
  fs_status :: node_status
  fs_priority :: int
  fs_contract_hash :: string
  fs_deps :: "string list"
  fs_action :: "next_action option"
  fs_goal :: string
  fs_truncated :: bool

definition summarize :: "node_view \<Rightarrow> summary" where
  "summarize v = (let n = nv_node v in
     \<lparr>fs_key = n_key n, fs_revision = n_revision n, fs_status = n_status n, fs_priority = n_priority n,
      fs_contract_hash = n_contract_hash n, fs_deps = nv_deps v, fs_action = nv_action v,
      fs_goal = take 1200 (n_goal n), fs_truncated = (length (n_goal n) > 1200)\<rparr>)"

record frontier_view =
  fr_nodes :: "summary list"
  fr_total :: nat
  fr_truncated :: bool
  fr_counts :: "(next_action \<times> nat) list"

definition frontier :: "env \<Rightarrow> db \<Rightarrow> string \<Rightarrow> int \<Rightarrow> frontier_view result" where
  "frontier ev s pid limit = bindE (check_integer (PInt limit) 1 200) (\<lambda>l.
     bindE (graph_view ev s pid) (\<lambda>(_, vs).
     let ready = filter (\<lambda>v. nv_readiness v = Ready) vs in
     Inr \<lparr>fr_nodes = map summarize (take (nat l) ready), fr_total = length ready, fr_truncated = (length ready > nat l),
          fr_counts = ready_action_counts ready\<rparr>))"

end
