(* ===== verification/Evolution.thy ===== *)
theory Evolution
  imports Handoffs Issues Views
begin

text \<open>
  How the database may change. Every table of the store either only grows (a log) or grows while its
  rows evolve under a preorder that keeps their identity. This theory has the preorders for nodes,
  attempts and claims, the relation \<open>evolves\<close> between two databases, and the invariant \<open>sys_inv\<close>
  with the lemmas that reduce its preservation to what an operation does to each table.
\<close>

section \<open>Tables whose rows evolve\<close>

definition grows :: "('r \<Rightarrow> 'r \<Rightarrow> bool) \<Rightarrow> 'r list \<Rightarrow> 'r list \<Rightarrow> bool" where
  "grows R xs ys \<longleftrightarrow> length xs \<le> length ys \<and> list_all2 R xs (take (length xs) ys)"

lemma grows_iff: "grows R xs ys \<longleftrightarrow> (\<exists>us vs. ys = us @ vs \<and> list_all2 R xs us)"
proof
  assume "grows R xs ys"
  then show "\<exists>us vs. ys = us @ vs \<and> list_all2 R xs us"
    unfolding grows_def by (intro exI[of _ "take (length xs) ys"] exI[of _ "drop (length xs) ys"]) simp
next
  assume "\<exists>us vs. ys = us @ vs \<and> list_all2 R xs us"
  then obtain us vs where "ys = us @ vs" "list_all2 R xs us" by blast
  then show "grows R xs ys" using list_all2_lengthD[of R xs us] by (simp add: grows_def)
qed

locale row_evolution =
  fixes R :: "'r \<Rightarrow> 'r \<Rightarrow> bool"
  assumes row_refl: "R r r"
    and row_trans: "R r s \<Longrightarrow> R s t \<Longrightarrow> R r t"
begin

lemma rows_refl: "list_all2 R xs xs"
  by (rule list.rel_refl) (rule row_refl)

lemma table_refl: "grows R xs xs"
  unfolding grows_def using rows_refl by simp

lemma table_trans: "grows R xs ys \<Longrightarrow> grows R ys zs \<Longrightarrow> grows R xs zs"
proof -
  assume "grows R xs ys" "grows R ys zs"
  then obtain us vs us' vs' where u: "ys = us @ vs" "list_all2 R xs us" "zs = us' @ vs'" "list_all2 R ys us'"
    unfolding grows_iff by blast
  then obtain p q where "us' = p @ q" "list_all2 R us p" by (auto simp: list_all2_append1)
  moreover from this have "list_all2 R xs p"
    using u(2) list_all2_trans[of R R R xs us p] row_trans by blast
  ultimately show ?thesis using u(3) unfolding grows_iff by auto
qed

lemma table_append: "grows R xs (xs @ ys)"
  unfolding grows_iff using rows_refl by blast

lemma table_update: "(\<And>r. r \<in> set xs \<Longrightarrow> P r \<Longrightarrow> R r (f r)) \<Longrightarrow> list_all2 R xs (update_where P f xs)"
  by (induction xs) (auto simp: update_where_Cons row_refl)

lemma table_update_grows: "(\<And>r. r \<in> set xs \<Longrightarrow> P r \<Longrightarrow> R r (f r)) \<Longrightarrow> grows R xs (update_where P f xs)"
  using table_update[of xs P f] unfolding grows_iff by (intro exI[of _ "update_where P f xs"] exI[of _ "[]"]) simp

lemma table_rows: "list_all2 R xs ys \<Longrightarrow> grows R xs ys"
  unfolding grows_iff by (intro exI[of _ ys] exI[of _ "[]"]) simp

lemma table_row: "grows R xs ys \<Longrightarrow> r \<in> set xs \<Longrightarrow> \<exists>r' \<in> set ys. R r r'"
  unfolding grows_iff using list_all2_mem1 by fastforce

end

section \<open>Machines\<close>

text \<open>
  A machine runs from an initial state; every transition keeps an invariant and, under it, a preorder
  of growth. The State graph and the services around it are interpretations.
\<close>

locale machine =
  fixes initial :: 's
    and trans :: "'s \<Rightarrow> 's \<Rightarrow> bool"
    and inv :: "'s \<Rightarrow> bool"
    and grown :: "'s \<Rightarrow> 's \<Rightarrow> bool"
  assumes inv_initial: "inv initial"
    and inv_trans: "inv s \<Longrightarrow> trans s t \<Longrightarrow> inv t \<and> grown s t"
    and grown_refl: "grown s s"
    and grown_trans: "grown s t \<Longrightarrow> grown t u \<Longrightarrow> grown s u"
begin

lemma run_inv: "trans\<^sup>*\<^sup>* s t \<Longrightarrow> inv s \<Longrightarrow> inv t \<and> grown s t"
proof (induction rule: rtranclp_induct)
  case (step t u)
  then show ?case using inv_trans grown_trans by blast
qed (simp add: grown_refl)

lemma initial_run_inv: "trans\<^sup>*\<^sup>* initial t \<Longrightarrow> inv t"
  using run_inv inv_initial by blast

end

section \<open>Rows of the State graph\<close>

subsection \<open>Nodes\<close>

text \<open>
  A node keeps its identity; its revision never decreases; within one revision its goal and its
  acceptance contract do not change; a superseded node stays superseded.
\<close>

definition keeps_node :: "node \<Rightarrow> node \<Rightarrow> bool" where
  "keeps_node n n' \<longleftrightarrow> n_project n' = n_project n \<and> n_key n' = n_key n \<and> n_created n' = n_created n \<and>
     n_revision n \<le> n_revision n' \<and>
     (n_revision n' = n_revision n \<longrightarrow> n_goal n' = n_goal n \<and> n_contract n' = n_contract n \<and> n_contract_hash n' = n_contract_hash n) \<and>
     (n_status n = SUPERSEDED \<longrightarrow> n_status n' = SUPERSEDED)"

interpretation node_rows: row_evolution keeps_node
  by unfold_locales (auto simp: keeps_node_def)

subsection \<open>Attempts\<close>

text \<open>
  An attempt keeps what it was reserved for and with: target, revision, contract, dependency pins,
  request and executor. A bound run and a recorded artifact are never replaced, the owner fence and
  the observation version never decrease and a new owner has a higher fence, an attempt that is over is never active again (and an
  external one gets its artifact only when it is over), an abandoned one stays abandoned.
\<close>

definition attempt_ident :: "attempt \<Rightarrow> attempt" where
  "attempt_ident a = a\<lparr>a_context := PNone, a_run := None, a_graph_version := None, a_graph_digest := None, a_status := Reserved,
     a_artifact := None, a_error := None, a_updated := 0, a_version := 0, a_artifact_kind := None, a_terminal := None, a_abandon := None,
     a_owner := None, a_fence := 0, a_lease := None, a_heartbeat := None\<rparr>"

definition keeps_attempt :: "attempt \<Rightarrow> attempt \<Rightarrow> bool" where
  "keeps_attempt a a' \<longleftrightarrow> attempt_ident a' = attempt_ident a \<and>
     (bound a \<longrightarrow> a_run a' = a_run a) \<and>
     (nonempty (a_artifact a) \<longrightarrow> a_artifact a' = a_artifact a) \<and>
     a_fence a \<le> a_fence a' \<and> (a_owner a' = a_owner a \<or> a_fence a < a_fence a') \<and> a_version a \<le> a_version a' \<and>
     (a_status a' \<in> set ACTIVE \<longrightarrow> a_status a \<in> set ACTIVE \<and> (a_kind a = External \<longrightarrow> a_artifact a' = a_artifact a)) \<and>
     (a_status a = Abandoned \<longrightarrow> a_status a' = Abandoned)"

lemma attempt_identD:
  assumes "attempt_ident a' = attempt_ident a"
  shows "a_id a' = a_id a" "a_project a' = a_project a" "a_node a' = a_node a" "a_revision a' = a_revision a"
    "a_contract_hash a' = a_contract_hash a" "a_pins a' = a_pins a" "a_request_key a' = a_request_key a"
    "a_request_hash a' = a_request_hash a" "a_workflow a' = a_workflow a" "a_execution_project a' = a_execution_project a"
    "a_created a' = a_created a" "a_kind a' = a_kind a" "a_harness a' = a_harness a" "a_external_id a' = a_external_id a"
    "a_reporter a' = a_reporter a"
  using arg_cong[OF assms, of a_id] arg_cong[OF assms, of a_project] arg_cong[OF assms, of a_node] arg_cong[OF assms, of a_revision]
    arg_cong[OF assms, of a_contract_hash] arg_cong[OF assms, of a_pins] arg_cong[OF assms, of a_request_key]
    arg_cong[OF assms, of a_request_hash] arg_cong[OF assms, of a_workflow] arg_cong[OF assms, of a_execution_project]
    arg_cong[OF assms, of a_created] arg_cong[OF assms, of a_kind] arg_cong[OF assms, of a_harness]
    arg_cong[OF assms, of a_external_id] arg_cong[OF assms, of a_reporter]
  by (simp_all add: attempt_ident_def)

lemma keeps_attemptD:
  assumes "keeps_attempt a a'"
  shows "a_id a' = a_id a" "a_project a' = a_project a" "a_node a' = a_node a" "a_revision a' = a_revision a"
    "a_contract_hash a' = a_contract_hash a" "a_pins a' = a_pins a" "a_kind a' = a_kind a"
  using assms attempt_identD[of a' a] unfolding keeps_attempt_def by blast+

lemma keeps_attempt_refl: "keeps_attempt a a"
  by (simp add: keeps_attempt_def)

lemma keeps_attempt_trans:
  assumes "keeps_attempt a b" "keeps_attempt b c"
  shows "keeps_attempt a c"
proof -
  have ab: "attempt_ident b = attempt_ident a" "bound a \<Longrightarrow> a_run b = a_run a" "nonempty (a_artifact a) \<Longrightarrow> a_artifact b = a_artifact a"
      "a_fence a \<le> a_fence b" "a_owner b = a_owner a \<or> a_fence a < a_fence b" "a_version a \<le> a_version b"
      "a_status b \<in> set ACTIVE \<Longrightarrow> a_status a \<in> set ACTIVE \<and> (a_kind a = External \<longrightarrow> a_artifact b = a_artifact a)"
      "a_status a = Abandoned \<Longrightarrow> a_status b = Abandoned"
    and bc: "attempt_ident c = attempt_ident b" "bound b \<Longrightarrow> a_run c = a_run b" "nonempty (a_artifact b) \<Longrightarrow> a_artifact c = a_artifact b"
      "a_fence b \<le> a_fence c" "a_owner c = a_owner b \<or> a_fence b < a_fence c" "a_version b \<le> a_version c"
      "a_status c \<in> set ACTIVE \<Longrightarrow> a_status b \<in> set ACTIVE \<and> (a_kind b = External \<longrightarrow> a_artifact c = a_artifact b)"
      "a_status b = Abandoned \<Longrightarrow> a_status c = Abandoned"
    using assms unfolding keeps_attempt_def by blast+
  have k: "a_kind b = a_kind a" using keeps_attemptD(7)[OF assms(1)] .
  have "bound a \<longrightarrow> a_run c = a_run a" using ab(2) bc(2) unfolding bound_def by metis
  moreover have "nonempty (a_artifact a) \<longrightarrow> a_artifact c = a_artifact a" using ab(3) bc(3) by metis
  moreover have "a_owner c = a_owner a \<or> a_fence a < a_fence c" using ab(4,5) bc(4,5) by (metis order_le_less_trans order_less_le_trans)
  moreover have "a_status c \<in> set ACTIVE \<longrightarrow> a_status a \<in> set ACTIVE \<and> (a_kind a = External \<longrightarrow> a_artifact c = a_artifact a)"
    using ab(7) bc(7) k by metis
  ultimately show ?thesis
    unfolding keeps_attempt_def using ab(1,8) bc(1,8) order_trans[OF ab(4) bc(4)] order_trans[OF ab(6) bc(6)] by metis
qed

interpretation attempt_rows: row_evolution keeps_attempt
  by unfold_locales (rule keeps_attempt_refl, rule keeps_attempt_trans)

subsection \<open>Claims\<close>

definition moves_claim :: "claim \<Rightarrow> claim \<Rightarrow> bool" where
  "moves_claim c c' \<longleftrightarrow> c_id c' = c_id c \<and> c_project c' = c_project c \<and> c_node c' = c_node c \<and> c_driver c' = c_driver c \<and>
     c_purpose c' = c_purpose c \<and> c_lease_seconds c' = c_lease_seconds c \<and> c_request_key c' = c_request_key c \<and>
     c_fence c \<le> c_fence c' \<and> (c_status c' = c_status c \<or> c_status c = Live)"

interpretation claim_rows: row_evolution moves_claim
  by unfold_locales (auto simp: moves_claim_def)

lemma keeps_moves: "keeps_claim c c' \<Longrightarrow> moves_claim c c'"
  by (simp add: keeps_claim_def moves_claim_def)

lemma list_keeps_moves: "list_all2 keeps_claim cs cs' \<Longrightarrow> list_all2 moves_claim cs cs'"
  using list_all2_mono[of keeps_claim cs cs' moves_claim] keeps_moves by blast

section \<open>The evolution of the database\<close>

definition logs_extend :: "db \<Rightarrow> db \<Rightarrow> bool" where
  "logs_extend s s' \<longleftrightarrow> prefix (events s) (events s') \<and> prefix (revisions s) (revisions s') \<and> prefix (evidences s) (evidences s') \<and>
     prefix (acceptances s) (acceptances s') \<and> prefix (observations s) (observations s') \<and> prefix (claim_log s) (claim_log s') \<and>
     prefix (blobs s) (blobs s')"

definition evolves :: "db \<Rightarrow> db \<Rightarrow> bool" where
  "evolves s s' \<longleftrightarrow> logs_extend s s' \<and> grows keeps_node (nodes s) (nodes s') \<and>
     grows keeps_attempt (attempts s) (attempts s') \<and> grows moves_claim (claims s) (claims s')"

lemma logs_extend_refl [simp]: "logs_extend s s"
  by (simp add: logs_extend_def)

lemma logs_extend_trans: "logs_extend s t \<Longrightarrow> logs_extend t u \<Longrightarrow> logs_extend s u"
  unfolding logs_extend_def by (meson prefix_order.trans)

lemma evolves_refl [simp]: "evolves s s"
  by (simp add: evolves_def node_rows.table_refl attempt_rows.table_refl claim_rows.table_refl)

lemma evolves_trans: "evolves s t \<Longrightarrow> evolves t u \<Longrightarrow> evolves s u"
  unfolding evolves_def
  using logs_extend_trans node_rows.table_trans attempt_rows.table_trans claim_rows.table_trans by blast

section \<open>Acceptance is grounded\<close>

text \<open>
  A verified goal rests on a receipt of the store: issued for its current revision and contract, for
  its newest attempt, which is a candidate with the accepted artifact, whose dependency pins are the
  current dependency snapshot with every dependency verified, and for which the latest evidence of
  every criterion passes and is the evidence the receipt names.
\<close>

definition attested :: "db \<Rightarrow> node \<Rightarrow> acceptance \<Rightarrow> bool" where
  "attested s n r \<longleftrightarrow> (\<forall>c \<in> set (n_contract n). \<exists>e. latest_evidence s (rc_attempt r) (ck_id c) = Some e \<and> ev_verdict e = Pass) \<and>
     rc_evidence r = map (\<lambda>c. ev_id (the (latest_evidence s (rc_attempt r) (ck_id c)))) (n_contract n)"

definition accepts :: "node \<Rightarrow> acceptance \<Rightarrow> attempt \<Rightarrow> bool" where
  "accepts n r a \<longleftrightarrow> n_receipt n = Some (rc_id r) \<and> rc_project r = n_project n \<and> rc_node r = n_key n \<and>
     rc_revision r = n_revision n \<and> rc_contract_hash r = n_contract_hash n \<and> rc_attempt r = a_id a \<and>
     a_project a = n_project n \<and> a_node a = n_key n \<and> a_revision a = n_revision n \<and> a_contract_hash a = n_contract_hash n \<and>
     a_status a = Candidate \<and> a_artifact a = Some (rc_artifact r) \<and> rc_artifact r \<noteq> [] \<and> a_pins a = rc_pins r"

definition grounded :: "db \<Rightarrow> node \<Rightarrow> bool" where
  "grounded s n \<longleftrightarrow> (\<exists>r \<in> set (acceptances s). \<exists>a. latest_attempt s (n_project n) (n_key n) = Some a \<and> accepts n r a \<and>
     rc_pins r = dependency_snapshot s (n_project n) (n_key n) \<and> list_all pin_verified (rc_pins r) \<and> attested s n r)"

definition verified_inv :: "db \<Rightarrow> bool" where
  "verified_inv s \<longleftrightarrow> (\<forall>n \<in> set (nodes s). n_status n = VERIFIED \<longrightarrow> grounded s n)"

text \<open>Attempts: unique, only the newest of a node may be active, an active external one has no artifact.\<close>

definition attempts_ok :: "db \<Rightarrow> bool" where
  "attempts_ok s \<longleftrightarrow> unique_on a_id (attempts s) \<and>
     (\<forall>a \<in> set (attempts s). a_status a \<in> set ACTIVE \<longrightarrow>
        latest_attempt s (a_project a) (a_node a) = Some a \<and> (a_kind a = External \<longrightarrow> a_artifact a = None))"

text \<open>Receipts and evidence: unique, and every receipt's evidence is on record for its attempt.\<close>

definition receipts_ok :: "db \<Rightarrow> bool" where
  "receipts_ok s \<longleftrightarrow> unique_on rc_id (acceptances s) \<and> unique_on ev_id (evidences s) \<and>
     (\<forall>r \<in> set (acceptances s). \<forall>i \<in> set (rc_evidence r). \<exists>e \<in> set (evidences s). ev_attempt e = rc_attempt r \<and> ev_id e = i)"

definition sys_inv :: "db \<Rightarrow> bool" where
  "sys_inv s \<longleftrightarrow> graph_inv s \<and> claims_ok (claims s) \<and> attempts_ok s \<and> receipts_ok s \<and> verified_inv s"

text \<open>A change is safe when it keeps the invariant and is an evolution, given that the invariant held.\<close>

definition safe :: "db \<Rightarrow> db \<Rightarrow> bool" where
  "safe s s' \<longleftrightarrow> (sys_inv s \<longrightarrow> sys_inv s' \<and> evolves s s')"

lemma safeI: "(sys_inv s \<Longrightarrow> sys_inv s' \<and> evolves s s') \<Longrightarrow> safe s s'"
  by (simp add: safe_def)

lemma safe_refl [simp]: "safe s s"
  by (simp add: safe_def)

lemma safe_trans: "safe s t \<Longrightarrow> safe t u \<Longrightarrow> safe s u"
  using evolves_trans by (auto simp: safe_def)

lemma safe_fold: "(\<And>x t. safe t (f x t)) \<Longrightarrow> safe s (fold f xs s)"
  by (induction xs arbitrary: s) (auto intro: safe_trans)

lemma sys_inv_empty: "sys_inv empty_db"
  using graph_inv_empty
  by (simp add: sys_inv_def attempts_ok_def receipts_ok_def verified_inv_def empty_db_def)

section \<open>Reading the tables of a safe state\<close>

lemma attempt_at_iff: "attempts_ok s \<Longrightarrow> attempt_at s aid = Some a \<longleftrightarrow> a \<in> set (attempts s) \<and> a_id a = aid"
  unfolding attempt_at_def attempts_ok_def by (rule find_unique_iff) simp

lemma get_attempt_iff: "get_attempt s aid = Inr a \<longleftrightarrow> KEY aid \<and> attempt_at s aid = Some a"
  by (auto simp: get_attempt_def)

lemma get_attemptD: "get_attempt s aid = Inr a \<Longrightarrow> a \<in> set (attempts s) \<and> a_id a = aid"
  by (auto simp: get_attempt_iff attempt_at_def dest: find_SomeD)

lemma latest_attempt_mem: "latest_attempt s pid k = Some a \<Longrightarrow> a \<in> set (attempts s) \<and> a_project a = pid \<and> a_node a = k"
proof -
  assume l: "latest_attempt s pid k = Some a"
  then have "node_attempts s pid k \<noteq> []" "a = last (node_attempts s pid k)"
    by (auto simp: latest_attempt_def split: list.splits)
  then have "a \<in> set (node_attempts s pid k)" using last_in_set by blast
  then show ?thesis by (auto simp: node_attempts_def)
qed

lemma latest_attempt_iff: "latest_attempt s pid k = (if node_attempts s pid k = [] then None else Some (last (node_attempts s pid k)))"
  by (auto simp: latest_attempt_def split: list.splits)

lemma latest_attempt_append:
  "attempts s' = attempts s @ [a] \<Longrightarrow>
   latest_attempt s' pid k = (if a_project a = pid \<and> a_node a = k then Some a else latest_attempt s pid k)"
  by (simp add: latest_attempt_iff node_attempts_def)

lemma list_all2_last: "list_all2 R xs ys \<Longrightarrow> xs \<noteq> [] \<Longrightarrow> ys \<noteq> [] \<and> R (last xs) (last ys)"
  by (induction rule: list_all2_induct) auto

lemma latest_attempt_rows:
  assumes "list_all2 keeps_attempt (attempts s) (attempts s')" "latest_attempt s pid k = Some a"
  obtains a' where "latest_attempt s' pid k = Some a'" "keeps_attempt a a'"
proof -
  have "list_all2 keeps_attempt (node_attempts s pid k) (node_attempts s' pid k)"
    using assms(1) unfolding node_attempts_def
    by (induction rule: list_all2_induct) (auto simp: keeps_attempt_def dest: attempt_identD(2,3))
  moreover have "node_attempts s pid k \<noteq> []" "a = last (node_attempts s pid k)"
    using assms(2) by (auto simp: latest_attempt_iff split: if_splits)
  ultimately have "node_attempts s' pid k \<noteq> []" "keeps_attempt a (last (node_attempts s' pid k))"
    using list_all2_last by blast+
  then show thesis by (intro that) (simp_all add: latest_attempt_iff)
qed

end
