(* ===== verification/Safety.thy ===== *)
theory Safety
  imports Evolution
begin

text \<open>
  The safe changes from which every operation is composed: writes to logs and record-only tables,
  evolution of attempts and claims, new attempts, evidence and receipts, and the node updates of
  invalidation, candidacy and acceptance.
\<close>

section \<open>Quiet changes\<close>

definition quiet :: "db \<Rightarrow> db \<Rightarrow> bool" where
  "quiet s s' \<longleftrightarrow> projects s' = projects s \<and> nodes s' = nodes s \<and> deps s' = deps s \<and> attempts s' = attempts s \<and>
     evidences s' = evidences s \<and> acceptances s' = acceptances s \<and> claims s' = claims s \<and> logs_extend s s'"

lemma latest_evidence_cong: "evidences s' = evidences s \<Longrightarrow> latest_evidence s' = latest_evidence s"
  by (intro ext) (simp add: latest_evidence_def)

lemma latest_attempt_cong: "attempts s' = attempts s \<Longrightarrow> latest_attempt s' = latest_attempt s"
  by (intro ext) (simp add: latest_attempt_iff node_attempts_def)

lemma dependency_snapshot_cong: "nodes s' = nodes s \<Longrightarrow> deps s' = deps s \<Longrightarrow> dependency_snapshot s' = dependency_snapshot s"
  by (intro ext) (simp add: dependency_snapshot_def node_deps_def)

lemma attempts_ok_cong: "attempts s' = attempts s \<Longrightarrow> attempts_ok s' = attempts_ok s"
  using latest_attempt_cong[of s' s] by (simp add: attempts_ok_def)

lemma receipts_ok_cong: "evidences s' = evidences s \<Longrightarrow> acceptances s' = acceptances s \<Longrightarrow> receipts_ok s' = receipts_ok s"
  by (simp add: receipts_ok_def)

lemma grounded_cong:
  assumes "nodes s' = nodes s" "deps s' = deps s" "attempts s' = attempts s" "evidences s' = evidences s" "acceptances s' = acceptances s"
  shows "grounded s' n = grounded s n"
  using latest_evidence_cong[OF assms(4)] latest_attempt_cong[OF assms(3)] dependency_snapshot_cong[OF assms(1,2)] assms(5)
  by (simp add: grounded_def attested_def)

lemma verified_inv_cong:
  assumes "nodes s' = nodes s" "deps s' = deps s" "attempts s' = attempts s" "evidences s' = evidences s" "acceptances s' = acceptances s"
  shows "verified_inv s' = verified_inv s"
  using grounded_cong[OF assms] assms(1) by (simp add: verified_inv_def)

lemma quiet_safe: "quiet s s' \<Longrightarrow> safe s s'"
proof (rule safeI)
  assume q: "quiet s s'" and inv: "sys_inv s"
  then have "sys_inv s'"
    using graph_inv_cong[of s' s] attempts_ok_cong[of s' s] receipts_ok_cong[of s' s] verified_inv_cong[of s' s]
    by (simp add: quiet_def sys_inv_def)
  moreover have "evolves s s'"
    using q by (simp add: quiet_def evolves_def node_rows.table_refl attempt_rows.table_refl claim_rows.table_refl)
  ultimately show "sys_inv s' \<and> evolves s s'" by simp
qed

lemma quiet_refl [simp]: "quiet s s"
  by (simp add: quiet_def)

lemma quiet_trans: "quiet s t \<Longrightarrow> quiet t u \<Longrightarrow> quiet s u"
  using logs_extend_trans by (auto simp: quiet_def)

lemma quiet_add_event [simp]: "quiet s (add_event ev pid nk ty pl s)"
  by (simp add: quiet_def logs_extend_def add_event_def)

lemma quiet_add_history [simp]: "quiet s (add_history ev act c st re s)"
  by (simp add: quiet_def logs_extend_def add_history_def)

lemma quiet_attempt_event [simp]: "quiet s (attempt_event ev a ty pl s)"
  by (simp add: attempt_event_def)

lemma quiet_emit_prior [simp]: "quiet s (emit_prior ev pid k aid v b s)"
  by (simp add: emit_prior_def)

lemma quiet_mark_back [simp]: "quiet s (mark_back ev d ca s)"
  by (simp add: quiet_def logs_extend_def)

lemma quiet_tables [simp]:
  "quiet s (s\<lparr>owners := x1\<rparr>)" "quiet s (s\<lparr>handoffs := x2\<rparr>)" "quiet s (s\<lparr>subagents := x3\<rparr>)" "quiet s (s\<lparr>issues := x4\<rparr>)"
  "quiet s (s\<lparr>issue_nodes := x5\<rparr>)" "quiet s (s\<lparr>git_artifacts := x6\<rparr>)" "quiet s (s\<lparr>blobs := blobs s @ x7\<rparr>)"
  "quiet s (s\<lparr>inbox := x8, deliveries := x9\<rparr>)" "quiet s (s\<lparr>observations := observations s @ x10\<rparr>)"
  by (simp_all add: quiet_def logs_extend_def)

lemmas safe_quiet = quiet_safe[OF quiet_add_event] quiet_safe[OF quiet_add_history] quiet_safe[OF quiet_attempt_event]
  quiet_safe[OF quiet_emit_prior] quiet_safe[OF quiet_mark_back]

lemma safe_event: "safe s t \<Longrightarrow> safe s (add_event ev pid nk ty pl t)"
  using safe_trans safe_quiet(1) by blast

lemma safe_attempt_event: "safe s t \<Longrightarrow> safe s (attempt_event ev a ty pl t)"
  using safe_trans safe_quiet(3) by blast

lemma safe_then_quiet: "safe s t \<Longrightarrow> quiet t u \<Longrightarrow> safe s u"
  using safe_trans quiet_safe by blast

section \<open>Nodes\<close>

text \<open>The columns of a node that its acceptance and its dependants' pins rest on.\<close>

definition node_core :: "node \<Rightarrow> string \<times> string \<times> int \<times> check list \<times> string \<times> node_status \<times> string option" where
  "node_core n = (n_project n, n_key n, n_revision n, n_contract n, n_contract_hash n, n_status n, n_receipt n)"

lemma node_core_pin: "node_core n = node_core m \<Longrightarrow> node_pin n = node_pin m"
  by (simp add: node_core_def node_pin_def)

definition depends_on :: "db \<Rightarrow> node \<Rightarrow> node \<Rightarrow> bool" where
  "depends_on s n m \<longleftrightarrow> n_project m = n_project n \<and> n_key m \<in> set (node_deps s (n_project n) (n_key n))"

lemma set_dependency_snapshot:
  "set (dependency_snapshot s (n_project n) (n_key n)) = node_pin ` {m \<in> set (nodes s). depends_on s n m}"
  by (auto simp: dependency_snapshot_def depends_on_def)

lemma grounded_deps: "grounded s n \<Longrightarrow> m \<in> set (nodes s) \<Longrightarrow> depends_on s n m \<Longrightarrow> n_status m = VERIFIED"
proof -
  assume g: "grounded s n" and m: "m \<in> set (nodes s)" "depends_on s n m"
  have "node_pin m \<in> set (dependency_snapshot s (n_project n) (n_key n))" using m by (auto simp: set_dependency_snapshot)
  moreover have "list_all pin_verified (dependency_snapshot s (n_project n) (n_key n))" using g by (auto simp: grounded_def)
  ultimately show ?thesis by (auto simp: list_all_iff pin_verified_def node_pin_def)
qed

lemma sort_key_map: "(\<And>x. x \<in> set xs \<Longrightarrow> f (g x) = f x) \<Longrightarrow> sort_key f (map g xs) = map g (sort_key f xs)"
proof (induction xs)
  case (Cons x xs)
  have "insort_key f (g x) (map g ys) = map g (insort_key f x ys)" if "set ys \<subseteq> set (x # xs)" for ys
    using that by (induction ys) (auto simp: Cons.prems)
  from this[of "sort_key f xs"] show ?case using Cons by auto
qed simp

lemma dependency_snapshot_update:
  assumes "nodes s' = update_where P f (nodes s)" "deps s' = deps s"
    and keys: "\<And>m. m \<in> set (nodes s) \<Longrightarrow> P m \<Longrightarrow> n_project (f m) = n_project m \<and> n_key (f m) = n_key m"
    and same: "\<And>m. m \<in> set (nodes s) \<Longrightarrow> P m \<Longrightarrow> n_project m = pid \<Longrightarrow> n_key m \<in> set (node_deps s pid k) \<Longrightarrow> node_pin (f m) = node_pin m"
  shows "dependency_snapshot s' pid k = dependency_snapshot s pid k"
proof -
  let ?g = "\<lambda>m. if P m then f m else m"
  let ?Q = "\<lambda>m. n_project m = pid \<and> n_key m \<in> set (node_deps s pid k)"
  have nd: "node_deps s' pid k = node_deps s pid k" by (simp add: node_deps_def assms(2))
  have "filter ?Q (nodes s') = map ?g (filter ?Q (nodes s))"
    unfolding assms(1) update_where_def filter_map comp_def
    by (intro arg_cong2[where f = map] filter_cong) (auto simp: keys)
  then have "dependency_snapshot s' pid k = map node_pin (sort_key n_key (map ?g (filter ?Q (nodes s))))"
    by (simp add: dependency_snapshot_def nd)
  also have "sort_key n_key (map ?g (filter ?Q (nodes s))) = map ?g (sort_key n_key (filter ?Q (nodes s)))"
    by (rule sort_key_map) (auto simp: keys)
  also have "map node_pin \<dots> = dependency_snapshot s pid k"
    by (auto simp: dependency_snapshot_def same)
  finally show ?thesis .
qed

text \<open>Node updates that touch no verified node and no dependency of one, except by un-verifying it.\<close>

lemma grounded_core:
  assumes "grounded s n" "node_core n' = node_core n"
    and "dependency_snapshot s' (n_project n) (n_key n) = dependency_snapshot s (n_project n) (n_key n)"
    and "attempts s' = attempts s" "evidences s' = evidences s" "acceptances s' = acceptances s"
  shows "grounded s' n'"
  using assms latest_evidence_cong[OF assms(5)] latest_attempt_cong[OF assms(4)]
  by (simp add: grounded_def node_core_def attested_def accepts_def)

lemma safe_nodes:
  assumes s': "s' = s\<lparr>nodes := update_where P f (nodes s)\<rparr>"
    and keeps: "\<And>n. sys_inv s \<Longrightarrow> n \<in> set (nodes s) \<Longrightarrow> P n \<Longrightarrow> keeps_node n (f n) \<and> n_facet (f n) = n_facet n"
    and ok: "\<And>n. sys_inv s \<Longrightarrow> n \<in> set (nodes s) \<Longrightarrow> P n \<Longrightarrow> node_ok n \<Longrightarrow> node_ok (f n)"
    and core: "\<And>n. sys_inv s \<Longrightarrow> n \<in> set (nodes s) \<Longrightarrow> P n \<Longrightarrow> n_status (f n) = VERIFIED \<Longrightarrow> grounded s (f n)"
    and closed: "\<And>n m. sys_inv s \<Longrightarrow> n \<in> set (nodes s) \<Longrightarrow> m \<in> set (nodes s) \<Longrightarrow> P m \<Longrightarrow> node_core (f m) \<noteq> node_core m \<Longrightarrow>
        depends_on s n m \<Longrightarrow> n_status (if P n then f n else n) \<noteq> VERIFIED"
  shows "safe s s'"
proof (rule safeI)
  assume inv: "sys_inv s"
  have k: "n_project (f m) = n_project m \<and> n_key (f m) = n_key m \<and> n_facet (f m) = n_facet m" if "m \<in> set (nodes s)" "P m" for m
    using keeps[OF inv that] by (simp add: keeps_node_def)
  have g: "graph_inv s'"
    by (rule graph_inv_update_nodes[where P = P and f = f and s = s]) (use inv s' k ok in \<open>auto simp: sys_inv_def\<close>)
  have same: "attempts s' = attempts s" "evidences s' = evidences s" "acceptances s' = acceptances s" "claims s' = claims s"
    by (simp_all add: s')
  have "grounded s' n'" if n': "n' \<in> set (nodes s')" "n_status n' = VERIFIED" for n'
  proof -
    obtain n where n: "n \<in> set (nodes s)" "n' = (if P n then f n else n)" using n'(1) s' by (auto simp: update_where_def)
    have gr: "grounded s n'" using core[OF inv n(1)] inv n n'(2) by (auto simp: sys_inv_def verified_inv_def)
    have v: "n_project n' = n_project n" "n_key n' = n_key n" using k n by auto
    have "dependency_snapshot s' (n_project n') (n_key n') = dependency_snapshot s (n_project n') (n_key n')"
      unfolding v
    proof (rule dependency_snapshot_update[where P = P and f = f])
      fix m assume m: "m \<in> set (nodes s)" "P m" "n_project m = n_project n" "n_key m \<in> set (node_deps s (n_project n) (n_key n))"
      then have d: "depends_on s n m" by (simp add: depends_on_def)
      show "node_pin (f m) = node_pin m"
      proof (rule ccontr)
        assume "node_pin (f m) \<noteq> node_pin m"
        then have "node_core (f m) \<noteq> node_core m" using node_core_pin by blast
        from closed[OF inv n(1) m(1,2) this d] show False using n(2) n'(2) by auto
      qed
    qed (use s' k in auto)
    then show ?thesis by (rule grounded_core[OF gr refl _ same(1-3)])
  qed
  then have "verified_inv s'" by (simp add: verified_inv_def)
  moreover have "grows keeps_node (nodes s) (nodes s')"
    unfolding s' using keeps[OF inv] by (simp add: node_rows.table_update_grows)
  moreover have "attempts_ok s' = attempts_ok s" "receipts_ok s' = receipts_ok s" "logs_extend s s'"
    using attempts_ok_cong[of s' s] receipts_ok_cong[of s' s] by (simp_all add: s' logs_extend_def)
  ultimately show "sys_inv s' \<and> evolves s s'"
    using inv g same by (simp add: sys_inv_def evolves_def attempt_rows.table_refl claim_rows.table_refl)
qed

lemma sys_inv_grounded: "sys_inv s \<Longrightarrow> n \<in> set (nodes s) \<Longrightarrow> n_status n = VERIFIED \<Longrightarrow> grounded s n"
  by (simp add: sys_inv_def verified_inv_def)

lemma grounded_same_core: "grounded s n \<Longrightarrow> node_core n' = node_core n \<Longrightarrow> grounded s n'"
  by (rule grounded_core) simp_all

text \<open>Nodes that are not verified may change: nothing verified rests on them.\<close>

lemma safe_unverified:
  assumes "s' = s\<lparr>nodes := update_where P f (nodes s)\<rparr>"
    and f: "\<And>n. sys_inv s \<Longrightarrow> n \<in> set (nodes s) \<Longrightarrow> P n \<Longrightarrow> keeps_node n (f n) \<and> n_facet (f n) = n_facet n \<and>
        (n_status (f n) = VERIFIED \<longrightarrow> grounded s (f n)) \<and> (node_ok n \<longrightarrow> node_ok (f n))"
    and unv: "\<And>n. sys_inv s \<Longrightarrow> n \<in> set (nodes s) \<Longrightarrow> P n \<Longrightarrow> n_status n \<noteq> VERIFIED"
  shows "safe s s'"
proof (rule safe_nodes[OF assms(1)])
  fix n m assume a: "sys_inv s" "n \<in> set (nodes s)" "m \<in> set (nodes s)" "P m" "depends_on s n m"
  show "n_status (if P n then f n else n) \<noteq> VERIFIED"
  proof
    assume v: "n_status (if P n then f n else n) = VERIFIED"
    then have "grounded s (if P n then f n else n)" using f[OF a(1,2)] sys_inv_grounded[OF a(1,2)] by auto
    moreover have "depends_on s (if P n then f n else n) m"
      using a(5) f[OF a(1,2)] by (auto simp: depends_on_def keeps_node_def)
    ultimately have "n_status m = VERIFIED" using grounded_deps a(3) by blast
    with unv[OF a(1,3,4)] show False by simp
  qed
qed (use f in blast)+

text \<open>Columns outside the core (priority, time stamps) may change freely.\<close>

lemma safe_cosmetic:
  assumes "s' = s\<lparr>nodes := update_where P f (nodes s)\<rparr>"
    and f: "\<And>n. n \<in> set (nodes s) \<Longrightarrow> P n \<Longrightarrow> keeps_node n (f n) \<and> n_facet (f n) = n_facet n \<and> node_core (f n) = node_core n \<and> (node_ok n \<longrightarrow> node_ok (f n))"
  shows "safe s s'"
proof (rule safe_nodes[OF assms(1)])
  fix n assume n: "sys_inv s" "n \<in> set (nodes s)" "P n" "n_status (f n) = VERIFIED"
  then have "node_core (f n) = node_core n" using f by blast
  moreover from this n(4) have "n_status n = VERIFIED" by (simp add: node_core_def)
  ultimately show "grounded s (f n)" using sys_inv_grounded[OF n(1,2)] grounded_same_core by blast
qed (use f in blast)+

section \<open>Attempts\<close>

lemma latest_attempt_update:
  assumes "attempts s' = update_where P f (attempts s)"
    and "\<And>a. a \<in> set (attempts s) \<Longrightarrow> P a \<Longrightarrow> keeps_attempt a (f a)"
  shows "latest_attempt s' pid k = map_option (\<lambda>a. if P a then f a else a) (latest_attempt s pid k)"
proof -
  have "a_project (f a) = a_project a \<and> a_node (f a) = a_node a" if "a \<in> set (attempts s)" "P a" for a
    using keeps_attemptD[OF assms(2)[OF that]] by blast
  then have "node_attempts s' pid k = map (\<lambda>a. if P a then f a else a) (node_attempts s pid k)"
    unfolding node_attempts_def assms(1) update_where_def filter_map comp_def
    by (intro arg_cong2[where f = map] filter_cong) auto
  then show ?thesis by (simp add: latest_attempt_iff last_map)
qed

lemma accepts_keeps:
  "accepts n r a \<Longrightarrow> keeps_attempt a a' \<Longrightarrow> a_status a' = Candidate \<Longrightarrow> accepts n r a'"
  using keeps_attemptD[of a a'] by (auto simp: accepts_def keeps_attempt_def nonempty_def)

lemma safe_attempts:
  assumes s': "s' = s\<lparr>attempts := update_where P f (attempts s)\<rparr>"
    and keeps: "\<And>a. sys_inv s \<Longrightarrow> a \<in> set (attempts s) \<Longrightarrow> P a \<Longrightarrow> keeps_attempt a (f a)"
    and acc: "\<And>a n r. sys_inv s \<Longrightarrow> a \<in> set (attempts s) \<Longrightarrow> P a \<Longrightarrow> n \<in> set (nodes s) \<Longrightarrow> n_status n = VERIFIED \<Longrightarrow>
        r \<in> set (acceptances s) \<Longrightarrow> accepts n r a \<Longrightarrow> a_status (f a) = Candidate"
  shows "safe s s'"
proof (rule safeI)
  assume inv: "sys_inv s"
  let ?g = "\<lambda>a. if P a then f a else a"
  have k: "keeps_attempt a (?g a)" if "a \<in> set (attempts s)" for a
    using keeps[OF inv that] attempt_rows.row_refl by simp
  have l: "latest_attempt s' pid x = map_option ?g (latest_attempt s pid x)" for pid x
    by (rule latest_attempt_update) (use s' keeps[OF inv] in simp_all)
  have ok: "attempts_ok s" using inv by (simp add: sys_inv_def)
  have "a_id (f a) = a_id a" if "a \<in> set (attempts s)" "P a" for a
    using keeps_attemptD(1)[OF keeps[OF inv that]] .
  then have u: "unique_on a_id (attempts s')"
    using ok unique_on_update[of "attempts s" P a_id f] by (simp add: s' attempts_ok_def)
  have "attempts_ok s'"
  proof (unfold attempts_ok_def, intro conjI ballI impI u)
    fix a' assume a': "a' \<in> set (attempts s')" "a_status a' \<in> set ACTIVE"
    then obtain a where a: "a \<in> set (attempts s)" "a' = ?g a" by (auto simp: s' update_where_def)
    have ka: "keeps_attempt a a'" using k[OF a(1)] a(2) by simp
    then have "a_status a \<in> set ACTIVE" "a_project a' = a_project a" "a_node a' = a_node a" "a_kind a' = a_kind a"
      using a'(2) keeps_attemptD[OF ka] unfolding keeps_attempt_def by blast+
    then show "latest_attempt s' (a_project a') (a_node a') = Some a'" "a_kind a' = External \<Longrightarrow> a_artifact a' = None"
      using ok a ka a'(2) l[of "a_project a" "a_node a"] by (auto simp: attempts_ok_def keeps_attempt_def)
  qed
  moreover have "verified_inv s'"
  proof (unfold verified_inv_def, intro ballI impI)
    fix n assume n: "n \<in> set (nodes s')" "n_status n = VERIFIED"
    then have ns: "n \<in> set (nodes s)" by (simp add: s')
    from sys_inv_grounded[OF inv ns n(2)] obtain r a where r: "r \<in> set (acceptances s)" "latest_attempt s (n_project n) (n_key n) = Some a"
      "accepts n r a" "rc_pins r = dependency_snapshot s (n_project n) (n_key n)" "list_all pin_verified (rc_pins r)" "attested s n r"
      unfolding grounded_def by blast
    have am: "a \<in> set (attempts s)" using latest_attempt_mem[OF r(2)] by blast
    have "a_status (?g a) = Candidate" using acc[OF inv am _ ns n(2) r(1,3)] r(3) by (auto simp: accepts_def)
    then have "accepts n r (?g a)" using accepts_keeps[OF r(3) k[OF am]] by blast
    moreover have "attested s' n r" using r(6) latest_evidence_cong[of s' s] by (simp add: attested_def s')
    moreover have "latest_attempt s' (n_project n) (n_key n) = Some (?g a)" using l r(2) by simp
    moreover have "dependency_snapshot s' = dependency_snapshot s" by (rule dependency_snapshot_cong) (simp_all add: s')
    ultimately show "grounded s' n" unfolding grounded_def using r by (intro bexI[of _ r]) (auto simp: s')
  qed
  moreover have "grows keeps_attempt (attempts s) (attempts s')"
    unfolding s' using keeps[OF inv] by (simp add: attempt_rows.table_update_grows)
  moreover have "graph_inv s' = graph_inv s" "receipts_ok s' = receipts_ok s" "logs_extend s s'" "nodes s' = nodes s" "claims s' = claims s"
    using graph_inv_cong[of s' s] receipts_ok_cong[of s' s] by (simp_all add: s' logs_extend_def)
  ultimately show "sys_inv s' \<and> evolves s s'"
    using inv by (simp add: sys_inv_def evolves_def node_rows.table_refl claim_rows.table_refl)
qed

lemma safe_update_attempt:
  assumes "\<And>a. sys_inv s \<Longrightarrow> a \<in> set (attempts s) \<Longrightarrow> a_id a = aid \<Longrightarrow> keeps_attempt a (f a) \<and> (a_status a = Candidate \<longrightarrow> a_status (f a) = Candidate)"
  shows "safe s (update_attempt aid f s)"
  by (rule safe_attempts[where P = "\<lambda>a. a_id a = aid" and f = f]) (use assms in \<open>auto simp: update_attempt_def accepts_def\<close>)

end
