(* ===== verification/Safe_Rows.thy ===== *)
theory Safe_Rows
  imports Safety
begin

text \<open>Safe additions of rows: attempts, evidence, receipts, claims; and the safety of invalidation.\<close>

section \<open>New attempts\<close>

lemma safe_new_attempt:
  assumes s': "s' = s\<lparr>attempts := attempts s @ [x]\<rparr>"
    and fresh: "\<not> list_ex (\<lambda>a. a_id a = a_id x) (attempts s)"
    and idle: "\<not> list_ex (\<lambda>a. a_project a = a_project x \<and> a_node a = a_node x \<and> a_status a \<in> set ACTIVE) (attempts s)"
    and art: "a_artifact x = None"
    and unv: "\<And>n. sys_inv s \<Longrightarrow> n \<in> set (nodes s) \<Longrightarrow> is_node (a_project x) (a_node x) n \<Longrightarrow> n_status n \<noteq> VERIFIED"
  shows "safe s s'"
proof (rule safeI)
  assume inv: "sys_inv s"
  have l: "latest_attempt s' pid k = (if a_project x = pid \<and> a_node x = k then Some x else latest_attempt s pid k)" for pid k
    by (rule latest_attempt_append) (simp add: s')
  have "attempts_ok s'"
    using inv fresh idle art l unfolding sys_inv_def attempts_ok_def
    by (auto simp: s' unique_on_snoc list_ex_iff)
  moreover have "verified_inv s'"
  proof (unfold verified_inv_def, intro ballI impI)
    fix n assume "n \<in> set (nodes s')" "n_status n = VERIFIED"
    then have n: "n \<in> set (nodes s)" "n_status n = VERIFIED" by (simp_all add: s')
    then have "\<not> (a_project x = n_project n \<and> a_node x = n_key n)" using unv[OF inv n(1)] by (auto simp: is_node_def)
    then have "latest_attempt s' (n_project n) (n_key n) = latest_attempt s (n_project n) (n_key n)" using l by auto
    then show "grounded s' n"
      using sys_inv_grounded[OF inv n] latest_evidence_cong[of s' s] dependency_snapshot_cong[of s' s]
      by (simp add: grounded_def attested_def s')
  qed
  moreover have "grows keeps_attempt (attempts s) (attempts s')" by (simp add: s' attempt_rows.table_append)
  moreover have "graph_inv s' = graph_inv s" "receipts_ok s' = receipts_ok s" "logs_extend s s'" "nodes s' = nodes s" "claims s' = claims s"
    using graph_inv_cong[of s' s] receipts_ok_cong[of s' s] by (simp_all add: s' logs_extend_def)
  ultimately show "sys_inv s' \<and> evolves s s'"
    using inv by (simp add: sys_inv_def evolves_def node_rows.table_refl claim_rows.table_refl)
qed

section \<open>Evidence\<close>

lemma latest_evidence_append:
  "evidences s' = evidences s @ [e] \<Longrightarrow> ev_attempt e \<noteq> aid \<Longrightarrow> latest_evidence s' aid cid = latest_evidence s aid cid"
  by (simp add: latest_evidence_def)

lemma safe_new_evidence:
  assumes s': "s' = s\<lparr>evidences := evidences s @ [e]\<rparr>"
    and fresh: "find (\<lambda>x. ev_id x = ev_id e) (evidences s) = None"
    and unacc: "\<And>n r a. sys_inv s \<Longrightarrow> n \<in> set (nodes s) \<Longrightarrow> n_status n = VERIFIED \<Longrightarrow> accepts n r a \<Longrightarrow> a \<in> set (attempts s) \<Longrightarrow> a_id a \<noteq> ev_attempt e"
  shows "safe s s'"
proof (rule safeI)
  assume inv: "sys_inv s"
  have "receipts_ok s'"
    using inv fresh unfolding sys_inv_def receipts_ok_def by (auto simp: s' unique_on_snoc find_None_set)
  moreover have "verified_inv s'"
  proof (unfold verified_inv_def, intro ballI impI)
    fix n assume "n \<in> set (nodes s')" "n_status n = VERIFIED"
    then have n: "n \<in> set (nodes s)" "n_status n = VERIFIED" by (simp_all add: s')
    from sys_inv_grounded[OF inv n] obtain r a where r: "r \<in> set (acceptances s)" "latest_attempt s (n_project n) (n_key n) = Some a"
      "accepts n r a" "rc_pins r = dependency_snapshot s (n_project n) (n_key n)" "list_all pin_verified (rc_pins r)" "attested s n r"
      unfolding grounded_def by blast
    have "ev_attempt e \<noteq> rc_attempt r"
      using unacc[OF inv n r(3)] latest_attempt_mem[OF r(2)] r(3) by (auto simp: accepts_def)
    then have "attested s' n r" using r(6) latest_evidence_append[of s' s e "rc_attempt r"] by (simp add: attested_def s')
    then show "grounded s' n"
      unfolding grounded_def using r dependency_snapshot_cong[of s' s] latest_attempt_cong[of s' s]
      by (intro bexI[of _ r]) (auto simp: s')
  qed
  moreover have "graph_inv s' = graph_inv s" "attempts_ok s' = attempts_ok s" "logs_extend s s'"
    using graph_inv_cong[of s' s] attempts_ok_cong[of s' s] by (simp_all add: s' logs_extend_def)
  ultimately show "sys_inv s' \<and> evolves s s'"
    using inv by (simp add: sys_inv_def evolves_def s' node_rows.table_refl claim_rows.table_refl attempt_rows.table_refl)
qed

section \<open>Receipts\<close>

lemma safe_new_receipt:
  assumes s': "s' = s\<lparr>acceptances := acceptances s @ [r]\<rparr>"
    and fresh: "receipt_at s (rc_id r) = None"
    and ev: "\<And>i. i \<in> set (rc_evidence r) \<Longrightarrow> \<exists>e \<in> set (evidences s). ev_attempt e = rc_attempt r \<and> ev_id e = i"
  shows "safe s s'"
proof (rule safeI)
  assume inv: "sys_inv s"
  have "receipts_ok s'"
    using inv fresh ev unfolding sys_inv_def receipts_ok_def by (auto simp: s' unique_on_snoc find_None_set receipt_at_def)
  moreover have "verified_inv s'"
    using inv latest_evidence_cong[of s' s] dependency_snapshot_cong[of s' s] latest_attempt_cong[of s' s]
    unfolding sys_inv_def verified_inv_def grounded_def attested_def by (simp add: s')
  moreover have "graph_inv s' = graph_inv s" "attempts_ok s' = attempts_ok s" "logs_extend s s'"
    using graph_inv_cong[of s' s] attempts_ok_cong[of s' s] by (simp_all add: s' logs_extend_def)
  ultimately show "sys_inv s' \<and> evolves s s'"
    using inv by (simp add: sys_inv_def evolves_def s' node_rows.table_refl claim_rows.table_refl attempt_rows.table_refl)
qed

section \<open>Claims\<close>

lemma safe_claims:
  assumes s': "s' = s\<lparr>claims := cs\<rparr>" and ok: "claims_ok (claims s) \<Longrightarrow> claims_ok cs \<and> grows moves_claim (claims s) cs"
  shows "safe s s'"
proof (rule safeI)
  assume inv: "sys_inv s"
  have "graph_inv s' = graph_inv s" "attempts_ok s' = attempts_ok s" "receipts_ok s' = receipts_ok s" "verified_inv s' = verified_inv s" "logs_extend s s'"
    using graph_inv_cong[of s' s] attempts_ok_cong[of s' s] receipts_ok_cong[of s' s] verified_inv_cong[of s' s]
    by (simp_all add: s' logs_extend_def)
  then show "sys_inv s' \<and> evolves s s'"
    using inv ok by (simp add: sys_inv_def evolves_def s' node_rows.table_refl attempt_rows.table_refl)
qed

lemma safe_claims_update:
  assumes "\<And>c. P c \<Longrightarrow> keeps_claim c (f c)"
  shows "safe s (s\<lparr>claims := update_where P f (claims s)\<rparr>)"
proof (rule safe_claims[OF refl])
  assume ok: "claims_ok (claims s)"
  have l: "list_all2 keeps_claim (claims s) (update_where P f (claims s))" by (rule keeps_update_where) (rule assms)
  then show "claims_ok (update_where P f (claims s)) \<and> grows moves_claim (claims s) (update_where P f (claims s))"
    using claims_ok_list_update[OF ok l] claim_rows.table_rows[OF list_keeps_moves[OF l]] by blast
qed

lemma safe_update_claim:
  assumes "\<And>c. keeps_claim c (f c)"
  shows "safe s (update_claim cid f s)"
  unfolding update_claim_def by (rule safe_claims_update) (rule assms)

lemma safe_insert_claim:
  assumes "insert_claim c s = Inr s'" "c_fence c = next_fence s (c_project c) (c_node c)"
    and "claims_ok (claims s) \<Longrightarrow> MIN_LEASE_SECONDS \<le> c_lease_seconds c \<and> c_lease_seconds c \<le> MAX_LEASE_SECONDS"
  shows "safe s s'"
proof -
  have s': "s' = s\<lparr>claims := claims s @ [c]\<rparr>" using assms(1) by (auto simp: insert_claim_def split: if_splits)
  show ?thesis
  proof (rule safe_claims[OF s'])
    assume ok: "claims_ok (claims s)"
    show "claims_ok (claims s @ [c]) \<and> grows moves_claim (claims s) (claims s @ [c])"
      using insert_claim_ok[OF assms(1) ok assms(2)] assms(3)[OF ok] claim_rows.table_append by auto
  qed
qed

text \<open>Re-fencing one live claim with the next fence of its node.\<close>

lemma claims_ok_refence:
  assumes ok: "claims_ok cs" and c: "c \<in> set cs" and f: "1 \<le> fe" "\<And>d. d \<in> set cs \<Longrightarrow> c_project d = c_project c \<Longrightarrow> c_node d = c_node c \<Longrightarrow> c_fence d < fe"
    and g: "\<And>x. c_id (g x) = c_id x \<and> c_project (g x) = c_project x \<and> c_node (g x) = c_node x \<and> c_driver (g x) = c_driver x \<and>
        c_purpose (g x) = c_purpose x \<and> c_fence (g x) = fe \<and> c_lease_seconds (g x) = c_lease_seconds x \<and>
        c_request_key (g x) = c_request_key x \<and> c_status (g x) = c_status x"
  shows "claims_ok (update_where (\<lambda>x. c_id x = c_id c) g cs)" (is "claims_ok ?cs")
    and "list_all2 moves_claim cs (update_where (\<lambda>x. c_id x = c_id c) g cs)"
proof -
  have own: "x = c" if "x \<in> set cs" "c_id x = c_id c" for x using claims_ok_unique[OF ok that(1) c that(2)] .
  show "list_all2 moves_claim cs ?cs"
    by (rule claim_rows.table_update) (use g f(2) own in \<open>force simp: moves_claim_def\<close>)
  let ?h = "\<lambda>x. if c_id x = c_id c then g x else x"
  have cs: "?cs = map ?h cs" by (simp add: update_where_def)
  have ids: "map c_id ?cs = map c_id cs" unfolding cs by (simp add: g)
  have inj: "inj_on (\<lambda>x. (c_project x, c_node x, c_fence x)) (set cs)" and dc: "distinct cs"
    using ok by (auto simp: claims_ok_def distinct_map)
  have "inj_on (\<lambda>x. (c_project (?h x), c_node (?h x), c_fence (?h x))) (set cs)"
  proof (rule inj_onI)
    fix x y assume x: "x \<in> set cs" and y: "y \<in> set cs"
      and e: "(c_project (?h x), c_node (?h x), c_fence (?h x)) = (c_project (?h y), c_node (?h y), c_fence (?h y))"
    show "x = y"
    proof (cases "c_id x = c_id c \<longleftrightarrow> c_id y = c_id c")
      case True
      then show ?thesis using e own[OF x] own[OF y] inj_onD[OF inj _ x y] by (auto split: if_splits)
    next
      case False
      then show ?thesis using e f(2)[OF x] f(2)[OF y] own[OF x] own[OF y] g by (auto split: if_splits)
    qed
  qed
  then have "distinct (map (\<lambda>x. (c_project x, c_node x, c_fence x)) ?cs)"
    unfolding cs using dc by (simp add: distinct_map comp_def)
  moreover have "c_id x = c_id y" if xy: "x \<in> set ?cs" "y \<in> set ?cs" "live_exclusive pid k x" "live_exclusive pid k y" for x y pid k
  proof -
    obtain x0 y0 where o: "x0 \<in> set cs" "x = ?h x0" "y0 \<in> set cs" "y = ?h y0" using xy(1,2) unfolding cs by auto
    then have "live_exclusive pid k x0" "live_exclusive pid k y0" using xy(3,4) g by (auto simp: live_exclusive_def split: if_splits)
    then have "c_id x0 = c_id y0" using ok o unfolding claims_ok_def by blast
    then show ?thesis using o g by auto
  qed
  moreover have "\<forall>x \<in> set ?cs. 1 \<le> c_fence x \<and> MIN_LEASE_SECONDS \<le> c_lease_seconds x \<and> c_lease_seconds x \<le> MAX_LEASE_SECONDS"
    unfolding cs using ok f(1) g by (auto simp: claims_ok_def)
  moreover have "distinct (map c_id ?cs)" using ok unfolding ids claims_ok_def by (rule conjunct1)
  ultimately show "claims_ok ?cs" unfolding claims_ok_def by (intro conjI ballI allI impI) blast+
qed

lemma safe_refence:
  assumes "c \<in> set (claims s)" "fe = next_fence s (c_project c) (c_node c)"
    and "\<And>x. c_id (g x) = c_id x \<and> c_project (g x) = c_project x \<and> c_node (g x) = c_node x \<and> c_driver (g x) = c_driver x \<and>
        c_purpose (g x) = c_purpose x \<and> c_fence (g x) = fe \<and> c_lease_seconds (g x) = c_lease_seconds x \<and>
        c_request_key (g x) = c_request_key x \<and> c_status (g x) = c_status x"
  shows "safe s (update_claim (c_id c) g s)"
proof -
  have u: "update_claim (c_id c) g s = s\<lparr>claims := update_where (\<lambda>x. c_id x = c_id c) g (claims s)\<rparr>" by (simp add: update_claim_def)
  have fe: "1 \<le> fe" "\<And>d. d \<in> set (claims s) \<Longrightarrow> c_project d = c_project c \<Longrightarrow> c_node d = c_node c \<Longrightarrow> c_fence d < fe"
    using next_fence_pos next_fence_gt assms(2) by auto
  show ?thesis
  proof (rule safe_claims[OF u])
    assume ok: "claims_ok (claims s)"
    show "claims_ok (update_where (\<lambda>x. c_id x = c_id c) g (claims s)) \<and> grows moves_claim (claims s) (update_where (\<lambda>x. c_id x = c_id c) g (claims s))"
      using claims_ok_refence(1)[OF ok assms(1) fe assms(3)] claim_rows.table_rows[OF claims_ok_refence(2)[OF ok assms(1) fe assms(3)]] by blast
  qed
qed

end
