(* ===== verification/Safe_Graph.thy ===== *)
theory Safe_Graph
  imports Safe_Rows
begin

text \<open>The operations of \<open>StateGraphStore\<close> are safe: whatever they change, no goal stays verified on changed inputs.\<close>

section \<open>Graph changes\<close>

definition verified_kept :: "db \<Rightarrow> db \<Rightarrow> bool" where
  "verified_kept s s' \<longleftrightarrow> (\<forall>n' \<in> set (nodes s'). n_status n' = VERIFIED \<longrightarrow> (\<exists>n \<in> set (nodes s). node_core n' = node_core n \<and>
     dependency_snapshot s' (n_project n) (n_key n) = dependency_snapshot s (n_project n) (n_key n)))"

lemma non_graphD2: "non_graph s' = non_graph s \<Longrightarrow> logs_grow s s' \<Longrightarrow> logs_extend s s'"
  using non_graphD[of s' s] by (simp add: logs_extend_def logs_grow_def)

lemma safe_graph:
  assumes "graph_inv s \<Longrightarrow> graph_inv s'" "non_graph s' = non_graph s" "logs_grow s s'"
    and "graph_inv s \<Longrightarrow> verified_kept s s'" "graph_inv s \<Longrightarrow> grows keeps_node (nodes s) (nodes s')"
  shows "safe s s'"
proof (rule safeI)
  assume inv: "sys_inv s"
  then have g: "graph_inv s" by (simp add: sys_inv_def)
  note same = non_graphD[OF assms(2)]
  have "verified_inv s'"
  proof (unfold verified_inv_def, intro ballI impI)
    fix n' assume n': "n' \<in> set (nodes s')" "n_status n' = VERIFIED"
    then obtain n where n: "n \<in> set (nodes s)" "node_core n' = node_core n"
      "dependency_snapshot s' (n_project n) (n_key n) = dependency_snapshot s (n_project n) (n_key n)"
      using assms(4)[OF g] unfolding verified_kept_def by blast
    then have "grounded s n" using sys_inv_grounded[OF inv n(1)] n'(2) by (simp add: node_core_def)
    then show "grounded s' n'" by (rule grounded_core[OF _ n(2,3) same(1-3)])
  qed
  then show "sys_inv s' \<and> evolves s s'"
    using inv assms(1)[OF g] assms(5)[OF g] attempts_ok_cong[OF same(1)] receipts_ok_cong[OF same(2,3)] same non_graphD2[OF assms(2,3)]
    by (simp add: sys_inv_def evolves_def attempt_rows.table_refl claim_rows.table_refl)
qed

lemma verified_kept_same: "nodes s' = nodes s \<Longrightarrow> deps s' = deps s \<Longrightarrow> verified_kept s s'"
  using dependency_snapshot_cong[of s' s] by (auto simp: verified_kept_def)

section \<open>Projects and labels\<close>

lemma create_project_safe: "create_project ev pid title source s = Inr (p, s') \<Longrightarrow> safe s s'"
proof -
  assume a: "create_project ev pid title source s = Inr (p, s')"
  have "nodes s' = nodes s \<and> deps s' = deps s \<and> non_graph s' = non_graph s \<and> logs_grow s s'"
    using a by (auto simp: create_project_def Let_def logs_grow_def split: option.splits if_splits)
  then show ?thesis
    using create_project_effect[OF a] verified_kept_same[of s' s] node_rows.table_refl
    by (intro safe_graph) auto
qed

lemma set_project_access_safe: "set_project_access ev pid vis act s = Inr (a, s') \<Longrightarrow> safe s s'"
  by (rule quiet_safe) (auto simp: quiet_def logs_extend_def set_project_access_def Let_def)

lemma set_node_facet_safe: "set_node_facet ev pid k v s = Inr (r, s') \<Longrightarrow> safe s s'"
proof (cases "s' = s")
  case False
  assume a: "set_node_facet ev pid k v s = Inr (r, s')"
  with False obtain own pl where s': "s' = add_event ev pid (Some k) ''node_facet_set'' pl
          (update_node pid k (\<lambda>n. n\<lparr>n_facet := own, n_updated := now_at ev\<rparr>) s)"
    by (auto simp: set_node_facet_def Let_def split: if_splits)
  let ?f = "\<lambda>n. n\<lparr>n_facet := own, n_updated := now_at ev\<rparr>"
  have ds: "dependency_snapshot s' p x = dependency_snapshot s p x" for p x
    by (rule dependency_snapshot_update[where P = "is_node pid k" and f = ?f]) (auto simp: s' node_pin_def)
  then have "verified_kept s s'" by (auto simp: verified_kept_def s' set_update_where node_core_def)
  moreover have "grows keeps_node (nodes s) (nodes s')"
    unfolding s' by (simp add: node_rows.table_update_grows keeps_node_def)
  ultimately show ?thesis using set_node_facet_effect[OF a] by (intro safe_graph) (auto simp: s' logs_grow_def)
qed simp

lemma set_node_priority_safe: "set_node_priority ev pid k pr ex re ac di s = Inr (r, s') \<Longrightarrow> safe s s'"
proof -
  assume a: "set_node_priority ev pid k pr ex re ac di s = Inr (r, s')"
  let ?f = "\<lambda>n. n\<lparr>n_priority := pr, n_updated := now_at ev\<rparr>"
  have pr: "-100000 \<le> pr" "pr \<le> 100000" using a by (auto simp: set_node_priority_def)
  have sf: "safe s (update_node pid k ?f s)"
    by (rule safe_cosmetic[where P = "is_node pid k" and f = ?f])
       (use pr in \<open>auto simp: update_node_def keeps_node_def node_core_def node_ok_def\<close>)
  consider "s' = s" | pl where "s' = add_event ev pid (Some k) ''node_priority_set'' pl (update_node pid k ?f s)"
    using a unfolding set_node_priority_def by (auto simp: Let_def split: if_splits)
  then show ?thesis
  proof cases
    case 1 then show ?thesis by simp
  next
    case 2 then show ?thesis using safe_event[OF sf] by simp
  qed
qed

section \<open>Adding nodes\<close>

lemma dependency_snapshot_append:
  assumes "nodes s' = nodes s @ ms" "node_deps s' pid k = node_deps s pid k"
    and "\<And>m. m \<in> set ms \<Longrightarrow> \<not> (n_project m = pid \<and> n_key m \<in> set (node_deps s pid k))"
  shows "dependency_snapshot s' pid k = dependency_snapshot s pid k"
proof -
  have "filter (\<lambda>n. n_project n = pid \<and> n_key n \<in> set (node_deps s pid k)) ms = []"
    using assms(3) by (simp add: filter_empty_conv)
  then show ?thesis by (simp add: dependency_snapshot_def assms(1,2))
qed

lemma graph_inv_dep_node: "graph_inv s \<Longrightarrow> x \<in> set (node_deps s pid k) \<Longrightarrow> (pid, x) \<in> set (node_ids s)"
proof -
  assume inv: "graph_inv s" and "x \<in> set (node_deps s pid k)"
  then have "(k, x) \<in> set (project_edges s pid)" by (auto simp: set_node_deps project_edges_def dep_in_iff)
  then show ?thesis using graph_inv_dag(3)[OF inv] by blast
qed

lemma add_nodes_safe: "add_nodes ev pid specs s = Inr (ks, s') \<Longrightarrow> safe s s'"
proof (rule safeI)
  assume a: "add_nodes ev pid specs s = Inr (ks, s')" and inv: "sys_inv s"
  then have g: "graph_inv s" by (simp add: sys_inv_def)
  obtain sps where e: "nodes s' = nodes s @ map (new_node ev pid) sps"
    "\<forall>sp \<in> set sps. spec_ok sp \<and> sp_key sp \<notin> graph_keys (graph_of s pid) \<and> \<not> list_ex (superseded_key s pid) (sp_deps sp)"
    "graph_of s' pid = graph_of s pid @ map (\<lambda>sp. (sp_key sp, sp_deps sp)) sps"
    "graph_inv s'" "non_graph s' = non_graph s" "logs_grow s s'"
    by (rule add_nodes_effect[OF a g])
  have same: "dependency_snapshot s' (n_project n) (n_key n) = dependency_snapshot s (n_project n) (n_key n)"
    if n: "n \<in> set (nodes s)" for n
  proof (rule dependency_snapshot_append[OF e(1)])
    have d: "\<exists>sps. deps s' = deps s @ concat (map (dep_rows pid) sps) \<and> (\<forall>sp \<in> set sps. sp_key sp \<notin> graph_keys (graph_of s pid))"
    proof -
      obtain vs graph facets sps' where
        prep: "foldE (prepare_spec s pid) vs (graph_of s pid, facets_of s pid, []) = Inr (graph, facets, sps')"
        and fin: "foldE (finish_spec ev pid) sps' (s\<lparr>nodes := nodes s @ map (new_node ev pid) sps'\<rparr>) = Inr s'"
        using a by (auto simp: add_nodes_def check_facets_def Let_def split: pyval.splits)
      then show ?thesis using prepare_specs_Inr[OF prep] finish_specs_Inr[OF fin] by auto
    qed
    then obtain sps2 where d2: "deps s' = deps s @ concat (map (dep_rows pid) sps2)"
      "\<forall>sp \<in> set sps2. sp_key sp \<notin> graph_keys (graph_of s pid)" by blast
    have "n_project n \<noteq> pid \<or> n_key n \<notin> sp_key ` set sps2"
      using n d2(2) by (force simp: graph_keys_graph_of node_ids_def)
    then show "node_deps s' (n_project n) (n_key n) = node_deps s (n_project n) (n_key n)"
      by (simp add: node_deps_def d2(1) filter_dep_rows_other)
  next
    fix m assume m: "m \<in> set (map (new_node ev pid) sps)"
    show "\<not> (n_project m = n_project n \<and> n_key m \<in> set (node_deps s (n_project n) (n_key n)))"
    proof
      assume "n_project m = n_project n \<and> n_key m \<in> set (node_deps s (n_project n) (n_key n))"
      then have "(n_project m, n_key m) \<in> set (node_ids s)" using graph_inv_dep_node[OF g] by auto
      then show False using m e(2) by (auto simp: new_node_def graph_keys_graph_of)
    qed
  qed
  have "verified_kept s s'"
    unfolding verified_kept_def using same by (auto simp: e(1) new_node_def)
  moreover have "grows keeps_node (nodes s) (nodes s')" by (simp add: e(1) node_rows.table_append)
  ultimately have "safe s s'" using e(4-6) by (intro safe_graph) auto
  then show "sys_inv s' \<and> evolves s s'" using inv by (simp add: safe_def)
qed

section \<open>Invalidation\<close>

lemma depends_on_edge: "depends_on s n m \<Longrightarrow> (n_key n, n_key m) \<in> set (project_edges s (n_project n)) \<and> n_project m = n_project n"
  by (force simp: depends_on_def set_node_deps project_edges_def dep_in_iff image_iff)

lemma invalidate_safe: "invalidate ev pid k s = (keys, s') \<Longrightarrow> safe s s'"
proof -
  assume i: "invalidate ev pid k s = (keys, s')"
  note e = invalidate_effect[OF i]
  show ?thesis
  proof (rule safe_nodes[where P = "goes_stale s pid k" and f = "stale ev"])
    show "s' = s\<lparr>nodes := update_where (goes_stale s pid k) (stale ev) (nodes s)\<rparr>" using e(1,2) by simp
  next
    fix n m assume "n \<in> set (nodes s)" "m \<in> set (nodes s)" "goes_stale s pid k m" "depends_on s n m"
    then have "goes_stale s pid k n \<or> n_status n = SUPERSEDED"
      using depends_on_edge[of s n m] by (auto simp: goes_stale_def intro: converse_rtrancl_into_rtrancl)
    then show "n_status (if goes_stale s pid k n then stale ev n else n) \<noteq> VERIFIED" by auto
  qed (auto simp: keeps_node_def stale_def goes_stale_def node_ok_def)
qed

text \<open>After invalidation neither the node nor anything that depends on it is verified.\<close>

lemma invalidate_unverified:
  assumes i: "invalidate ev pid k s = (keys, s1)"
  shows "n \<in> set (nodes s1) \<Longrightarrow> is_node pid k n \<Longrightarrow> n_status n \<noteq> VERIFIED"
    and "n \<in> set (nodes s1) \<Longrightarrow> m \<in> set (nodes s1) \<Longrightarrow> is_node pid k m \<Longrightarrow> depends_on s1 n m \<Longrightarrow> n_status n \<noteq> VERIFIED"
proof -
  note e = invalidate_effect[OF i]
  have un: "n_status n \<noteq> VERIFIED" if n: "n \<in> set (nodes s1)" "n_project n = pid" "(n_key n, k) \<in> (set (project_edges s pid))\<^sup>*" for n
  proof -
    obtain x where x: "x \<in> set (nodes s)" "n = (if goes_stale s pid k x then stale ev x else x)"
      using n(1) unfolding e(1) update_where_def set_map by blast
    then have "goes_stale s pid k x \<or> n_status x = SUPERSEDED" using n(2,3) by (auto simp: goes_stale_def split: if_splits)
    with x show ?thesis by auto
  qed
  show "n_status n \<noteq> VERIFIED" if "n \<in> set (nodes s1)" "is_node pid k n" using un that by (auto simp: is_node_def)
  assume a: "n \<in> set (nodes s1)" "m \<in> set (nodes s1)" "is_node pid k m" "depends_on s1 n m"
  have "project_edges s1 pid = project_edges s pid" using invalidate_frame(2)[OF i] by (simp add: project_edges_def)
  then have "(n_key n, k) \<in> set (project_edges s pid)" "n_project n = pid"
    using depends_on_edge[OF a(4)] a(3) by (auto simp: is_node_def)
  then show "n_status n \<noteq> VERIFIED" using un[OF a(1)] by blast
qed

section \<open>Revising, splitting, superseding\<close>

lemma dependency_snapshot_other:
  assumes "nodes s' = update_where (is_node pid k) f (nodes s)"
    and "\<And>p x. (p, x) \<noteq> (pid, k) \<Longrightarrow> node_deps s' p x = node_deps s p x"
    and "\<And>m. n_project (f m) = n_project m \<and> n_key (f m) = n_key m"
    and "(p, x) \<noteq> (pid, k)" "\<not> (p = pid \<and> k \<in> set (node_deps s p x))"
  shows "dependency_snapshot s' p x = dependency_snapshot s p x"
proof -
  let ?t = "s\<lparr>nodes := update_where (is_node pid k) f (nodes s)\<rparr>"
  have "dependency_snapshot s' p x = dependency_snapshot ?t p x"
    using assms(1,2,4) by (simp add: dependency_snapshot_def node_deps_def)
  also have "\<dots> = dependency_snapshot s p x"
    by (rule dependency_snapshot_update[where P = "is_node pid k" and f = f]) (use assms(3,5) in \<open>auto simp: is_node_def\<close>)
  finally show ?thesis .
qed

lemma revise_node_safe: "revise_node ev pid k ex re goal acc nd s = Inr (r, s') \<Longrightarrow> safe s s'"
proof (rule safeI)
  assume a: "revise_node ev pid k ex re goal acc nd s = Inr (r, s')" and inv: "sys_inv s"
  then have g: "graph_inv s" by (simp add: sys_inv_def)
  obtain old ds goal' checks keys s1 n pl where old: "node_at s pid k = Some old" "n_revision old = ex"
    and i: "invalidate ev pid k s = (keys, s1)"
    and s': "s' = add_event ev pid (Some k) ''node_revised'' pl (snapshot_revision ev n ds (insert_deps pid k ds (delete_deps pid k
       (update_node pid k (\<lambda>n. n\<lparr>n_revision := ex + 1, n_goal := goal',
        n_contract := checks, n_contract_hash := digest ev (contract_py checks), n_updated := now_at ev\<rparr>) s1))))"
    by (rule revise_node_cases[OF a g])
  let ?f = "\<lambda>n. n\<lparr>n_revision := ex + 1, n_goal := goal', n_contract := checks,
     n_contract_hash := digest ev (contract_py checks), n_updated := now_at ev\<rparr>"
  have s1: "sys_inv s1 \<and> evolves s s1" using invalidate_safe[OF i] inv by (simp add: safe_def)
  have nodes': "nodes s' = update_where (is_node pid k) ?f (nodes s1)" by (simp add: s')
  have nd: "node_deps s' p x = node_deps s1 p x" if "(p, x) \<noteq> (pid, k)" for p x
  proof -
    have "filter (\<lambda>d. d_project d = p \<and> d_node d = x) (deps s') = filter (\<lambda>d. d_project d = p \<and> d_node d = x) (deps s1)"
      using that by (auto simp: s' filter_map comp_def intro!: filter_cong)
    then show ?thesis by (simp add: node_deps_def)
  qed
  have rv: "n_revision m = ex" if m: "m \<in> set (nodes s1)" "is_node pid k m" for m
  proof -
    obtain x where x: "x \<in> set (nodes s)" "m = (if goes_stale s pid k x then stale ev x else x)"
      using m(1) unfolding invalidate_effect(1)[OF i] update_where_def set_map by blast
    then have "x = old" using node_at_unique[OF graph_inv_ids[OF g] old(1)] m(2) by (auto simp: is_node_def split: if_splits)
    then show ?thesis using x(2) old(2) by auto
  qed
  have "verified_kept s1 s'"
  proof (unfold verified_kept_def, intro ballI impI)
    fix n' assume n': "n' \<in> set (nodes s')" "n_status n' = VERIFIED"
    then obtain m where m: "m \<in> set (nodes s1)" "n' = (if is_node pid k m then ?f m else m)"
      unfolding nodes' update_where_def set_map by blast
    have nk: "\<not> is_node pid k m" using invalidate_unverified(1)[OF i m(1)] m(2) n'(2) by (auto split: if_splits)
    then have n'm: "n' = m" using m(2) by simp
    have "\<not> (n_project m = pid \<and> k \<in> set (node_deps s1 (n_project m) (n_key m)))"
    proof
      assume d: "n_project m = pid \<and> k \<in> set (node_deps s1 (n_project m) (n_key m))"
      then obtain t where t: "node_at s1 pid k = Some t"
        using graph_inv_dep_node[of s1 k pid "n_key m"] s1 node_at_exists by (auto simp: sys_inv_def)
      then have "t \<in> set (nodes s1)" "is_node pid k t" using find_SomeD[of "is_node pid k" "nodes s1" t] by (auto simp: node_at_def)
      moreover from this have "depends_on s1 m t" using d by (auto simp: depends_on_def is_node_def)
      ultimately show False using invalidate_unverified(2)[OF i m(1)] n'(2) n'm by blast
    qed
    then have "dependency_snapshot s' (n_project m) (n_key m) = dependency_snapshot s1 (n_project m) (n_key m)"
      using nk by (intro dependency_snapshot_other[OF nodes']) (auto simp: nd is_node_def)
    then show "\<exists>n \<in> set (nodes s1). node_core n' = node_core n \<and>
      dependency_snapshot s' (n_project n) (n_key n) = dependency_snapshot s1 (n_project n) (n_key n)"
      using m(1) n'm by blast
  qed
  moreover have "grows keeps_node (nodes s1) (nodes s')"
    unfolding nodes' using rv by (intro node_rows.table_update_grows) (auto simp: keeps_node_def)
  moreover have "graph_inv s'" by (rule revise_node_effect(1)[OF a g])
  ultimately have "safe s1 s'" by (intro safe_graph) (auto simp: s' logs_grow_def)
  then show "sys_inv s' \<and> evolves s s'" using s1 evolves_trans by (auto simp: safe_def)
qed

lemma split_node_safe: "split_node ev pid k ex children re s = Inr (r, s') \<Longrightarrow> safe s s'"
proof -
  assume "split_node ev pid k ex children re s = Inr (r, s')"
  then obtain new_keys s1 r1 ds where "add_nodes ev pid children s = Inr (new_keys, s1)"
    and "revise_node ev pid k ex re None None (Some (py_strs ds)) s1 = Inr (r1, s')"
    by (auto simp: split_node_def Let_def)
  then show ?thesis using add_nodes_safe revise_node_safe safe_trans by blast
qed

lemma supersede_node_safe: "supersede_node ev pid k ex re s = Inr (r, s') \<Longrightarrow> safe s s'"
proof (cases "s' = s")
  case False
  assume a: "supersede_node ev pid k ex re s = Inr (r, s')"
  obtain keys s1 where i: "invalidate ev pid k s = (keys, s1)" by force
  let ?f = "\<lambda>n. n\<lparr>n_status := SUPERSEDED, n_updated := now_at ev\<rparr>"
  from a False obtain pl where s': "s' = add_event ev pid (Some k) ''node_superseded'' pl (update_node pid k ?f s1)"
    by (auto simp: supersede_node_def i get_node_iff Let_def split: if_splits)
  have "safe s1 (update_node pid k ?f s1)"
    by (rule safe_unverified[where P = "is_node pid k" and f = ?f])
       (use invalidate_unverified(1)[OF i] in \<open>auto simp: update_node_def keeps_node_def node_ok_def\<close>)
  then show ?thesis unfolding s' using invalidate_safe[OF i] safe_trans safe_event by blast
qed simp

end
