(* ===== verification/Safe_Claims.thy ===== *)
theory Safe_Claims
  imports Safe_Graph
begin

text \<open>
  The project metadata, presence and claim operations are safe: metadata and presence are quiet,
  claim operations only insert claims, retire live ones or write lease columns.
\<close>

section \<open>Rules for operations\<close>

text \<open>
  An operation on \<open>s\<close> yields \<open>R\<close> when every state it commits is related to \<open>s\<close>. The rules
  follow the structure of the operations, so a proof is a walk over the guards.
\<close>

definition yields :: "(db \<Rightarrow> db \<Rightarrow> bool) \<Rightarrow> db \<Rightarrow> ('a \<times> db) result \<Rightarrow> bool" where
  "yields R s m \<longleftrightarrow> (\<forall>x t. m = Inr (x, t) \<longrightarrow> R s t)"

lemma yieldsI: "(\<And>x t. m = Inr (x, t) \<Longrightarrow> R s t) \<Longrightarrow> yields R s m"
  by (simp add: yields_def)

lemma yieldsD: "yields R s m \<Longrightarrow> m = Inr (x, t) \<Longrightarrow> R s t"
  by (simp add: yields_def)

lemma yields_bind: "(\<And>x. m = Inr x \<Longrightarrow> yields R s (f x)) \<Longrightarrow> yields R s (bindE m f)"
  by (auto simp: yields_def)

lemma yields_Inl: "yields R s (Inl e)"
  by (simp add: yields_def)

lemma yields_Inr: "R s t \<Longrightarrow> yields R s (Inr (x, t))"
  by (simp add: yields_def)

lemma yields_if: "(b \<Longrightarrow> yields R s m) \<Longrightarrow> (\<not> b \<Longrightarrow> yields R s m') \<Longrightarrow> yields R s (if b then m else m')"
  by simp

lemma yields_option: "(x = None \<Longrightarrow> yields R s m) \<Longrightarrow> (\<And>y. x = Some y \<Longrightarrow> yields R s (f y)) \<Longrightarrow> yields R s (case x of None \<Rightarrow> m | Some y \<Rightarrow> f y)"
  by (cases x) simp_all

lemma yields_prod: "(\<And>a b. x = (a, b) \<Longrightarrow> yields R s (f a b)) \<Longrightarrow> yields R s (case x of (a, b) \<Rightarrow> f a b)"
  by (cases x) simp

lemma yields_list: "(x = [] \<Longrightarrow> yields R s m) \<Longrightarrow> (\<And>y ys. x = y # ys \<Longrightarrow> yields R s (f y ys)) \<Longrightarrow> yields R s (case x of [] \<Rightarrow> m | y # ys \<Rightarrow> f y ys)"
  by (cases x) simp_all

lemma yields_pub_result: "R s t \<Longrightarrow> yields R s (pub_result ev aid t)"
  by (auto simp: yields_def pub_result_def)

lemmas yields_rules = yields_bind yields_Inl yields_Inr yields_if yields_option yields_prod yields_list yields_pub_result

locale step_relation =
  fixes R :: "db \<Rightarrow> db \<Rightarrow> bool"
  assumes step_refl: "R s s"
    and step_trans: "R s t \<Longrightarrow> R t u \<Longrightarrow> R s u"
begin

lemma yields_from: "R s t \<Longrightarrow> yields R t m \<Longrightarrow> yields R s m"
  using step_trans by (auto simp: yields_def)

lemma yields_seq: "yields R s m \<Longrightarrow> (\<And>x t. m = Inr (x, t) \<Longrightarrow> yields R t (f (x, t))) \<Longrightarrow> yields R s (bindE m f)"
  using step_trans by (fastforce simp: yields_def)

lemma fold_steps: "(\<And>x t. R t (f x t)) \<Longrightarrow> R s (fold f xs s)"
  by (induction xs arbitrary: s) (auto intro: step_trans step_refl)

lemma foldE_steps: "(\<And>x t u. f x t = Inr u \<Longrightarrow> R t u) \<Longrightarrow> foldE f xs s = Inr t \<Longrightarrow> R s t"
proof -
  assume f: "\<And>x t u. f x t = Inr u \<Longrightarrow> R t u" and a: "foldE f xs s = Inr t"
  show "R s t" by (rule foldE_invariant[OF a, where P = "R s"]) (use f step_refl step_trans in blast)+
qed

lemma fold_acc_steps: "(\<And>x out t. R t (snd (f x (out, t)))) \<Longrightarrow> R (snd acc) (snd (fold f xs acc))"
proof (induction xs arbitrary: acc)
  case (Cons x xs)
  have "R (snd acc) (snd (f x acc))" using Cons.prems[of "snd acc" x "fst acc"] by simp
  moreover have "R (snd (f x acc)) (snd (fold f xs (f x acc)))" by (rule Cons.IH[OF Cons.prems])
  ultimately show ?case unfolding fold_Cons comp_def by (rule step_trans)
qed (simp add: step_refl)

end

interpretation quietly: step_relation quiet
  by unfold_locales (simp, rule quiet_trans)

interpretation safely: step_relation safe
  by unfold_locales (simp, rule safe_trans)

section \<open>Project metadata\<close>

lemma quiet_then: "quiet s t \<Longrightarrow> quiet s (add_event ev pid nk ty pl t)"
  using quiet_trans quiet_add_event by blast

lemma quiet_meta_tables [simp]:
  "quiet s (s\<lparr>bindings := x1\<rparr>)" "quiet s (s\<lparr>policies := x2\<rparr>)" "quiet s (s\<lparr>enforcements := x3\<rparr>)" "quiet s (s\<lparr>holds := x4\<rparr>)"
  "quiet s (s\<lparr>links := x5\<rparr>)" "quiet s (s\<lparr>retirements := x6\<rparr>)" "quiet s (s\<lparr>declarations := x7\<rparr>)" "quiet s (s\<lparr>drivers := x8\<rparr>)"
  "quiet s (s\<lparr>waits := x9\<rparr>)" "quiet s (s\<lparr>audits := x10\<rparr>)"
  by (simp_all add: quiet_def logs_extend_def)

lemma bind_source_quiet: "bind_source ev c pid repo common ex s = Inr (r, s') \<Longrightarrow> quiet s s'"
  by (auto simp: bind_source_def Let_def intro!: quiet_then)

lemma put_policy_quiet [simp]: "quiet s (put_policy ev c pid rv d re s)"
  by (simp add: put_policy_def Let_def)

lemma put_enforcement_quiet [simp]: "quiet s (put_enforcement ev c pid f x re s)"
  by (simp add: put_enforcement_def)

lemma set_dispatch_quiet: "set_dispatch ev c pid d ex re s = Inr (r, s') \<Longrightarrow> quiet s s'"
  by (auto simp: set_dispatch_def Let_def intro!: quiet_then)

lemma switch_quiet: "quiet s (add_event ev pid nk ty pl (put_enforcement ev c pid f x re (put_policy ev c pid rv d re s)))"
  by (rule quiet_then, rule quiet_trans[OF put_policy_quiet put_enforcement_quiet])

lemma set_claim_enforcement_quiet: "set_claim_enforcement ev c pid sw ex re s = Inr (r, s') \<Longrightarrow> quiet s s'"
  by (auto simp: set_claim_enforcement_def Let_def switch_quiet)

lemma set_review_independence_quiet: "set_review_independence ev c pid sw ex re s = Inr (r, s') \<Longrightarrow> quiet s s'"
  by (auto simp: set_review_independence_def Let_def switch_quiet)

lemma set_hold_quiet: "set_hold ev c pid k held ex re s = Inr (r, s') \<Longrightarrow> quiet s s'"
  by (auto simp: set_hold_def Let_def intro!: quiet_then)

lemma protecting_hold_quiet:
  "(if protect then bindE (set_hold ev c pid k True ex l t) (\<lambda>(_, s2). Inr s2) else Inr t) = Inr u \<Longrightarrow> quiet s t \<Longrightarrow> quiet s u"
  using set_hold_quiet quiet_trans by (fastforce split: if_splits)

lemma add_reference_quiet: "add_reference ev c pid k rid kind ref label prov status art rep protect s = Inr (r, s') \<Longrightarrow> quiet s s'"
  by (erule yieldsD[rotated], unfold add_reference_def Let_def)
     (intro yields_rules quiet_refl, rule quiet_then, erule protecting_hold_quiet, simp)

lemma retire_context_run_protection_quiet:
  "retire_context_run_protection ev c pid k rid run ex ph rk re s = Inr (r, s') \<Longrightarrow> quiet s s'"
  by (erule yieldsD[rotated], unfold retire_context_run_protection_def Let_def)
     (intro yields_rules quiet_refl quiet_then quiet_meta_tables)

lemma checkpoint_controller_quiet: "checkpoint_controller ev c run s = Inr (r, s') \<Longrightarrow> quiet s s'"
  by (auto simp: checkpoint_controller_def Let_def split: option.splits if_splits)

section \<open>Presence\<close>

lemma presence_audit_quiet: "quiet s t \<Longrightarrow> quiet s (presence_audit ev d st ca act t)"
  by (auto simp: presence_audit_def intro: quiet_trans)

lemma clear_declaration_quiet: "quiet s (snd (clear_declaration ev d ca act s))"
  by (simp add: clear_declaration_def presence_audit_quiet)

lemma declare_presence_quiet: "declare_presence ev d st re rt who s = Inr (r, s') \<Longrightarrow> quiet s s'"
  using clear_declaration_quiet[of s ev] unfolding declare_presence_def
  by (auto simp: Let_def presence_audit_quiet split: option.splits if_splits dest!: sym[of "clear_declaration _ _ _ _ _"])
     (metis snd_conv)+

lemma wait_begin_quiet: "quiet s (snd (wait_begin ev d t s))"
  unfolding wait_begin_def Let_def snd_conv by (rule quiet_trans[OF _ clear_declaration_quiet]) simp

lemma wait_end_quiet: "quiet s (wait_end ev wid s)"
  by (simp add: wait_end_def)

section \<open>Claims\<close>

lemma safe_history: "safe s t \<Longrightarrow> safe s (add_history ev act c st re t)"
  using safe_trans safe_quiet(2) by blast

text \<open>A change of claims and presence only.\<close>

lemma safe_durable:
  assumes "claims_ok (claims s) \<Longrightarrow> durable s' = durable s \<and> claim_logs_grow s s' \<and> claims_ok (claims s') \<and> grows moves_claim (claims s) (claims s')"
  shows "safe s s'"
proof (rule safeI)
  assume inv: "sys_inv s"
  then have c: "durable s' = durable s" "claim_logs_grow s s'" "claims_ok (claims s')" "grows moves_claim (claims s) (claims s')"
    using assms by (simp_all add: sys_inv_def)
  note d = durableD[OF c(1)]
  have "sys_inv s'"
    using inv c(3) graph_inv_cong[OF d(1-3)] attempts_ok_cong[OF d(5)] receipts_ok_cong[OF d(6,7)] verified_inv_cong[OF d(2,3,5-7)]
    by (simp add: sys_inv_def)
  moreover have "evolves s s'"
    using c(2,4) d by (simp add: evolves_def logs_extend_def claim_logs_grow_def node_rows.table_refl attempt_rows.table_refl)
  ultimately show "sys_inv s' \<and> evolves s s'" ..
qed

lemma grows_keeps: "list_all2 keeps_claim cs cs' \<Longrightarrow> grows moves_claim cs cs'"
  by (rule claim_rows.table_rows) (rule list_keeps_moves)

lemma grows_keeps_append: "list_all2 keeps_claim cs cs' \<Longrightarrow> grows moves_claim cs (cs' @ ds)"
  using grows_keeps[of cs cs'] claim_rows.table_append[of cs' ds] claim_rows.table_trans by blast

lemma sweep_conn_safe: "safe s (sweep_conn ev act pid cur nk s)"
proof (rule safe_durable)
  assume ok: "claims_ok (claims s)"
  note e = sweep_conn_effect[OF ok]
  show "durable (sweep_conn ev act pid cur nk s) = durable s \<and> claim_logs_grow s (sweep_conn ev act pid cur nk s) \<and>
      claims_ok (claims (sweep_conn ev act pid cur nk s)) \<and> grows moves_claim (claims s) (claims (sweep_conn ev act pid cur nk s))"
    using durable_non_claims[OF e(1)] e(4) claims_ok_list_update[OF ok e(3)] grows_keeps[OF e(3)] by blast
qed

lemma sweep_safe: "safe s (sweep ev c pid s)"
  by (simp add: sweep_def sweep_conn_safe)

lemma claim_node_safe: "claim_node ev c pid k pu ex rk ls ws sub s = Inr (r, s') \<Longrightarrow> safe s s'"
proof (rule safe_durable)
  assume a: "claim_node ev c pid k pu ex rk ls ws sub s = Inr (r, s')" and ok: "claims_ok (claims s)"
  obtain v idem where r: "r = (v, idem)" by force
  note e = claim_node_effect[OF a[unfolded r] ok]
  have "grows moves_claim (claims s) (claims s')"
    using e(4,5) claim_rows.table_refl grows_keeps_append by (cases idem) (simp, metis)
  then show "durable s' = durable s \<and> claim_logs_grow s s' \<and> claims_ok (claims s') \<and> grows moves_claim (claims s) (claims s')"
    using e(1-3) by blast
qed

lemma release_claim_safe: "release_claim ev c pid cid fe re s = Inr (r, s') \<Longrightarrow> safe s s'"
proof (rule safe_durable)
  assume a: "release_claim ev c pid cid fe re s = Inr (r, s')" and ok: "claims_ok (claims s)"
  obtain v idem where r: "r = (v, idem)" by force
  show "durable s' = durable s \<and> claim_logs_grow s s' \<and> claims_ok (claims s') \<and> grows moves_claim (claims s) (claims s')"
    using release_claim_effect[OF a[unfolded r] ok] grows_keeps by blast
qed

lemma get_claim_safe: "safe s (snd (get_claim ev c pid cid s))"
  using sweep_safe[of s ev c pid] by (simp add: get_claim_def Let_def)

lemma list_claims_safe: "safe s (snd (list_claims ev c pid ks sts d lim s))"
  using sweep_safe[of s ev c pid] by (auto simp: list_claims_def Let_def split: sum.split)

section \<open>Heartbeats\<close>

lemma lease_columns_keep [simp]: "keeps_attempt a (a\<lparr>a_lease := x, a_heartbeat := y\<rparr>)"
  by (simp add: keeps_attempt_def attempt_ident_def)

lemma renew_claim_safe: "safe s (snd (renew_claim ev cl (out, s)))"
  by (simp add: renew_claim_def Let_def safe_update_claim keeps_claim_def)

lemma beat_claim_safe: "safe s (snd (beat_claim ev pid d x (out, s)))"
  by (cases x) (simp add: beat_claim_def renew_claim_safe split: option.splits)

lemma beat_attempt_safe: "safe s (snd (beat_attempt ev pid d x (out, s)))"
  by (cases x) (simp add: beat_attempt_def Let_def safe_update_attempt split: option.splits)

lemma beat_subagent_safe: "safe s (snd (beat_subagent ev pid d l (out, s)))"
proof -
  have "safe (snd (out, s)) (snd (fold (renew_claim ev) rows (out, s)))" for rows
    by (rule safely.fold_acc_steps) (rule renew_claim_safe)
  then show ?thesis by (simp add: beat_subagent_def Let_def)
qed

lemma heartbeat_safe: "heartbeat ev c pid cs as subs s = Inr (r, s') \<Longrightarrow> safe s s'"
proof -
  assume "heartbeat ev c pid cs as subs s = Inr (r, s')"
  then obtain d where d: "fold (beat_subagent ev pid d) subs (fold (beat_attempt ev pid d) as
       (fold (beat_claim ev pid d) cs ([], mark_back ev (Some d) ''heartbeat'' s))) = (r, s')"
    by (auto simp: heartbeat_def Let_def)
  let ?s0 = "mark_back ev (Some d) ''heartbeat'' s"
  let ?c = "fold (beat_claim ev pid d) cs ([], ?s0)"
  let ?a = "fold (beat_attempt ev pid d) as ?c"
  have 1: "safe s ?s0" by (rule safe_quiet(5))
  have 2: "safe ?s0 (snd ?c)" using safely.fold_acc_steps[of "beat_claim ev pid d" "([], ?s0)" cs] beat_claim_safe by simp
  have 3: "safe (snd ?c) (snd ?a)" by (rule safely.fold_acc_steps) (rule beat_attempt_safe)
  have 4: "safe (snd ?a) (snd (fold (beat_subagent ev pid d) subs ?a))" by (rule safely.fold_acc_steps) (rule beat_subagent_safe)
  show ?thesis using safe_trans[OF safe_trans[OF safe_trans[OF 1 2] 3] 4] unfolding d by simp
qed

end
