(* ===== verification/Safe_Attempts.thy ===== *)
theory Safe_Attempts
  imports Safe_Claims
begin

text \<open>
  The attempt operations are safe. The lemmas of \<open>Safe_Rows\<close> give the steps: a reservation appends
  an attempt to a node that is not verified, pins and launches write columns of an active attempt.
\<close>

section \<open>Columns of an attempt\<close>

text \<open>Writing the context, the status of an active attempt, the error text.\<close>

lemma keeps_columns [simp]:
  "keeps_attempt a (a\<lparr>a_context := x, a_updated := t\<rparr>)"
  "a_status a \<in> set ACTIVE \<Longrightarrow> keeps_attempt a (a\<lparr>a_status := st, a_updated := t\<rparr>)"
  "a_status a \<in> set ACTIVE \<Longrightarrow> keeps_attempt a (a\<lparr>a_status := st, a_error := e, a_updated := t\<rparr>)"
  by (auto simp: keeps_attempt_def attempt_ident_def ACTIVE_def)

lemma active_not_candidate: "a_status a \<in> set ACTIVE \<Longrightarrow> a_status a \<noteq> Candidate"
  by (auto simp: ACTIVE_def)

lemma get_attempt_own: "get_attempt s aid = Inr a \<Longrightarrow> sys_inv s \<Longrightarrow> x \<in> set (attempts s) \<Longrightarrow> a_id x = aid \<Longrightarrow> x = a"
  using get_attemptD[of s aid a] unique_onD[of a_id "attempts s" x a] by (simp add: sys_inv_def attempts_ok_def)

lemma set_context_safe: "safe s (set_context ev aid ctx s)"
  unfolding set_context_def by (rule safe_update_attempt) simp

text \<open>Writing an active attempt's row, through the row that was read.\<close>

lemma safe_active:
  assumes "get_attempt s aid = Inr a" "a_status a \<in> set ACTIVE" "keeps_attempt a (f a)"
  shows "safe s (update_attempt aid f s)"
  by (rule safe_update_attempt) (use assms get_attempt_own active_not_candidate in blast)

lemma set_attempt_status_safe:
  "get_attempt s aid = Inr a \<Longrightarrow> a_status a \<in> set ACTIVE \<Longrightarrow> safe s (set_attempt_status ev aid st s)"
  unfolding set_attempt_status_def by (rule safe_active, assumption+) (rule keeps_columns(2))

lemma bind_claim_safe: "safe s (bind_claim ev aid cid s)"
  unfolding bind_claim_def by (rule safe_update_claim) (simp add: keeps_claim_def)

section \<open>Between reservation and launch\<close>

lemma record_preflight_safe: "record_preflight ev aid rep err s = Inr (r, s') \<Longrightarrow> safe s s'"
  by (erule yieldsD[rotated], unfold record_preflight_def Let_def)
     (intro yields_rules safe_attempt_event safe_refl; erule safe_active; simp add: ACTIVE_def)

lemma pin_relay_safe: "pin_relay ev aid relay s = Inr (r, s') \<Longrightarrow> safe s s'"
  by (erule yieldsD[rotated], unfold pin_relay_def Let_def)
     (intro yields_rules safe_attempt_event safe_refl set_context_safe)

lemma safe_emit_prior: "safe s t \<Longrightarrow> safe s (emit_prior ev pid k aid v b t)"
  using safe_trans safe_quiet(4) by blast

lemma pin_prior_candidate_safe: "pin_prior_candidate ev aid prior v s = Inr (r, s') \<Longrightarrow> safe s s'"
  by (erule yieldsD[rotated], unfold pin_prior_candidate_def Let_def)
     (intro yields_rules safe_emit_prior safe_refl set_context_safe)

lemma reconcile_prior_candidate_safe: "reconcile_prior_candidate ev aid ex v s = Inr (r, s') \<Longrightarrow> safe s s'"
  by (erule yieldsD[rotated], unfold reconcile_prior_candidate_def Let_def)
     (intro yields_rules safe_emit_prior safe_refl set_context_safe)

lemma pin_host_contract_safe: "pin_host_contract ev aid d s = Inr (r, s') \<Longrightarrow> safe s s'"
  by (erule yieldsD[rotated], unfold pin_host_contract_def Let_def)
     (intro yields_rules safe_attempt_event safe_refl set_context_safe)

section \<open>Launch\<close>

lemma claim_launch_safe: "claim_launch ev aid d adm act cid fe s = Inr (r, s') \<Longrightarrow> safe s s'"
proof (erule yieldsD[rotated], unfold claim_launch_def Let_def, intro yields_rules safe_attempt_event safe_refl)
  fix a assume "get_attempt s aid = Inr a" "\<not> a_status a \<noteq> Reserved"
  then have l: "safe s (set_attempt_status ev aid st s)" for st
    using set_attempt_status_safe[of s aid a] by (simp add: ACTIVE_def)
  then show "safe s (set_attempt_status ev aid Superseded s)" .
  fix rebind
  show "safe s (case rebind of None \<Rightarrow> set_attempt_status ev aid Launching s | Some c \<Rightarrow> bind_claim ev aid (c_id c) (set_attempt_status ev aid Launching s))"
    using l safe_trans[OF l bind_claim_safe] by (simp split: option.splits)
qed

lemma retire_reservation_safe: "retire_reservation ev aid re s = Inr (r, s') \<Longrightarrow> safe s s'"
  by (erule yieldsD[rotated], unfold retire_reservation_def Let_def)
     (intro yields_rules safe_attempt_event safe_refl; erule safe_active; simp add: ACTIVE_def)

lemma launch_uncertain_safe: "launch_uncertain ev aid re s = Inr (r, s') \<Longrightarrow> safe s s'"
  by (erule yieldsD[rotated], unfold launch_uncertain_def Let_def)
     (intro yields_rules safe_attempt_event safe_refl; erule safe_active; auto simp: ACTIVE_def)

section \<open>Reservation\<close>

lemma admissionD:
  assumes "admission ev pid k ex rq n s = Inr (pins, cl, glass)"
  shows "n_revision n = ex" "n_status n \<noteq> VERIFIED" "n_status n \<noteq> SUPERSEDED" "pins = dependency_snapshot s pid k" "list_all pin_verified pins"
  using assms by (auto simp: admission_def Let_def)

lemma update_node_open_safe:
  assumes "\<And>n. sys_inv s \<Longrightarrow> n \<in> set (nodes s) \<Longrightarrow> is_node pid k n \<Longrightarrow> n_status n \<noteq> VERIFIED \<and> n_status n \<noteq> SUPERSEDED" "st \<notin> {VERIFIED, SUPERSEDED}"
  shows "safe s (update_node pid k (\<lambda>n. n\<lparr>n_status := st, n_updated := t\<rparr>) s)"
  by (rule safe_unverified[where P = "is_node pid k" and f = "\<lambda>n. n\<lparr>n_status := st, n_updated := t\<rparr>"])
     (use assms in \<open>auto simp: update_node_def keeps_node_def node_ok_def\<close>)

lemma replay_safe: "replay ev pid k rq h old s = Inr (r, s') \<Longrightarrow> safe s s'"
  by (erule yieldsD[rotated], unfold replay_def Let_def)
     (intro yields_rules safe_refl bind_claim_safe)

lemma admit_safe:
  assumes a: "admit ev (a_project x) (a_node x) rq x relay cl glass prior s = Inr (r, s')"
    and x: "a_artifact x = None" "a_status x \<in> set ACTIVE"
    and n: "\<And>n. sys_inv s \<Longrightarrow> n \<in> set (nodes s) \<Longrightarrow> is_node (a_project x) (a_node x) n \<Longrightarrow> n_status n \<noteq> VERIFIED \<and> n_status n \<noteq> SUPERSEDED"
  shows "safe s s'"
proof (rule safeI)
  assume inv: "sys_inv s"
  let ?s1 = "s\<lparr>attempts := attempts s @ [x]\<rparr>"
  define s2 where "s2 = (case cl of None \<Rightarrow> ?s1 | Some c \<Rightarrow> bind_claim ev (a_id x) (c_id c) ?s1)"
  define s3 where "s3 = (case rq_external rq of None \<Rightarrow> s2 | Some e \<Rightarrow>
                 s2\<lparr>owners := owners s2 @ [\<lparr>ow_attempt = a_id x, ow_project = a_project x, ow_node = a_node x, ow_harness = ex_harness e,
                     ow_external = ex_id e, ow_status = OwActive, ow_admitted = now_at ev, ow_updated = now_at ev, ow_settled = None\<rparr>]\<rparr>)"
  define s4 where "s4 = update_node (a_project x) (a_node x) (\<lambda>n. n\<lparr>n_status := OPEN, n_updated := now_at ev\<rparr>) s3"
  define s5 where "s5 = add_event ev (a_project x) (Some (a_node x))
    (if rq_external rq = None then ''attempt_reserved'' else ''external_attempt_registered'') (reserved_payload x rq relay cl glass) s4"
  have c: "\<not> attempt_conflict s x" using a by (simp add: admit_def)
  have 1: "safe s ?s1"
    by (rule safe_new_attempt[OF refl]) (use c x n in \<open>auto simp: attempt_conflict_def list_ex_iff\<close>)
  have 2: "safe ?s1 s2" using bind_claim_safe by (auto simp: s2_def split: option.splits)
  have 3: "safe s2 s3" using quiet_safe[OF quiet_tables(1)] by (auto simp: s3_def split: option.splits)
  have "nodes s3 = nodes s" by (auto simp: s3_def s2_def bind_claim_def update_claim_def split: option.splits)
  then have 4: "safe s3 s4" unfolding s4_def by (intro update_node_open_safe) (use n[OF inv] in auto)
  have 5: "safe s s5" unfolding s5_def by (rule safe_event) (rule safe_trans[OF safe_trans[OF safe_trans[OF 1 2] 3] 4])
  have "s' = (case prior of None \<Rightarrow> s5 | Some v \<Rightarrow> if v = PNone then s5 else emit_prior ev (a_project x) (a_node x) (a_id x) v False s5)"
    using a unfolding admit_def Let_def s2_def[symmetric] s3_def[symmetric] s4_def[symmetric] s5_def[symmetric] pub_result_def by auto
  then have "safe s s'" using 5 safe_emit_prior[OF 5] by (simp split: option.splits if_splits)
  then show "sys_inv s' \<and> evolves s s'" using inv by (simp add: safe_def)
qed

lemma new_attempt_simps [simp]:
  "a_project (new_attempt ev pid k ex n pins ctx rq h) = pid" "a_node (new_attempt ev pid k ex n pins ctx rq h) = k"
  "a_artifact (new_attempt ev pid k ex n pins ctx rq h) = None" "a_status (new_attempt ev pid k ex n pins ctx rq h) \<in> set ACTIVE"
  "a_revision (new_attempt ev pid k ex n pins ctx rq h) = ex" "a_pins (new_attempt ev pid k ex n pins ctx rq h) = pins"
  "a_contract_hash (new_attempt ev pid k ex n pins ctx rq h) = n_contract_hash n"
  "a_context (new_attempt ev pid k ex n pins ctx rq h) = ctx" "a_id (new_attempt ev pid k ex n pins ctx rq h) = fresh_id ev ''attempt-'' 0"
  "a_request_key (new_attempt ev pid k ex n pins ctx rq h) = rq_key rq" "a_request_hash (new_attempt ev pid k ex n pins ctx rq h) = h"
  by (simp_all add: new_attempt_def Let_def ACTIVE_def)

lemma get_node_own: "get_node s pid k = Inr n \<Longrightarrow> sys_inv s \<Longrightarrow> m \<in> set (nodes s) \<Longrightarrow> is_node pid k m \<Longrightarrow> m = n"
  using node_at_unique[of s pid k n m] by (auto simp: get_node_iff sys_inv_def is_node_def)

lemma reserve_once_safe: "reserve_once ev pid k ex rq chk seen s = Inr (r, s') \<Longrightarrow> safe s s'"
proof (erule yieldsD[rotated], unfold reserve_once_def Let_def, intro yields_rules)
  let ?s0 = "if rq_external rq \<noteq> None then mark_back ev (rq_owner rq) ''start_external_attempt'' s else s"
  have s0: "safe s ?s0" using safe_quiet(5) by simp
  then show "safe s ?s0" .
  fix n assume n: "get_node ?s0 pid k = Inr n"
  {
    fix h old x p t assume "replay ev pid k rq h old ?s0 = Inr x" "x = (p, t)"
    then show "safe s t" using safe_trans[OF s0 replay_safe] by blast
  next
    fix pins x cl glass h relay prior ctx y z p t
    assume adm: "admission ev pid k ex rq n ?s0 = Inr x" "x = (pins, y)" "y = (cl, glass)"
      and ad: "admit ev pid k rq (new_attempt ev pid k ex n pins ctx rq h) relay cl glass prior ?s0 = Inr z" "z = (p, t)"
    have "n_status m \<noteq> VERIFIED \<and> n_status m \<noteq> SUPERSEDED" if "sys_inv ?s0" "m \<in> set (nodes ?s0)" "is_node pid k m" for m
      using get_node_own[OF n that] admissionD[of ev pid k ex rq n ?s0 pins cl glass] adm by simp
    then have "safe ?s0 t" using admit_safe[where x = "new_attempt ev pid k ex n pins ctx rq h"] ad by simp
    then show "safe s t" by (rule safe_trans[OF s0])
  }
qed

lemma reserve_pass_safe: "reserve_pass ev pid k ex rq p s = Inr (r, s') \<Longrightarrow> safe s s'"
  by (simp add: reserve_pass_def reserve_once_safe)

lemma commit_safe: "(\<And>x t. r = Inr (x, t) \<Longrightarrow> safe s t) \<Longrightarrow> safe s (snd (commit s r))"
  by (auto simp: commit_def split: sum.split)

text \<open>The passes in a row, each committed.\<close>

lemma reserve_safe: "safe s (snd (reserve ev pid k ex rq pre s))"
proof -
  have pass: "safe t (snd (commit t (reserve_pass ev pid k ex rq p t)))" for p t by (rule commit_safe) (rule reserve_pass_safe)
  obtain r s1 where first: "commit s (reserve_pass ev pid k ex rq Check s) = (r, s1)" by force
  then have 1: "safe s s1" using pass[of s Check] by simp
  have "safe s (snd (commit s1 (reserve_pass ev pid k ex rq (Admit v) s1)))" for v by (rule safe_trans[OF 1 pass])
  then show ?thesis
    unfolding reserve_def first using 1 pass[of s Only] by (auto split: sum.split preflight.split)
qed

lemma reserve_workflow_safe: "reserve_workflow ev pid k ex w rq s = Inr (r, s') \<Longrightarrow> safe s s'"
  by (auto simp: reserve_workflow_def dest: reserve_pass_safe)

section \<open>The run of an attempt\<close>

lemma keeps_bind [simp]:
  "\<not> bound a \<Longrightarrow> a_status a \<in> set ACTIVE \<Longrightarrow>
   keeps_attempt a (a\<lparr>a_run := r, a_graph_version := v, a_graph_digest := d, a_status := st, a_error := e, a_updated := t\<rparr>)"
  by (auto simp: keeps_attempt_def attempt_ident_def ACTIVE_def)

lemma bind_run_commit_safe: "bind_run_commit ev aid row s = Inr (r, s') \<Longrightarrow> safe s s'"
  by (erule yieldsD[rotated], unfold bind_run_commit_def Let_def)
     (intro yields_rules safe_attempt_event safe_refl; erule safe_active; simp)

lemma bind_run_safe: "bind_run ev aid run sf s = Inr (r, s') \<Longrightarrow> safe s s'"
  by (auto simp: bind_run_def dest: bind_run_commit_safe)

lemma release_bound_safe: "safe s (release_bound ev a act re c s)"
  unfolding release_bound_def
  by (intro safe_event safe_history safe_claims_update) (simp add: keeps_claim_def)

lemma release_bound_claims_safe: "safe s (release_bound_claims ev a act st s)"
  unfolding release_bound_claims_def by (rule safe_fold) (rule release_bound_safe)

lemma withdraw_acceptance_safe: "safe s (withdraw_acceptance ev a re s)"
  unfolding withdraw_acceptance_def using invalidate_safe by (auto intro: safe_attempt_event split: prod.splits)

lemma withdraw_if_accepted_safe: "safe s (withdraw_if_accepted ev a n re s)"
  by (simp add: withdraw_if_accepted_def withdraw_acceptance_safe)

text \<open>After the withdrawal no verified node rests on the attempt.\<close>

lemma withdraw_unaccepted:
  assumes n: "get_node s (a_project a) (a_node a) = Inr n" and inv: "sys_inv s"
    and m: "m \<in> set (nodes (withdraw_if_accepted ev a n re s))" "n_status m = VERIFIED" "r \<in> set (acceptances s)" "accepts m r a"
  shows False
proof -
  obtain keys s1 where i: "invalidate ev (a_project a) (a_node a) s = (keys, s1)" by force
  have own: "is_node (a_project a) (a_node a) m" using m(4) by (simp add: accepts_def is_node_def)
  show False
  proof (cases "accepted_attempt s n = Some (a_id a)")
    case True
    then have "m \<in> set (nodes s1)" using m(1) by (simp add: withdraw_if_accepted_def withdraw_acceptance_def i attempt_event_def)
    then show False using invalidate_unverified(1)[OF i _ own] m(2) by blast
  next
    case False
    then have ms: "m \<in> set (nodes s)" using m(1) by (simp add: withdraw_if_accepted_def)
    have "receipt_at s (rc_id r) = Some r"
      using inv m(3) unfolding receipt_at_def sys_inv_def receipts_ok_def by (intro find_unique) auto
    then show False using False get_node_own[OF n inv ms own] m(4) by (simp add: accepted_attempt_def accepts_def)
  qed
qed

end
