(* ===== verification/Safe_Accept.thy ===== *)
theory Safe_Accept
  imports Safe_Attempts
begin

text \<open>
  Reconciliation, evidence and acceptance are safe: a goal becomes verified only when it is grounded,
  and stops being verified when its ground goes.
\<close>

lemma yields_pub_bind: "R s t \<Longrightarrow> yields R s (bindE (pub_result ev aid t) (\<lambda>(p, u). Inr (f p, u)))"
  by (auto simp: yields_def pub_result_def)

lemma safe_if: "safe s t \<Longrightarrow> safe s u \<Longrightarrow> safe s (if b then t else u)"
  by simp

lemma safe_release: "safe s t \<Longrightarrow> safe s (release_bound_claims ev a act st t)"
  using safe_trans release_bound_claims_safe by blast

section \<open>Reconciliation\<close>

lemma pins_current_iff:
  "pins_current s a = Inr f \<longleftrightarrow> (\<exists>n. get_node s (a_project a) (a_node a) = Inr n \<and>
     (f \<longleftrightarrow> n_revision n = a_revision a \<and> n_contract_hash n = a_contract_hash a \<and> n_status n \<noteq> SUPERSEDED \<and>
        dependency_snapshot s (a_project a) (a_node a) = a_pins a \<and> list_all pin_verified (a_pins a)))"
  unfolding pins_current_def Let_def bindE_Inr_iff by (intro ex_cong1 conj_cong refl) auto

lemma withdraw_tables [simp]:
  "attempts (withdraw_if_accepted ev a n re s) = attempts s" "acceptances (withdraw_if_accepted ev a n re s) = acceptances s"
proof -
  obtain keys s1 where i: "invalidate ev (a_project a) (a_node a) s = (keys, s1)" by force
  note f = non_graphD[OF invalidate_frame(6)[OF i]]
  show "attempts (withdraw_if_accepted ev a n re s) = attempts s" "acceptances (withdraw_if_accepted ev a n re s) = acceptances s"
    using f by (simp_all add: withdraw_if_accepted_def withdraw_acceptance_def i attempt_event_def)
qed

text \<open>The attempt's row: an outcome replaces the status; no acceptance rests on an attempt that stops being a candidate.\<close>

lemma settle_attempt_safe:
  assumes a: "get_attempt s aid = Inr a" and n: "get_node s (a_project a) (a_node a) = Inr n"
    and k: "keeps_attempt a (f a)"
    and t: "t = (if a_status (f a) \<noteq> Candidate then withdraw_if_accepted ev a n re s else s)"
  shows "safe s (update_attempt aid f t)"
proof (rule safeI)
  assume inv: "sys_inv s"
  have st: "safe s t" using withdraw_if_accepted_safe by (simp add: t)
  have same: "attempts t = attempts s" "acceptances t = acceptances s" by (simp_all add: t)
  have own: "x = a" if "x \<in> set (attempts t)" "a_id x = aid" for x
    using get_attempt_own[OF a inv] that same by simp
  have u: "safe t (update_attempt aid f t)"
  proof (rule safe_attempts[where P = "\<lambda>x. a_id x = aid" and f = f])
    fix x m r assume x: "x \<in> set (attempts t)" "a_id x = aid" and m: "m \<in> set (nodes t)" "n_status m = VERIFIED"
      and r: "r \<in> set (acceptances t)" "accepts m r x"
    show "a_status (f x) = Candidate"
    proof (rule ccontr)
      assume "a_status (f x) \<noteq> Candidate"
      then have "t = withdraw_if_accepted ev a n re s" using own[OF x] by (simp add: t)
      then show False using withdraw_unaccepted[OF n inv] m r own[OF x] same by auto
    qed
  qed (use own k in \<open>auto simp: update_attempt_def\<close>)
  then show "sys_inv (update_attempt aid f t) \<and> evolves s (update_attempt aid f t)"
    using safe_trans[OF st u] inv by (simp add: safe_def)
qed

lemma candidate_nodes_safe:
  assumes "\<And>n. sys_inv s \<Longrightarrow> n \<in> set (nodes s) \<Longrightarrow> is_node pid k n \<Longrightarrow> n_status n \<noteq> SUPERSEDED"
  shows "safe s (s\<lparr>nodes := update_where (\<lambda>x. is_node pid k x \<and> n_status x \<noteq> VERIFIED) (\<lambda>x. x\<lparr>n_status := CANDIDATE, n_updated := t\<rparr>) (nodes s)\<rparr>)"
  by (rule safe_unverified[OF refl]) (use assms in \<open>auto simp: keeps_node_def node_ok_def\<close>)

lemma reconcile_commit_safe: "reconcile_commit ev aid row obs cand act s = Inr (r, s') \<Longrightarrow> safe s s'"
proof (rule safeI)
  assume run: "reconcile_commit ev aid row obs cand act s = Inr (r, s')" and inv: "sys_inv s"
  obtain a fresh n where a: "get_attempt s aid = Inr a" and fr: "pins_current s a = Inr fresh"
    and n: "get_node s (a_project a) (a_node a) = Inr n"
    using run by (auto simp: reconcile_commit_def Let_def)
  define st where "st = (if obs \<in> {Candidate, Failed} \<and> \<not> fresh then Superseded else obs)"
  define art where "art = (if cand \<noteq> None \<and> st = Candidate then cand else a_artifact a)"
  define ch where "ch = (a_status a \<noteq> st \<or> art \<noteq> a_artifact a \<or> st \<in> {Paused, Unknown, Failed} \<and> \<not> same_value (last_observation s a) (workflow_observation row))"
  let ?f = "\<lambda>x. x\<lparr>a_status := st, a_artifact := art, a_error := ri_error row, a_updated := now_at ev\<rparr>"
  define s1 where "s1 = (if ch \<and> st \<noteq> Candidate then withdraw_if_accepted ev a n ''accepted workflow no longer has a valid candidate outcome'' s else s)"
  define s2 where "s2 = (if ch then update_attempt aid ?f s1 else s1)"
  define s3 where "s3 = (if ch \<and> st = Candidate then s2\<lparr>nodes := update_where (\<lambda>x. is_node (a_project a) (a_node a) x \<and> n_status x \<noteq> VERIFIED)
        (\<lambda>x. x\<lparr>n_status := CANDIDATE, n_updated := now_at ev\<rparr>) (nodes s2)\<rparr> else s2)"
  note run' = run[unfolded reconcile_commit_def a fr n bindE_simps Let_def, folded st_def, folded art_def, folded ch_def, folded s1_def, folded s2_def, folded s3_def]
  have g: "\<not> (a_status a \<in> set TERMINAL \<and> st \<in> set ACTIVE)" "a_status a \<noteq> Abandoned"
     "\<not> (cand \<noteq> None \<and> st = Candidate \<and> nonempty (a_artifact a) \<and> a_artifact a \<noteq> cand)"
    using run' by simp_all
  have "keeps_attempt a (?f a)"
    using g by (cases "a_status a") (auto simp: keeps_attempt_def attempt_ident_def art_def TERMINAL_def ACTIVE_def)
  then have 2: "safe s s2"
    using settle_attempt_safe[OF a n, of ?f s1 ev "''accepted workflow no longer has a valid candidate outcome''"]
    by (simp add: s2_def s1_def)
  have 3: "safe s2 s3"
  proof (cases "ch \<and> st = Candidate")
    case True
    then have "fresh" "nodes s2 = nodes s" by (auto simp: st_def s2_def s1_def update_attempt_def split: if_splits)
    then have "n_status m \<noteq> SUPERSEDED" if "m \<in> set (nodes s2)" "is_node (a_project a) (a_node a) m" for m
      using fr n get_node_own[OF n inv] that by (auto simp: pins_current_iff)
    then show ?thesis using True candidate_nodes_safe[of s2] by (simp add: s3_def)
  qed (auto simp: s3_def)
  have 4: "safe s3 s'"
    by (rule yieldsD[OF _ run'], (rule yields_pub_bind | rule yields_bind)+) (intro safe_if safe_release safe_attempt_event safe_refl)
  show "sys_inv s' \<and> evolves s s'" using safe_trans[OF safe_trans[OF 2 3] 4] inv by (simp add: safe_def)
qed

lemma reconcile_safe: "reconcile ev aid sf cand act s = Inr (r, s') \<Longrightarrow> safe s s'"
  by (auto simp: reconcile_def dest: reconcile_commit_safe)

section \<open>Evidence\<close>

lemma store_report_blob_quiet: "store_report_blob ev ref sha b s = Inr s' \<Longrightarrow> quiet s s'"
  by (auto simp: store_report_blob_def split: option.splits)

lemma store_optional_blob_quiet: "store_optional_blob ev ref sha b s = Inr s' \<Longrightarrow> quiet s s'"
  by (auto simp: store_optional_blob_def dest: store_report_blob_quiet split: option.splits)

text \<open>The new row commutes with the invalidation that precedes its effect on acceptance.\<close>

lemma invalidate_evidence:
  assumes "invalidate ev pid k s = (keys, t)"
  shows "invalidate ev pid k (s\<lparr>evidences := es\<rparr>) = (keys, t\<lparr>evidences := es\<rparr>)"
proof -
  have e: "project_edges (s\<lparr>evidences := es\<rparr>) pid = project_edges s pid" by (simp add: project_edges_def)
  show ?thesis using assms unfolding invalidate_def e by (auto simp: Let_def)
qed

lemma evidence_row_safe:
  assumes fresh: "find (\<lambda>x. ev_id x = ev_id e) (evidences s) = None" and n: "get_node s (a_project a) (a_node a) = Inr n"
    and a: "get_attempt s (ev_attempt e) = Inr a"
    and t: "t = (if n_receipt n \<noteq> None \<and> a_status a \<noteq> Failed then snd (invalidate ev (a_project a) (a_node a) s) else s)"
  shows "safe s (t\<lparr>evidences := evidences t @ [e]\<rparr>)"
proof (rule safeI)
  assume inv: "sys_inv s"
  obtain keys s1 where i: "invalidate ev (a_project a) (a_node a) s = (keys, s1)" by force
  note f = non_graphD[OF invalidate_frame(6)[OF i]]
  have same: "evidences t = evidences s" "attempts t = attempts s" using f by (simp_all add: t i)
  have st: "safe s t" using invalidate_safe[OF i] by (simp add: t i)
  have "safe t (t\<lparr>evidences := evidences t @ [e]\<rparr>)"
  proof (rule safe_new_evidence[OF refl])
    fix m r x assume m: "m \<in> set (nodes t)" "n_status m = VERIFIED" and r: "accepts m r x" and x: "x \<in> set (attempts t)"
    show "a_id x \<noteq> ev_attempt e"
    proof
      assume "a_id x = ev_attempt e"
      then have xa: "x = a" using get_attempt_own[OF a inv] x same by simp
      then have own: "is_node (a_project a) (a_node a) m" "a_status a = Candidate" using r by (auto simp: accepts_def is_node_def)
      show False
      proof (cases "n_receipt n = None")
        case True
        then have "m = n" using m get_node_own[OF n inv _ own(1)] by (simp add: t)
        then show False using True r by (simp add: accepts_def)
      next
        case False
        then have "m \<in> set (nodes s1)" using m(1) own(2) by (simp add: t i)
        then show False using invalidate_unverified(1)[OF i _ own(1)] m(2) by blast
      qed
    qed
  qed (use fresh same in simp)
  then show "sys_inv (t\<lparr>evidences := evidences t @ [e]\<rparr>) \<and> evolves s (t\<lparr>evidences := evidences t @ [e]\<rparr>)"
    using safe_trans[OF st] inv unfolding safe_def by blast
qed

lemma evidence_step_safe:
  assumes a: "get_attempt s aid = Inr a" and new: "find (\<lambda>e. ev_id e = i) (evidences s) = None"
    and b: "store_optional_blob ev ref sha bytes s = Inr s1"
    and n: "get_node (s1\<lparr>evidences := evidences s1 @ [row]\<rparr>) (a_project a) (a_node a) = Inr n"
    and row: "ev_id row = i" "ev_attempt row = aid"
  shows "safe s (add_event ev pid nk ty pl
     (if n_receipt n \<noteq> None \<and> a_status a \<noteq> Failed
      then (case invalidate ev (a_project a) (a_node a) (s1\<lparr>evidences := evidences s1 @ [row]\<rparr>) of
             (hit, t) \<Rightarrow> add_event ev pid' nk' ty' (pl' hit) t)
      else s1\<lparr>evidences := evidences s1 @ [row]\<rparr>))"
proof -
  have q: "quiet s s1" by (rule store_optional_blob_quiet[OF b])
  then have sm: "evidences s1 = evidences s" "attempts s1 = attempts s" by (simp_all add: quiet_def)
  obtain keys s2 where i: "invalidate ev (a_project a) (a_node a) s1 = (keys, s2)" by force
  define t where "t = (if n_receipt n \<noteq> None \<and> a_status a \<noteq> Failed then snd (invalidate ev (a_project a) (a_node a) s1) else s1)"
  have "safe s1 (t\<lparr>evidences := evidences t @ [row]\<rparr>)"
  proof (rule evidence_row_safe[where n = n and a = a, OF _ _ _ t_def])
    show "get_node s1 (a_project a) (a_node a) = Inr n" using n by (simp add: get_node_iff node_at_def)
    show "get_attempt s1 (ev_attempt row) = Inr a" using a sm row by (simp add: get_attempt_iff attempt_at_def)
  qed (use new row sm in simp)
  then have e: "safe s (t\<lparr>evidences := evidences t @ [row]\<rparr>)" using quiet_safe[OF q] safe_trans by blast
  have "evidences s2 = evidences s1" using non_graphD[OF invalidate_frame(6)[OF i]] by simp
  then show ?thesis
    using e unfolding invalidate_evidence[OF i] prod.case
    by (cases "n_receipt n \<noteq> None \<and> a_status a \<noteq> Failed") (simp_all only: t_def i if_True if_False snd_conv safe_event simp_thms)
qed

lemma record_evidence_commit_safe: "record_evidence_commit ev aid vi dir v ref rv sf s = Inr (r, s') \<Longrightarrow> safe s s'"
proof (erule yieldsD[rotated], unfold record_evidence_commit_def Let_def, intro yields_rules)
  fix old t assume "store_optional_blob ev ref (vi_report_sha vi) (vi_bytes vi) s = Inr t"
  then show "safe s t" using store_optional_blob_quiet quiet_safe by blast
qed (erule evidence_step_safe, assumption, assumption, assumption, simp, simp)

lemma record_evidence_safe: "record_evidence ev aid vi sf s = Inr (r, s') \<Longrightarrow> safe s s'"
  by (auto simp: record_evidence_def dest: record_evidence_commit_safe)

section \<open>Acceptance\<close>

lemma eligible_candidateD:
  assumes "eligible_candidate ev s a = Inr u"
  shows "a_status a = Candidate" "nonempty (a_artifact a)" "pins_current s a = Inr True" "newest s a"
  using assms unfolding eligible_candidate_def by auto

lemma unmet_None:
  assumes "unmet s aid cs = []" "c \<in> set cs"
  obtains e where "latest_evidence s aid (ck_id c) = Some e" "ev_verdict e = Pass"
  using assms by (auto simp: unmet_def filter_empty_conv split: option.splits)

lemma latest_evidence_mem: "latest_evidence s aid cid = Some e \<Longrightarrow> e \<in> set (evidences s) \<and> ev_attempt e = aid \<and> ev_criterion e = cid"
  unfolding latest_evidence_def by (drule find_SomeD) simp

lemma newest_latest:
  assumes "sys_inv s" "get_attempt s aid = Inr a" "newest s a"
  shows "latest_attempt s (a_project a) (a_node a) = Some a"
proof -
  obtain b where b: "latest_attempt s (a_project a) (a_node a) = Some b" "a_id b = a_id a" using assms(3) by (auto simp: newest_def)
  then show ?thesis using get_attempt_own[OF assms(2,1)] latest_attempt_mem[OF b(1)] get_attemptD[OF assms(2)] by auto
qed

text \<open>What an acceptance checks, and the two ways it succeeds.\<close>

lemma verify_cases:
  assumes "verify ev pid k ex aid rv rb s = Inr (r, s')"
  obtains (replay) n a rid where "get_node s pid k = Inr n" "get_attempt s aid = Inr a" "eligible_candidate ev s a = Inr ()"
      "n_receipt n = Some rid" "receipt_at s rid = Some r" "rc_attempt r = aid"
      "rc_evidence r = map (\<lambda>c. ev_id (the (latest_evidence s aid (ck_id c)))) (n_contract n)" "unmet s aid (n_contract n) = []" "s' = s"
    | (accept) n a v pl where "get_node s pid k = Inr n" "get_attempt s aid = Inr a" "a_project a = pid" "a_node a = k" "n_revision n = ex"
      "eligible_candidate ev s a = Inr ()" "unmet s aid (n_contract n) = []" "n_receipt n = None"
      "rb \<longrightarrow> list_all (\<lambda>e. retained_ok ev s (ev_report_sha e) (ev_report_ref e)) (latest_rows s aid)"
      "r = \<lparr>rc_id = fresh_id ev ''receipt-'' 0, rc_project = pid, rc_node = k, rc_revision = ex, rc_attempt = aid,
                  rc_artifact = the (a_artifact a), rc_contract_hash = n_contract_hash n, rc_pins = a_pins a,
                  rc_evidence = map (\<lambda>c. ev_id (the (latest_evidence s aid (ck_id c)))) (n_contract n),
                  rc_reviewer = v, rc_created = now_at ev, rc_provenance = provenance ev s a (n_contract n)\<rparr>"
      "receipt_at s (rc_id r) = None"
      "s' = add_event ev pid (Some k) ''node_verified'' pl
           (update_node pid k (\<lambda>x. x\<lparr>n_status := VERIFIED, n_receipt := Some (rc_id r), n_updated := now_at ev\<rparr>)
             (s\<lparr>acceptances := acceptances s @ [r]\<rparr>))"
proof -
  obtain v n a where v: "check_text (PStr rv) 300 = Inr v" and n: "get_node s pid k = Inr n" and a: "get_attempt s aid = Inr a"
    and g: "a_project a = pid" "a_node a = k" "n_revision n = ex" "eligible_candidate ev s a = Inr ()" "unmet s aid (n_contract n) = []"
      "rb \<longrightarrow> list_all (\<lambda>e. retained_ok ev s (ev_report_sha e) (ev_report_ref e)) (latest_rows s aid)"
    using assms unfolding verify_def Let_def bindE_Inr_iff raise_if_iff
    by (elim exE conjE) (rule that; (assumption | simp))
  show thesis
  proof (cases "n_receipt n")
    case (Some rid)
    then have "\<exists>x. receipt_at s rid = Some x \<and> rc_attempt x = aid \<and>
        rc_evidence x = map (\<lambda>c. ev_id (the (latest_evidence s aid (ck_id c)))) (n_contract n) \<and> r = x \<and> s' = s"
      using assms unfolding verify_def Let_def v n a bindE_simps bindE_Inr_iff Some option.case
      by (cases "receipt_at s rid") (simp_all split: if_splits)
    then show thesis using replay[OF n a g(4) Some _ _ _ g(5)] by blast
  next
    case None
    show thesis
      by (rule accept[OF n a g(1-5) None g(6)])
         (use assms in \<open>simp_all add: verify_def Let_def v n a g None\<close>, auto)
  qed
qed

lemma verify_safe: "verify ev pid k ex aid rv rb s = Inr (r, s') \<Longrightarrow> safe s s'"
proof (erule verify_cases, simp, rule safeI)
  fix n a v pl
  assume n: "get_node s pid k = Inr n" and a: "get_attempt s aid = Inr a" "a_project a = pid" "a_node a = k" "n_revision n = ex"
    and el: "eligible_candidate ev s a = Inr ()" and un: "unmet s aid (n_contract n) = []" and nr: "n_receipt n = None"
    and r: "r = \<lparr>rc_id = fresh_id ev ''receipt-'' 0, rc_project = pid, rc_node = k, rc_revision = ex, rc_attempt = aid,
                  rc_artifact = the (a_artifact a), rc_contract_hash = n_contract_hash n, rc_pins = a_pins a,
                  rc_evidence = map (\<lambda>c. ev_id (the (latest_evidence s aid (ck_id c)))) (n_contract n),
                  rc_reviewer = v, rc_created = now_at ev, rc_provenance = provenance ev s a (n_contract n)\<rparr>"
    and new: "receipt_at s (rc_id r) = None"
    and s': "s' = add_event ev pid (Some k) ''node_verified'' pl
           (update_node pid k (\<lambda>x. x\<lparr>n_status := VERIFIED, n_receipt := Some (rc_id r), n_updated := now_at ev\<rparr>)
             (s\<lparr>acceptances := acceptances s @ [r]\<rparr>))"
    and inv: "sys_inv s"
  let ?s1 = "s\<lparr>acceptances := acceptances s @ [r]\<rparr>"
  let ?f = "\<lambda>x. x\<lparr>n_status := VERIFIED, n_receipt := Some (rc_id r), n_updated := now_at ev\<rparr>"
  note e = eligible_candidateD[OF el]
  have lt: "latest_attempt s pid k = Some a" using newest_latest[OF inv a(1) e(4)] a(2,3) by simp
  have pc: "n_contract_hash n = a_contract_hash a" "n_revision n = a_revision a" "n_status n \<noteq> SUPERSEDED"
      "dependency_snapshot s pid k = a_pins a" "list_all pin_verified (a_pins a)"
    using e(3) n a(2,3) by (auto simp: pins_current_iff)
  have rf: "rc_project r = pid" "rc_node r = k" "rc_revision r = ex" "rc_attempt r = aid" "rc_artifact r = the (a_artifact a)"
      "rc_contract_hash r = n_contract_hash n" "rc_pins r = a_pins a"
      "rc_evidence r = map (\<lambda>c. ev_id (the (latest_evidence s aid (ck_id c)))) (n_contract n)"
    by (simp_all add: r)
  have ev: "\<exists>e \<in> set (evidences s). ev_attempt e = rc_attempt r \<and> ev_id e = i" if "i \<in> set (rc_evidence r)" for i
  proof -
    from that obtain c where c: "c \<in> set (n_contract n)" "i = ev_id (the (latest_evidence s aid (ck_id c)))" by (auto simp: r)
    from unmet_None[OF un c(1)] obtain e where "latest_evidence s aid (ck_id c) = Some e" by blast
    then show ?thesis using latest_evidence_mem[of s aid "ck_id c" e] c(2) by (auto simp: r)
  qed
  have s1: "safe s ?s1" by (rule safe_new_receipt[OF refl new ev])
  have le: "latest_evidence ?s1 = latest_evidence s" and la: "latest_attempt ?s1 = latest_attempt s" and ds: "dependency_snapshot ?s1 = dependency_snapshot s"
    by (rule latest_evidence_cong latest_attempt_cong dependency_snapshot_cong; simp)+
  have "\<exists>e. latest_evidence s aid (ck_id c) = Some e \<and> ev_verdict e = Pass" if "c \<in> set (n_contract n)" for c
    using unmet_None[OF un that] by blast
  then have "attested ?s1 (?f n) r" by (simp add: attested_def le rf)
  moreover have nk: "n_project n = pid" "n_key n = k" using n inv graph_inv_node[of s pid k n] by (auto simp: get_node_iff sys_inv_def)
  ultimately have gr: "grounded ?s1 (?f n)"
    unfolding grounded_def using e(1,2) get_attemptD[OF a(1)] a pc lt
    by (intro bexI[of _ r] exI[of _ a]) (auto simp: accepts_def rf la ds nonempty_def)
  have "safe ?s1 (update_node pid k ?f ?s1)"
  proof (rule safe_unverified[where P = "is_node pid k" and f = ?f])
    fix m assume m: "m \<in> set (nodes ?s1)" "is_node pid k m"
    then have mn: "m = n" using get_node_own[OF n inv] by simp
    show "n_status m \<noteq> VERIFIED" using mn nr n inv graph_inv_node[of s pid k n] by (auto simp: get_node_iff sys_inv_def node_ok_def)
    show "keeps_node m (?f m) \<and> n_facet (?f m) = n_facet m \<and> (n_status (?f m) = VERIFIED \<longrightarrow> grounded ?s1 (?f m)) \<and> (node_ok m \<longrightarrow> node_ok (?f m))"
      using gr mn pc(3) by (simp add: keeps_node_def node_ok_def)
  qed (simp add: update_node_def)
  then have "safe s s'" unfolding s' by (intro safe_event) (rule safe_trans[OF s1])
  then show "sys_inv s' \<and> evolves s s'" using inv by (simp add: safe_def)
qed

end
