(* ===== verification/Safe_Ownership.thy ===== *)
theory Safe_Ownership
  imports Safe_Accept
begin

text \<open>
  External observations, abandonment, takeovers, handoffs, subagents and issues are safe: an outcome
  is settled as in reconciliation, ownership moves by new or re-fenced claims, the rest are records.
\<close>

section \<open>Record-only operations\<close>

lemma quiet_if: "quiet s t \<Longrightarrow> quiet s u \<Longrightarrow> quiet s (if b then t else u)"
  by simp

lemma deliver_notice_quiet: "quiet s (snd (deliver_notice ev t se pid ki su bo refs s))"
  by (simp add: deliver_notice_def Let_def)

lemma notify_quiet: "notify ev t ki su bo refs pid se s = Inr (x, s') \<Longrightarrow> quiet s s'"
proof -
  assume a: "notify ev t ki su bo refs pid se s = Inr (x, s')"
  have "s' = s \<or> (\<exists>t' ki' su' bo' refs'. deliver_notice ev t' se pid ki' su' bo' refs' s = (x, s'))"
    using a unfolding notify_def by (cases t) (auto split: if_splits)
  then show ?thesis using deliver_notice_quiet[of s ev _ se pid] by (metis quiet_refl snd_conv)
qed

lemma notify_safe: "notify ev t ki su bo refs pid se s = Inr (x, s') \<Longrightarrow> safe s s'"
  by (rule quiet_safe) (rule notify_quiet)

lemma void_open_handoffs_quiet: "void_open_handoffs ev aid re s = (v, s') \<Longrightarrow> quiet s s'"
  by (auto simp: void_open_handoffs_def)

lemma decide_quiet [simp]: "quiet s (decide ev hid st d re s)"
  by (simp add: decide_def)

lemma register_subagent_quiet: "register_subagent ev c pid aid label ws s = Inr (r, s') \<Longrightarrow> quiet s s'"
  by (erule yieldsD[rotated], unfold register_subagent_def Let_def) (intro yields_rules quiet_refl quiet_then quiet_tables)

lemma add_links_quiet [simp]: "quiet s (add_links iid pid ks s)"
  by (simp add: add_links_def)

lemma update_issue_quiet [simp]: "quiet s (update_issue iid f s)"
  by (simp add: update_issue_def)

lemma ignore_link_quiet [simp]: "quiet s (ignore_link iid pid k s)"
  by (simp add: ignore_link_def)

lemma report_issue_quiet: "report_issue ev c pid rk ki ti bo di ks so s = Inr (r, s') \<Longrightarrow> quiet s s'"
  by (erule yieldsD[rotated], unfold report_issue_def Let_def)
     (intro yields_rules quiet_refl quiet_then quiet_trans[OF quiet_tables(4) add_links_quiet])

lemma link_issue_quiet: "link_issue ev pid iid ex ks re rp s = Inr (r, s') \<Longrightarrow> quiet s s'"
  by (erule yieldsD[rotated], unfold link_issue_def Let_def)
     (intro yields_rules quiet_then quiet_trans[OF quiet_trans[OF quiet_tables(5) add_links_quiet] update_issue_quiet])

lemma resolve_node_quiet: "resolve_node pid res i k rv s = Inr (f, s') \<Longrightarrow> quiet s s'"
  by (erule yieldsD[rotated], unfold resolve_node_def Let_def) (intro yields_rules ignore_link_quiet)

lemma resolve_fixed_quiet: "resolve_fixed pid i rid art s = Inr (f, s') \<Longrightarrow> quiet s s'"
  by (erule yieldsD[rotated], unfold resolve_fixed_def Let_def) (intro yields_rules ignore_link_quiet)

lemma resolve_issue_quiet: "resolve_issue ev c pid iid ex res re di ra s = Inr (r, s') \<Longrightarrow> quiet s s'"
proof (erule yieldsD[rotated], unfold resolve_issue_def Let_def, intro yields_rules)
  fix i x f1 s1 y f2 s2
  assume 1: "(case ra_node ra of None \<Rightarrow> Inr ([], s) | Some k \<Rightarrow> resolve_node pid res i k (ra_revision ra) s) = Inr x" "x = (f1, s1)"
    and 2: "(if res = ''fixed'' then resolve_fixed pid i (the (ra_receipt ra)) (the (ra_artifact ra)) s1 else Inr ([], s1)) = Inr y" "y = (f2, s2)"
  have "quiet s s1" using 1 resolve_node_quiet by (auto split: option.splits)
  moreover have "quiet s1 s2" using 2 resolve_fixed_quiet by (auto split: if_splits)
  ultimately show "quiet s (add_event ev pid nk ty pl (update_issue iid' f s2))" for nk ty pl iid' f
    using quiet_trans update_issue_quiet quiet_then by metis
qed

section \<open>External observations\<close>

lemma store_candidate_quiet: "store_candidate ev g s = Inr s' \<Longrightarrow> quiet s s'"
  by (auto simp: store_candidate_def split: option.splits)

lemma set_owner_quiet [simp]: "quiet s (set_owner ev aid st s)"
  by (simp add: set_owner_def)

lemma quiet_get: "quiet s t \<Longrightarrow> get_attempt t aid = get_attempt s aid" "quiet s t \<Longrightarrow> get_node t pid k = get_node s pid k"
  "quiet s t \<Longrightarrow> pins_current t a = pins_current s a"
proof -
  assume q: "quiet s t"
  then show "get_attempt t aid = get_attempt s aid" by (simp add: quiet_def get_attempt_def attempt_at_def)
  from q show g: "get_node t pid k = get_node s pid k" for pid k by (simp add: quiet_def get_node_def node_at_def)
  have "dependency_snapshot t = dependency_snapshot s" using q by (intro dependency_snapshot_cong) (simp_all add: quiet_def)
  then show "pins_current t a = pins_current s a" by (simp only: pins_current_def g)
qed

lemma observe_late_safe: "get_attempt s (a_id a) = Inr a \<Longrightarrow> a_version a = oi_expected oi \<Longrightarrow> safe s (observe_late ev c a oi st old s)"
proof -
  assume g: "get_attempt s (a_id a) = Inr a" and v: "a_version a = oi_expected oi"
  have "safe s (update_attempt (a_id a) (\<lambda>x. x\<lparr>a_version := oi_expected oi + 1, a_updated := now_at ev\<rparr>) s)"
    by (rule safe_update_attempt) (use v get_attempt_own[OF g] in \<open>force simp: keeps_attempt_def attempt_ident_def\<close>)
  then show ?thesis unfolding observe_late_def Let_def
    by (intro safe_attempt_event safe_if) (erule safe_then_quiet, rule quiet_tables(1))
qed

text \<open>What the guards leave of the attempt before an outcome is written.\<close>

lemma observed_keeps:
  assumes inv: "sys_inv s" and a: "a \<in> set (attempts s)" "a_kind a = External"
    and st: "a_status a \<notin> {Failed, Superseded, Abandoned}" "\<not> (a_status a = Candidate \<and> st \<noteq> Failed)" "a_version a = v"
    and res: "result = (if st \<in> {Candidate, Failed} \<and> \<not> fresh then Superseded else st)"
  shows "keeps_attempt a (a\<lparr>a_status := result, a_version := v + 1, a_artifact := (if st = Candidate then art else a_artifact a),
     a_artifact_kind := kd, a_terminal := te, a_error := er, a_updated := t\<rparr>)"
proof -
  have "a_artifact a = None" if "st = Candidate"
    using inv a st(1,2) that by (cases "a_status a") (auto simp: sys_inv_def attempts_ok_def ACTIVE_def)
  then show ?thesis
    using st res by (cases "a_status a") (auto simp: keeps_attempt_def attempt_ident_def nonempty_def ACTIVE_def split: if_splits)
qed

lemma observe_current_safe:
  assumes run: "observe_current ev c a oi st result re old s = Inr s'"
    and a: "get_attempt s (a_id a) = Inr a" "a_kind a = External" "pins_current s a = Inr fresh"
    and st: "a_status a \<notin> {Failed, Superseded, Abandoned}" "\<not> (a_status a = Candidate \<and> st \<noteq> Failed)" "a_version a = oi_expected oi"
    and res: "result = (if st \<in> {Candidate, Failed} \<and> \<not> fresh then Superseded else st)"
  shows "safe s s'"
proof (rule safeI)
  assume inv: "sys_inv s"
  define s1 where "s1 = set_owner ev (a_id a) (owner_status_of result) s"
  have q: "quiet s s1" by (simp add: s1_def)
  obtain n where n: "get_node s1 (a_project a) (a_node a) = Inr n" using run by (auto simp: observe_current_def Let_def s1_def)
  let ?f = "\<lambda>x. x\<lparr>a_status := result, a_version := oi_expected oi + 1, a_artifact := (if st = Candidate then oi_artifact oi else a_artifact a),
     a_artifact_kind := (if st = Candidate then re_kind re else a_artifact_kind a),
     a_terminal := (if st \<in> {Candidate, Failed} then Some (oi_id oi) else a_terminal a),
     a_error := (if st = Failed then Some (oi_detail oi) else None), a_updated := now_at ev\<rparr>"
  define s2 where "s2 = (if result \<noteq> Candidate then withdraw_if_accepted ev a n ''external harness retracted its accepted candidate'' s1 else s1)"
  define s3 where "s3 = update_attempt (a_id a) ?f s2"
  define s4 where "s4 = (if result = Candidate \<and> newest s3 a \<and> n_status n \<noteq> VERIFIED
                then update_node (a_project a) (a_node a) (\<lambda>x. x\<lparr>n_status := CANDIDATE, n_updated := now_at ev\<rparr>) s3 else s3)"
  have i1: "sys_inv s1" using quiet_safe[OF q] inv by (simp add: safe_def)
  have "keeps_attempt a (?f a)"
    by (rule observed_keeps[OF inv _ a(2) st res]) (use get_attemptD[OF a(1)] in simp)
  then have 3: "safe s1 s3"
    unfolding s3_def
    by (intro settle_attempt_safe[OF _ n, of "a_id a" ?f s2 ev "''external harness retracted its accepted candidate''"])
       (use a(1) quiet_get(1)[OF q] in \<open>simp_all add: s2_def\<close>)
  have 4: "safe s3 s4"
  proof (cases "result = Candidate \<and> newest s3 a \<and> n_status n \<noteq> VERIFIED")
    case True
    then have f: "fresh" "nodes s3 = nodes s1" using res by (auto simp: s3_def s2_def update_attempt_def split: if_splits)
    then have "m = n \<and> n_status n \<noteq> SUPERSEDED" if "m \<in> set (nodes s3)" "is_node (a_project a) (a_node a) m" for m
      using a(3) n quiet_get(2)[OF q] get_node_own[OF n i1] that by (auto simp: pins_current_iff)
    then show ?thesis using True update_node_open_safe[of s3 "a_project a" "a_node a" CANDIDATE "now_at ev"] by (auto simp: s4_def)
  qed (auto simp: s4_def)
  note run' = run[unfolded observe_current_def Let_def, folded s1_def, unfolded n bindE_simps, folded s2_def, folded s3_def, folded s4_def]
  have "s' = (let s5 = attempt_event ev a ''external_attempt_observed'' (observed_payload c oi result old) s4 in
      if st \<in> {Candidate, Failed} \<and> owned a then release_bound_claims ev a (by_actor c) (attempt_status_name result) s5 else s5)"
    using run' by (auto simp: Let_def)
  then have 5: "safe s4 s'" using safe_release[OF safe_quiet(3)] safe_quiet(3) by (simp add: Let_def)
  show "sys_inv s' \<and> evolves s s'"
    using safe_trans[OF safe_trans[OF safe_trans[OF quiet_safe[OF q] 3] 4] 5] inv by (simp add: safe_def)
qed

lemma authorize_report_current: "authorize_report c s a fe = Inr False \<Longrightarrow> a_status a \<noteq> Abandoned"
  by (auto simp: authorize_report_def Let_def split: if_splits)

lemma observe_append_safe:
  assumes run: "observe_append ev c a oi st re late s = Inr s'"
    and a: "get_attempt s (a_id a) = Inr a" "a_kind a = External" "\<not> late \<Longrightarrow> a_status a \<noteq> Abandoned"
  shows "safe s s'"
proof -
  obtain fresh s1 s2 where g: "observe_guard ev s a oi = Inr ()" "\<not> (a_status a = Candidate \<and> st \<noteq> Failed)" "pins_current s a = Inr fresh"
    and s1: "store_optional_blob ev (re_ref re) (oi_sha oi) (re_bytes re) s = Inr s1"
    and s2: "(case re_git re of None \<Rightarrow> Inr s1 | Some g \<Rightarrow> store_candidate ev g s1) = Inr s2"
    using run unfolding observe_append_def Let_def bindE_Inr_iff raise_if_iff by (elim exE conjE) (rule that; (assumption | simp))
  define res where "res = (if late \<or> st \<in> {Candidate, Failed} \<and> \<not> fresh then Superseded else st)"
  define s3 where "s3 = s2\<lparr>observations := observations s2 @ [new_observation ev c (a_id a) oi st res re late]\<rparr>"
  have r: "s' = observe_late ev c a oi st (\<not> fresh) s3 \<and> late \<or> observe_current ev c a oi st res re (\<not> fresh) s3 = Inr s' \<and> \<not> late"
    using run unfolding observe_append_def Let_def g(3) s1 s2 bindE_simps res_def[symmetric] s3_def[symmetric] bindE_Inr_iff
    by (auto split: if_splits)
  have "quiet s1 s2" using s2 store_candidate_quiet by (auto split: option.splits)
  then have q: "quiet s s3"
    using store_optional_blob_quiet[OF s1] unfolding s3_def by (blast intro: quiet_trans quiet_tables)
  have v: "a_version a = oi_expected oi" "a_status a \<notin> {Failed, Superseded}" using g(1) by (auto simp: observe_guard_def)
  have "safe s3 s'"
    using r
  proof
    assume "s' = observe_late ev c a oi st (\<not> fresh) s3 \<and> late"
    then show ?thesis using observe_late_safe[of s3 a oi] quiet_get(1)[OF q] a(1) v by simp
  next
    assume cur: "observe_current ev c a oi st res re (\<not> fresh) s3 = Inr s' \<and> \<not> late"
    then have "res = (if st \<in> {Candidate, Failed} \<and> \<not> fresh then Superseded else st)" by (simp add: res_def)
    then show ?thesis
      using observe_current_safe[of ev c a oi st res re "\<not> fresh" s3 s' fresh] quiet_get(1,3)[OF q] a g v cur by simp
  qed
  then show ?thesis using safe_trans[OF quiet_safe[OF q]] by blast
qed

lemma external_attemptD: "external_attempt s aid = Inr a \<Longrightarrow> get_attempt s aid = Inr a \<and> a_kind a = External \<and> a_id a = aid"
  using get_attemptD[of s aid a] by (auto simp: external_attempt_def)

lemma observe_commit_safe: "observe_commit ev c aid oi st re s = Inr (r, s') \<Longrightarrow> safe s s'"
proof (erule yieldsD[rotated], unfold observe_commit_def Let_def, intro yields_rules safe_quiet(5))
  let ?s0 = "mark_back ev (by_driver c) ''report_external_attempt'' s"
  fix a late t assume "external_attempt ?s0 aid = Inr a" "authorize_report c ?s0 a (oi_fence oi) = Inr late" "observe_append ev c a oi st re late ?s0 = Inr t"
  then have "safe ?s0 t" using observe_append_safe[of ev c a oi st re late ?s0 t] external_attemptD[of ?s0 aid a] authorize_report_current[of c ?s0 a "oi_fence oi"]
    by (cases late) auto
  then show "safe s t" by (rule safe_trans[OF safe_quiet(5)])
qed

lemma observe_safe: "observe ev io c aid oi s = Inr (r, s') \<Longrightarrow> safe s s'"
proof (erule yieldsD[rotated], unfold observe_def, intro yields_rules)
  fix st chk
  show "yields safe s (case chk of Inl (p, old) \<Rightarrow> Inr ((p, old, True), s)
     | Inr late \<Rightarrow> bindE (observe_retain ev io oi st ref late) (\<lambda>re. observe_commit ev c aid oi st re s))" for ref
    by (cases chk) (auto simp: yields_def dest: observe_commit_safe)
qed

lemma register_external_safe: "register_external ev c pid k ex h x rq pre s = Inr (r, s') \<Longrightarrow> safe s s'"
  by (auto simp: register_external_def dest: reserve_pass_safe)

lemma register_relay_handoff_safe: "register_relay_handoff ev c pid k ex h x rk ins rel s = Inr (r, s') \<Longrightarrow> safe s s'"
  by (auto simp: register_relay_handoff_def dest: reserve_pass_safe)

end
