(* ===== verification/Safe_Recovery.thy ===== *)
theory Safe_Recovery
  imports Safe_Ownership
begin

text \<open>Ownership changes are safe: a stopped claim was live, a moved one has the next fence of its node.\<close>

section \<open>Stopping and moving claims\<close>

lemma safe_stop:
  assumes "cl \<in> set (claims s)" "c_status cl = Live"
  shows "safe s (update_claim (c_id cl) (\<lambda>x. x\<lparr>c_status := st, c_updated := t\<rparr>) s)"
proof -
  let ?f = "\<lambda>x. x\<lparr>c_status := st, c_updated := t\<rparr>"
  show ?thesis unfolding update_claim_def
  proof (rule safe_claims[OF refl])
    assume ok: "claims_ok (claims s)"
    have l: "list_all2 keeps_claim (claims s) (update_where (\<lambda>c. c_id c = c_id cl) ?f (claims s))"
      by (rule keeps_update_where) (use claims_ok_unique[OF ok _ assms(1)] assms(2) in \<open>auto simp: keeps_claim_def\<close>)
    then show "claims_ok (update_where (\<lambda>c. c_id c = c_id cl) ?f (claims s)) \<and> grows moves_claim (claims s) (update_where (\<lambda>c. c_id c = c_id cl) ?f (claims s))"
      using claims_ok_list_update[OF ok l] grows_keeps by blast
  qed
qed

lemma stop_claim_safe: "cl \<in> set (claims s) \<Longrightarrow> c_status cl = Live \<Longrightarrow> safe s (stop_claim ev c a re nh cl s)"
  unfolding stop_claim_def Let_def by (intro safe_event safe_history safe_stop)

lemma stop_claim_claims [simp]:
  "claims (stop_claim ev c a re nh cl s) =
   update_where (\<lambda>x. c_id x = c_id cl) (\<lambda>x. x\<lparr>c_status := (if nh = None then Released else Transferred), c_updated := now_at ev\<rparr>) (claims s)"
  by (simp add: stop_claim_def Let_def update_claim_def)

lemma stop_claims_safe:
  "distinct (map c_id rows) \<Longrightarrow> (\<And>c. c \<in> set rows \<Longrightarrow> c \<in> set (claims s) \<and> c_status c = Live) \<Longrightarrow>
   safe s (fold (stop_claim ev c a re nh) rows s)"
proof (induction rows arbitrary: s)
  case (Cons r rows)
  let ?t = "stop_claim ev c a re nh r s"
  have "x \<in> set (claims ?t) \<and> c_status x = Live" if "x \<in> set rows" for x
  proof -
    have "c_id x \<noteq> c_id r" using Cons.prems(1) that by (metis distinct.simps(2) image_eqI list.simps(9) set_map)
    then show ?thesis using Cons.prems(2)[of x] that by (simp add: set_update_where)
  qed
  then have "safe ?t (fold (stop_claim ev c a re nh) rows ?t)" using Cons.IH[of ?t] Cons.prems(1) by simp
  moreover have "safe s ?t" using stop_claim_safe Cons.prems(2)[of r] by simp
  ultimately show ?case unfolding fold_Cons comp_def by (rule safe_trans[rotated])
qed simp

lemma moved_claims_stop_safe: "safe s (fold (stop_claim ev c a re nh) (moved_claims s a) s)"
proof (rule safeI)
  assume inv: "sys_inv s"
  have "distinct (map c_id (moved_claims s a))"
    using inv unfolding moved_claims_def sys_inv_def claims_ok_def by (simp add: distinct_map_filter)
  then have "safe s (fold (stop_claim ev c a re nh) (moved_claims s a) s)"
    by (rule stop_claims_safe) (simp add: moved_claims_def)
  with inv show "sys_inv (fold (stop_claim ev c a re nh) (moved_claims s a) s) \<and> evolves s (fold (stop_claim ev c a re nh) (moved_claims s a) s)"
    by (simp add: safe_def)
qed

lemma new_claim_for_effect:
  assumes "new_claim_for ev c pid k rv aid d re ws pu su s = Inr (m, t)"
  shows "safe s t" "claims t = claims s @ [m]" "c_project m = pid" "c_node m = k" "c_driver m = d" "c_status m = Live" "c_attempt m = aid"
    "c_fence m = next_fence s pid k"
proof -
  obtain cl s1 where i: "insert_claim cl s = Inr s1" and cl: "m = cl" "c_fence cl = next_fence s pid k" "c_project cl = pid" "c_node cl = k"
      "c_driver cl = d" "c_status cl = Live" "c_attempt cl = aid" "c_lease_seconds cl = DEFAULT_LEASE_SECONDS"
    and t: "\<exists>pl. t = add_event ev pid (Some k) ''claim_acquired'' pl (add_history ev (by_actor c) cl Live re s1)"
    using assms unfolding new_claim_for_def Let_def bindE_Inr_iff
    by (elim exE conjE) (rule that, assumption, auto)
  have "safe s s1"
    by (rule safe_insert_claim[OF i]) (simp_all add: cl DEFAULT_LEASE_SECONDS_def MIN_LEASE_SECONDS_def MAX_LEASE_SECONDS_def)
  then show "safe s t" using t by (auto intro!: safe_event safe_history)
  have "claims s1 = claims s @ [cl]" using i by (auto simp: insert_claim_def split: if_splits)
  then show "claims t = claims s @ [m]" using t cl by auto
  show "c_project m = pid" "c_node m = k" "c_driver m = d" "c_status m = Live" "c_attempt m = aid" "c_fence m = next_fence s pid k"
    using cl by simp_all
qed

lemma bind_held_claim_safe:
  assumes "h \<in> set (claims s)" "c_project h = a_project a" "c_node h = a_node a" "bind_held_claim ev c a re h s = (m, t)"
  shows "safe s t"
proof -
  let ?g = "\<lambda>x. x\<lparr>c_attempt := Some (a_id a), c_fence := next_fence s (a_project a) (a_node a), c_updated := now_at ev\<rparr>"
  have "safe s (update_claim (c_id h) ?g s)" by (rule safe_refence[OF assms(1)]) (simp_all add: assms(2,3))
  then show ?thesis using assms(4) by (auto simp: bind_held_claim_def Let_def intro!: safe_event safe_history)
qed

text \<open>The new holder's own claim stays on the table until it is bound.\<close>

definition holds_own :: "attempt \<Rightarrow> claim option \<Rightarrow> db \<Rightarrow> bool" where
  "holds_own a held s \<longleftrightarrow> (\<forall>h. held = Some h \<longrightarrow> h \<in> set (claims s) \<and> c_project h = a_project a \<and> c_node h = a_node a)"

lemma move_one_safe:
  assumes run: "move_one ev c a re d src (held, created, s) = Inr (held', created', t)" and own: "holds_own a held s"
  shows "safe s t \<and> holds_own a held' t"
proof -
  consider (fresh) m where "new_claim_for ev c (a_project a) (a_node a) (a_revision a) (Some (a_id a)) d re (c_workspace src)
                        (c_purpose src) (c_subagent src) s = Inr (m, t)" "held' = held"
    | (bind) h m where "held = Some h" "bind_held_claim ev c a re h s = (m, t)" "held' = None"
    using run unfolding move_one_def by (auto split: option.splits if_splits prod.splits)
  then show ?thesis
  proof cases
    case fresh
    then show ?thesis using new_claim_for_effect(1,2)[OF fresh(1)] own by (auto simp: holds_own_def)
  next
    case bind
    then show ?thesis using bind_held_claim_safe[OF _ _ _ bind(2)] own by (simp add: holds_own_def)
  qed
qed

lemma move_all_safe:
  "foldE (move_one ev c a re d) srcs (held, created, s) = Inr (held', created', t) \<Longrightarrow> holds_own a held s \<Longrightarrow> safe s t \<and> holds_own a held' t"
proof (induction srcs arbitrary: held created s)
  case (Cons x xs)
  obtain h1 c1 s1 where 1: "move_one ev c a re d x (held, created, s) = Inr (h1, c1, s1)"
    and 2: "foldE (move_one ev c a re d) xs (h1, c1, s1) = Inr (held', created', t)"
    using Cons.prems(1) by auto
  have "safe s s1 \<and> holds_own a h1 s1" by (rule move_one_safe[OF 1 Cons.prems(2)])
  then show ?case using Cons.IH[OF 2] safe_trans by blast
qed simp

lemma held_claim_own: "holds_own a (held_claim s a d) s"
  by (auto simp: holds_own_def held_claim_def live_exclusive_def dest: find_SomeD)

lemma move_claims_safe: "move_claims ev c a re d rows s = Inr (m, s') \<Longrightarrow> safe s s'"
proof -
  assume run: "move_claims ev c a re d rows s = Inr (m, s')"
  obtain srcs held created t where f: "foldE (move_one ev c a re d) srcs (held_claim s a d, None, s) = Inr (held, created, t)"
    and r: "(case created of Some m \<Rightarrow> Inr (m, t) | None \<Rightarrow> (case held of Some h \<Rightarrow> Inr (bind_held_claim ev c a re h t)
        | None \<Rightarrow> new_claim_for ev c (a_project a) (a_node a) (a_revision a) (Some (a_id a)) d re [] Implement None t)) = Inr (m, s')"
    using run unfolding move_claims_def Let_def by auto
  note ft = move_all_safe[OF f held_claim_own]
  have "safe t s'"
    using r ft bind_held_claim_safe[of _ t a ev c re m s'] new_claim_for_effect(1)[of ev c "a_project a" "a_node a" "a_revision a" "Some (a_id a)" d re "[]" Implement None t m s']
    by (auto simp: holds_own_def split: option.splits)
  then show ?thesis using ft safe_trans by blast
qed

lemma reassign_claims_safe: "reassign_claims ev c a re nh s = Inr (r, s') \<Longrightarrow> safe s s'"
  using moved_claims_stop_safe[of s ev c a re nh] safe_trans move_claims_safe
  by (fastforce simp: reassign_claims_def Let_def split: option.splits)

section \<open>Abandoning and taking over\<close>

lemma reclaimable_active: "reclaimable ev c a ex ov bp s = Inr r \<Longrightarrow> a_status a \<in> set ACTIVE \<and> ex = a_fence a"
  by (auto simp: reclaimable_def)

lemma keeps_owner [simp]:
  "a_fence a < fe \<Longrightarrow> keeps_attempt a (a\<lparr>a_owner := d, a_fence := fe, a_lease := l, a_heartbeat := h, a_updated := t\<rparr>)"
  "a_status a \<in> set ACTIVE \<Longrightarrow> a_fence a \<le> fe \<Longrightarrow> keeps_attempt a (a\<lparr>a_status := Abandoned, a_abandon := k, a_error := e, a_fence := fe, a_updated := t\<rparr>)"
  by (auto simp: keeps_attempt_def attempt_ident_def ACTIVE_def)

lemma safe_void: "safe s t \<Longrightarrow> void_open_handoffs ev aid re t = (v, u) \<Longrightarrow> safe s u"
  using safe_then_quiet void_open_handoffs_quiet by blast

lemma safe_notified: "safe s t \<Longrightarrow> (if b then notify ev tg ki su bo refs pid se t else Inr (x, t)) = Inr (y, u) \<Longrightarrow> safe s u"
  using safe_trans notify_safe by (metis Inr_inject Pair_inject)

lemma yields_prod_app: "(\<And>a b. x = (a, b) \<Longrightarrow> yields R s (f a b y)) \<Longrightarrow> yields R s ((case x of (a, b) \<Rightarrow> f a b) y)"
  by (cases x) simp

lemma abandon_commit_safe: "abandon_commit ev c aid ex kd re rep ov s = Inr (r, s') \<Longrightarrow> safe s s'"
proof (erule yieldsD[rotated], unfold abandon_commit_def Let_def, intro yields_bind yields_prod yields_prod_app yields_Inr)
  fix a rc glass u s1 x4 rel nc s4 voided s5 x7 note7 s7 x8 p t
  assume a: "get_attempt s aid = Inr a" "reclaimable ev c a ex ov False s = Inr rc"
    and rep: "(case rep of None \<Rightarrow> Inr s | Some (ref, sha, bytes) \<Rightarrow> store_report_blob ev ref sha bytes s) = Inr s1"
  let ?f = "\<lambda>x. x\<lparr>a_status := Abandoned, a_abandon := Some kd, a_error := Some re, a_fence := a_fence a + 1, a_updated := now_at ev\<rparr>"
  let ?s2 = "update_attempt aid ?f s1"
  assume mv: "reassign_claims ev c a (''attempt abandoned: '' @ re) None (?s2\<lparr>owners := update_where (\<lambda>w. ow_attempt w = aid)
       (\<lambda>w. w\<lparr>ow_status := OwAbandoned, ow_updated := now_at ev, ow_settled := Some (now_at ev)\<rparr>) (owners ?s2)\<rparr>) = Inr x4" "x4 = (rel, s4)"
  assume v: "void_open_handoffs ev aid ''attempt abandoned'' s4 = (voided, s5)"
  have q: "quiet s s1" using rep store_report_blob_quiet by (auto split: option.splits)
  have "safe s1 ?s2"
    by (rule safe_active[where a = a]) (use a quiet_get(1)[OF q] reclaimable_active in auto)
  then have "safe s s4" using safe_trans[OF safe_then_quiet[OF safe_trans[OF quiet_safe[OF q]] quiet_tables(1)] reassign_claims_safe] mv by blast
  then have s6: "safe s (attempt_event ev a ''attempt_abandoned'' pl s5)" for pl using safe_attempt_event[OF safe_void[OF _ v]] by blast
  {
    fix pl tg ki su bo refs pid se
    assume n: "(if owned a \<and> a_owner a \<noteq> by_driver c then notify ev tg ki su bo refs pid se (attempt_event ev a ''attempt_abandoned'' pl s5)
        else Inr (NotAddressed, attempt_event ev a ''attempt_abandoned'' pl s5)) = Inr x7" "x7 = (note7, s7)"
      and p: "pub_result ev aid s7 = Inr x8" "x8 = (p, t)"
    have "t = s7" using p by (auto simp: pub_result_def)
    then show "safe s t" using safe_notified[OF s6] n by blast
  }
qed

lemma abandon_external_attempt_safe: "abandon_external_attempt ev io c aid ex ki re ref sha ov s = Inr (r, s') \<Longrightarrow> safe s s'"
  by (auto simp: abandon_external_attempt_def dest: abandon_commit_safe)

text \<open>The ownership columns of an active attempt, then its claims: the step takeovers and handoffs share.\<close>

lemma own_attempt_safe:
  assumes "get_attempt s aid = Inr a" "a_status a \<in> set ACTIVE"
    and "reassign_claims ev c a re nh (update_attempt aid (\<lambda>x. x\<lparr>a_owner := d, a_fence := a_fence a + 1, a_lease := l, a_heartbeat := h, a_updated := t\<rparr>) s) = Inr (x, s')"
  shows "safe s s'"
  using safe_trans[OF safe_active[OF assms(1,2)] reassign_claims_safe[OF assms(3)]] by simp

lemma take_over_attempt_safe: "take_over_attempt ev c aid ex re ov s = Inr (r, s') \<Longrightarrow> safe s s'"
proof (erule yieldsD[rotated], unfold take_over_attempt_def Let_def, intro yields_bind yields_prod yields_prod_app yields_Inr)
  fix r' ov' a rc x2 y s2 voided s3 x5 note5 s5 x6 p t
  assume a: "get_attempt s aid = Inr a" "reclaimable ev c a ex ov' True s = Inr rc"
    and mv: "reassign_claims ev c a (''attempt taken over: '' @ r') (Some (the (by_driver c)))
      (update_attempt aid (\<lambda>x. x\<lparr>a_owner := Some (the (by_driver c)), a_fence := a_fence a + 1, a_lease := Some (add_seconds (now_at ev) DEFAULT_LEASE_SECONDS),
                a_heartbeat := Some (now_at ev), a_updated := now_at ev\<rparr>) s) = Inr x2" "x2 = (y, s2)"
    and v: "void_open_handoffs ev aid ''attempt taken over'' s2 = (voided, s3)"
  have "safe s s2" using own_attempt_safe[OF a(1)] reclaimable_active[OF a(2)] mv by blast
  then have s4: "safe s (attempt_event ev a ''attempt_ownership_transferred'' pl s3)" for pl using safe_attempt_event[OF safe_void[OF _ v]] by blast
  {
    fix pl tg ki su bo refs pid se
    assume n: "(if owned a then notify ev tg ki su bo refs pid se (attempt_event ev a ''attempt_ownership_transferred'' pl s3)
        else Inr (NotAddressed, attempt_event ev a ''attempt_ownership_transferred'' pl s3)) = Inr x5" "x5 = (note5, s5)"
      and p: "pub_result ev aid s5 = Inr x6" "x6 = (p, t)"
    have "t = s5" using p by (auto simp: pub_result_def)
    then show "safe s t" using safe_notified[OF s4] n by blast
  }
qed

lemma get_claim_rowD: "get_claim_row s pid cid = Inr cl \<Longrightarrow> cl \<in> set (claims s) \<and> c_project cl = pid \<and> c_id cl = cid"
  by (auto simp: get_claim_row_def dest: find_SomeD)

lemma claim_handover_safe:
  assumes run: "claim_handover ev c d old n p re sk rh s = Inr (cl, s')" and old: "old \<in> set (claims s)" "c_status old = Live"
  shows "safe s s'"
proof (rule safeI)
  assume inv: "sys_inv s"
  define s2 where "s2 = add_history ev (by_actor c) (old\<lparr>c_status := TakenOver, c_updated := now_at ev\<rparr>) TakenOver (concat [''taken over by '', d, '': '', re])
     (update_claim (c_id old) (\<lambda>x. x\<lparr>c_status := TakenOver, c_updated := now_at ev\<rparr>) s)"
  have 1: "safe s s2" unfolding s2_def by (intro safe_history safe_stop old)
  define cl0 where "cl0 = new_claim (fresh_id ev ''claim-'' 0) (c_project old) (c_node old) d (c_purpose old) (next_fence s2 (c_project old) (c_node old))
     (n_revision n) None (c_workspace old) None (c_lease_seconds old) (now_at ev) sk rh"
  obtain s3 where i: "insert_claim cl0 s2 = Inr s3"
    and s': "\<exists>hr p1 p2. s' = add_event ev (c_project old) (Some (c_node old)) ''claim_acquired'' p1
        (add_event ev (c_project old) (Some (c_node old)) ''claim_taken_over'' p2 (add_history ev (by_actor c) cl0 Live hr s3))"
    using run[unfolded claim_handover_def Let_def, folded s2_def, folded cl0_def] by auto
  have "safe s2 s3"
    by (rule safe_insert_claim[OF i]) (use inv old in \<open>auto simp: cl0_def sys_inv_def claims_ok_def\<close>)
  then have "safe s s'" using s' safe_trans[OF 1] by (auto intro!: safe_event safe_history)
  then show "sys_inv s' \<and> evolves s s'" using inv by (simp add: safe_def)
qed

lemma take_over_claim_safe: "take_over_claim ev c pid cid ex re rk s = Inr (r, s') \<Longrightarrow> safe s s'"
proof (erule yieldsD[rotated], unfold take_over_claim_def Let_def, intro yields_rules safe_refl)
  fix d r' old0 old n x cl s2 y nt s3 rk' rh p u
  let ?s1 = "sweep_conn ev (by_actor c) pid (now_at ev) (Some (c_node old0)) s"
  assume old: "get_claim_row ?s1 pid cid = Inr old" "raise_if (c_status old \<noteq> Live) (ClaimError ''claim_not_live'') = Inr u"
  assume h: "claim_handover ev c d old n p r' rk' rh ?s1 = Inr x" "x = (cl, s2)"
  {
    fix tg ki su bo refs pj se
    assume nt: "notify ev tg ki su bo refs pj se s2 = Inr y" "y = (nt, s3)"
    have 2: "safe ?s1 s2" using claim_handover_safe[of ev c d old n p r' rk' rh ?s1 cl s2] h get_claim_rowD[OF old(1)] old(2) by simp
    show "safe s s3" by (rule safe_trans[OF safe_trans[OF sweep_conn_safe 2] notify_safe[OF nt(1)[unfolded nt(2)]]])
  }
qed

section \<open>Handoffs\<close>

lemma offer_handoff_quiet: "offer_handoff ev io c pid rk fe pk aid cid tg s = Inr (r, s') \<Longrightarrow> quiet s s'"
proof (erule yieldsD[rotated], unfold offer_handoff_def Let_def, intro yields_rules quiet_refl)
  fix x nt t h pl k ki su bo refs pj se
  assume "notify ev (Some tg) ki su bo refs pj se (add_event ev pid (Some k) ''handoff_offered'' pl (s\<lparr>handoffs := handoffs s @ [h]\<rparr>)) = Inr x" "x = (nt, t)"
  then show "quiet s t" using notify_quiet quiet_trans[OF quiet_then[OF quiet_tables(2)]] by blast
qed

lemma accept_attempt_safe: "accept_attempt ev c d h aid ex s = Inr (r, s') \<Longrightarrow> safe s s'"
proof (erule yieldsD[rotated], unfold accept_attempt_def Let_def, intro yields_bind yields_prod yields_prod_app yields_Inr safe_attempt_event)
  fix a u x y t
  assume a: "get_attempt s aid = Inr a" "raise_if (a_status a \<notin> set ACTIVE) (ClaimError ''attempt_not_active'') = Inr u"
    and mv: "reassign_claims ev c a (concat [''handoff '', ho_id h, '' accepted'']) (Some d)
      (update_attempt aid (\<lambda>x. x\<lparr>a_owner := Some d, a_fence := a_fence a + 1, a_lease := Some (add_seconds (now_at ev) 7200),
                a_heartbeat := Some (now_at ev), a_updated := now_at ev\<rparr>) s) = Inr x" "x = (y, t)"
  show "safe s t" by (rule own_attempt_safe[OF a(1) _ mv(1)[unfolded mv(2)]]) (use a(2) in simp)
qed

lemma accept_claim_safe: "accept_claim ev c d h cid ex s = Inr (r, s') \<Longrightarrow> safe s s'"
proof (erule yieldsD[rotated], unfold accept_claim_def Let_def, intro yields_rules)
  fix cl u x m t re
  assume cl: "require_some (claim_at s cid) (IntegrityError ''claim'') = Inr cl"
    "raise_if (c_status cl \<noteq> Live \<or> c_driver cl \<noteq> ho_from h \<or> c_fence cl \<noteq> ex \<or> c_fence cl \<noteq> ho_fence h) (ClaimError ''stale_fence'') = Inr u"
  have c: "cl \<in> set (claims s)" "c_id cl = cid" "c_status cl = Live" using cl by (auto simp: claim_at_def dest: find_SomeD)
  {
    fix pid k rv aid d' re ws pu su nk ty pl
    assume n: "new_claim_for ev c pid k rv aid d' re ws pu su (add_event ev pid nk ty pl (add_history ev (by_actor c)
        (cl\<lparr>c_status := Transferred, c_updated := now_at ev\<rparr>) Transferred re
        (update_claim cid (\<lambda>x. x\<lparr>c_status := Transferred, c_updated := now_at ev\<rparr>) s))) = Inr x" "x = (m, t)"
    show "safe s t"
      by (rule safe_trans[OF safe_event[OF safe_history[OF safe_stop[OF c(1,3), unfolded c(2)]]] new_claim_for_effect(1)[OF n(1)[unfolded n(2)]]])
  }
qed

lemma accept_handoff_safe: "accept_handoff ev c pid hid ex s = Inr (r, s') \<Longrightarrow> safe s s'"
proof (erule yieldsD[rotated], unfold accept_handoff_def Let_def, intro yields_rules)
  fix h x cl s1 y nt t tg ki su bo refs pj se d re
  assume "(case ho_attempt h of Some aid \<Rightarrow> accept_attempt ev c d h aid ex s
            | None \<Rightarrow> (case ho_claim h of Some cid \<Rightarrow> accept_claim ev c d h cid ex s | None \<Rightarrow> Inl (IntegrityError ''handoff''))) = Inr x" "x = (cl, s1)"
  then have "safe s s1" using accept_attempt_safe accept_claim_safe by (auto split: option.splits)
  moreover assume "notify ev tg ki su bo refs pj se (decide ev hid HAccepted d re s1) = Inr y" "y = (nt, t)"
  ultimately show "safe s t" using safe_trans[OF safe_then_quiet[OF _ decide_quiet] notify_safe] by blast
qed

lemma decline_handoff_quiet: "decline_handoff ev c pid hid re s = Inr (r, s') \<Longrightarrow> quiet s s'"
proof (erule yieldsD[rotated], unfold decline_handoff_def Let_def, intro yields_rules)
  fix y nt t tg ki su bo refs pj se pd nk ty pl d re
  assume n: "notify ev tg ki su bo refs pj se (add_event ev pd nk ty pl (decide ev hid HDeclined d re s)) = Inr y" "y = (nt, t)"
  show "quiet s t" by (rule quiet_trans[OF quiet_then[OF decide_quiet] notify_quiet[OF n(1)[unfolded n(2)]]])
qed

lemma withdraw_handoff_quiet: "withdraw_handoff ev c pid hid re s = Inr (r, s') \<Longrightarrow> quiet s s'"
  by (erule yieldsD[rotated], unfold withdraw_handoff_def Let_def) (intro yields_rules quiet_refl quiet_then decide_quiet)

end
