(* ===== verification/System.thy ===== *)
theory System
  imports Safe_Recovery
begin

text \<open>
  The store as one machine. A command is one write transaction of the State core; a transaction
  commits or, on an error, leaves the database as it was (\<open>StateGraphStore.transaction\<close>). Reading
  claims is two transactions, the first of which sweeps. The operations that await the workflow engine, a report or an
  artifact import between two transactions appear as their transactions, the later of which take arbitrary inputs where
  the code takes what it was told: every interleaving of other commands is covered.
\<close>

section \<open>Commands\<close>

datatype (plugins only: code) command =
    CreateProject string string "string option"
  | SetAccess string string
  | AddNodes string pyval
  | ReviseNode string string int string "string option" "pyval option" "pyval option"
  | SplitNode string string int pyval string
  | SupersedeNode string string int string
  | SetFacet string string pyval
  | SetPriority string string int int string "string option"
  | BindSource string string string int
  | SetDispatch string string int string
  | SetClaimEnforcement string string int string
  | SetReviewIndependence string string int string
  | SetHold string string bool int string
  | AddReference string string string string string string string string "string option" "string option" bool
  | RetireProtection string string string string int string string string
  | Checkpoint string
  | DeclarePresence string string "int option"
  | ClaimNode string string string int string int string "string option"
  | ReleaseClaim string string int string
  | Heartbeat string "(string \<times> int) list" "(string \<times> int) list" "string list"
  | GetClaim string string
  | ListClaims string "string list option" "claim_status list" "string option" nat
  | TakeOverClaim string string int string string
  | ReserveWorkflow string string int string reservation
  | RegisterExternal string string int string string reservation pass
  | RegisterRelay string string int string string string string pyval
  | RecordPreflight string pyval "string option"
  | PinRelay string pyval
  | PinPrior string "string \<times> string option" pyval
  | ReconcilePrior string pyval pyval
  | PinHost string pyval
  | ClaimLaunch string "string option" "int option"
  | RetireReservation string string
  | LaunchUncertain string string
  | BindRun string run_info
  | Reconcile string run_info attempt_status "string option" "string option"
  | RecordEvidence string evidence_in "engine option"
  | Verify string string int string string bool
  | Observe string observation_in attempt_status retained
  | Abandon string int abandon_kind string "(string \<times> string \<times> string) option" "string option"
  | TakeOverAttempt string int string "string option"
  | OfferHandoff report_io string string int pyval "string option" "string option" string
  | AcceptHandoff string string int
  | DeclineHandoff string string string
  | WithdrawHandoff string string string
  | RegisterSubagent string string string string
  | ReportIssue string string string string string string "string list" "string option"
  | LinkIssue string string int "string list" string bool
  | ResolveIssue string string int string string string resolution_in

text \<open>One transaction: the error, if any, and the database that is stored.\<close>

definition transact :: "db \<Rightarrow> ('a \<times> db) result \<Rightarrow> error option \<times> db" where
  "transact s r = (case commit s r of (Inl e, t) \<Rightarrow> (Some e, t) | (Inr _, t) \<Rightarrow> (None, t))"

text \<open>An operation of several transactions has committed by itself what it keeps.\<close>

definition outcome :: "'a result \<times> db \<Rightarrow> error option \<times> db" where
  "outcome r = (case fst r of Inl e \<Rightarrow> Some e | Inr _ \<Rightarrow> None, snd r)"

primrec exec :: "env \<Rightarrow> caller \<Rightarrow> command \<Rightarrow> db \<Rightarrow> error option \<times> db" where
  "exec ev c (CreateProject pid title src) s = transact s (create_project ev pid title src s)"
| "exec ev c (SetAccess pid vis) s = transact s (set_project_access ev pid vis (by_actor c) s)"
| "exec ev c (AddNodes pid specs) s = transact s (add_nodes ev pid specs s)"
| "exec ev c (ReviseNode pid k ex re goal acc nd) s = transact s (edit_revise ev c pid k ex re goal acc nd s)"
| "exec ev c (SplitNode pid k ex ch re) s = transact s (edit_split ev c pid k ex ch re s)"
| "exec ev c (SupersedeNode pid k ex re) s = transact s (edit_supersede ev c pid k ex re s)"
| "exec ev c (SetFacet pid k v) s = transact s (edit_facet ev c pid k v s)"
| "exec ev c (SetPriority pid k pr ex re di) s = transact s (set_node_priority ev pid k pr ex re (Some (by_actor c)) di s)"
| "exec ev c (BindSource pid repo common ex) s = transact s (bind_source ev c pid repo common ex s)"
| "exec ev c (SetDispatch pid d ex re) s = transact s (set_dispatch ev c pid d ex re s)"
| "exec ev c (SetClaimEnforcement pid sw ex re) s = transact s (set_claim_enforcement ev c pid sw ex re s)"
| "exec ev c (SetReviewIndependence pid md ex re) s = transact s (set_review_independence ev c pid md ex re s)"
| "exec ev c (SetHold pid k held ex re) s = transact s (set_hold ev c pid k held ex re s)"
| "exec ev c (AddReference pid k rid kind ref label prov st art rep prot) s = transact s (add_reference ev c pid k rid kind ref label prov st art rep prot s)"
| "exec ev c (RetireProtection pid k rid run ex ph rk re) s = transact s (retire_context_run_protection ev c pid k rid run ex ph rk re s)"
| "exec ev c (Checkpoint run) s = transact s (checkpoint_controller ev c run s)"
| "exec ev c (DeclarePresence st re ret) s = transact s (declare_presence ev (by_driver c) st re ret (Some (by_actor c)) s)"
| "exec ev c (ClaimNode pid k pu ex rk ls ws sub) s = transact s (claim_node ev c pid k pu ex rk ls ws sub s)"
| "exec ev c (ReleaseClaim pid cid fe re) s = transact s (release_claim ev c pid cid fe re s)"
| "exec ev c (Heartbeat pid cs as subs) s = transact s (heartbeat ev c pid cs as subs s)"
| "exec ev c (GetClaim pid cid) s = outcome (get_claim ev c pid cid s)"
| "exec ev c (ListClaims pid ks sts d lim) s = outcome (list_claims ev c pid ks sts d lim s)"
| "exec ev c (TakeOverClaim pid cid ex re rk) s = transact s (take_over_claim ev c pid cid ex re rk s)"
| "exec ev c (ReserveWorkflow pid k ex w rq) s = transact s (reserve_workflow ev pid k ex w rq s)"
| "exec ev c (RegisterExternal pid k ex h x rq pre) s = transact s (register_external ev c pid k ex h x rq pre s)"
| "exec ev c (RegisterRelay pid k ex h x rk ins rel) s = transact s (register_relay_handoff ev c pid k ex h x rk ins rel s)"
| "exec ev c (RecordPreflight aid rep er) s = transact s (record_preflight ev aid rep er s)"
| "exec ev c (PinRelay aid rel) s = transact s (pin_relay ev aid rel s)"
| "exec ev c (PinPrior aid pr v) s = transact s (pin_prior_candidate ev aid pr v s)"
| "exec ev c (ReconcilePrior aid x v) s = transact s (reconcile_prior_candidate ev aid x v s)"
| "exec ev c (PinHost aid d) s = transact s (pin_host_contract ev aid d s)"
| "exec ev c (ClaimLaunch aid cid fe) s = transact s (claim_launch ev aid (by_driver c) (by_admin c) (Some (by_actor c)) cid fe s)"
| "exec ev c (RetireReservation aid re) s = transact s (retire_reservation ev aid re s)"
| "exec ev c (LaunchUncertain aid re) s = transact s (launch_uncertain ev aid re s)"
| "exec ev c (BindRun aid row) s = transact s (bind_run_commit ev aid row s)"
| "exec ev c (Reconcile aid row ob cand act) s = transact s (reconcile_commit ev aid row ob cand act s)"
| "exec ev c (RecordEvidence aid vi sf) s = transact s (record_evidence ev aid vi sf s)"
| "exec ev c (Verify pid k ex aid rv rb) s = transact s (verify ev pid k ex aid rv rb s)"
| "exec ev c (Observe aid oi st re) s = transact s (observe_commit ev c aid oi st re s)"
| "exec ev c (Abandon aid ex kd re rep ov) s = transact s (abandon_commit ev c aid ex kd re rep ov s)"
| "exec ev c (TakeOverAttempt aid ex re ov) s = transact s (take_over_attempt ev c aid ex re ov s)"
| "exec ev c (OfferHandoff io pid rk fe pk aid cid tg) s = transact s (offer_handoff ev io c pid rk fe pk aid cid tg s)"
| "exec ev c (AcceptHandoff pid hid ex) s = transact s (accept_handoff ev c pid hid ex s)"
| "exec ev c (DeclineHandoff pid hid re) s = transact s (decline_handoff ev c pid hid re s)"
| "exec ev c (WithdrawHandoff pid hid re) s = transact s (withdraw_handoff ev c pid hid re s)"
| "exec ev c (RegisterSubagent pid aid label ws) s = transact s (register_subagent ev c pid aid label ws s)"
| "exec ev c (ReportIssue pid rk ki ti bo di ks so) s = transact s (report_issue ev c pid rk ki ti bo di ks so s)"
| "exec ev c (LinkIssue pid iid ex ks re rp) s = transact s (link_issue ev pid iid ex ks re rp s)"
| "exec ev c (ResolveIssue pid iid ex res re di ra) s = transact s (resolve_issue ev c pid iid ex res re di ra s)"

text \<open>
  A step of the store is a command, the begin or the end of a wait for messages (which has no caller to
  refuse), a lease sweep, or any write of the tables that belong to other services and that the
  commands only read or append to: the driver registry and its memberships, design bindings, the
  engine's run rows and the inbox.
\<close>

inductive step :: "db \<Rightarrow> db \<Rightarrow> bool" where
  command: "exec ev c cmd s = (err, t) \<Longrightarrow> step s t"
| wait_begins: "step s (snd (wait_begin ev d timeout s))"
| wait_ends: "step s (wait_end ev wid s)"
| sweeps: "step s (sweep ev c pid s)"
| outside: "step s (s\<lparr>drivers := ds, memberships := ms, designs := dg, run_rows := rr, inbox := ib, deliveries := dl\<rparr>)"

inductive_cases stepE: "step s t"

inductive reachable :: "db \<Rightarrow> bool" where
  start: "reachable empty_db"
| next_state: "reachable s \<Longrightarrow> step s t \<Longrightarrow> reachable t"

section \<open>Every command is safe\<close>

lemma transact_yields: "yields R s r \<Longrightarrow> R s s \<Longrightarrow> R s (snd (transact s r))"
  by (auto simp: transact_def commit_def yields_def split: sum.splits prod.splits)

lemma transact_safe: "(\<And>x t. r = Inr (x, t) \<Longrightarrow> safe s t) \<Longrightarrow> safe s (snd (transact s r))"
  by (rule transact_yields) (auto simp: yields_def)

lemma transact_quiet: "(\<And>x t. r = Inr (x, t) \<Longrightarrow> quiet s t) \<Longrightarrow> safe s (snd (transact s r))"
  by (rule transact_safe) (rule quiet_safe)

lemma transact_error: "transact s r = (Some e, t) \<longleftrightarrow> r = Inl e \<and> t = s"
  by (auto simp: transact_def commit_def split: sum.splits prod.splits)

lemma transact_ok: "transact s r = (None, t) \<longleftrightarrow> (\<exists>x. r = Inr (x, t))"
  by (auto simp: transact_def commit_def split: sum.splits prod.splits)

text \<open>The four structural edits.\<close>

lemma structural_safe:
  assumes "structural ev c action pid k body s = Inr (r, s')" "\<And>r t. body s = Inr (r, t) \<Longrightarrow> safe s t"
  shows "safe s s'"
proof -
  obtain held t where t: "body s = Inr (r, t)"
      "s' = (case held of None \<Rightarrow> t | Some hs \<Rightarrow> add_event ev pid (Some k) ''claim_overridden'' (override_payload action c hs) t)"
    using assms(1) by (auto simp: structural_def)
  show ?thesis using safe_trans[OF assms(2)[OF t(1)] quiet_safe[OF quiet_add_event]] assms(2)[OF t(1)] t(2) by (cases held) auto
qed

lemma edit_revise_safe: "edit_revise ev c pid k ex re goal acc nd s = Inr (r, s') \<Longrightarrow> safe s s'"
  unfolding edit_revise_def by (erule structural_safe) (rule revise_node_safe)

lemma edit_split_safe: "edit_split ev c pid k ex ch re s = Inr (r, s') \<Longrightarrow> safe s s'"
  unfolding edit_split_def by (erule structural_safe) (rule split_node_safe)

lemma edit_supersede_safe: "edit_supersede ev c pid k ex re s = Inr (r, s') \<Longrightarrow> safe s s'"
  unfolding edit_supersede_def by (erule structural_safe) (rule supersede_node_safe)

lemma edit_facet_safe: "edit_facet ev c pid k v s = Inr (r, s') \<Longrightarrow> safe s s'"
  unfolding edit_facet_def by (erule structural_safe) (rule set_node_facet_safe)

lemma exec_safe: "safe s (snd (exec ev c cmd s))"
proof (cases cmd)
  case CreateProject
  show ?thesis unfolding CreateProject exec.simps by (rule transact_safe) (rule create_project_safe)
next
  case SetAccess
  show ?thesis unfolding SetAccess exec.simps by (rule transact_safe) (rule set_project_access_safe)
next
  case AddNodes
  show ?thesis unfolding AddNodes exec.simps by (rule transact_safe) (rule add_nodes_safe)
next
  case ReviseNode
  show ?thesis unfolding ReviseNode exec.simps by (rule transact_safe) (rule edit_revise_safe)
next
  case SplitNode
  show ?thesis unfolding SplitNode exec.simps by (rule transact_safe) (rule edit_split_safe)
next
  case SupersedeNode
  show ?thesis unfolding SupersedeNode exec.simps by (rule transact_safe) (rule edit_supersede_safe)
next
  case SetFacet
  show ?thesis unfolding SetFacet exec.simps by (rule transact_safe) (rule edit_facet_safe)
next
  case SetPriority
  show ?thesis unfolding SetPriority exec.simps by (rule transact_safe) (rule set_node_priority_safe)
next
  case BindSource
  show ?thesis unfolding BindSource exec.simps by (rule transact_quiet) (rule bind_source_quiet)
next
  case SetDispatch
  show ?thesis unfolding SetDispatch exec.simps by (rule transact_quiet) (rule set_dispatch_quiet)
next
  case SetClaimEnforcement
  show ?thesis unfolding SetClaimEnforcement exec.simps by (rule transact_quiet) (rule set_claim_enforcement_quiet)
next
  case SetReviewIndependence
  show ?thesis unfolding SetReviewIndependence exec.simps by (rule transact_quiet) (rule set_review_independence_quiet)
next
  case SetHold
  show ?thesis unfolding SetHold exec.simps by (rule transact_quiet) (rule set_hold_quiet)
next
  case AddReference
  show ?thesis unfolding AddReference exec.simps by (rule transact_quiet) (rule add_reference_quiet)
next
  case RetireProtection
  show ?thesis unfolding RetireProtection exec.simps by (rule transact_quiet) (rule retire_context_run_protection_quiet)
next
  case Checkpoint
  show ?thesis unfolding Checkpoint exec.simps by (rule transact_quiet) (rule checkpoint_controller_quiet)
next
  case DeclarePresence
  show ?thesis unfolding DeclarePresence exec.simps by (rule transact_quiet) (rule declare_presence_quiet)
next
  case ClaimNode
  show ?thesis unfolding ClaimNode exec.simps by (rule transact_safe) (rule claim_node_safe)
next
  case ReleaseClaim
  show ?thesis unfolding ReleaseClaim exec.simps by (rule transact_safe) (rule release_claim_safe)
next
  case Heartbeat
  show ?thesis unfolding Heartbeat exec.simps by (rule transact_safe) (rule heartbeat_safe)
next
  case GetClaim
  show ?thesis unfolding GetClaim exec.simps by (simp add: outcome_def get_claim_safe)
next
  case ListClaims
  show ?thesis unfolding ListClaims exec.simps by (simp add: outcome_def list_claims_safe)
next
  case TakeOverClaim
  show ?thesis unfolding TakeOverClaim exec.simps by (rule transact_safe) (rule take_over_claim_safe)
next
  case ReserveWorkflow
  show ?thesis unfolding ReserveWorkflow exec.simps by (rule transact_safe) (rule reserve_workflow_safe)
next
  case RegisterExternal
  show ?thesis unfolding RegisterExternal exec.simps by (rule transact_safe) (rule register_external_safe)
next
  case RegisterRelay
  show ?thesis unfolding RegisterRelay exec.simps by (rule transact_safe) (rule register_relay_handoff_safe)
next
  case RecordPreflight
  show ?thesis unfolding RecordPreflight exec.simps by (rule transact_safe) (rule record_preflight_safe)
next
  case PinRelay
  show ?thesis unfolding PinRelay exec.simps by (rule transact_safe) (rule pin_relay_safe)
next
  case PinPrior
  show ?thesis unfolding PinPrior exec.simps by (rule transact_safe) (rule pin_prior_candidate_safe)
next
  case ReconcilePrior
  show ?thesis unfolding ReconcilePrior exec.simps by (rule transact_safe) (rule reconcile_prior_candidate_safe)
next
  case PinHost
  show ?thesis unfolding PinHost exec.simps by (rule transact_safe) (rule pin_host_contract_safe)
next
  case ClaimLaunch
  show ?thesis unfolding ClaimLaunch exec.simps by (rule transact_safe) (rule claim_launch_safe)
next
  case RetireReservation
  show ?thesis unfolding RetireReservation exec.simps by (rule transact_safe) (rule retire_reservation_safe)
next
  case LaunchUncertain
  show ?thesis unfolding LaunchUncertain exec.simps by (rule transact_safe) (rule launch_uncertain_safe)
next
  case BindRun
  show ?thesis unfolding BindRun exec.simps by (rule transact_safe) (rule bind_run_commit_safe)
next
  case Reconcile
  show ?thesis unfolding Reconcile exec.simps by (rule transact_safe) (rule reconcile_commit_safe)
next
  case RecordEvidence
  show ?thesis unfolding RecordEvidence exec.simps by (rule transact_safe) (rule record_evidence_safe)
next
  case Verify
  show ?thesis unfolding Verify exec.simps by (rule transact_safe) (rule verify_safe)
next
  case Observe
  show ?thesis unfolding Observe exec.simps by (rule transact_safe) (rule observe_commit_safe)
next
  case Abandon
  show ?thesis unfolding Abandon exec.simps by (rule transact_safe) (rule abandon_commit_safe)
next
  case TakeOverAttempt
  show ?thesis unfolding TakeOverAttempt exec.simps by (rule transact_safe) (rule take_over_attempt_safe)
next
  case OfferHandoff
  show ?thesis unfolding OfferHandoff exec.simps by (rule transact_quiet) (rule offer_handoff_quiet)
next
  case AcceptHandoff
  show ?thesis unfolding AcceptHandoff exec.simps by (rule transact_safe) (rule accept_handoff_safe)
next
  case DeclineHandoff
  show ?thesis unfolding DeclineHandoff exec.simps by (rule transact_quiet) (rule decline_handoff_quiet)
next
  case WithdrawHandoff
  show ?thesis unfolding WithdrawHandoff exec.simps by (rule transact_quiet) (rule withdraw_handoff_quiet)
next
  case RegisterSubagent
  show ?thesis unfolding RegisterSubagent exec.simps by (rule transact_quiet) (rule register_subagent_quiet)
next
  case ReportIssue
  show ?thesis unfolding ReportIssue exec.simps by (rule transact_quiet) (rule report_issue_quiet)
next
  case LinkIssue
  show ?thesis unfolding LinkIssue exec.simps by (rule transact_quiet) (rule link_issue_quiet)
next
  case ResolveIssue
  show ?thesis unfolding ResolveIssue exec.simps by (rule transact_quiet) (rule resolve_issue_quiet)
qed

lemma step_safe: "step s t \<Longrightarrow> safe s t"
proof (erule stepE)
  fix ev c cmd err assume "exec ev c cmd s = (err, t)"
  then show "safe s t" using exec_safe[of s ev c cmd] by simp
qed (auto intro: quiet_safe wait_begin_quiet wait_end_quiet sweep_safe simp: quiet_def logs_extend_def)

section \<open>The machine\<close>

interpretation store: machine empty_db step sys_inv evolves
proof unfold_locales
  show "sys_inv empty_db" by (rule sys_inv_empty)
  show "sys_inv s \<Longrightarrow> step s t \<Longrightarrow> sys_inv t \<and> evolves s t" for s t using step_safe by (simp add: safe_def)
  show "evolves s t \<Longrightarrow> evolves t u \<Longrightarrow> evolves s u" for s t u by (rule evolves_trans)
qed simp

lemma reachable_iff: "reachable s \<longleftrightarrow> step\<^sup>*\<^sup>* empty_db s"
proof
  show "reachable s \<Longrightarrow> step\<^sup>*\<^sup>* empty_db s"
    by (induction rule: reachable.induct) (auto intro: rtranclp.rtrancl_into_rtrancl)
  show "step\<^sup>*\<^sup>* empty_db s \<Longrightarrow> reachable s"
    by (induction rule: rtranclp_induct) (auto intro: reachable.intros)
qed

lemma reachable_sys_inv: "reachable s \<Longrightarrow> sys_inv s"
  using store.initial_run_inv by (simp add: reachable_iff)

end
