(* ===== verification/Scenario.thy ===== *)
theory Scenario
  imports System "HOL-Library.Code_Target_Nat"
begin

text \<open>
  A concrete run of the store, evaluated in the kernel: a project with two goals, where \<open>b\<close>
  depends on \<open>a\<close>. Goal \<open>a\<close> is reserved, launched, bound, reconciled as a candidate, evidenced and
  accepted; then driver \<open>ann\<close> claims \<open>b\<close>, registers an external attempt and hands it to \<open>bob\<close>.
  The states of the run are the concrete inputs at which the properties are applied.
\<close>

section \<open>Evaluating text\<close>

lemma of_char_128: "(of_char c :: nat) < 128 \<longleftrightarrow> \<not> digit7 c"
  by (cases c) (simp add: of_char_def horner_sum_simps)

lemma utf8_char_code [code]:
  "utf8_char c = (if digit7 c then (let n = (of_char c :: nat) in [char_of (192 + n div 64), char_of (128 + n mod 64)]) else [c])"
  using of_char_128[of c] by (simp add: utf8_char_def Let_def)

section \<open>The script\<close>

definition demo_env :: "int \<Rightarrow> string \<Rightarrow> env" where
  "demo_env t h = \<lparr>now_at = t, fresh_hex = (\<lambda>i. h), sha256_hex = (\<lambda>b. ''d''), env_int = (\<lambda>_. None), identity_on = False\<rparr>"

definition demo_caller :: "string \<Rightarrow> caller" where
  "demo_caller d = \<lparr>by_actor = ''driver:'' @ d, by_driver = Some d, by_admin = False, by_trusted = True\<rparr>"

definition demo_goal :: "string \<Rightarrow> string list \<Rightarrow> pyval" where
  "demo_goal k ds = PDict [(''key'', PStr k), (''goal'', PStr ''goal''), (''acceptance'', PList [PDict [(''id'', PStr ''t''),
     (''description'', PStr ''tests pass''), (''kind'', PStr ''test'')]]), (''dependencies'', py_strs ds)]"

definition demo_request :: reservation where
  "demo_request = \<lparr>rq_workflow = None, rq_key = ''r1'', rq_instruction = [], rq_external = None, rq_continue = None, rq_relay_digest = None,
     rq_frozen = None, rq_base = None, rq_handoff = None, rq_owner = Some ''ann'', rq_claim = None, rq_fence = None, rq_admin = False, rq_prior = None\<rparr>"

definition demo_row :: run_info where
  "demo_row = \<lparr>ri_id = ''run1'', ri_project = ''sg-01'', ri_graph = Some ''wf'', ri_status = ''completed'', ri_version = Some 1,
     ri_digest = Some ''d'', ri_node = None, ri_error = None\<rparr>"

definition demo_artifact :: string where
  "demo_artifact = replicate 40 CHR ''b''"

definition demo_evidence :: evidence_in where
  "demo_evidence = \<lparr>vi_id = ''e1'', vi_criterion = ''t'', vi_verdict = ''pass'', vi_artifact = demo_artifact, vi_report_ref = ''ref'',
     vi_report_sha = replicate 64 CHR ''c'', vi_reviewer = ''driver:bob'', vi_detail = [], vi_bytes = None, vi_director = PNone\<rparr>"

type_synonym script = "(env \<times> caller \<times> command) list"

fun run_script :: "script \<Rightarrow> db \<Rightarrow> error option list \<times> db" where
  "run_script [] s = ([], s)"
| "run_script ((ev, c, cmd) # cmds) s = (let (e, t) = exec ev c cmd s; (es, u) = run_script cmds t in (e # es, u))"

definition plan_script :: script where
  "plan_script = map (\<lambda>cmd. (demo_env 1000000 ''01'', demo_caller ''ann'', cmd))
     [CreateProject ''p'' ''P'' None, AddNodes ''p'' (PList [demo_goal ''a'' [], demo_goal ''b'' [''a'']]),
      ReserveWorkflow ''p'' ''a'' 1 ''wf'' demo_request, ClaimLaunch ''attempt-01'' None None, BindRun ''attempt-01'' demo_row,
      Reconcile ''attempt-01'' demo_row Candidate (Some demo_artifact) None]"

definition accept_script :: script where
  "accept_script = map (\<lambda>cmd. (demo_env 2000000 ''02'', demo_caller ''bob'', cmd))
     [RecordEvidence ''attempt-01'' demo_evidence None, Verify ''p'' ''a'' 1 ''attempt-01'' ''driver:bob'' False]"

definition external_script :: script where
  "external_script =
     map (\<lambda>cmd. (demo_env 3000000 ''03'', demo_caller ''ann'', cmd))
       [ClaimNode ''p'' ''b'' ''implement'' 1 ''k1'' 3600 ''/w'' None,
        RegisterExternal ''p'' ''b'' 1 ''h'' ''x1'' (demo_request\<lparr>rq_claim := Some ''claim-03'', rq_fence := Some 1\<rparr>) Only,
        OfferHandoff \<lparr>rp_read = (\<lambda>_. Inl (StateConflict [])), rp_path = (\<lambda>x. x), rp_json = (\<lambda>_. None), rp_git = (\<lambda>_ _. Inl (StateConflict []))\<rparr>
          ''p'' ''o1'' 1 (PDict []) (Some ''attempt-03'') None ''bob'']"

definition handoff_script :: script where
  "handoff_script = [(demo_env 4000000 ''04'', demo_caller ''bob'', AcceptHandoff ''p'' ''handoff-03'' 1)]"

definition planned_db :: db where "planned_db = snd (run_script plan_script empty_db)"
definition accepted_db :: db where "accepted_db = snd (run_script accept_script planned_db)"
definition external_db :: db where "external_db = snd (run_script external_script accepted_db)"
definition handed_db :: db where "handed_db = snd (run_script handoff_script external_db)"

lemma run_script_steps: "step\<^sup>*\<^sup>* s (snd (run_script cmds s))"
proof (induction cmds s rule: run_script.induct)
  case (2 ev c cmd cmds s)
  obtain e t where e: "exec ev c cmd s = (e, t)" by force
  then have "step s t" by (rule step.command)
  moreover have "step\<^sup>*\<^sup>* t (snd (run_script cmds t))" using 2[OF e[symmetric]] by simp
  ultimately show ?case by (simp add: e split_beta)
qed simp

lemma demo_steps: "step\<^sup>*\<^sup>* planned_db accepted_db" "step\<^sup>*\<^sup>* accepted_db external_db" "step\<^sup>*\<^sup>* external_db handed_db"
  unfolding accepted_db_def external_db_def handed_db_def by (rule run_script_steps)+

lemma demo_reachable: "reachable planned_db" "reachable accepted_db" "reachable external_db" "reachable handed_db"
proof -
  have p: "step\<^sup>*\<^sup>* empty_db planned_db" unfolding planned_db_def by (rule run_script_steps)
  then show "reachable planned_db" "reachable accepted_db" "reachable external_db" "reachable handed_db"
    unfolding reachable_iff using demo_steps by (auto intro: rtranclp_trans)
qed

section \<open>What the run computes\<close>

definition node_row :: "node \<Rightarrow> string \<times> node_status \<times> string option" where
  "node_row n = (n_key n, n_status n, n_receipt n)"

definition attempt_row :: "attempt \<Rightarrow> string \<times> attempt_status \<times> string option \<times> int" where
  "attempt_row a = (a_id a, a_status a, a_owner a, a_fence a)"

definition claim_row :: "claim \<Rightarrow> string \<times> string \<times> claim_status \<times> int" where
  "claim_row c = (c_id c, c_driver c, c_status c, c_fence c)"

definition receipt_row :: "(acceptance \<times> evidence list) result \<Rightarrow> (string \<times> string list) option" where
  "receipt_row r = (case r of Inl _ \<Rightarrow> None | Inr (x, es) \<Rightarrow> Some (rc_id x, map ev_id es))"

lemma accepted_eval:
  "(let s = accepted_db in
    (map node_row (nodes s), map attempt_row (attempts s), project_edges s ''p'', receipt_row (receipt s ''p'' ''receipt-02''))) =
   ([(''a'', VERIFIED, Some ''receipt-02''), (''b'', OPEN, None)], [(''attempt-01'', Candidate, Some ''ann'', 1)],
    [(''b'', ''a'')], Some (''receipt-02'', [''e1'']))"
  by code_simp

lemma handed_eval:
  "(let s = external_db; t = snd (run_script handoff_script s) in
    (map attempt_row (attempts s), map claim_row (claims s), map node_row (nodes t), map attempt_row (attempts t), map claim_row (claims t))) =
   ([(''attempt-01'', Candidate, Some ''ann'', 1), (''attempt-03'', Running, Some ''ann'', 1)],
    [(''claim-03'', ''ann'', Live, 1)],
    [(''a'', VERIFIED, Some ''receipt-02''), (''b'', OPEN, None)],
    [(''attempt-01'', Candidate, Some ''ann'', 1), (''attempt-03'', Running, Some ''bob'', 2)],
    [(''claim-03'', ''ann'', Transferred, 1), (''claim-04'', ''bob'', Live, 2)])"
  by code_simp

end
