(* ===== verification/Graph_Properties.thy ===== *)
theory Graph_Properties
  imports Scenario
begin

text \<open>
  The properties of the state graph: that the cycle check decides acyclicity, what every reachable
  graph satisfies, what the edits of the graph change and nothing else, the facet rules and the
  release closure, the acceptance contracts, and that a project with open work always has a goal
  a driver can start.
\<close>

section \<open>A small reachable graph\<close>

definition draft_script :: script where
  "draft_script = take 2 plan_script"

definition drafted_db :: db where
  "drafted_db = snd (run_script draft_script empty_db)"

lemma drafted_reachable: "reachable drafted_db"
  unfolding reachable_iff drafted_db_def by (rule run_script_steps)

lemma reachable_graph_inv: "reachable s \<Longrightarrow> graph_inv s"
  using reachable_sys_inv by (simp add: sys_inv_def)

lemma not_isl_Inr: "\<not> isl x \<Longrightarrow> \<exists>y. x = Inr y"
  by (cases x) auto

lemma drafted_eval:
  "(let s = drafted_db; ev = demo_env 5 ''05''; r = add_nodes ev ''p'' (PList [demo_goal ''c'' [''a'', ''b'']]) s in
     (isl (revise_node ev ''p'' ''a'' 1 ''why'' (Some ''new goal'') None None s), isl (supersede_node ev ''p'' ''a'' 1 ''why'' s),
      isl (set_node_priority ev ''p'' ''a'' 7 0 ''why'' None None s), isl r, fst (projr r),
      map (\<lambda>n. (n_project n, n_key n, n_status n)) (nodes s), project_edges s ''p'', attempts s, policies s, holds s, enforced s ''p'',
      nv_readiness (view_node ev s ''p'' (hd (nodes s))))) =
   (False, False, False, False, [''c''], [(''p'', ''a'', OPEN), (''p'', ''b'', OPEN)], [(''b'', ''a'')], [], [], [], False, Ready)"
  by code_simp

lemmas drafted_facts = drafted_eval[unfolded Let_def prod.inject]

lemma drafted_ops:
  "\<not> isl (revise_node (demo_env 5 ''05'') ''p'' ''a'' 1 ''why'' (Some ''new goal'') None None drafted_db)"
  "\<not> isl (supersede_node (demo_env 5 ''05'') ''p'' ''a'' 1 ''why'' drafted_db)"
  "\<not> isl (set_node_priority (demo_env 5 ''05'') ''p'' ''a'' 7 0 ''why'' None None drafted_db)"
  "\<not> isl (add_nodes (demo_env 5 ''05'') ''p'' (PList [demo_goal ''c'' [''a'', ''b'']]) drafted_db)"
  "fst (projr (add_nodes (demo_env 5 ''05'') ''p'' (PList [demo_goal ''c'' [''a'', ''b'']]) drafted_db)) = [''c'']"
  "attempts drafted_db = []" "policies drafted_db = []" "holds drafted_db = []" "\<not> enforced drafted_db ''p''"
  using drafted_facts by blast+

lemma drafted_rows: "map (\<lambda>n. (n_project n, n_key n, n_status n)) (nodes drafted_db) = [(''p'', ''a'', OPEN), (''p'', ''b'', OPEN)]"
  "project_edges drafted_db ''p'' = [(''b'', ''a'')]"
  using drafted_facts by blast+

lemma drafted_ready: "nv_readiness (view_node (demo_env 5 ''05'') drafted_db ''p'' (hd (nodes drafted_db))) = Ready"
  using drafted_facts by blast

section \<open>The cycle check\<close>

text \<open>
  C15: The in-degree algorithm of _validate_dag accepts a node table exactly when it is within the
  size limit, every dependency is a node of the table, and the dependency relation is acyclic.
\<close>

theorem validate_dag_correct:
  assumes "distinct (map fst g)"
  shows "validate_dag g = Inr () \<longleftrightarrow> length g \<le> MAX_NODES \<and> closed_graph g \<and> acyclic (dep_rel g)"
  by (rule validate_dag_iff[OF assms])

theorem validate_dag_correct_witness:
  "validate_dag [(''a'', [''b'']), (''b'', [])] = Inr () \<and> acyclic (dep_rel [(''a'', [''b'']), (''b'', [])])"
proof -
  have "validate_dag [(''a'', [''b'']), (''b'', [])] = Inr ()" by code_simp
  then show ?thesis using validate_dag_correct[of "[(''a'', [''b'']), (''b'', [])]"] by simp
qed

text \<open>
  C14: In every reachable state the stored graph of every project is acyclic, no larger than the
  limit, closed under dependencies and legal for the facet rules, node keys are unique, every node
  belongs to a project, and a node holds a receipt exactly when it is VERIFIED.
\<close>

theorem reachable_graph:
  assumes "reachable s"
  shows "acyclic (set (project_edges s pid)) \<and> length (graph_of s pid) \<le> MAX_NODES \<and>
     (\<forall>(k, d) \<in> set (project_edges s pid). (pid, k) \<in> set (node_ids s) \<and> (pid, d) \<in> set (node_ids s)) \<and>
     facets_legal (facets_of s pid) (graph_of s pid) \<and> distinct (node_ids s) \<and>
     (\<forall>n \<in> set (nodes s). n_project n \<in> p_id ` set (projects s) \<and> (n_status n = VERIFIED \<longleftrightarrow> n_receipt n \<noteq> None))"
proof -
  have inv: "graph_inv s" using reachable_graph_inv[OF assms] .
  show ?thesis using graph_inv_dag(1,2)[OF inv, of pid] graph_inv_dag(3)[OF inv] inv by (auto simp: graph_inv_def facets_ok_def schema_ok_def node_ok_def)
qed

theorem reachable_graph_witness: "acyclic (set (project_edges handed_db ''p'')) \<and> distinct (node_ids handed_db)"
  using reachable_graph[OF demo_reachable(4)] by blast

section \<open>Editing the graph\<close>

lemma node_at_update_where:
  assumes d: "distinct (node_ids s)" and ns: "nodes t = map f (nodes s)"
    and keys: "\<And>n. n \<in> set (nodes s) \<Longrightarrow> n_project (f n) = n_project n \<and> n_key (f n) = n_key n" and n: "n \<in> set (nodes s)"
  shows "node_at t (n_project n) (n_key n) = Some (f n)"
proof -
  have "node_ids t = node_ids s" using ns keys by (simp add: node_ids_def)
  then show ?thesis using node_at_Some_iff[of t "n_project n" "n_key n" "f n"] d ns n keys[OF n] by simp
qed

lemma invalidate_row:
  "invalidate ev pid k s = (keys, t) \<Longrightarrow> nodes t = map (\<lambda>n. if goes_stale s pid k n then stale ev n else n) (nodes s)"
  using invalidate_effect(1) by (simp add: update_where_def)

text \<open>
  C16: Revising a goal moves it to the next revision and takes the acceptance from exactly the goal
  and everything that transitively depends on it: those rows become STALE without a receipt unless
  they were superseded, and every other row of the table, in this project or another, is
  unchanged.
\<close>

theorem revise_node_invalidates:
  assumes "reachable s" "revise_node ev pid k ex re goal acc nd s = Inr (r, t)" "n \<in> set (nodes s)"
  shows "\<exists>m. node_at t (n_project n) (n_key n) = Some m \<and>
     (if n_project n = pid \<and> n_key n = k then n_revision n = ex \<and> n_revision m = ex + 1 \<and> n_status m = STALE \<and> n_receipt m = None
      else if n_project n = pid \<and> (n_key n, k) \<in> (set (project_edges s pid))\<^sup>* \<and> n_status n \<noteq> SUPERSEDED
      then m = n\<lparr>n_status := STALE, n_receipt := None, n_updated := now_at ev\<rparr>
      else m = n)"
proof -
  have inv: "graph_inv s" using reachable_graph_inv assms(1) .
  obtain old ds goal' checks keys s1 n' pl where old: "node_at s pid k = Some old" "n_revision old = ex" "n_status old \<noteq> SUPERSEDED"
    and i: "invalidate ev pid k s = (keys, s1)"
    and t: "t = add_event ev pid (Some k) ''node_revised'' pl (snapshot_revision ev n' ds (insert_deps pid k ds (delete_deps pid k
       (update_node pid k (\<lambda>n. n\<lparr>n_revision := ex + 1, n_goal := goal',
        n_contract := checks, n_contract_hash := digest ev (contract_py checks), n_updated := now_at ev\<rparr>) s1))))"
    by (rule revise_node_cases[OF assms(2) inv])
  let ?g = "\<lambda>n. n\<lparr>n_revision := ex + 1, n_goal := goal', n_contract := checks, n_contract_hash := digest ev (contract_py checks), n_updated := now_at ev\<rparr>"
  let ?f = "\<lambda>n. let m = (if goes_stale s pid k n then stale ev n else n) in if is_node pid k m then ?g m else m"
  have ns: "nodes t = map ?f (nodes s)" by (simp add: t invalidate_row[OF i] update_where_def Let_def)
  have at: "node_at t (n_project n) (n_key n) = Some (?f n)"
    by (rule node_at_update_where[OF graph_inv_ids[OF inv] ns]) (auto simp: Let_def assms(3))
  have own: "n = old" if "n_project n = pid" "n_key n = k"
    using node_at_Some_iff[OF graph_inv_ids[OF inv], of pid k n] assms(3) old(1) that by simp
  show ?thesis
    by (rule exI[of _ "?f n"]) (use at own old in \<open>auto simp: Let_def is_node_def goes_stale_def stale_def\<close>)
qed

theorem revise_node_invalidates_witness:
  "\<exists>r t m. revise_node (demo_env 5 ''05'') ''p'' ''a'' 1 ''why'' (Some ''new goal'') None None drafted_db = Inr (r, t) \<and>
     node_at t ''p'' ''a'' = Some m \<and> n_revision m = 2 \<and> n_status m = STALE"
proof -
  obtain r t where t: "revise_node (demo_env 5 ''05'') ''p'' ''a'' 1 ''why'' (Some ''new goal'') None None drafted_db = Inr (r, t)"
    using not_isl_Inr[OF drafted_ops(1)] by force
  obtain n where n: "n \<in> set (nodes drafted_db)" "n_project n = ''p''" "n_key n = ''a''"
    using drafted_rows(1) by (cases "nodes drafted_db") auto
  show ?thesis using revise_node_invalidates[OF drafted_reachable t n(1)] t n by force
qed

text \<open>
  C17: Superseding a goal that was not superseded closes exactly that goal and makes exactly its
  transitive dependents STALE, and no row of the attempt, evidence, receipt or claim tables changes.
\<close>

theorem supersede_node_closes:
  assumes "reachable s" "supersede_node ev pid k ex re s = Inr (r, t)" "n \<in> set (nodes s)"
  shows "non_graph t = non_graph s \<and> deps t = deps s \<and> (\<exists>m. node_at t (n_project n) (n_key n) = Some m \<and> n_revision m = n_revision n \<and>
     (if n_project n = pid \<and> n_key n = k then n_status m = SUPERSEDED \<and> n_receipt m = None
      else if n_project n = pid \<and> (n_key n, k) \<in> (set (project_edges s pid))\<^sup>* \<and> n_status n \<noteq> SUPERSEDED \<and> \<not> superseded_key s pid k
      then m = n\<lparr>n_status := STALE, n_receipt := None, n_updated := now_at ev\<rparr>
      else m = n))"
proof -
  have inv: "graph_inv s" using reachable_graph_inv assms(1) .
  obtain keys s1 where i: "invalidate ev pid k s = (keys, s1)" by force
  obtain old where old: "node_at s pid k = Some old" "superseded_key s pid k \<longleftrightarrow> n_status old = SUPERSEDED"
    using assms(2) by (auto simp: supersede_node_def get_node_iff superseded_key_def)
  let ?g = "\<lambda>n. n\<lparr>n_status := SUPERSEDED, n_updated := now_at ev\<rparr>"
  let ?f = "\<lambda>n. if superseded_key s pid k then n else let m = (if goes_stale s pid k n then stale ev n else n) in if is_node pid k m then ?g m else m"
  consider "t = s" "superseded_key s pid k" | pl where "t = add_event ev pid (Some k) ''node_superseded'' pl (update_node pid k ?g s1)" "\<not> superseded_key s pid k"
    using assms(2) old by (auto simp: supersede_node_def i get_node_iff Let_def split: if_splits)
  then have fr: "nodes t = map ?f (nodes s) \<and> non_graph t = non_graph s \<and> deps t = deps s"
  proof cases
    case 2
    then show ?thesis using invalidate_frame[OF i] by (simp add: invalidate_row[OF i] update_where_def Let_def)
  qed simp
  have at: "node_at t (n_project n) (n_key n) = Some (?f n)"
    by (rule node_at_update_where[OF graph_inv_ids[OF inv] fr[THEN conjunct1]]) (auto simp: Let_def assms(3))
  have own: "n = old" if "n_project n = pid" "n_key n = k"
    using node_at_Some_iff[OF graph_inv_ids[OF inv], of pid k n] assms(3) old(1) that by simp
  have rc: "n_status n = SUPERSEDED \<Longrightarrow> n_receipt n = None" using inv assms(3) by (force simp: graph_inv_def node_ok_def)
  have "\<exists>m. node_at t (n_project n) (n_key n) = Some m \<and> n_revision m = n_revision n \<and>
     (if n_project n = pid \<and> n_key n = k then n_status m = SUPERSEDED \<and> n_receipt m = None
      else if n_project n = pid \<and> (n_key n, k) \<in> (set (project_edges s pid))\<^sup>* \<and> n_status n \<noteq> SUPERSEDED \<and> \<not> superseded_key s pid k
      then m = n\<lparr>n_status := STALE, n_receipt := None, n_updated := now_at ev\<rparr>
      else m = n)"
    by (rule exI[of _ "?f n"]) (use at own old rc in \<open>auto simp: Let_def is_node_def goes_stale_def stale_def\<close>)
  then show ?thesis using fr by blast
qed

theorem supersede_node_closes_witness:
  "\<exists>r t m. supersede_node (demo_env 5 ''05'') ''p'' ''a'' 1 ''why'' drafted_db = Inr (r, t) \<and>
     node_at t ''p'' ''a'' = Some m \<and> n_status m = SUPERSEDED"
proof -
  obtain r t where t: "supersede_node (demo_env 5 ''05'') ''p'' ''a'' 1 ''why'' drafted_db = Inr (r, t)"
    using not_isl_Inr[OF drafted_ops(2)] by force
  obtain n where n: "n \<in> set (nodes drafted_db)" "n_project n = ''p''" "n_key n = ''a''"
    using drafted_rows(1) by (cases "nodes drafted_db") auto
  show ?thesis using supersede_node_closes[OF drafted_reachable t n(1)] t n by force
qed


section \<open>Adding goals\<close>

text \<open>
  What a specification asks for, read off the caller's value alone: its key, its goal text without
  surrounding blanks, its criteria, its dependencies (none when left out), its priority (0 when left
  out) and its facet. The row of the goal and its dependency list are what the store kept of it.
\<close>

definition states_check :: "pyval \<Rightarrow> check \<Rightarrow> bool" where
  "states_check v c \<longleftrightarrow> get_or ''id'' v PNone = PStr (ck_id c) \<and> get_or ''kind'' v PNone = PStr (kind_name (ck_kind c)) \<and>
     (\<exists>w. get_or ''description'' v PNone = PStr w \<and> ck_description c = strip w)"

definition states_goal :: "pyval \<Rightarrow> node \<Rightarrow> string list \<Rightarrow> bool" where
  "states_goal v n ds \<longleftrightarrow> get_or ''key'' v PNone = PStr (n_key n) \<and>
     (\<exists>w. get_or ''goal'' v PNone = PStr w \<and> n_goal n = strip w) \<and>
     (\<exists>cvs cs. get_or ''acceptance'' v PNone = PList cvs \<and> list_all2 states_check cvs cs \<and>
        length cvs = length (n_contract n) \<and> set (n_contract n) = set cs) \<and>
     (\<exists>es. get_or ''dependencies'' v (PList []) = PList (map PStr es) \<and> distinct es \<and> distinct ds \<and> set ds = set es) \<and>
     get_or ''priority'' v (PInt 0) = PInt (n_priority n) \<and>
     (case n_facet n of None \<Rightarrow> get_or ''facet'' v PNone = PNone | Some f \<Rightarrow> get_or ''facet'' v PNone = PStr (facet_name f))"

lemma parse_kind_SomeD: "parse_kind v = Some k \<Longrightarrow> v = PStr (kind_name k)"
  by (auto simp: parse_kind_def find_Some_iff split: pyval.splits)

lemma contract_step_states: "contract_step v cs = Inr cs' \<Longrightarrow> \<exists>c. cs' = cs @ [c] \<and> states_check v c"
  by (auto simp: contract_step_def states_check_def check_text_iff split: option.splits dest!: parse_kind_SomeD)

lemma contract_fold_states:
  "foldE contract_step vs cs = Inr cs' \<Longrightarrow> \<exists>new. cs' = cs @ new \<and> list_all2 states_check vs new"
proof (induction vs arbitrary: cs)
  case Nil
  then show ?case by simp
next
  case (Cons v vs)
  then obtain ds where ds: "contract_step v cs = Inr ds" "foldE contract_step vs ds = Inr cs'" by auto
  from contract_step_states[OF ds(1)] obtain c where "ds = cs @ [c]" "states_check v c" by blast
  with Cons.IH[OF ds(2)] show ?case by force
qed

lemma check_contract_states:
  assumes "check_contract v = Inr cs"
  shows "\<exists>cvs ds. v = PList cvs \<and> list_all2 states_check cvs ds \<and> length cvs = length cs \<and> set cs = set ds"
proof -
  obtain cvs ds where v: "v = PList cvs" "foldE contract_step cvs [] = Inr ds" "cs = sort_key ck_id ds"
    using assms by (auto simp: check_contract_def split: pyval.splits)
  show ?thesis using contract_fold_states[OF v(2)] v by (auto dest: list_all2_lengthD)
qed

lemma check_dependencies_states:
  assumes "check_dependencies v = Inr ds"
  shows "\<exists>es. v = PList (map PStr es) \<and> distinct es \<and> distinct ds \<and> set ds = set es"
proof -
  obtain vs r where r: "v = PList vs" "mapE check_key vs = Inr r" "distinct r" "ds = sort r"
    using assms by (force simp: check_dependencies_def split: pyval.splits)
  have "map PStr r = map id vs" by (rule mapE_same[OF r(2)]) auto
  then show ?thesis using r by auto
qed

lemma prepare_spec_states:
  assumes "prepare_spec s pid v (g, fs, ps) = Inr (g', fs', ps')"
  shows "\<exists>sp. ps' = ps @ [sp] \<and> states_goal v (new_node ev pid sp) (sp_deps sp)"
proof -
  obtain nk goal checks ds priority own where
    c: "get_or ''key'' v PNone = PStr nk" "check_text (get_or ''goal'' v PNone) 20000 = Inr goal"
       "check_contract (get_or ''acceptance'' v PNone) = Inr checks"
       "check_dependencies (get_or ''dependencies'' v (PList [])) = Inr ds"
       "get_or ''priority'' v (PInt 0) = PInt priority" "check_facet (get_or ''facet'' v PNone) = Inr own"
    and r: "ps' = ps @ [\<lparr>sp_key = nk, sp_goal = goal, sp_checks = checks, sp_deps = ds, sp_priority = priority, sp_facet = own\<rparr>]"
    using assms unfolding prepare_spec_def
    by (simp, elim exE conjE) (rule that; (assumption | rule sym, assumption))
  then show ?thesis
    using check_contract_states[OF c(3)] check_dependencies_states[OF c(4)]
    by (auto simp: states_goal_def new_node_def check_text_iff check_facet_iff split: option.split)
qed

lemma prepare_specs_states:
  "foldE (prepare_spec s pid) vs (g, fs, ps) = Inr (g', fs', ps @ new) \<Longrightarrow>
   list_all2 (\<lambda>v sp. states_goal v (new_node ev pid sp) (sp_deps sp)) vs new"
proof (induction vs arbitrary: g fs ps new)
  case Nil
  then show ?case by simp
next
  case (Cons v vs)
  obtain g1 fs1 ps1 where 1: "prepare_spec s pid v (g, fs, ps) = Inr (g1, fs1, ps1)"
    and 2: "foldE (prepare_spec s pid) vs (g1, fs1, ps1) = Inr (g', fs', ps @ new)"
    using Cons.prems by (auto simp: bindE_Inr_iff)
  obtain sp where sp: "ps1 = ps @ [sp]" "states_goal v (new_node ev pid sp) (sp_deps sp)"
    using prepare_spec_states[OF 1] by blast
  from prepare_specs_Inr[OF 2] obtain tl where tl: "new = sp # tl" by (auto simp: sp(1))
  show ?case using Cons.IH[of g1 fs1 ps1 tl] 2 sp by (simp add: tl)
qed

text \<open>
  C18: A successful add_nodes appends to the table one goal per entry of the caller's list, in its
  order: the row carries the key, the stripped goal text, the acceptance criteria, the priority and
  the facet its entry states, and its dependencies in the graph are exactly the declared ones. The
  new rows are OPEN at revision 1 without a receipt, under fresh distinct keys; existing rows and
  their dependencies are untouched in every project, the graph remains acyclic, and no new goal
  depends on a superseded one.
\<close>

theorem add_nodes_appends:
  assumes "reachable s" "add_nodes ev pid specs s = Inr (ks, t)"
  shows "\<exists>vs new. specs = PList vs \<and> list_all2 (\<lambda>v n. states_goal v n (node_deps t pid (n_key n))) vs new \<and>
     nodes t = nodes s @ new \<and> map n_key new = ks \<and> distinct ks \<and>
     (\<forall>n \<in> set new. n_project n = pid \<and> n_revision n = 1 \<and> n_status n = OPEN \<and> n_receipt n = None \<and> wf_contract (n_contract n) \<and>
        (pid, n_key n) \<notin> set (node_ids s) \<and> (\<forall>d \<in> set (node_deps t pid (n_key n)). \<not> superseded_key s pid d)) \<and>
     (\<forall>q k. (q, k) \<in> set (node_ids s) \<longrightarrow> node_deps t q k = node_deps s q k) \<and>
     acyclic (set (project_edges t pid)) \<and> non_graph t = non_graph s"
proof -
  have inv: "graph_inv s" using reachable_graph_inv assms(1) .
  have invt: "graph_inv t" "non_graph t = non_graph s" by (rule add_nodes_effect[OF assms(2) inv], assumption)+
  obtain vs graph facets sps where vs: "specs = PList vs" and
    prep: "foldE (prepare_spec s pid) vs (graph_of s pid, facets_of s pid, []) = Inr (graph, facets, [] @ sps)"
    and fin: "foldE (finish_spec ev pid) sps (s\<lparr>nodes := nodes s @ map (new_node ev pid) sps\<rparr>) = Inr t"
    and ks: "ks = map sp_key sps"
    using assms(2) by (auto simp: add_nodes_def Let_def split: pyval.splits)
  have ok: "distinct (map sp_key sps)" "\<forall>sp \<in> set sps. spec_ok sp \<and> sp_key sp \<notin> graph_keys (graph_of s pid)"
    "\<forall>sp \<in> set sps. \<not> list_ex (superseded_key s pid) (sp_deps sp)" using prepare_specs_Inr[OF prep] by auto
  have t: "nodes t = nodes s @ map (new_node ev pid) sps" "deps t = deps s @ concat (map (dep_rows pid) sps)"
    using finish_specs_Inr[OF fin] by simp_all
  have G: "graph_of t p = (if p = pid then graph_of s pid @ map (\<lambda>sp. (sp_key sp, sp_deps sp)) sps else graph_of s p)" for p
    by (rule add_rows_graph[OF t _ ok(1,2)]) (use inv in \<open>simp add: graph_inv_def\<close>)
  have row: "ds = node_deps t p k" if "(k, ds) \<in> set (graph_of t p)" for p k ds
    using that by (auto simp: graph_of_def)
  have old: "node_deps t q k = node_deps s q k" if "(q, k) \<in> set (node_ids s)" for q k
  proof -
    have "(k, node_deps s q k) \<in> set (graph_of s q)" using that by (force simp: graph_of_alt)
    then show ?thesis using row[of k "node_deps s q k" q] G[of q] by (auto split: if_splits)
  qed
  have new: "node_deps t pid (sp_key x) = sp_deps x" if "x \<in> set sps" for x
    using row[of "sp_key x" "sp_deps x" pid] G[of pid] that by force
  have "list_all2 (\<lambda>v sp. states_goal v (new_node ev pid sp) (node_deps t pid (sp_key sp))) vs sps"
    by (rule list.rel_mono_strong[OF prepare_specs_states[OF prep]]) (use new in simp)
  then have "list_all2 (\<lambda>v n. states_goal v n (node_deps t pid (n_key n))) vs (map (new_node ev pid) sps)"
    by (simp add: list_all2_conv_all_nth new_node_def)
  then show ?thesis
    by (intro exI[of _ vs] exI[of _ "map (new_node ev pid) sps"] conjI)
       (use vs t(1) ks ok old new graph_inv_dag(1)[OF invt(1)] invt(2) in \<open>auto simp: new_node_def comp_def spec_ok_def graph_keys_graph_of list_ex_iff\<close>)
qed

theorem add_nodes_appends_witness:
  "\<exists>t n. add_nodes (demo_env 5 ''05'') ''p'' (PList [demo_goal ''c'' [''a'', ''b'']]) drafted_db = Inr ([''c''], t) \<and>
     nodes t = nodes drafted_db @ [n] \<and> n_key n = ''c'' \<and> n_goal n = ''goal'' \<and> n_priority n = 0 \<and> n_facet n = None \<and>
     set (node_deps t ''p'' ''c'') = {''a'', ''b''} \<and> acyclic (set (project_edges t ''p''))"
proof -
  obtain ks t where t: "add_nodes (demo_env 5 ''05'') ''p'' (PList [demo_goal ''c'' [''a'', ''b'']]) drafted_db = Inr (ks, t)"
    using not_isl_Inr[OF drafted_ops(4)] by force
  have ks: "ks = [''c'']" using drafted_ops(5) by (simp add: t)
  obtain new where new: "list_all2 (\<lambda>v n. states_goal v n (node_deps t ''p'' (n_key n))) [demo_goal ''c'' [''a'', ''b'']] new"
      "nodes t = nodes drafted_db @ new" "map n_key new = ks" "acyclic (set (project_edges t ''p''))"
    using add_nodes_appends[OF drafted_reachable t] by auto
  then obtain n where n: "new = [n]" "n_key n = ''c''" "states_goal (demo_goal ''c'' [''a'', ''b'']) n (node_deps t ''p'' ''c'')"
    by (auto simp: list_all2_Cons1 ks)
  have "strip ''goal'' = ''goal''" by code_simp
  then have "n_goal n = ''goal''" "n_priority n = 0" "n_facet n = None" "set (node_deps t ''p'' ''c'') = {''a'', ''b''}"
    using n(3) by (auto simp: states_goal_def demo_goal_def get_or_def map_eq_Cons_conv split: option.splits)
  with n new t ks show ?thesis by auto
qed

section \<open>Priorities\<close>

text \<open>
  C28: Setting a priority is compare-and-set: it succeeds only on the priority the caller saw,
  stays within the bounds, and changes nothing but that column (and its timestamp): not the
  revision, the status, the receipt, the graph or any other table.
\<close>

theorem set_node_priority_only:
  assumes "reachable s" "set_node_priority ev pid k pr seen re ac di s = Inr (r, t)" "n \<in> set (nodes s)"
  shows "-100000 \<le> pr \<and> pr \<le> 100000 \<and> deps t = deps s \<and> revisions t = revisions s \<and> non_graph t = non_graph s \<and>
     (n_project n = pid \<and> n_key n = k \<longrightarrow> n_priority n = seen) \<and>
     (\<exists>m. node_at t (n_project n) (n_key n) = Some m \<and> m\<lparr>n_priority := n_priority n, n_updated := n_updated n\<rparr> = n \<and>
        n_priority m = (if n_project n = pid \<and> n_key n = k then pr else n_priority n))"
proof -
  have inv: "graph_inv s" using reachable_graph_inv assms(1) .
  have pr: "-100000 \<le> pr" "pr \<le> 100000" using assms(2) by (auto simp: set_node_priority_def)
  note e = set_node_priority_effect[OF assms(2) inv]
  obtain old where old: "node_at s pid k = Some old" "n_priority old = seen" "t = s \<longrightarrow> seen = pr \<or> t = s"
    using assms(2) by (auto simp: set_node_priority_def get_node_iff)
  have own: "n = old" if "n_project n = pid" "n_key n = k"
    using node_at_Some_iff[OF graph_inv_ids[OF inv], of pid k n] assms(3) old(1) that by simp
  let ?g = "\<lambda>n. n\<lparr>n_priority := pr, n_updated := now_at ev\<rparr>"
  consider "t = s" "seen = pr" | "nodes t = map (\<lambda>n. if is_node pid k n then ?g n else n) (nodes s)"
    using assms(2) old(1,2) by (auto simp: set_node_priority_def get_node_iff Let_def update_where_def split: if_splits)
  then have "\<exists>m. node_at t (n_project n) (n_key n) = Some m \<and> m\<lparr>n_priority := n_priority n, n_updated := n_updated n\<rparr> = n \<and>
        n_priority m = (if n_project n = pid \<and> n_key n = k then pr else n_priority n)"
  proof cases
    case 1
    then show ?thesis using node_at_Some_iff[OF graph_inv_ids[OF inv], of "n_project n" "n_key n" n] assms(3) own old by auto
  next
    case 2
    have "node_at t (n_project n) (n_key n) = Some (if is_node pid k n then ?g n else n)"
      by (rule node_at_update_where[OF graph_inv_ids[OF inv] 2]) (auto simp: assms(3))
    then show ?thesis by (auto simp: is_node_def)
  qed
  then show ?thesis using e pr own old by blast
qed

theorem set_node_priority_only_witness:
  "\<exists>r t m. set_node_priority (demo_env 5 ''05'') ''p'' ''a'' 7 0 ''why'' None None drafted_db = Inr (r, t) \<and>
     node_at t ''p'' ''a'' = Some m \<and> n_priority m = 7 \<and> deps t = deps drafted_db"
proof -
  obtain r t where t: "set_node_priority (demo_env 5 ''05'') ''p'' ''a'' 7 0 ''why'' None None drafted_db = Inr (r, t)"
    using not_isl_Inr[OF drafted_ops(3)] by force
  obtain n where n: "n \<in> set (nodes drafted_db)" "n_project n = ''p''" "n_key n = ''a''"
    using drafted_rows(1) by (cases "nodes drafted_db") auto
  show ?thesis using set_node_priority_only[OF drafted_reachable t n(1)] t n by force
qed

section \<open>Progress\<close>

lemma acyclic_minimal:
  assumes "finite E" "acyclic E" "x \<in> U"
  shows "\<exists>k \<in> U. \<forall>d. (k, d) \<in> E \<longrightarrow> d \<notin> U"
proof -
  have "wf (E\<inverse>)" using assms by (simp add: finite_acyclic_wf_converse)
  then show ?thesis using assms(3) by (rule wfE_min) auto
qed

text \<open>
  C19: Work never gets stuck in the graph itself. If a project of a reachable state has a goal that is
  neither verified nor superseded, nothing is held or in progress, and no unfinished goal depends on a
  superseded one, then the graph view reports some goal of the project as ready.
\<close>

theorem frontier_progress:
  assumes "reachable s" and holds: "\<forall>k. dispatch_block s pid k = None"
    and idle: "\<forall>a \<in> set (attempts s). a_project a = pid \<longrightarrow> a_status a \<notin> set ACTIVE"
    and live: "\<forall>(k, d) \<in> set (project_edges s pid). superseded_key s pid d \<longrightarrow> superseded_key s pid k \<or> (\<exists>n. node_at s pid k = Some n \<and> n_status n = VERIFIED)"
    and todo: "n0 \<in> set (nodes s)" "n_project n0 = pid" "n_status n0 \<notin> {VERIFIED, SUPERSEDED}"
  shows "\<exists>n \<in> set (project_nodes s pid). nv_readiness (view_node ev s pid n) = Ready"
proof -
  have inv: "graph_inv s" using reachable_graph_inv assms(1) .
  let ?E = "set (project_edges s pid)"
  let ?U = "{k. \<exists>n \<in> set (nodes s). n_project n = pid \<and> n_key n = k \<and> n_status n \<notin> {VERIFIED, SUPERSEDED}}"
  have "n_key n0 \<in> ?U" using todo by blast
  then obtain k where k: "k \<in> ?U" "\<And>d. (k, d) \<in> ?E \<Longrightarrow> d \<notin> ?U"
    using acyclic_minimal[OF finite_set graph_inv_dag(1)[OF inv]] by meson
  then obtain n where n: "n \<in> set (nodes s)" "n_project n = pid" "n_key n = k" "n_status n \<notin> {VERIFIED, SUPERSEDED}" by blast
  have at: "node_at s pid k = Some n" using node_at_Some_iff[OF graph_inv_ids[OF inv]] n by blast
  have "\<not> unverified_dep s pid d" if "d \<in> set (node_deps s pid k)" for d
  proof -
    have e: "(k, d) \<in> ?E" using that by (auto simp: set_node_deps project_edges_def dep_in_iff)
    then obtain m where m: "node_at s pid d = Some m" using graph_inv_dag(3)[OF inv e] node_at_exists by blast
    note mi = graph_inv_node[OF inv m]
    have "n_status m \<in> {VERIFIED, SUPERSEDED}" using k(2)[OF e] mi by blast
    moreover have "n_status m \<noteq> SUPERSEDED" using live e m at n(4) by (auto simp: superseded_key_def)
    ultimately show ?thesis using m mi by (auto simp: unverified_dep_def node_ok_def)
  qed
  then have "nv_readiness (view_node ev s pid n) = Ready"
    using n holds idle by (auto simp: view_node_def Let_def filter_empty_conv active_keys_def lapsed_keys_def)
  then show ?thesis using n by (auto simp: project_nodes_def)
qed

theorem frontier_progress_witness:
  "\<exists>n \<in> set (project_nodes drafted_db ''p''). nv_readiness (view_node (demo_env 5 ''05'') drafted_db ''p'' n) = Ready"
proof -
  note e = drafted_ops(6-8)
  obtain n where n: "n \<in> set (nodes drafted_db)" "n_project n = ''p''" "n_status n = OPEN"
    using drafted_rows(1) by (cases "nodes drafted_db") auto
  have b: "\<forall>k. dispatch_block drafted_db ''p'' k = None"
    using e by (simp add: dispatch_block_def project_policy_def node_hold_def policy_row_def hold_row_def Let_def)
  have "\<forall>n \<in> set (nodes drafted_db). n_status n = OPEN"
    using drafted_rows(1) by (auto simp: map_eq_Cons_conv)
  then have "\<not> superseded_key drafted_db ''p'' k" for k
    using node_at_Some_iff[OF graph_inv_ids[OF reachable_graph_inv[OF drafted_reachable]]] by (fastforce simp: superseded_key_def)
  then show ?thesis
    using frontier_progress[OF drafted_reachable b _ _ n(1,2)] n(3) e(1) by simp
qed


text \<open>
  C20: The readiness a driver sees is the admission it gets. In a reachable state, for every goal and
  every request, the goal is free of an attempt in progress and the request is admitted exactly when
  the graph view shows the goal as ready, the request names the current revision, and the claim layer
  lets the requester through (and, under enforcement, the workspace of an abandoned attempt of
  unknown state is not reused). In a project that does not enforce claims a request that names no
  claim always passes the claim layer, so there readiness alone decides.
\<close>

theorem ready_iff_admitted:
  assumes "reachable s" "node_at s pid k = Some n"
  shows "((\<exists>x. admission ev pid k e rq n s = Inr x) \<and>
       (\<forall>a \<in> set (attempts s). a_project a = pid \<and> a_node a = k \<longrightarrow> a_status a \<notin> set ACTIVE) \<longleftrightarrow>
     nv_readiness (view_node ev s pid n) = Ready \<and> e = n_revision n \<and>
       (\<exists>cl glass. dispatch_claim s pid k (rq_owner rq) (rq_admin rq) (rq_claim rq) (rq_fence rq) (now_at ev)
            (rq_external rq \<noteq> None \<and> n_status n = CANDIDATE) = Inr (cl, glass) \<and>
          (enforced s pid \<longrightarrow> after_unknown_abandon s pid k cl (rq_base rq) (rq_admin rq) = Inr ()))) \<and>
     (\<not> enforced s pid \<and> rq_claim rq = None \<longrightarrow>
       dispatch_claim s pid k (rq_owner rq) (rq_admin rq) (rq_claim rq) (rq_fence rq) (now_at ev)
         (rq_external rq \<noteq> None \<and> n_status n = CANDIDATE) = Inr (None, False))"
proof -
  have inv: "graph_inv s" using reachable_graph_inv assms(1) .
  note n = graph_inv_node[OF inv assms(2)]
  let ?idle = "\<forall>a \<in> set (attempts s). a_project a = pid \<and> a_node a = k \<longrightarrow> a_status a \<notin> set ACTIVE"
  let ?cl = "dispatch_claim s pid k (rq_owner rq) (rq_admin rq) (rq_claim rq) (rq_fence rq) (now_at ev)
            (rq_external rq \<noteq> None \<and> n_status n = CANDIDATE)"
  have idle: "?idle \<longleftrightarrow> k \<notin> set (active_keys s pid)" "?idle \<Longrightarrow> k \<notin> set (lapsed_keys s pid (now_at ev))"
    by (auto simp: active_keys_def lapsed_keys_def)
  have pins: "filter (unverified_dep s pid) (node_deps s pid k) = [] \<longleftrightarrow> list_all pin_verified (dependency_snapshot s pid k)"
  proof -
    have "unverified_dep s pid d \<longleftrightarrow> (\<exists>m \<in> set (nodes s). n_project m = pid \<and> n_key m = d \<and> \<not> pin_verified (node_pin m))"
      if d: "d \<in> set (node_deps s pid k)" for d
    proof -
      obtain m where m: "node_at s pid d = Some m"
        using graph_inv_dep_node[OF inv d] node_at_exists by blast
      have u: "x \<in> set (nodes s) \<and> n_project x = pid \<and> n_key x = d \<longleftrightarrow> x = m" for x
        using node_at_Some_iff[OF graph_inv_ids[OF inv], of pid d x] m by auto
      have "unverified_dep s pid d \<longleftrightarrow> \<not> pin_verified (node_pin m)" using m by (auto simp: unverified_dep_def pin_verified_def node_pin_def)
      then show ?thesis using u by metis
    qed
    then show ?thesis by (auto simp: filter_empty_conv list_all_iff dependency_snapshot_def)
  qed
  have dc: "?cl = Inr (None, False)" if "\<not> enforced s pid" "rq_claim rq = None"
    using that by (simp add: dispatch_claim_def split_beta)
  have ready: "nv_readiness (view_node ev s pid n) = Ready \<longleftrightarrow> n_status n \<notin> {VERIFIED, SUPERSEDED} \<and> ?idle \<and>
      dispatch_block s pid k = None \<and> list_all pin_verified (dependency_snapshot s pid k)"
    using n idle unfolding pins[symmetric] by (auto simp: view_node_def Let_def)
  have "(\<exists>x. admission ev pid k e rq n s = Inr x) \<longleftrightarrow> dispatch_block s pid k = None \<and> e = n_revision n \<and>
      n_status n \<notin> {VERIFIED, SUPERSEDED} \<and> list_all pin_verified (dependency_snapshot s pid k) \<and>
      (\<exists>cl glass. ?cl = Inr (cl, glass) \<and> (enforced s pid \<longrightarrow> after_unknown_abandon s pid k cl (rq_base rq) (rq_admin rq) = Inr ()))"
    by (auto simp: admission_def require_dispatch_def Let_def)
  then show ?thesis using ready dc by metis
qed

theorem ready_iff_admitted_witness:
  "\<exists>n x. node_at drafted_db ''p'' ''a'' = Some n \<and> nv_readiness (view_node (demo_env 5 ''05'') drafted_db ''p'' n) = Ready \<and>
     admission (demo_env 5 ''05'') ''p'' ''a'' (n_revision n) demo_request n drafted_db = Inr x"
proof -
  obtain n ns where ns: "nodes drafted_db = n # ns" "n_project n = ''p''" "n_key n = ''a''"
    using drafted_rows(1) by (cases "nodes drafted_db") auto
  have at: "node_at drafted_db ''p'' ''a'' = Some n"
    using node_at_Some_iff[OF graph_inv_ids[OF reachable_graph_inv[OF drafted_reachable]]] ns by simp
  have ready: "nv_readiness (view_node (demo_env 5 ''05'') drafted_db ''p'' n) = Ready" using drafted_ready by (simp add: ns(1))
  have rq: "rq_claim demo_request = None" by (simp add: demo_request_def)
  from ready_iff_admitted[OF drafted_reachable at, of "demo_env 5 ''05''" "n_revision n" demo_request]
  have "\<exists>x. admission (demo_env 5 ''05'') ''p'' ''a'' (n_revision n) demo_request n drafted_db = Inr x"
    using ready drafted_ops(9) rq by blast
  then show ?thesis using at ready by blast
qed

section \<open>Facets and contracts\<close>

text \<open>
  C29: facet_violations reports nothing exactly when the facet rules hold of the labelled graph:
  names, edges and the siblings a content or test node must depend on.
\<close>

theorem facet_rules_decided: "facet_violations fs g = [] \<longleftrightarrow> facets_legal fs g"
  by (rule facet_violations_Nil)

text \<open>
  C30: shipping_gaps reports, for an integration node, exactly the implementations whose contract is
  in the transitive closure of the node's dependencies but which the node does not depend on
  directly, sorted and without repetition.
\<close>

theorem shipping_gaps_exact:
  assumes "distinct (map fst g)"
  shows "(node, missing) \<in> set (shipping_gaps fs g) \<longleftrightarrow>
     (node, Some FIntegration) \<in> set fs \<and> missing \<noteq> [] \<and> sorted missing \<and> distinct missing \<and>
     set missing = {facet_stem c fs | c. (node, c) \<in> (dep_rel g)\<^sup>+ \<and> facet_of fs c = Some FContract \<and>
       facet_stem c fs \<in> facet_nodes fs \<and> facet_of fs (facet_stem c fs) \<noteq> Some FContract \<and> facet_stem c fs \<noteq> node \<and>
       (node, facet_stem c fs) \<notin> dep_rel g}"
  unfolding in_shipping_gaps set_gap_of[OF assms, symmetric]
  using gap_of_sorted[of fs g node] sorted_distinct_set_unique by blast

theorem shipping_gaps_exact_witness:
  "(''w'', ''x.contract'') \<in> (dep_rel [(''w'', [''x.contract'']), (''x.contract'', []), (''x'', [''x.contract''])])\<^sup>+ \<and>
   set [''x''] = {facet_stem c [(''w'', Some FIntegration), (''x.contract'', Some FContract), (''x'', Some FContent)] | c.
     (''w'', c) \<in> (dep_rel [(''w'', [''x.contract'']), (''x.contract'', []), (''x'', [''x.contract''])])\<^sup>+ \<and>
     facet_of [(''w'', Some FIntegration), (''x.contract'', Some FContract), (''x'', Some FContent)] c = Some FContract \<and>
     facet_stem c [(''w'', Some FIntegration), (''x.contract'', Some FContract), (''x'', Some FContent)]
       \<in> facet_nodes [(''w'', Some FIntegration), (''x.contract'', Some FContract), (''x'', Some FContent)] \<and>
     facet_of [(''w'', Some FIntegration), (''x.contract'', Some FContract), (''x'', Some FContent)]
       (facet_stem c [(''w'', Some FIntegration), (''x.contract'', Some FContract), (''x'', Some FContent)]) \<noteq> Some FContract \<and>
     facet_stem c [(''w'', Some FIntegration), (''x.contract'', Some FContract), (''x'', Some FContent)] \<noteq> ''w'' \<and>
     (''w'', facet_stem c [(''w'', Some FIntegration), (''x.contract'', Some FContract), (''x'', Some FContent)])
       \<notin> dep_rel [(''w'', [''x.contract'']), (''x.contract'', []), (''x'', [''x.contract''])]}"
proof -
  let ?g = "[(''w'', [''x.contract'']), (''x.contract'', []), (''x'', [''x.contract''])]"
  let ?fs = "[(''w'', Some FIntegration), (''x.contract'', Some FContract), (''x'', Some FContent)]"
  have "shipping_gaps ?fs ?g = [(''w'', [''x''])]" by code_simp
  then have "(''w'', [''x'']) \<in> set (shipping_gaps ?fs ?g)" by simp
  moreover have "(''w'', ''x.contract'') \<in> (dep_rel ?g)\<^sup>+" by (rule r_into_trancl) (simp add: dep_rel_def)
  ultimately show ?thesis using shipping_gaps_exact[of ?g "''w''" "[''x'']" ?fs] by simp
qed

text \<open>
  C31: An acceptance contract that passes validation is non-empty, has at most 64 criteria with
  distinct ids in key order, and survives storage: validating the stored form returns the same
  contract.
\<close>

theorem contract_roundtrip:
  assumes "check_contract v = Inr cs"
  shows "1 \<le> length cs \<and> length cs \<le> 64 \<and> distinct (map ck_id cs) \<and> sorted (map ck_id cs) \<and> check_contract (contract_py cs) = Inr cs"
  using check_contract_wf[OF assms] check_contract_stored[of cs] by (auto simp: wf_contract_def Let_def)

theorem contract_roundtrip_witness:
  "\<exists>cs. check_contract (PList [PDict [(''id'', PStr ''t''), (''description'', PStr '' tests pass ''), (''kind'', PStr ''test'')]]) = Inr cs \<and>
     check_contract (contract_py cs) = Inr cs"
proof -
  have "\<not> isl (check_contract (PList [PDict [(''id'', PStr ''t''), (''description'', PStr '' tests pass ''), (''kind'', PStr ''test'')]]))" by code_simp
  then obtain cs where "check_contract (PList [PDict [(''id'', PStr ''t''), (''description'', PStr '' tests pass ''), (''kind'', PStr ''test'')]]) = Inr cs"
    using not_isl_Inr by blast
  then show ?thesis using contract_roundtrip by blast
qed

end
