(* ===== verification/Ownership_Properties.thy ===== *)
theory Ownership_Properties
  imports Scenario
begin

text \<open>
  The properties of ownership: claims and their fences, leases, presence, enforcement, takeovers and
  what a fenced-out owner can still do.
\<close>

section \<open>Rows of the run\<close>

lemma handed_rows:
  "map attempt_row (attempts external_db) = [(''attempt-01'', Candidate, Some ''ann'', 1), (''attempt-03'', Running, Some ''ann'', 1)]"
  "map claim_row (claims external_db) = [(''claim-03'', ''ann'', Live, 1)]"
  "map node_row (nodes handed_db) = [(''a'', VERIFIED, Some ''receipt-02''), (''b'', OPEN, None)]"
  "map attempt_row (attempts handed_db) = [(''attempt-01'', Candidate, Some ''ann'', 1), (''attempt-03'', Running, Some ''bob'', 2)]"
  "map claim_row (claims handed_db) = [(''claim-03'', ''ann'', Transferred, 1), (''claim-04'', ''bob'', Live, 2)]"
  using handed_eval by (simp_all add: Let_def handed_db_def)

lemma external_attempt: "\<exists>a. get_attempt external_db ''attempt-03'' = Inr a \<and> a_owner a = Some ''ann'' \<and> a_fence a = 1 \<and> a_status a = Running"
  and handed_attempt: "\<exists>a. get_attempt handed_db ''attempt-03'' = Inr a \<and> a_owner a = Some ''bob'' \<and> a_fence a = 2 \<and> a_status a = Running"
proof -
  have k: "KEY ''attempt-03''" by code_simp
  show "\<exists>a. get_attempt external_db ''attempt-03'' = Inr a \<and> a_owner a = Some ''ann'' \<and> a_fence a = 1 \<and> a_status a = Running"
    using handed_rows(1) k by (auto simp: get_attempt_def attempt_at_def attempt_row_def map_eq_Cons_conv)
  show "\<exists>a. get_attempt handed_db ''attempt-03'' = Inr a \<and> a_owner a = Some ''bob'' \<and> a_fence a = 2 \<and> a_status a = Running"
    using handed_rows(4) k by (auto simp: get_attempt_def attempt_at_def attempt_row_def map_eq_Cons_conv)
qed

text \<open>A short run: \<open>ann\<close> claims goal \<open>a\<close> and registers an external attempt on it.\<close>

definition lease_script :: script where
  "lease_script = map (\<lambda>cmd. (demo_env 1000000 ''01'', demo_caller ''ann'', cmd))
     [CreateProject ''p'' ''P'' None, AddNodes ''p'' (PList [demo_goal ''a'' [], demo_goal ''b'' [''a'']]),
      ClaimNode ''p'' ''a'' ''implement'' 1 ''k1'' 3600 ''/w'' None,
      RegisterExternal ''p'' ''a'' 1 ''h'' ''x1'' (demo_request\<lparr>rq_claim := Some ''claim-01'', rq_fence := Some 1\<rparr>) Only]"

definition lease_db :: db where
  "lease_db = snd (run_script lease_script empty_db)"

lemma lease_reachable: "reachable lease_db"
  unfolding reachable_iff lease_db_def by (rule run_script_steps)

text \<open>The same state with two drivers registered, \<open>ann\<close> long unseen.\<close>

definition away_db :: db where
  "away_db = lease_db\<lparr>drivers := [\<lparr>dr_id = ''ann'', dr_active = True, dr_last_seen = Some (-1000000000000)\<rparr>, \<lparr>dr_id = ''bob'', dr_active = True, dr_last_seen = Some 0\<rparr>],
     memberships := [\<lparr>mb_project = ''p'', mb_driver = ''ann'', mb_member = True\<rparr>, \<lparr>mb_project = ''p'', mb_driver = ''bob'', mb_member = True\<rparr>]\<rparr>"

lemma away_reachable: "reachable away_db"
proof -
  have "step lease_db away_db"
    using step.outside[where s = lease_db and ds = "drivers away_db" and ms = "memberships away_db" and dg = "designs lease_db" and
      rr = "run_rows lease_db" and ib = "inbox lease_db" and dl = "deliveries lease_db"] by (simp add: away_db_def)
  then show ?thesis using lease_reachable reachable.next_state by blast
qed

lemma lease_eval:
  "(let s = lease_db;
        r1 = claim_node (demo_env 2000000 ''02'') (demo_caller ''bob'') ''p'' ''a'' ''review'' 1 ''k9'' 3600 ''/w'' None s;
        r2 = heartbeat (demo_env 2000000 ''02'') (demo_caller ''ann'') ''p'' [(''claim-01'', 1)] [] [] s;
        r3 = take_over_attempt (demo_env 9000000000 ''09'') (demo_caller ''bob'') ''attempt-01'' 1 ''the lease ran out'' None s;
        r4 = take_over_claim (demo_env 2000000 ''02'') (demo_caller ''bob'') ''p'' ''claim-01'' 1 ''ann is away from this goal'' ''k9'' away_db in
     (case r1 of Inl _ \<Rightarrow> True | Inr ((v, i), t) \<Rightarrow> i, isl r2, map c_expires (claims (snd (projr r2))), isl r3,
      case r4 of Inl _ \<Rightarrow> True | Inr ((v, w, i), t) \<Rightarrow> i,
      map (\<lambda>c. (c_project c, c_node c, c_driver c, c_fence c, c_status c)) (claims s), map attempt_row (attempts s), map c_expires (claims s), map c_id (claims s))) =
   (False, False, [3602000000], False, False, [(''p'', ''a'', ''ann'', 1, Live)], [(''attempt-01'', Running, Some ''ann'', 1)], [3601000000], [''claim-01''])"
  by code_simp

lemmas lease_facts = lease_eval[unfolded Let_def prod.inject]

lemma get_attempt_mem: "get_attempt s aid = Inr a \<Longrightarrow> a \<in> set (attempts s) \<and> a_id a = aid"
  by (auto simp: get_attempt_def attempt_at_def dest: find_SomeD)

section \<open>At most one holder\<close>

text \<open>
  C12: In every reachable state a goal has at most one live exclusive claim, claim ids are unique, and
  no two claims of a goal ever had the same fence.
\<close>

theorem one_exclusive_claim:
  assumes "reachable s"
  shows "length (filter (live_exclusive pid k) (claims s)) \<le> 1 \<and> distinct (map c_id (claims s)) \<and>
     distinct (map (\<lambda>c. (c_project c, c_node c, c_fence c)) (claims s))"
  using reachable_sys_inv[OF assms] claims_ok_one_exclusive by (auto simp: sys_inv_def claims_ok_def)

theorem one_exclusive_claim_witness: "length (filter (live_exclusive ''p'' ''b'') (claims handed_db)) \<le> 1"
  using one_exclusive_claim[OF demo_reachable(4)] by blast

text \<open>
  C13: In every reachable state a goal has at most one attempt in progress, and it is the newest attempt
  of the goal.
\<close>

theorem one_active_attempt:
  assumes "reachable s" "a \<in> set (attempts s)" "a_status a \<in> set ACTIVE" "b \<in> set (attempts s)" "a_project b = a_project a" "a_node b = a_node a"
  shows "latest_attempt s (a_project a) (a_node a) = Some a \<and> (a_status b \<in> set ACTIVE \<longrightarrow> b = a)"
proof -
  have "x \<in> set (attempts s) \<Longrightarrow> a_status x \<in> set ACTIVE \<Longrightarrow> latest_attempt s (a_project x) (a_node x) = Some x" for x
    using reachable_sys_inv[OF assms(1)] by (simp add: sys_inv_def attempts_ok_def)
  from this[OF assms(2,3)] this[OF assms(4)] show ?thesis using assms(5,6) by auto
qed

theorem one_active_attempt_witness:
  "\<exists>a \<in> set (attempts handed_db). a_status a = Running \<and> latest_attempt handed_db (a_project a) (a_node a) = Some a"
proof -
  obtain a where a: "get_attempt handed_db ''attempt-03'' = Inr a" "a_status a = Running" using handed_attempt by blast
  then show ?thesis using one_active_attempt[OF demo_reachable(4), of a a] get_attempt_mem[OF a(1)] by (auto simp: ACTIVE_def)
qed

section \<open>Fences\<close>

lemma run_attempt:
  assumes "reachable s" "step\<^sup>*\<^sup>* s t" "a \<in> set (attempts s)"
  shows "\<exists>b \<in> set (attempts t). keeps_attempt a b"
  using store.run_inv[OF assms(2) reachable_sys_inv[OF assms(1)]] assms(3) attempt_rows.table_row by (auto simp: evolves_def)

text \<open>
  C10: Along every run, an attempt stays in the table as the same attempt, bound to the same goal,
  revision, contract and dependency pins; its fence never decreases and rises whenever its owner
  changes; an attempt that is over never becomes active again and an abandoned one stays abandoned;
  a recorded artifact is never replaced.
\<close>

theorem attempt_history:
  assumes "reachable s" "step\<^sup>*\<^sup>* s t" "get_attempt s aid = Inr a"
  shows "\<exists>b. get_attempt t aid = Inr b \<and> a_project b = a_project a \<and> a_node b = a_node a \<and> a_revision b = a_revision a \<and>
     a_contract_hash b = a_contract_hash a \<and> a_pins b = a_pins a \<and> a_fence a \<le> a_fence b \<and>
     (a_owner b \<noteq> a_owner a \<longrightarrow> a_fence a < a_fence b) \<and> (a_status b \<in> set ACTIVE \<longrightarrow> a_status a \<in> set ACTIVE) \<and>
     (a_status a = Abandoned \<longrightarrow> a_status b = Abandoned) \<and> (nonempty (a_artifact a) \<longrightarrow> a_artifact b = a_artifact a)"
proof -
  obtain b where b: "b \<in> set (attempts t)" "keeps_attempt a b" using run_attempt[OF assms(1,2)] get_attempt_mem[OF assms(3)] by blast
  have i: "a_id b = aid" using attempt_identD(1)[of b a] b(2) get_attempt_mem[OF assms(3)] by (simp add: keeps_attempt_def)
  have u: "unique_on a_id (attempts t)"
    using store.run_inv[OF assms(2) reachable_sys_inv[OF assms(1)]] by (simp add: sys_inv_def attempts_ok_def)
  have "get_attempt t aid = Inr b"
    using assms(3) find_unique_iff[OF u, of aid b] b(1) i by (auto simp: get_attempt_def attempt_at_def)
  moreover have "attempt_ident b = attempt_ident a" using b(2) by (simp add: keeps_attempt_def)
  ultimately show ?thesis
    using b(2) attempt_identD[of b a] unfolding keeps_attempt_def by (intro exI[of _ b] conjI impI) blast+
qed

theorem attempt_history_witness:
  "\<exists>b. get_attempt handed_db ''attempt-03'' = Inr b \<and> a_owner b = Some ''bob'' \<and> 1 < a_fence b"
proof -
  obtain a where a: "get_attempt external_db ''attempt-03'' = Inr a" "a_owner a = Some ''ann''" "a_fence a = 1" using external_attempt by blast
  obtain b where b: "get_attempt handed_db ''attempt-03'' = Inr b" "a_owner b = Some ''bob''" using handed_attempt by blast
  then show ?thesis using attempt_history[OF demo_reachable(3) demo_steps(3) a(1)] a by auto
qed

text \<open>
  C11: A fenced-out owner cannot write. Once the owner of an attempt has changed, in any later state, a
  report that presents the fence of before the change is never accepted as a current report: it
  is refused, or kept as a late report of an abandoned attempt.
\<close>

theorem old_fence_never_current:
  assumes "reachable s" "step\<^sup>*\<^sup>* s t" "get_attempt s aid = Inr a" "get_attempt t aid = Inr b" "a_owner b \<noteq> a_owner a" "0 \<le> a_fence a"
  shows "authorize_report c t b (Some (a_fence a)) \<noteq> Inr False"
proof -
  obtain b' where b': "b' \<in> set (attempts t)" "keeps_attempt a b'" using run_attempt[OF assms(1,2)] get_attempt_mem[OF assms(3)] by blast
  have u: "unique_on a_id (attempts t)"
    using store.run_inv[OF assms(2) reachable_sys_inv[OF assms(1)]] by (simp add: sys_inv_def attempts_ok_def)
  have "b' = b"
    using unique_onD[OF u b'(1), of b] get_attempt_mem[OF assms(4)] get_attempt_mem[OF assms(3)] attempt_identD(1)[of b' a] b'(2)
    by (simp add: keeps_attempt_def)
  then have "a_fence a < a_fence b" using b'(2) assms(5) by (auto simp: keeps_attempt_def)
  then show ?thesis using assms(6) by (auto simp: authorize_report_def Let_def split: if_splits)
qed

theorem old_fence_never_current_witness:
  "\<exists>b. get_attempt handed_db ''attempt-03'' = Inr b \<and> authorize_report (demo_caller ''ann'') handed_db b (Some 1) \<noteq> Inr False"
proof -
  obtain a where a: "get_attempt external_db ''attempt-03'' = Inr a" "a_owner a = Some ''ann''" "a_fence a = 1" using external_attempt by blast
  obtain b where b: "get_attempt handed_db ''attempt-03'' = Inr b" "a_owner b = Some ''bob''" using handed_attempt by blast
  show ?thesis using old_fence_never_current[OF demo_reachable(3) demo_steps(3) a(1) b(1), of "demo_caller ''ann''"] a b by auto
qed

section \<open>Claims and leases\<close>

text \<open>
  C23: A new claim on a goal is live, for the caller's goal, and carries a fence higher than every fence
  any claim on the goal has had; a replay of the same request returns a stored claim and changes no
  claim. Neither touches a goal, an attempt, evidence or a receipt.
\<close>

theorem claim_node_fence:
  assumes "reachable s" "claim_node ev c pid k pu ex rk ls ws sub s = Inr ((v, idem), t)"
  shows "durable t = durable s \<and> (if idem then claims t = claims s \<and> cv_claim v \<in> set (claims s)
     else cv_claim v \<in> set (claims t) \<and> c_status (cv_claim v) = Live \<and> c_project (cv_claim v) = pid \<and> c_node (cv_claim v) = k \<and>
       (\<forall>d \<in> set (claims s). c_project d = pid \<and> c_node d = k \<longrightarrow> c_fence d < c_fence (cv_claim v)))"
proof -
  have ok: "claims_ok (claims s)" using reachable_sys_inv[OF assms(1)] by (simp add: sys_inv_def)
  note e = claim_node_effect[OF assms(2) ok]
  have "idem \<longrightarrow> cv_claim v \<in> set (claims s)"
    using assms(2) by (elim claim_node_cases) (simp_all add: view_claim_def)
  then show ?thesis using e by (auto simp: Let_def)
qed

theorem claim_node_fence_witness:
  "\<exists>v t. claim_node (demo_env 2000000 ''02'') (demo_caller ''bob'') ''p'' ''a'' ''review'' 1 ''k9'' 3600 ''/w'' None lease_db = Inr ((v, False), t) \<and>
     1 < c_fence (cv_claim v)"
proof -
  let ?r = "claim_node (demo_env 2000000 ''02'') (demo_caller ''bob'') ''p'' ''a'' ''review'' 1 ''k9'' 3600 ''/w'' None lease_db"
  have "(case ?r of Inl _ \<Rightarrow> True | Inr ((v, i), t) \<Rightarrow> i) = False" using lease_facts by blast
  then obtain v t where v: "?r = Inr ((v, False), t)" by (cases ?r) (auto split: prod.splits)
  obtain c where c: "c \<in> set (claims lease_db)" "c_project c = ''p''" "c_node c = ''a''" "c_fence c = 1"
    using lease_facts by (cases "claims lease_db") auto
  then show ?thesis using claim_node_fence[OF lease_reachable v] v by auto
qed

text \<open>
  C24: The sweep ends exactly the live claims of the project (and goal, when one is named) whose lease ran
  out at least the grace period ago, and changes no other claim and nothing of the goals, attempts,
  evidence and receipts.
\<close>

theorem sweep_exact:
  assumes "reachable s"
  shows "claims (sweep_conn ev act pid cur nk s) = map (\<lambda>c. if c_project c = pid \<and> c_status c = Live \<and> of_node nk (c_node c) \<and>
       c_expires c + GRACE_SECONDS * 1000000 \<le> cur then c\<lparr>c_status := Expired, c_updated := cur\<rparr> else c) (claims s) \<and>
     durable (sweep_conn ev act pid cur nk s) = durable s"
proof -
  have ok: "claims_ok (claims s)" using reachable_sys_inv[OF assms] by (simp add: sys_inv_def)
  show ?thesis using sweep_conn_effect(2)[OF ok] durable_non_claims[OF sweep_conn_effect(1)[OF ok]]
    by (simp add: update_where_def add_seconds_def)
qed

theorem sweep_exact_witness:
  "map c_status (claims (sweep_conn (demo_env 9000000000 ''09'') ''system'' ''p'' 9000000000 None lease_db)) = [Expired]"
proof -
  have "map (\<lambda>c. (c_project c, c_node c, c_driver c, c_fence c, c_status c)) (claims lease_db) = [(''p'', ''a'', ''ann'', 1, Live)]"
    "map c_expires (claims lease_db) = [3601000000]" using lease_facts by blast+
  then obtain c where "claims lease_db = [c]" "c_project c = ''p''" "c_status c = Live" "c_expires c = 3601000000" by auto
  then show ?thesis
    unfolding sweep_exact[OF lease_reachable, THEN conjunct1] by (simp add: of_node_def GRACE_SECONDS_def)
qed

lemma find_Some_exists: "(\<exists>x. find P xs = Some x) \<longleftrightarrow> (\<exists>x \<in> set xs. P x)"
  by (induction xs) auto

lemma not_isl_iff: "isl r \<longleftrightarrow> \<not> (\<exists>y. r = Inr y)"
  by (cases r) auto

text \<open>
  C5: Reading a claim ends what has run out, whether or not the read succeeds. A caller the store does not
  trust is refused and nothing changes. Otherwise the sweep is kept: exactly the live claims of the
  project whose lease ran out at least the grace period ago are expired, and nothing of the goals,
  attempts, evidence and receipts changes; the read then fails exactly when the project does not exist,
  the id is malformed or the project has no such claim. A claim it returns is the swept row with its
  history, so a claim shown as live is still protected by its lease or grace; it carries a takeover hint,
  with its id and fence, exactly when it is live and its holder is offline.
\<close>

theorem get_claim_outcome:
  assumes "reachable s" "get_claim ev c pid cid s = (r, t)"
  shows "if \<not> by_trusted c then r = Inl (StateGraphError ''project_private'') \<and> t = s
    else claims t = map (\<lambda>x. if c_project x = pid \<and> c_status x = Live \<and> c_expires x + GRACE_SECONDS * 1000000 \<le> now_at ev
           then x\<lparr>c_status := Expired, c_updated := now_at ev\<rparr> else x) (claims s) \<and> durable t = durable s \<and>
      (isl r \<longleftrightarrow> \<not> (\<exists>p. get_project s pid = Inr p) \<or> \<not> KEY cid \<or> \<not> (\<exists>x \<in> set (claims s). c_id x = cid \<and> c_project x = pid)) \<and>
      (\<forall>a h. r = Inr (a, h) \<longrightarrow> (\<exists>x \<in> set (claims t). cv_claim (ac_view a) = x \<and> c_id x = cid \<and> c_project x = pid \<and>
         (c_status x = Live \<longrightarrow> now_at ev < c_expires x + GRACE_SECONDS * 1000000) \<and>
         ac_takeover_hint a = (if c_status x = Live \<and> pr_status (effective_presence ev t (c_driver x)) = Offline then Some (cid, c_fence x) else None) \<and>
         h = filter (\<lambda>e. ch_claim e = cid) (claim_log t)))"
proof (cases "by_trusted c")
  case False
  then show ?thesis using assms(2) by (simp add: get_claim_def)
next
  case True
  have ok: "claims_ok (claims s)" using reachable_sys_inv[OF assms(1)] by (simp add: sys_inv_def)
  have t: "t = sweep_conn ev (by_actor c) pid (now_at ev) None s" and r: "r = read_claim ev pid cid t"
    using assms(2) True by (auto simp: get_claim_def sweep_def Let_def)
  have rows: "claims t = map (\<lambda>x. if c_project x = pid \<and> c_status x = Live \<and> c_expires x + GRACE_SECONDS * 1000000 \<le> now_at ev
           then x\<lparr>c_status := Expired, c_updated := now_at ev\<rparr> else x) (claims s)"
    unfolding t sweep_conn_effect(2)[OF ok] by (simp add: update_where_def add_seconds_def of_node_def)
  have dur: "durable t = durable s" unfolding t by (rule durable_non_claims[OF sweep_conn_effect(1)[OF ok]])
  have proj: "get_project t pid = get_project s pid" using durableD(1)[OF dur] by (simp add: get_project_def)
  have same: "(\<exists>x \<in> set (claims t). c_id x = cid \<and> c_project x = pid) \<longleftrightarrow> (\<exists>x \<in> set (claims s). c_id x = cid \<and> c_project x = pid)"
  proof -
    have "map (\<lambda>x. (c_id x, c_project x)) (claims t) = map (\<lambda>x. (c_id x, c_project x)) (claims s)"
      unfolding rows map_map by (rule map_cong) simp_all
    from arg_cong[OF this, of set] have "(cid, pid) \<in> (\<lambda>x. (c_id x, c_project x)) ` set (claims t) \<longleftrightarrow> (cid, pid) \<in> (\<lambda>x. (c_id x, c_project x)) ` set (claims s)"
      by simp
    then show ?thesis by (auto simp: image_iff)
  qed
  have "isl r \<longleftrightarrow> \<not> (\<exists>p. get_project s pid = Inr p) \<or> \<not> KEY cid \<or> \<not> (\<exists>x \<in> set (claims s). c_id x = cid \<and> c_project x = pid)"
  proof -
    have "(\<exists>y. r = Inr y) \<longleftrightarrow> (\<exists>p. get_project s pid = Inr p) \<and> (\<exists>x. get_claim_row t pid cid = Inr x)"
      by (auto simp: r read_claim_def proj)
    moreover have "(\<exists>x. get_claim_row t pid cid = Inr x) \<longleftrightarrow> KEY cid \<and> (\<exists>x \<in> set (claims t). c_id x = cid \<and> c_project x = pid)"
      by (auto simp: get_claim_row_def find_Some_exists)
    ultimately show ?thesis using same not_isl_iff[of r] by blast
  qed
  moreover have "\<exists>x \<in> set (claims t). cv_claim (ac_view a) = x \<and> c_id x = cid \<and> c_project x = pid \<and>
         (c_status x = Live \<longrightarrow> now_at ev < c_expires x + GRACE_SECONDS * 1000000) \<and>
         ac_takeover_hint a = (if c_status x = Live \<and> pr_status (effective_presence ev t (c_driver x)) = Offline then Some (cid, c_fence x) else None) \<and>
         h = filter (\<lambda>e. ch_claim e = cid) (claim_log t)" if res: "r = Inr (a, h)" for a h
  proof -
    obtain x where x: "get_claim_row t pid cid = Inr x" "a = annotate_claim ev t (view_claim (now_at ev) x)" "h = filter (\<lambda>e. ch_claim e = cid) (claim_log t)"
      using res by (auto simp: r read_claim_def)
    note mem = get_claim_rowD[OF x(1)]
    have "c_status x = Live \<longrightarrow> now_at ev < c_expires x + GRACE_SECONDS * 1000000"
    proof
      assume live: "c_status x = Live"
      obtain y where y: "x = (if c_project y = pid \<and> c_status y = Live \<and> c_expires y + GRACE_SECONDS * 1000000 \<le> now_at ev
          then y\<lparr>c_status := Expired, c_updated := now_at ev\<rparr> else y)"
        using mem unfolding rows set_map by blast
      then have no: "\<not> (c_project y = pid \<and> c_status y = Live \<and> c_expires y + GRACE_SECONDS * 1000000 \<le> now_at ev)" using live by (auto split: if_splits)
      moreover have "x = y" using y unfolding if_not_P[OF no] .
      ultimately show "now_at ev < c_expires x + GRACE_SECONDS * 1000000" using live mem by simp
    qed
    then show ?thesis using mem x(2,3) by (auto simp: annotate_claim_def view_claim_def without_reason_def Let_def)
  qed
  ultimately show ?thesis unfolding if_not_P[OF not_not[THEN iffD2, OF True]] using rows dur by (intro conjI allI impI)
qed

theorem get_claim_outcome_witness:
  "\<exists>e t. get_claim (demo_env 9000000000 ''09'') (demo_caller ''bob'') ''p'' ''claim-02'' lease_db = (Inl e, t) \<and> map c_status (claims t) = [Expired]"
proof -
  have "map (\<lambda>c. (c_project c, c_node c, c_driver c, c_fence c, c_status c)) (claims lease_db) = [(''p'', ''a'', ''ann'', 1, Live)]"
    "map c_expires (claims lease_db) = [3601000000]" "map c_id (claims lease_db) = [''claim-01'']" using lease_facts by blast+
  then obtain c where c: "claims lease_db = [c]" "c_project c = ''p''" "c_status c = Live" "c_expires c = 3601000000" "c_id c = ''claim-01''" by auto
  obtain r t where rt: "get_claim (demo_env 9000000000 ''09'') (demo_caller ''bob'') ''p'' ''claim-02'' lease_db = (r, t)" by force
  have trusted: "by_trusted (demo_caller ''bob'')" by (simp add: demo_caller_def)
  have "isl r" "map c_status (claims t) = [Expired]"
    using get_claim_outcome[OF lease_reachable rt] c trusted by (simp_all add: GRACE_SECONDS_def demo_env_def)
  then show ?thesis using rt by (cases r) auto
qed

lemma list_all2_map_eq: "list_all2 R xs ys \<Longrightarrow> (\<And>x y. R x y \<Longrightarrow> f y = f x) \<Longrightarrow> map f ys = map f xs"
  by (induction rule: list_all2_induct) auto

text \<open>
  A heartbeat writes the lease columns of claims and attempts and the caller's own presence, and
  nothing else: statuses, owners, fences, goals, evidence, receipts and events stay as they are.
\<close>

lemma heartbeat_leases:
  assumes "heartbeat ev c pid cs as subs s = Inr (out, t)"
  shows "map (\<lambda>x. x\<lparr>c_expires := 0, c_heartbeat := 0\<rparr>) (claims t) = map (\<lambda>x. x\<lparr>c_expires := 0, c_heartbeat := 0\<rparr>) (claims s) \<and>
     map (\<lambda>x. x\<lparr>a_lease := None, a_heartbeat := None\<rparr>) (attempts t) = map (\<lambda>x. x\<lparr>a_lease := None, a_heartbeat := None\<rparr>) (attempts s) \<and>
     nodes t = nodes s \<and> deps t = deps s \<and> evidences t = evidences s \<and> acceptances t = acceptances s \<and> events t = events s \<and> claim_log t = claim_log s"
proof -
  let ?m = "mark_back ev (by_driver c) ''heartbeat'' s"
  have b: "beats ?m t" by (rule heartbeat_effect[OF assms])
  have rest: "t\<lparr>claims := [], attempts := []\<rparr> = ?m\<lparr>claims := [], attempts := []\<rparr>" using b by (simp add: beats_def)
  have "nodes t = nodes s" "deps t = deps s" "evidences t = evidences s" "acceptances t = acceptances s" "events t = events s" "claim_log t = claim_log s"
    using arg_cong[OF rest, of nodes] arg_cong[OF rest, of deps] arg_cong[OF rest, of evidences] arg_cong[OF rest, of acceptances]
      arg_cong[OF rest, of events] arg_cong[OF rest, of claim_log] by simp_all
  moreover have "map (\<lambda>x. x\<lparr>c_expires := 0, c_heartbeat := 0\<rparr>) (claims t) = map (\<lambda>x. x\<lparr>c_expires := 0, c_heartbeat := 0\<rparr>) (claims s)"
    by (rule list_all2_map_eq[where R = lease_only_claim]) (use b in \<open>auto simp: beats_def lease_only_claim_def\<close>)
  moreover have "map (\<lambda>x. x\<lparr>a_lease := None, a_heartbeat := None\<rparr>) (attempts t) = map (\<lambda>x. x\<lparr>a_lease := None, a_heartbeat := None\<rparr>) (attempts s)"
    by (rule list_all2_map_eq[where R = lease_only]) (use b in \<open>auto simp: beats_def lease_only_def\<close>)
  ultimately show ?thesis by blast
qed

section \<open>Taking over\<close>

lemma attempts_stop_claim [simp]: "attempts (stop_claim ev c a re nh cl s) = attempts s"
  by (simp add: stop_claim_def Let_def update_claim_def add_history_def add_event_def)

lemma attempts_stop_claims: "attempts (fold (stop_claim ev c a re nh) rows s) = attempts s"
  by (induction rows arbitrary: s) simp_all

lemma attempts_new_claim_for: "new_claim_for ev c pid k rv aid d re ws pu su s = Inr (m, t) \<Longrightarrow> attempts t = attempts s"
  by (auto simp: new_claim_for_def Let_def insert_claim_def add_history_def add_event_def split: if_splits)

lemma attempts_bind_held: "bind_held_claim ev c a re h s = (m, t) \<Longrightarrow> attempts t = attempts s"
  by (auto simp: bind_held_claim_def Let_def update_claim_def add_history_def add_event_def)

lemma attempts_move_one: "move_one ev c a re d src (h, cr, s) = Inr (h', cr', t) \<Longrightarrow> attempts t = attempts s"
  by (auto simp: move_one_def split: option.splits if_splits prod.splits dest: attempts_new_claim_for attempts_bind_held)

lemma attempts_move_all: "foldE (move_one ev c a re d) srcs (h, cr, s) = Inr (h', cr', t) \<Longrightarrow> attempts t = attempts s"
proof (induction srcs arbitrary: h cr s)
  case (Cons x xs)
  then obtain h1 c1 s1 where "move_one ev c a re d x (h, cr, s) = Inr (h1, c1, s1)"
    "foldE (move_one ev c a re d) xs (h1, c1, s1) = Inr (h', cr', t)" by auto
  then show ?case using Cons.IH attempts_move_one by metis
qed simp

lemma attempts_move_claims:
  assumes "move_claims ev c a re d rows s = Inr (m, t)"
  shows "attempts t = attempts s"
proof -
  obtain srcs h cr u where f: "foldE (move_one ev c a re d) srcs (held_claim s a d, None, s) = Inr (h, cr, u)"
    and r: "(case cr of Some m \<Rightarrow> Inr (m, u) | None \<Rightarrow> (case h of Some h \<Rightarrow> Inr (bind_held_claim ev c a re h u)
        | None \<Rightarrow> new_claim_for ev c (a_project a) (a_node a) (a_revision a) (Some (a_id a)) d re [] Implement None u)) = Inr (m, t)"
    using assms unfolding move_claims_def Let_def by auto
  have "attempts t = attempts u" using r by (auto split: option.splits dest: attempts_new_claim_for attempts_bind_held)
  then show ?thesis using attempts_move_all[OF f] by simp
qed

lemma attempts_reassign: "reassign_claims ev c a re nh s = Inr (r, t) \<Longrightarrow> attempts t = attempts s"
  by (cases nh) (auto simp: reassign_claims_def Let_def attempts_stop_claims dest: attempts_move_claims)

lemma get_attempt_cong: "attempts t = attempts s \<Longrightarrow> get_attempt t aid = get_attempt s aid"
  by (simp add: get_attempt_def attempt_at_def)

lemma quiet_attempts: "quiet s t \<Longrightarrow> attempts t = attempts s"
  by (simp add: quiet_def)

lemma reclaimable_authority:
  assumes "reclaimable ev c a ex ov bp s = Inr (glass, off)"
  shows "a_status a \<in> set ACTIVE" "ex = a_fence a"
    "by_admin c \<or> (case a_lease a of None \<Rightarrow> ov \<noteq> None | Some e \<Rightarrow> add_seconds e GRACE_SECONDS \<le> now_at ev \<or>
       bp \<and> (\<exists>w d. a_owner a = Some w \<and> by_driver c = Some d \<and> w \<noteq> d \<and> owner_is_offline (effective_presence ev s w) \<and> active_member s (a_project a) d))"
  using assms
  by (auto simp: reclaimable_def offline_owner_evidence_def lease_state_def Let_def not_less split: option.splits if_splits)

lemma owned_result:
  assumes a: "get_attempt s aid = Inr a" and f: "\<And>x. a_id (f x) = a_id x"
    and mv: "reassign_claims ev c a re nh (update_attempt aid f s) = Inr (x, s2)"
    and nt: "(if g then notify ev tg ki su bo refs pid se (attempt_event ev a ty pl (snd (void_open_handoffs ev aid vr s2)))
        else Inr (NotAddressed, attempt_event ev a ty pl (snd (void_open_handoffs ev aid vr s2)))) = Inr (note, s5)"
    and pr: "pub_result ev aid s5 = Inr (p, t)"
  shows "get_attempt t aid = Inr (f a) \<and> pub_attempt p = f a"
proof -
  have "quiet s2 (snd (void_open_handoffs ev aid vr s2))" using void_open_handoffs_quiet by (metis prod.collapse)
  then have "quiet s2 (attempt_event ev a ty pl (snd (void_open_handoffs ev aid vr s2)))" using quiet_attempt_event quiet_trans by blast
  then have "quiet s2 s5" using nt notify_quiet quiet_trans by (auto split: if_splits)
  then have "attempts s5 = attempts (update_attempt aid f s)" using attempts_reassign[OF mv] quiet_attempts by simp
  then have "attempt_at s5 aid = map_option (\<lambda>r. if a_id r = aid then f r else r) (attempt_at s aid)"
    unfolding attempt_at_def update_attempt_def using f by (simp add: find_update_where)
  moreover have "attempt_at s aid = Some a" "a_id a = aid" "KEY aid" using a get_attempt_mem[OF a] by (auto simp: get_attempt_def)
  ultimately have "get_attempt s5 aid = Inr (f a)" by (simp add: get_attempt_def)
  then show ?thesis using pr by (auto simp: pub_result_def public_view_def)
qed

text \<open>
  C21: An attempt changes owner by takeover only with authority: it is in progress, the caller names its
  current fence and is not its owner, and either the caller is an administrator, or the lease is
  beyond its grace period, or the attempt has no lease and an override reason is recorded, or the
  owner is offline and the caller is an active member of the project. The caller then owns the attempt
  with the next fence.
\<close>

theorem take_over_attempt_authority:
  assumes "take_over_attempt ev c aid ex re ov s = Inr ((p, glass, cl, note), t)"
  shows "\<exists>a b d. get_attempt s aid = Inr a \<and> by_driver c = Some d \<and> a_owner a \<noteq> Some d \<and> a_status a \<in> set ACTIVE \<and> ex = a_fence a \<and>
     (by_admin c \<or> (case a_lease a of None \<Rightarrow> ov \<noteq> None | Some e \<Rightarrow> add_seconds e GRACE_SECONDS \<le> now_at ev \<or>
        (\<exists>w. a_owner a = Some w \<and> owner_is_offline (effective_presence ev s w) \<and> active_member s (a_project a) d))) \<and>
     get_attempt t aid = Inr b \<and> pub_attempt p = b \<and> a_owner b = Some d \<and> a_fence b = a_fence a + 1 \<and> a_status b = a_status a"
proof -
  let ?own = "\<lambda>a x. x\<lparr>a_owner := Some (the (by_driver c)), a_fence := a_fence a + 1,
     a_lease := Some (add_seconds (now_at ev) DEFAULT_LEASE_SECONDS), a_heartbeat := Some (now_at ev), a_updated := now_at ev\<rparr>"
  obtain ov' a off where ov: "override_reason_text ov = Inr ov'" and d: "nonempty (by_driver c)" and a: "get_attempt s aid = Inr a"
    "a_owner a \<noteq> Some (the (by_driver c))" and rc: "reclaimable ev c a ex ov' True s = Inr (glass, off)"
    and t: "get_attempt t aid = Inr (?own a a) \<and> pub_attempt p = ?own a a"
    using assms
    apply (simp only: take_over_attempt_def Let_def bindE_Inr_iff raise_if_iff split_paired_Ex prod.case case_prod_beta fst_conv snd_conv prod.inject sum.inject not_not)
    apply clarify
    apply (rule that, assumption, assumption, assumption, assumption, assumption)
    apply (rule owned_result, assumption, simp, assumption, assumption, assumption)
    done
  obtain dr where dr: "by_driver c = Some dr" using d by (auto simp: nonempty_def)
  have "ov' \<noteq> None \<longleftrightarrow> ov \<noteq> None" using ov by (auto simp: override_reason_text_def split: option.splits)
  then have auth: "by_admin c \<or> (case a_lease a of None \<Rightarrow> ov \<noteq> None | Some e \<Rightarrow> add_seconds e GRACE_SECONDS \<le> now_at ev \<or>
        (\<exists>w. a_owner a = Some w \<and> owner_is_offline (effective_presence ev s w) \<and> active_member s (a_project a) dr))"
    using reclaimable_authority(3)[OF rc] dr by (auto split: option.splits)
  show ?thesis
    by (intro exI[of _ a] exI[of _ "?own a a"] exI[of _ dr]) (use auth a t dr reclaimable_authority(1,2)[OF rc] in simp)
qed

theorem take_over_attempt_authority_witness:
  "\<exists>p g cl n t b. take_over_attempt (demo_env 9000000000 ''09'') (demo_caller ''bob'') ''attempt-01'' 1 ''the lease ran out'' None lease_db = Inr ((p, g, cl, n), t) \<and>
     get_attempt t ''attempt-01'' = Inr b \<and> a_owner b = Some ''bob'' \<and> a_fence b = 2"
proof -
  let ?r = "take_over_attempt (demo_env 9000000000 ''09'') (demo_caller ''bob'') ''attempt-01'' 1 ''the lease ran out'' None lease_db"
  have "\<not> isl ?r" using lease_facts by blast
  then obtain p g cl n t where r: "?r = Inr ((p, g, cl, n), t)" by (cases ?r) auto
  show ?thesis using take_over_attempt_authority[OF r] r by (auto simp: demo_caller_def)
qed


lemma claims_handover:
  assumes "claim_handover ev c d old n p re sk rh s = Inr (cl, t)"
  shows "claims t = update_where (\<lambda>x. c_id x = c_id old) (\<lambda>x. x\<lparr>c_status := TakenOver, c_updated := now_at ev\<rparr>) (claims s) @ [cl] \<and>
     c_project cl = c_project old \<and> c_node cl = c_node old \<and> c_driver cl = d \<and> c_purpose cl = c_purpose old \<and> c_status cl = Live \<and>
     (\<forall>x \<in> set (claims s). c_project x = c_project old \<and> c_node x = c_node old \<longrightarrow> c_fence x < c_fence cl)"
proof -
  let ?s2 = "add_history ev (by_actor c) (old\<lparr>c_status := TakenOver, c_updated := now_at ev\<rparr>) TakenOver (concat [''taken over by '', d, '': '', re])
     (update_claim (c_id old) (\<lambda>x. x\<lparr>c_status := TakenOver, c_updated := now_at ev\<rparr>) s)"
  have cl: "cl = new_claim (fresh_id ev ''claim-'' 0) (c_project old) (c_node old) d (c_purpose old) (next_fence ?s2 (c_project old) (c_node old))
     (n_revision n) None (c_workspace old) None (c_lease_seconds old) (now_at ev) sk rh" and ct: "claims t = claims ?s2 @ [cl]"
    using assms by (auto simp: claim_handover_def Let_def insert_claim_def add_history_def add_event_def split: if_splits)
  have "c_fence x < next_fence ?s2 (c_project old) (c_node old)" if x: "x \<in> set (claims s)" "c_project x = c_project old" "c_node x = c_node old" for x
  proof -
    let ?y = "if c_id x = c_id old then x\<lparr>c_status := TakenOver, c_updated := now_at ev\<rparr> else x"
    have m: "?y \<in> set (claims ?s2)" using x(1) by (auto simp: update_where_def)
    have "c_project ?y = c_project old" "c_node ?y = c_node old" and f: "c_fence ?y = c_fence x" using x(2,3) by simp_all
    then have "c_fence ?y < next_fence ?s2 (c_project old) (c_node old)" by (intro next_fence_gt[OF m])
    then show ?thesis unfolding f .
  qed
  then show ?thesis using ct cl by (auto simp: new_claim_def)
qed

lemma take_over_claim_cases:
  assumes run: "take_over_claim ev c pid cid ex re rk s = Inr ((v, w, False), t)"
  obtains d r old0 old n p sk rh cl s2 s1 where "require_driver c = Inr d" "check_text (PStr re) MAX_REASON_CHARS = Inr r" "\<not> length r < MIN_REASON_CHARS"
    "get_claim_row s pid cid = Inr old0" "active_member s pid d" "c_driver old0 \<noteq> d"
    "s1 = sweep_conn ev (by_actor c) pid (now_at ev) (Some (c_node old0)) s"
    "get_claim_row s1 pid cid = Inr old" "ex = c_fence old" "c_status old = Live"
    "owner_is_offline (effective_presence ev s1 (c_driver old))" "claim_handover ev c d old n p r sk rh s1 = Inr (cl, s2)"
    "quiet s2 t" "w = view_claim (now_at ev) cl"
proof -
  obtain d r where d: "require_driver c = Inr d" and r: "check_text (PStr re) MAX_REASON_CHARS = Inr r" "\<not> length r < MIN_REASON_CHARS"
    using run by (auto simp: take_over_claim_def)
  have fr: "find (\<lambda>x. c_project x = pid \<and> c_driver x = d \<and> c_request_key x = ''takeover:'' @ rk) (claims s) = None"
    using run by (cases "find (\<lambda>x. c_project x = pid \<and> c_driver x = d \<and> c_request_key x = ''takeover:'' @ rk) (claims s)")
      (auto simp: take_over_claim_def d Let_def)
  show thesis
    using run
    apply (simp only: take_over_claim_def d r(1) bindE_simps Let_def fr option.case bindE_Inr_iff raise_if_iff split_paired_Ex prod.case case_prod_beta
        fst_conv snd_conv prod.inject sum.inject not_not)
    apply (elim exE conjE)
    apply (rule that[OF d r _ _ _ refl], assumption, assumption, assumption, assumption, assumption, assumption, assumption, assumption)
     apply (rule notify_quiet, simp only:)
    apply (simp only:)
    done
qed

text \<open>
  C22: A claim is taken over only from an owner the store sees as offline, by another active member of the
  project who names the claim's current fence and gives a reason of 20 to 300 characters; the old claim
  is then over and the new one is live with a fence higher than any on the goal, with the same
  purpose.
\<close>

theorem take_over_claim_authority:
  assumes "reachable s" "take_over_claim ev c pid cid ex re rk s = Inr ((v, w, False), t)"
  shows "\<exists>d old. by_driver c = Some d \<and> old \<in> set (claims s) \<and> c_id old = cid \<and> c_status old = Live \<and> c_fence old = ex \<and> c_driver old \<noteq> d \<and>
     active_member s pid d \<and> owner_is_offline (effective_presence ev s (c_driver old)) \<and> 20 \<le> length (strip re) \<and> length re \<le> 300 \<and>
     (\<exists>old' \<in> set (claims t). c_id old' = cid \<and> c_status old' = TakenOver) \<and>
     cv_claim w \<in> set (claims t) \<and> c_driver (cv_claim w) = d \<and> c_status (cv_claim w) = Live \<and> c_purpose (cv_claim w) = c_purpose old \<and>
     (\<forall>x \<in> set (claims s). c_project x = pid \<and> c_node x = c_node old \<longrightarrow> c_fence x < c_fence (cv_claim w))"
proof -
  have ok: "claims_ok (claims s)" using reachable_sys_inv[OF assms(1)] by (simp add: sys_inv_def)
  obtain d r old0 old n p sk rh cl s2 s1 where d: "require_driver c = Inr d" and r: "check_text (PStr re) MAX_REASON_CHARS = Inr r" "\<not> length r < MIN_REASON_CHARS"
    and o0: "get_claim_row s pid cid = Inr old0" "active_member s pid d" "c_driver old0 \<noteq> d"
    and s1: "s1 = sweep_conn ev (by_actor c) pid (now_at ev) (Some (c_node old0)) s"
    and o: "get_claim_row s1 pid cid = Inr old" "ex = c_fence old" "c_status old = Live"
    and off: "owner_is_offline (effective_presence ev s1 (c_driver old))" and h: "claim_handover ev c d old n p r sk rh s1 = Inr (cl, s2)"
    and q: "quiet s2 t" and w: "w = view_claim (now_at ev) cl"
    by (rule take_over_claim_cases[OF assms(2)])
  note e = sweep_conn_effect[OF ok, of ev "by_actor c" pid "now_at ev" "Some (c_node old0)", folded s1]
  let ?P = "\<lambda>c. c_project c = pid \<and> c_status c = Live \<and> of_node (Some (c_node old0)) (c_node c) \<and> add_seconds (c_expires c) GRACE_SECONDS \<le> now_at ev"
  have "old \<in> (\<lambda>c. if ?P c then c\<lparr>c_status := Expired, c_updated := now_at ev\<rparr> else c) ` set (claims s)"
    using get_claim_rowD[OF o(1)] unfolding e(2) update_where_def set_map by blast
  then obtain x where x: "x \<in> set (claims s)" "old = (if ?P x then x\<lparr>c_status := Expired, c_updated := now_at ev\<rparr> else x)" by blast
  have "\<not> ?P x" using o(3) x(2) by (cases "?P x") simp_all
  then have "old = x" using x(2) by (simp only: if_False)
  then have old: "old \<in> set (claims s)" using x(1) by simp
  then have "old0 = old" using claims_ok_unique[OF ok] get_claim_rowD[OF o(1)] get_claim_rowD[OF o0(1)] by metis
  have "waits s1 = waits s" "declarations s1 = declarations s" "drivers s1 = drivers s"
    using arg_cong[OF e(1), of waits] arg_cong[OF e(1), of declarations] arg_cong[OF e(1), of drivers] by (simp_all add: non_claims_def)
  then have pr: "effective_presence ev s1 x = effective_presence ev s x" for x
    by (simp only: effective_presence_def wait_state_def decl_of_def)
  note hd = claims_handover[OF h]
  have ct: "claims t = claims s2" using q by (simp add: quiet_def)
  have fence: "c_fence x < c_fence cl" if x: "x \<in> set (claims s)" "c_project x = pid" "c_node x = c_node old" for x
  proof -
    have "\<exists>y \<in> set (claims s1). keeps_claim x y" using list_all2_mem1[OF e(3) x(1)] .
    then obtain y where y: "y \<in> set (claims s1)" "keeps_claim x y" by blast
    then have "c_fence y < c_fence cl" using hd x get_claim_rowD[OF o(1)] by (auto simp: keeps_claim_def)
    then show ?thesis using y(2) by (simp add: keeps_claim_def)
  qed
  have "old\<lparr>c_status := TakenOver, c_updated := now_at ev\<rparr> \<in> set (claims t)"
    unfolding ct hd[THEN conjunct1] using get_claim_rowD[OF o(1)] by (force simp: update_where_def)
  then have over: "\<exists>old' \<in> set (claims t). c_id old' = cid \<and> c_status old' = TakenOver"
    by (rule bexI[rotated]) (use get_claim_rowD[OF o(1)] in simp)
  have cl: "cl \<in> set (claims t)" unfolding ct hd[THEN conjunct1] by simp
  have len: "20 \<le> length (strip re)" "length re \<le> 300"
    using r by (auto simp: check_text_iff MIN_REASON_CHARS_def MAX_REASON_CHARS_def)
  have "by_driver c = Some d" using d by (auto simp: require_driver_def split: option.splits if_splits)
  then show ?thesis
    using old get_claim_rowD[OF o(1)] o(2,3) o0(2,3) off over cl hd fence len unfolding pr w \<open>old0 = old\<close>
    by (intro exI[of _ d] exI[of _ old]) (simp add: view_claim_def)
qed

theorem take_over_claim_authority_witness:
  "\<exists>v w t. take_over_claim (demo_env 2000000 ''02'') (demo_caller ''bob'') ''p'' ''claim-01'' 1 ''ann is away from this goal'' ''k9'' away_db = Inr ((v, w, False), t) \<and>
     c_driver (cv_claim w) = ''bob'' \<and> c_status (cv_claim w) = Live"
proof -
  let ?r = "take_over_claim (demo_env 2000000 ''02'') (demo_caller ''bob'') ''p'' ''claim-01'' 1 ''ann is away from this goal'' ''k9'' away_db"
  have "(case ?r of Inl _ \<Rightarrow> True | Inr ((v, w, i), t) \<Rightarrow> i) = False" using lease_facts by blast
  then obtain v w t where r: "?r = Inr ((v, w, False), t)" by (cases ?r) (auto split: prod.splits)
  show ?thesis using take_over_claim_authority[OF away_reachable r] r by (auto simp: demo_caller_def)
qed

section \<open>Presence\<close>

text \<open>
  C25: The store treats an owner as offline exactly when no wait of the owner is in progress or ended within
  the grace period, and the owner declared itself offline or is a registered driver unseen for longer
  than the stale bound.
\<close>

theorem offline_decided:
  "owner_is_offline (effective_presence ev s d) \<longleftrightarrow>
     (\<forall>w \<in> set (waits s). w_driver w = d \<longrightarrow> \<not> wait_open (now_at ev) w \<and> wait_grace_seconds ev * 1000000 < now_at ev - wait_finish w) \<and>
     (decl_of s d \<noteq> None \<or>
      (\<exists>row t. find (\<lambda>x. dr_id x = d) (drivers s) = Some row \<and> dr_last_seen row = Some t \<and>
         snd (presence_thresholds ev) < (now_at ev - t) div 1000000))"
  unfolding owner_is_offline_iff recent_wait_def by (auto simp: not_le)

theorem offline_decided_witness:
  "\<not> owner_is_offline (effective_presence (demo_env 5 ''05'') (empty_db\<lparr>waits := [\<lparr>w_id = ''w'', w_driver = ''ann'', w_started = 1, w_until = 9, w_ended = None\<rparr>]\<rparr>) ''ann'') \<and>
   owner_is_offline (effective_presence (demo_env 5 ''05'') (empty_db\<lparr>drivers := [\<lparr>dr_id = ''ann'', dr_active = True, dr_last_seen = Some (-1000000000000)\<rparr>]\<rparr>) ''ann'')"
proof -
  have "snd (presence_thresholds (demo_env 5 ''05'')) < (5 - (-1000000000000)) div 1000000" by code_simp
  then show ?thesis
    unfolding offline_decided by (auto simp: wait_open_def demo_env_def empty_db_def)
qed

text \<open>
  A driver that acts is present: after any action that clears an absence, whatever the driver declared
  before, the store does not see it as offline, so its claims cannot be taken from it.
\<close>

lemma acting_driver_present:
  assumes "d \<noteq> []" "cause \<in> set CLEAR_CAUSES"
  shows "\<not> owner_is_offline (effective_presence ev (mark_back ev (Some d) cause s) d)"
  using assms by (rule mark_back_not_offline)

section \<open>Enforcement\<close>

text \<open>
  C26: Where claims are enforced, dispatch on a goal is granted only to the holder of a live claim on that
  goal, within its lease and grace period and with the fence it names, or to an administrator as a
  recorded break-glass.
\<close>

theorem dispatch_needs_claim:
  assumes "dispatch_claim s pid k driver admin cid fence cur allow = Inr (r, glass)" "enforced s pid"
  shows "(glass \<and> admin \<and> r = None) \<or>
    (\<not> glass \<and> (\<exists>l. r = Some l \<and> l \<in> set (claims s) \<and> c_project l = pid \<and> c_node l = k \<and> driver = Some (c_driver l) \<and>
       c_status l = Live \<and> cur < add_seconds (c_expires l) GRACE_SECONDS \<and> (fence \<noteq> None \<longrightarrow> fence = Some (c_fence l)) \<and>
       (c_purpose l = Implement \<or> allow \<and> c_purpose l = Review \<and> cid = Some (c_id l))))"
  using assms by (rule dispatch_claim_enforced)

definition guarded_db :: db where
  "guarded_db = empty_db\<lparr>enforcements := [\<lparr>enf_project = ''p'', enf_claims = True, enf_reason = [], enf_actor = [], enf_updated = 0, enf_review_advisory = False\<rparr>],
     claims := [new_claim ''c1'' ''p'' ''a'' ''ann'' Implement 1 1 None ''/w'' None 3600 0 ''k'' ''h'']\<rparr>"

theorem dispatch_needs_claim_witness:
  "\<exists>r. dispatch_claim guarded_db ''p'' ''a'' (Some ''ann'') False None None 5 False = Inr (r, False) \<and> r \<noteq> None"
proof -
  have e: "enforced guarded_db ''p''" "\<not> isl (dispatch_claim guarded_db ''p'' ''a'' (Some ''ann'') False None None 5 False)" by code_simp+
  then obtain r g where r: "dispatch_claim guarded_db ''p'' ''a'' (Some ''ann'') False None None 5 False = Inr (r, g)"
    by (cases "dispatch_claim guarded_db ''p'' ''a'' (Some ''ann'') False None None 5 False") auto
  show ?thesis using dispatch_needs_claim[OF r e(1)] r by auto
qed

text \<open>A goal \<open>u\<close> on which the goal \<open>a\<close> claimed by \<open>ann\<close> depends.\<close>

definition upstream_db :: db where
  "upstream_db = guarded_db\<lparr>
     projects := [\<lparr>p_id = ''p'', p_title = ''P'', p_source = None, p_created = 0\<rparr>],
     nodes := map (new_node (demo_env 0 ''00'') ''p'') (map (\<lambda>(k, ds). \<lparr>sp_key = k, sp_goal = ''goal'', sp_checks = [], sp_deps = ds, sp_priority = 0, sp_facet = None\<rparr>)
       [(''u'', []), (''a'', [''u''])]),
     deps := [\<lparr>d_project = ''p'', d_node = ''a'', d_dep = ''u''\<rparr>]\<rparr>"

text \<open>
  C27: Each structural edit of a goal (revising, splitting, superseding it or setting its facet) weighs
  the live claims and the owned attempts in progress of other drivers, on the goal and on everything
  that transitively depends on it, in a project that enforces claims. With none of them the edit is
  the plain write; otherwise a caller who is no administrator is refused as not the owner, and an
  administrator's write goes through and is recorded as an override that names every holder.
\<close>

theorem structural_edit_respects_owners:
  assumes "(action, edit, body) \<in> {
     (''revise_node'', edit_revise ev c pid k ex re g ac nd, revise_node ev pid k ex re g ac nd),
     (''split_node'', edit_split ev c pid k ex ch re, split_node ev pid k ex ch re),
     (''supersede_node'', edit_supersede ev c pid k ex re, supersede_node ev pid k ex re),
     (''set_node_facet'', edit_facet ev c pid k fa, set_node_facet ev pid k fa)}"
  shows "\<exists>held. set held = (if enforced s pid then
       {ClaimHolder (c_id cl) (c_node cl) (c_driver cl) (c_purpose cl) (c_fence cl) | cl.
          cl \<in> set (claims s) \<and> c_project cl = pid \<and> c_status cl = Live \<and> (c_node cl, k) \<in> (set (project_edges s pid))\<^sup>* \<and> by_driver c \<noteq> Some (c_driver cl)} \<union>
       {AttemptHolder (a_id a) (a_node a) d (a_fence a) | a d.
          a \<in> set (attempts s) \<and> a_project a = pid \<and> a_status a \<in> set ACTIVE \<and> (a_node a, k) \<in> (set (project_edges s pid))\<^sup>* \<and>
          a_owner a = Some d \<and> by_driver c \<noteq> Some d} else {}) \<and>
     edit s = (if held = [] then body s
        else if by_admin c then bindE (body s) (\<lambda>(r, t). Inr (r, add_event ev pid (Some k) ''claim_overridden'' (override_payload action c held) t))
        else Inl (ClaimError ''not_owner''))"
proof -
  have "edit s = structural ev c action pid k body s" using assms by (auto simp: edit_defs)
  then show ?thesis using structural_spec[of s pid k c ev action body] by simp
qed

theorem structural_edit_respects_owners_witness:
  "edit_supersede (demo_env 5 ''05'') (demo_caller ''bob'') ''p'' ''u'' 1 ''why'' upstream_db = Inl (ClaimError ''not_owner'') \<and>
   (\<exists>r t held. supersede_node (demo_env 5 ''05'') ''p'' ''u'' 1 ''why'' upstream_db = Inr (r, t) \<and>
      edit_supersede (demo_env 5 ''05'') (demo_caller ''ann'') ''p'' ''u'' 1 ''why'' upstream_db = Inr (r, t) \<and>
      set held = {ClaimHolder ''c1'' ''a'' ''ann'' Implement 1} \<and>
      edit_supersede (demo_env 5 ''05'') (demo_caller ''bob''\<lparr>by_admin := True\<rparr>) ''p'' ''u'' 1 ''why'' upstream_db =
        Inr (r, add_event (demo_env 5 ''05'') ''p'' (Some ''u'') ''claim_overridden''
          (override_payload ''supersede_node'' (demo_caller ''bob''\<lparr>by_admin := True\<rparr>) held) t))"
proof -
  let ?w = "supersede_node (demo_env 5 ''05'') ''p'' ''u'' 1 ''why''"
  have ok: "\<not> isl (?w upstream_db)" "enforced upstream_db ''p''" by code_simp+
  obtain r t where w: "?w upstream_db = Inr (r, t)" using ok(1) by (cases "?w upstream_db") auto
  have h: "claims upstream_db = [new_claim ''c1'' ''p'' ''a'' ''ann'' Implement 1 1 None ''/w'' None 3600 0 ''k'' ''h'']"
    "attempts upstream_db = []" "set (project_edges upstream_db ''p'') = {(''a'', ''u'')}"
    by (simp_all add: upstream_db_def guarded_db_def empty_db_def project_edges_def)
  have edge: "(''a'', ''u'') \<in> {(''a'', ''u'')}\<^sup>*" by blast
  have T: "\<exists>held. set held = (if d = ''ann'' then {} else {ClaimHolder ''c1'' ''a'' ''ann'' Implement 1}) \<and>
      edit_supersede (demo_env 5 ''05'') c ''p'' ''u'' 1 ''why'' upstream_db = (if held = [] then Inr (r, t)
        else if by_admin c then Inr (r, add_event (demo_env 5 ''05'') ''p'' (Some ''u'') ''claim_overridden'' (override_payload ''supersede_node'' c held) t)
        else Inl (ClaimError ''not_owner''))" if d: "by_driver c = Some d" for c d
  proof -
    have 1: "{ClaimHolder (c_id cl) (c_node cl) (c_driver cl) (c_purpose cl) (c_fence cl) | cl.
        cl \<in> set (claims upstream_db) \<and> c_project cl = ''p'' \<and> c_status cl = Live \<and> (c_node cl, ''u'') \<in> (set (project_edges upstream_db ''p''))\<^sup>* \<and>
        by_driver c \<noteq> Some (c_driver cl)} = (if d = ''ann'' then {} else {ClaimHolder ''c1'' ''a'' ''ann'' Implement 1})"
      unfolding h d using edge by auto
    obtain held where "set held = (if d = ''ann'' then {} else {ClaimHolder ''c1'' ''a'' ''ann'' Implement 1})"
      "edit_supersede (demo_env 5 ''05'') c ''p'' ''u'' 1 ''why'' upstream_db = (if held = [] then ?w upstream_db
        else if by_admin c then bindE (?w upstream_db) (\<lambda>(r, t). Inr (r, add_event (demo_env 5 ''05'') ''p'' (Some ''u'') ''claim_overridden''
          (override_payload ''supersede_node'' c held) t))
        else Inl (ClaimError ''not_owner''))"
      using structural_edit_respects_owners[where action = "''supersede_node''" and edit = "edit_supersede (demo_env 5 ''05'') c ''p'' ''u'' 1 ''why''" and
          body = ?w and ev = "demo_env 5 ''05''" and c = c and pid = "''p''" and k = "''u''" and ex = 1 and re = "''why''" and s = upstream_db]
      unfolding if_P[OF ok(2)] 1 h(2) by auto
    then show ?thesis unfolding w bindE_def sum.case prod.case by (intro exI[of _ held] conjI)
  qed
  let ?adm = "demo_caller ''bob''\<lparr>by_admin := True\<rparr>"
  have c: "by_driver (demo_caller x) = Some x" "\<not> by_admin (demo_caller x)" "by_driver ?adm = Some ''bob''" "by_admin ?adm" for x
    by (simp_all add: demo_caller_def)
  have ne: "held \<noteq> []" if "set held = (if ''bob'' = ''ann'' then {} else {x})" for held :: "holder list" and x using that by auto
  obtain h1 where h1: "set h1 = (if ''bob'' = ''ann'' then {} else {ClaimHolder ''c1'' ''a'' ''ann'' Implement 1})"
    "edit_supersede (demo_env 5 ''05'') (demo_caller ''bob'') ''p'' ''u'' 1 ''why'' upstream_db = Inl (ClaimError ''not_owner'')"
    using T[OF c(1), of "''bob''"] ne c(2) by metis
  have h2: "edit_supersede (demo_env 5 ''05'') (demo_caller ''ann'') ''p'' ''u'' 1 ''why'' upstream_db = Inr (r, t)"
    using T[OF c(1), of "''ann''"] by (metis set_empty)
  obtain h3 where h3: "set h3 = (if ''bob'' = ''ann'' then {} else {ClaimHolder ''c1'' ''a'' ''ann'' Implement 1})"
    "edit_supersede (demo_env 5 ''05'') ?adm ''p'' ''u'' 1 ''why'' upstream_db =
        Inr (r, add_event (demo_env 5 ''05'') ''p'' (Some ''u'') ''claim_overridden'' (override_payload ''supersede_node'' ?adm h3) t)"
    using T[OF c(3)] ne c(4) by metis
  have "set h3 = {ClaimHolder ''c1'' ''a'' ''ann'' Implement 1}" using h3(1) by simp
  then show ?thesis using w h1(2) h2 h3(2) by blast
qed

end
