(* ===== verification/Acceptance_Properties.thy ===== *)
theory Acceptance_Properties
  imports Graph_Properties
begin

text \<open>
  The properties of attempts, evidence and acceptance: what a reservation pins, what an acceptance
  writes and that it can be read back, that repeating it changes nothing, and that new evidence
  withdraws it.
\<close>

section \<open>Rows of the concrete run\<close>

lemma accepted_rows:
  "map node_row (nodes accepted_db) = [(''a'', VERIFIED, Some ''receipt-02''), (''b'', OPEN, None)]"
  "map attempt_row (attempts accepted_db) = [(''attempt-01'', Candidate, Some ''ann'', 1)]"
  "project_edges accepted_db ''p'' = [(''b'', ''a'')]"
  "receipt_row (receipt accepted_db ''p'' ''receipt-02'') = Some (''receipt-02'', [''e1''])"
  using accepted_eval by (simp_all add: Let_def)

lemma accepted_node: "hd (nodes accepted_db) \<in> set (nodes accepted_db)" "n_status (hd (nodes accepted_db)) = VERIFIED"
  using accepted_rows(1) by (cases "nodes accepted_db"; simp add: node_row_def)+

section \<open>Receipts\<close>

lemma find_evidence:
  assumes "unique_on ev_id es"
  shows "find (\<lambda>e. ev_attempt e = aid \<and> ev_id e = i) (rev es) = Some e \<longleftrightarrow> e \<in> set es \<and> ev_attempt e = aid \<and> ev_id e = i"
proof
  assume "find (\<lambda>e. ev_attempt e = aid \<and> ev_id e = i) (rev es) = Some e"
  then show "e \<in> set es \<and> ev_attempt e = aid \<and> ev_id e = i" by (auto dest: find_SomeD)
next
  assume e: "e \<in> set es \<and> ev_attempt e = aid \<and> ev_id e = i"
  show "find (\<lambda>e. ev_attempt e = aid \<and> ev_id e = i) (rev es) = Some e"
  proof (cases "find (\<lambda>e. ev_attempt e = aid \<and> ev_id e = i) (rev es)")
    case None
    then show ?thesis using e by (auto simp: find_None_set)
  next
    case (Some x)
    then show ?thesis using find_SomeD[OF Some] e unique_onD[OF assms] by auto
  qed
qed

lemma receipt_iff:
  assumes "receipts_ok s"
  shows "receipt s pid rid = Inr (r, es) \<longleftrightarrow> KEY pid \<and> KEY rid \<and> r \<in> set (acceptances s) \<and> rc_id r = rid \<and> rc_project r = pid \<and>
     list_all2 (\<lambda>i e. e \<in> set (evidences s) \<and> ev_attempt e = rc_attempt r \<and> ev_id e = i) (rc_evidence r) es"
proof -
  have u: "unique_on rc_id (acceptances s)" "unique_on ev_id (evidences s)" using assms by (simp_all add: receipts_ok_def)
  have "find (\<lambda>x. rc_id x = rid \<and> rc_project x = pid) (acceptances s) = Some r \<longleftrightarrow> r \<in> set (acceptances s) \<and> rc_id r = rid \<and> rc_project r = pid"
  proof
    assume r: "r \<in> set (acceptances s) \<and> rc_id r = rid \<and> rc_project r = pid"
    show "find (\<lambda>x. rc_id x = rid \<and> rc_project x = pid) (acceptances s) = Some r"
    proof (cases "find (\<lambda>x. rc_id x = rid \<and> rc_project x = pid) (acceptances s)")
      case None
      then show ?thesis using r by (auto simp: find_None_set)
    next
      case (Some x)
      then show ?thesis using find_SomeD[OF Some] r unique_onD[OF u(1)] by auto
    qed
  qed (auto dest: find_SomeD)
  then show ?thesis by (auto simp: receipt_def mapE_Inr_iff find_evidence[OF u(2)])
qed

lemma run_evolves: "reachable s \<Longrightarrow> step\<^sup>*\<^sup>* s t \<Longrightarrow> sys_inv t \<and> evolves s t"
  using store.run_inv reachable_sys_inv by blast

lemma accepted_receipt: "\<exists>r es. receipt accepted_db ''p'' ''receipt-02'' = Inr (r, es) \<and> rc_id r = ''receipt-02'' \<and> map ev_id es = [''e1'']"
  using accepted_rows(4) by (auto simp: receipt_row_def split: sum.splits prod.splits)

section \<open>Accepting\<close>

lemma verify_keeps:
  assumes "verify ev pid k ex aid rv rb s = Inr (r, t)"
  shows "evidences t = evidences s" "attempts t = attempts s" "deps t = deps s" "blobs t = blobs s" "observations t = observations s"
  using assms by (auto elim!: verify_cases simp: add_event_def update_node_def)

lemma verify_receipt_row:
  assumes inv: "sys_inv s" and v: "verify ev pid k ex aid rv rb s = Inr (r, t)"
  obtains n a where "get_node s pid k = Inr n" "get_attempt s aid = Inr a" "a_project a = pid" "a_node a = k" "n_revision n = ex" "eligible_candidate ev s a = Inr ()"
    "unmet s aid (n_contract n) = []" "r \<in> set (acceptances t)" "rc_project r = pid" "rc_attempt r = aid"
    "rc_evidence r = map (\<lambda>c. ev_id (the (latest_evidence s aid (ck_id c)))) (n_contract n)"
    "node_at t pid k = Some (if n_receipt n = None then n\<lparr>n_status := VERIFIED, n_receipt := Some (rc_id r), n_updated := now_at ev\<rparr> else n)"
    "n_receipt n \<in> {None, Some (rc_id r)}" "n_receipt n \<noteq> None \<longrightarrow> t = s"
  using v
proof (rule verify_cases, goal_cases)
  case (1 n a rid)
  have n: "n \<in> set (nodes s)" "n_project n = pid" "n_key n = k" "node_ok n" and at: "node_at s pid k = Some n"
    using 1(2) graph_inv_node[of s pid k n] inv by (auto simp: get_node_iff sys_inv_def)
  then have "grounded s n" using sys_inv_grounded[OF inv] 1(5) by (simp add: node_ok_def)
  then obtain r' a' where r': "r' \<in> set (acceptances s)" "n_receipt n = Some (rc_id r')" "rc_project r' = pid" by (auto simp: grounded_def accepts_def n)
  moreover have "r \<in> set (acceptances s)" "rc_id r = rid" using 1(6) by (auto simp: receipt_at_def dest: find_SomeD)
  ultimately have "r = r'" using inv 1(5) unique_onD by (fastforce simp: sys_inv_def receipts_ok_def)
  obtain b where "a_project a = pid" "a_node a = k" "n_revision n = ex"
    using v 1(2,3) by (auto simp: verify_def)
  then show ?case using 1(1)[of n a] 1(2-) r' at \<open>r = r'\<close> by simp
next
  case (2 n a v pl)
  have at: "node_at s pid k = Some n" using 2(2) by (simp add: get_node_iff)
  have "node_at t pid k = Some (n\<lparr>n_status := VERIFIED, n_receipt := Some (rc_id r), n_updated := now_at ev\<rparr>)"
    using at find_SomeD[OF at[unfolded node_at_def]] unfolding 2(13) by (simp add: node_at_def find_update_where is_node_def)
  then show ?case using 2(1)[of n a] 2(2-) by simp
qed

text \<open>
  C6: An acceptance can be read back. When verify succeeds, the goal is VERIFIED with the receipt, and
  reading the receipt returns the acceptance with one passing evidence row of the attempt for every
  criterion of the contract, in contract order.
\<close>

theorem verify_receipt_roundtrip:
  assumes "reachable s" "verify ev pid k ex aid rv rb s = Inr (r, t)" "KEY (rc_id r)"
  shows "\<exists>n es. node_at t pid k = Some n \<and> n_status n = VERIFIED \<and> n_receipt n = Some (rc_id r) \<and> receipt t pid (rc_id r) = Inr (r, es) \<and>
     map ev_criterion es = map ck_id (n_contract n) \<and> list_all (\<lambda>e. ev_attempt e = aid \<and> ev_verdict e = Pass) es"
proof -
  have inv: "sys_inv s" using reachable_sys_inv assms(1) .
  have inv': "sys_inv t" using verify_safe[OF assms(2)] inv by (simp add: safe_def)
  obtain n a where n: "get_node s pid k = Inr n" and um: "unmet s aid (n_contract n) = []" and r: "r \<in> set (acceptances t)" "rc_project r = pid" "rc_attempt r = aid"
      "rc_evidence r = map (\<lambda>c. ev_id (the (latest_evidence s aid (ck_id c)))) (n_contract n)"
    and nt: "node_at t pid k = Some (if n_receipt n = None then n\<lparr>n_status := VERIFIED, n_receipt := Some (rc_id r), n_updated := now_at ev\<rparr> else n)"
      "n_receipt n \<in> {None, Some (rc_id r)}"
    by (rule verify_receipt_row[OF inv assms(2)])
  let ?es = "map (\<lambda>c. the (latest_evidence s aid (ck_id c))) (n_contract n)"
  have e: "the (latest_evidence s aid (ck_id c)) \<in> set (evidences s) \<and> ev_attempt (the (latest_evidence s aid (ck_id c))) = aid \<and>
      ev_criterion (the (latest_evidence s aid (ck_id c))) = ck_id c \<and> ev_verdict (the (latest_evidence s aid (ck_id c))) = Pass"
    if "c \<in> set (n_contract n)" for c
    using unmet_None[OF um that] latest_evidence_mem by (metis option.sel)
  have "receipt t pid (rc_id r) = Inr (r, ?es)"
    unfolding receipt_iff[OF inv'[unfolded sys_inv_def, THEN conjunct2, THEN conjunct2, THEN conjunct2, THEN conjunct1]]
    using r n assms(3) e by (auto simp: get_node_iff list_all2_conv_all_nth verify_keeps[OF assms(2)])
  moreover have "n_receipt n \<noteq> None \<longrightarrow> n_status n = VERIFIED" using n graph_inv_node[of s pid k n] inv by (auto simp: get_node_iff sys_inv_def node_ok_def)
  ultimately show ?thesis
    using nt e by (intro exI[of _ "if n_receipt n = None then n\<lparr>n_status := VERIFIED, n_receipt := Some (rc_id r), n_updated := now_at ev\<rparr> else n"] exI[of _ ?es])
      (auto simp: list_all_iff)
qed


lemma retained_ok_cong:
  assumes "sha256_hex ev' = sha256_hex ev" "blobs t = blobs s"
  shows "retained_ok ev' t = retained_ok ev s"
  by (intro ext) (unfold retained_ok_def assms, rule refl)

lemma eligible_candidate_cong:
  assumes "sha256_hex ev' = sha256_hex ev" "observations t = observations s" "blobs t = blobs s" "attempts t = attempts s" "pins_current t a = pins_current s a"
  shows "eligible_candidate ev' t a = eligible_candidate ev s a"
  unfolding eligible_candidate_def candidate_report_ok_def observation_of_def newest_def retained_ok_cong[OF assms(1,3)] assms(2,5) latest_attempt_cong[OF assms(4)]
  by (rule refl)

lemma node_deps_irrefl: "graph_inv s \<Longrightarrow> k \<notin> set (node_deps s pid k)"
  using graph_inv_dag(1)[of s pid] by (auto simp: set_node_deps project_edges_def dep_in_iff acyclic_def)

lemma verify_pins:
  assumes inv: "sys_inv s" and v: "verify ev pid k ex aid rv rb s = Inr (r, t)" and a: "a_project a = pid" "a_node a = k"
  shows "pins_current t a = pins_current s a"
proof -
  from v have "t = s \<or> (\<exists>rid. nodes t = update_where (is_node pid k) (\<lambda>x. x\<lparr>n_status := VERIFIED, n_receipt := Some rid, n_updated := now_at ev\<rparr>) (nodes s) \<and> deps t = deps s)"
    by (elim verify_cases) auto
  then show ?thesis
  proof
    assume "\<exists>rid. nodes t = update_where (is_node pid k) (\<lambda>x. x\<lparr>n_status := VERIFIED, n_receipt := Some rid, n_updated := now_at ev\<rparr>) (nodes s) \<and> deps t = deps s"
    then obtain rid where t: "nodes t = update_where (is_node pid k) (\<lambda>x. x\<lparr>n_status := VERIFIED, n_receipt := Some rid, n_updated := now_at ev\<rparr>) (nodes s)" "deps t = deps s" by blast
    have ds: "dependency_snapshot t pid k = dependency_snapshot s pid k"
      by (rule dependency_snapshot_update[OF t]) (use node_deps_irrefl[of s k pid] inv in \<open>auto simp: sys_inv_def is_node_def\<close>)
    obtain n where n: "get_node s pid k = Inr n" "n_status n \<noteq> SUPERSEDED"
      by (rule verify_receipt_row[OF inv v]) (auto dest!: eligible_candidateD(3) simp: pins_current_iff)
    then have "get_node t pid k = Inr (n\<lparr>n_status := VERIFIED, n_receipt := Some rid, n_updated := now_at ev\<rparr>)"
      using find_SomeD[of "is_node pid k" "nodes s" n] by (auto simp: get_node_iff node_at_def t(1) find_update_where is_node_def)
    then show ?thesis using n ds a by (simp add: pins_current_def Let_def)
  qed simp
qed

text \<open>
  C7: Accepting is idempotent. Repeating a successful verify, at any later time, returns the same
  receipt and changes nothing.
\<close>

theorem verify_idempotent:
  assumes "reachable s" "verify ev pid k ex aid rv rb s = Inr (r, t)" "sha256_hex ev' = sha256_hex ev"
  shows "verify ev' pid k ex aid rv rb t = Inr (r, t)"
proof -
  have inv: "sys_inv s" using reachable_sys_inv assms(1) .
  have inv': "sys_inv t" using verify_safe[OF assms(2)] inv by (simp add: safe_def)
  obtain n a where n: "get_node s pid k = Inr n" and a: "get_attempt s aid = Inr a" "a_project a = pid" "a_node a = k" "n_revision n = ex" "eligible_candidate ev s a = Inr ()"
    and um: "unmet s aid (n_contract n) = []" and r: "r \<in> set (acceptances t)" "rc_attempt r = aid"
      "rc_evidence r = map (\<lambda>c. ev_id (the (latest_evidence s aid (ck_id c)))) (n_contract n)"
    and nt: "node_at t pid k = Some (if n_receipt n = None then n\<lparr>n_status := VERIFIED, n_receipt := Some (rc_id r), n_updated := now_at ev\<rparr> else n)"
      "n_receipt n \<in> {None, Some (rc_id r)}"
    by (rule verify_receipt_row[OF inv assms(2)])
  note keep = verify_keeps[OF assms(2)]
  note le = latest_evidence_cong[OF keep(1)]
  obtain m where m: "get_node t pid k = Inr m" "n_revision m = ex" "n_contract m = n_contract n" "n_receipt m = Some (rc_id r)"
    using nt n a(4) by (auto simp: get_node_iff split: if_splits)
  have "get_attempt t aid = Inr a" using a(1) keep(2) by (simp add: get_attempt_def attempt_at_def)
  moreover have "eligible_candidate ev' t a = Inr ()"
    using eligible_candidate_cong[OF assms(3) keep(5,4,2) verify_pins[OF inv assms(2) a(2,3)]] a(5) by simp
  moreover have "receipt_at t (rc_id r) = Some r"
    using find_unique_iff[of rc_id "acceptances t" "rc_id r" r] r(1) inv' by (simp add: receipt_at_def sys_inv_def receipts_ok_def)
  moreover have "unmet t aid (n_contract m) = []" using um m(3) le by (simp add: unmet_def)
  moreover have "rb \<longrightarrow> list_all (\<lambda>e. retained_ok ev' t (ev_report_sha e) (ev_report_ref e)) (latest_rows t aid)"
  proof -
    have "latest_rows t aid = latest_rows s aid" by (simp only: latest_rows_def keep(1) le)
    moreover have "rb \<longrightarrow> list_all (\<lambda>e. retained_ok ev s (ev_report_sha e) (ev_report_ref e)) (latest_rows s aid)"
      using assms(2) by (auto simp: verify_def Let_def)
    ultimately show ?thesis by (simp only: retained_ok_cong[OF assms(3) keep(4)])
  qed
  moreover have "1 \<le> ex" "ex \<le> 1000000" "\<exists>x. check_text (PStr rv) 300 = Inr x" using assms(2) by (auto simp: verify_def)
  ultimately show ?thesis using m a(2,3) r le by (auto simp: verify_def Let_def)
qed

section \<open>New evidence\<close>

text \<open>
  C8: An acceptance does not survive new evidence. Recording an evidence row that was not on record,
  on a candidate whose goal is accepted, makes the goal and every goal that transitively depends on it
  STALE without a receipt, unless superseded; the row itself is on record.
\<close>

theorem new_evidence_withdraws:
  assumes "reachable s" "record_evidence ev aid vi sf s = Inr (e, t)" "\<forall>x \<in> set (evidences s). ev_id x \<noteq> vi_id vi"
    and "get_attempt s aid = Inr a" "a_status a \<noteq> Failed" "node_at s (a_project a) (a_node a) = Some n0" "n_receipt n0 \<noteq> None"
    and "n \<in> set (nodes s)" "n_project n = a_project a" "(n_key n, a_node a) \<in> (set (project_edges s (a_project a)))\<^sup>*" "n_status n \<noteq> SUPERSEDED"
  shows "evidences t = evidences s @ [e] \<and> (\<exists>m. node_at t (n_project n) (n_key n) = Some m \<and> n_status m = STALE \<and> n_receipt m = None)"
proof -
  have inv: "graph_inv s" using reachable_graph_inv assms(1) .
  obtain director v ref rv where c: "record_evidence_commit ev aid vi director v ref rv sf s = Inr (e, t)"
    using assms(2) by (auto simp: record_evidence_def)
  have fresh: "find (\<lambda>x. ev_id x = vi_id vi) (evidences s) = None" using assms(3) by (auto simp: find_None_set)
  obtain s1 where s1: "store_optional_blob ev ref (vi_report_sha vi) (vi_bytes vi) s = Inr s1"
    using c by (auto simp: record_evidence_commit_def Let_def assms(4) fresh)
  have q: "quiet s s1" using store_optional_blob_quiet[OF s1] .
  have d: "nodes s1 = nodes s" "deps s1 = deps s" "evidences s1 = evidences s" using q by (simp_all add: quiet_def)
  let ?s2 = "s1\<lparr>evidences := evidences s @ [e]\<rparr>"
  obtain keys u where i: "invalidate ev (a_project a) (a_node a) ?s2 = (keys, u)" by force
  have n0: "get_node ?s2 (a_project a) (a_node a) = Inr m \<Longrightarrow> m = n0" for m
    using assms(6) by (simp add: get_node_iff node_at_def d)
  have t: "nodes t = nodes u" "evidences t = evidences u"
    using c assms(5,7) i n0 by (auto simp: record_evidence_commit_def Let_def assms(4) fresh s1 d add_event_def)
  note e = invalidate_effect[OF i]
  have "evidences u = evidences s @ [e]" by (subst e(2)) simp
  moreover have "node_at t (n_project n) (n_key n) = Some (stale ev n)"
  proof -
    have ns: "nodes t = map (\<lambda>n. if goes_stale ?s2 (a_project a) (a_node a) n then stale ev n else n) (nodes s)"
      using invalidate_row[OF i] t(1) d by simp
    have "goes_stale ?s2 (a_project a) (a_node a) n" using assms(9-11) d by (simp add: goes_stale_def project_edges_def)
    then show ?thesis using node_at_update_where[OF graph_inv_ids[OF inv] ns _ assms(8)] by simp
  qed
  ultimately show ?thesis using t(2) by simp
qed


section \<open>Reserving\<close>

lemma admit_attempts:
  assumes "admit ev pid k rq a relay cl glass prior s = Inr (p, t)"
  shows "attempts t = attempts s @ [a]" "pub_attempt p = a" "\<not> attempt_conflict s a"
proof -
  have at: "attempts t = attempts s @ [a]" "pub_result ev (a_id a) t = Inr (p, t)" and nc: "\<not> attempt_conflict s a"
    using assms by (auto simp: admit_def Let_def pub_result_def bind_claim_def update_claim_def update_node_def add_event_def emit_prior_def
        split: option.splits if_splits)
  then have "find (\<lambda>x. a_id x = a_id a) (attempts s) = None" by (auto simp: find_None_set attempt_conflict_def list_ex_iff)
  then have "attempt_at t (a_id a) = Some a" unfolding attempt_at_def at(1) by (simp add: find_append_row)
  then have "get_attempt t (a_id a) = Inr a" using at(2) by (auto simp: pub_result_def get_attempt_def)
  then show "attempts t = attempts s @ [a]" "pub_attempt p = a" "\<not> attempt_conflict s a"
    using at nc by (auto simp: pub_result_def public_view_def)
qed

text \<open>
  C9: A reservation that is not a replay appends exactly one attempt, Reserved, for the revision and
  contract the goal has, pinning the current snapshot of its dependencies, all of them verified; the
  goal was open for dispatch, not closed, and had no attempt in progress.
\<close>

theorem reservation_pins:
  assumes "reserve_workflow ev pid k ex w rq s = Inr (Inl p, t)"
    and "\<forall>a \<in> set (attempts s). \<not> (a_project a = pid \<and> a_node a = k \<and> a_request_key a = rq_key rq)"
  shows "\<exists>n a. node_at s pid k = Some n \<and> n_revision n = ex \<and> n_status n \<notin> {VERIFIED, SUPERSEDED} \<and> dispatch_block s pid k = None \<and>
     attempts t = attempts s @ [a] \<and> pub_attempt p = a \<and> a_status a = Reserved \<and> a_project a = pid \<and> a_node a = k \<and> a_revision a = ex \<and>
     a_contract_hash a = n_contract_hash n \<and> a_pins a = dependency_snapshot s pid k \<and> list_all pin_verified (a_pins a) \<and>
     (\<forall>x \<in> set (attempts s). a_project x = pid \<and> a_node x = k \<longrightarrow> a_status x \<notin> set ACTIVE)"
proof -
  let ?rq = "rq\<lparr>rq_workflow := Some w, rq_external := None, rq_handoff := None, rq_prior := None\<rparr>"
  have r: "reserve_once ev pid k ex ?rq False None s = Inr (Inl p, t)"
    using assms(1) by (auto simp: reserve_workflow_def reserve_pass_def)
  have fresh: "find (\<lambda>a. a_project a = pid \<and> a_node a = k \<and> a_request_key a = rq_key rq) (attempts s) = None"
    using assms(2) by (auto simp: find_None_set)
  obtain n pins cl glass relay prior ctx h where n: "get_node s pid k = Inr n"
    and ad: "admission ev pid k ex ?rq n s = Inr (pins, cl, glass)"
    and a: "admit ev pid k ?rq (new_attempt ev pid k ex n pins ctx ?rq h) relay cl glass prior s = Inr (p, t)"
    using r fresh unfolding reserve_once_def Let_def by auto
  note e = admit_attempts[OF a] and d = admissionD[OF ad]
  have st: "a_status (new_attempt ev pid k ex n pins ctx ?rq h) = Reserved" by (simp add: new_attempt_def Let_def)
  have "dispatch_block s pid k = None" using ad by (auto simp: admission_def require_dispatch_def)
  moreover have "\<forall>x \<in> set (attempts s). a_project x = pid \<and> a_node x = k \<longrightarrow> a_status x \<notin> set ACTIVE"
    using e(3) st by (auto simp: attempt_conflict_def list_ex_iff ACTIVE_def)
  ultimately show ?thesis
    using n d e st by (intro exI[of _ n] exI[of _ "new_attempt ev pid k ex n pins ctx ?rq h"]) (simp add: get_node_iff)
qed

section \<open>Applying the properties\<close>

definition evidenced_db :: db where
  "evidenced_db = snd (run_script (take 1 accept_script) planned_db)"

lemma evidenced_reachable: "reachable evidenced_db"
  using demo_reachable(1) run_script_steps[of planned_db "take 1 accept_script"] unfolding evidenced_db_def reachable_iff by (auto intro: rtranclp_trans)

lemma accepted_step: "accepted_db = snd (run_script (drop 1 accept_script) evidenced_db)"
  by (simp add: accepted_db_def evidenced_db_def accept_script_def split_beta)

definition second_evidence :: evidence_in where
  "second_evidence = demo_evidence\<lparr>vi_id := ''e2'', vi_verdict := ''fail''\<rparr>"

lemma acceptance_eval:
  "(let s = evidenced_db; r = verify (demo_env 2000000 ''02'') ''p'' ''a'' 1 ''attempt-01'' ''driver:bob'' False s;
        t = snd (run_script (drop 1 accept_script) s);
        q = reserve_workflow (demo_env 5 ''05'') ''p'' ''a'' 1 ''wf'' demo_request drafted_db in
     (isl r, rc_id (fst (projr r)), isl (record_evidence (demo_env 2000000 ''02'') ''attempt-01'' second_evidence None t),
      map ev_id (evidences t), map (\<lambda>a. (a_id a, a_project a, a_node a, a_status a)) (attempts t), map (\<lambda>n. (n_project n, n_key n, n_receipt n)) (nodes t),
      case q of Inr (Inl p, u) \<Rightarrow> True | _ \<Rightarrow> False)) =
   (False, ''receipt-02'', False, [''e1''], [(''attempt-01'', ''p'', ''a'', Candidate)],
    [(''p'', ''a'', Some ''receipt-02''), (''p'', ''b'', None)], True)"
  by code_simp

lemmas acceptance_facts = acceptance_eval[unfolded Let_def prod.inject accepted_step[symmetric]]

lemma demo_verify: "\<exists>r t. verify (demo_env 2000000 ''02'') ''p'' ''a'' 1 ''attempt-01'' ''driver:bob'' False evidenced_db = Inr (r, t) \<and> KEY (rc_id r)"
proof -
  let ?r = "verify (demo_env 2000000 ''02'') ''p'' ''a'' 1 ''attempt-01'' ''driver:bob'' False evidenced_db"
  have e: "\<not> isl ?r" "rc_id (fst (projr ?r)) = ''receipt-02''" using acceptance_facts by blast+
  moreover have "KEY ''receipt-02''" by code_simp
  ultimately show ?thesis by (cases ?r) auto
qed

theorem verify_receipt_roundtrip_witness:
  "\<exists>r t es. verify (demo_env 2000000 ''02'') ''p'' ''a'' 1 ''attempt-01'' ''driver:bob'' False evidenced_db = Inr (r, t) \<and>
     receipt t ''p'' (rc_id r) = Inr (r, es)"
proof -
  obtain r t where r: "verify (demo_env 2000000 ''02'') ''p'' ''a'' 1 ''attempt-01'' ''driver:bob'' False evidenced_db = Inr (r, t)" "KEY (rc_id r)"
    using demo_verify by blast
  show ?thesis using verify_receipt_roundtrip[OF evidenced_reachable r] r(1) by blast
qed

theorem verify_idempotent_witness:
  "\<exists>r t. verify (demo_env 2000000 ''02'') ''p'' ''a'' 1 ''attempt-01'' ''driver:bob'' False evidenced_db = Inr (r, t) \<and>
     verify (demo_env 7000000 ''07'') ''p'' ''a'' 1 ''attempt-01'' ''driver:bob'' False t = Inr (r, t)"
proof -
  obtain r t where r: "verify (demo_env 2000000 ''02'') ''p'' ''a'' 1 ''attempt-01'' ''driver:bob'' False evidenced_db = Inr (r, t)"
    using demo_verify by blast
  have "sha256_hex (demo_env 7000000 ''07'') = sha256_hex (demo_env 2000000 ''02'')" by (simp add: demo_env_def)
  then show ?thesis using verify_idempotent[OF evidenced_reachable r] r by blast
qed

theorem new_evidence_withdraws_witness:
  "\<exists>e t m. record_evidence (demo_env 2000000 ''02'') ''attempt-01'' second_evidence None accepted_db = Inr (e, t) \<and>
     node_at t ''p'' ''a'' = Some m \<and> n_status m = STALE"
proof -
  let ?r = "record_evidence (demo_env 2000000 ''02'') ''attempt-01'' second_evidence None accepted_db"
  have "\<not> isl ?r" using acceptance_facts by blast
  then obtain e t where r: "?r = Inr (e, t)" by (cases ?r) auto
  have ids: "\<forall>x \<in> set (evidences accepted_db). ev_id x \<noteq> vi_id second_evidence"
  proof -
    have "map ev_id (evidences accepted_db) = [''e1'']" using acceptance_facts by blast
    then show ?thesis by (auto simp: second_evidence_def)
  qed
  have k: "KEY ''attempt-01''" by code_simp
  have "map (\<lambda>a. (a_id a, a_project a, a_node a, a_status a)) (attempts accepted_db) = [(''attempt-01'', ''p'', ''a'', Candidate)]" using acceptance_facts by blast
  then obtain a where a: "get_attempt accepted_db ''attempt-01'' = Inr a" "a_project a = ''p''" "a_node a = ''a''" "a_status a = Candidate"
    using k by (auto simp: get_attempt_def attempt_at_def)
  have "map (\<lambda>n. (n_project n, n_key n, n_receipt n)) (nodes accepted_db) = [(''p'', ''a'', Some ''receipt-02''), (''p'', ''b'', None)]"
    using acceptance_facts by blast
  then obtain n where n: "n \<in> set (nodes accepted_db)" "n_project n = ''p''" "n_key n = ''a''" "n_receipt n = Some ''receipt-02''" by (cases "nodes accepted_db") auto
  note inv = reachable_graph_inv[OF demo_reachable(2)]
  have at: "node_at accepted_db (a_project a) (a_node a) = Some n" using node_at_Some_iff[OF graph_inv_ids[OF inv]] n a by simp
  have "n_status n = VERIFIED" using graph_inv_node[OF inv at] n(4) by (simp add: node_ok_def)
  then show ?thesis using new_evidence_withdraws[OF demo_reachable(2) r ids a(1) _ at _ n(1)] a n r by auto
qed

theorem reservation_pins_witness:
  "\<exists>p t. reserve_workflow (demo_env 5 ''05'') ''p'' ''a'' 1 ''wf'' demo_request drafted_db = Inr (Inl p, t) \<and> attempts t = [pub_attempt p]"
proof -
  let ?q = "reserve_workflow (demo_env 5 ''05'') ''p'' ''a'' 1 ''wf'' demo_request drafted_db"
  have "(case ?q of Inr (Inl p, u) \<Rightarrow> True | _ \<Rightarrow> False) = True" using acceptance_facts by blast
  then obtain p t where q: "?q = Inr (Inl p, t)" by (cases ?q) (auto split: prod.splits sum.splits)
  show ?thesis using reservation_pins[OF q] q drafted_ops(6) by auto
qed

end
