(* ===== verification/Messaging_Schema.thy ===== *)
theory Messaging_Schema
  imports Graph_Store
begin

text \<open>
  The tables of the components around the State graph that drivers and users talk through: the
  driver registry (\<open>drivers\<close>, \<open>project_drivers\<close>, \<open>driver_audit\<close> of \<open>src/core/drivers.py\<close>), the
  director mailbox of a project (\<open>src/core/director_messaging.py\<close> and its acknowledgement rows of
  \<open>src/core/director_messaging_quorum.py\<close>) and the private driver inbox with the user's conversation
  (\<open>src/core/driver_inbox.py\<close>). The record \<open>mdb\<close> is the database those components share; its field
  \<open>state\<close> holds the tables of the State graph. Time stamps are in microseconds, as in the
  theory \<open>State_Schema\<close>.
\<close>

text \<open>
  What these components raise: \<open>DriverError\<close> and its subclass \<open>DriverConflict\<close> with their message,
  \<open>DirectorMessageError\<close> with its stable code, SQLite's refusal of a constraint violation, and the
  \<open>TypeError\<close> of subscripting a row that a query did not find.
\<close>

datatype service_error =
    DriverError string
  | DriverConflict string
  | DirectorMessageError string
  | SqliteIntegrity string
  | RowMissing string

section \<open>The driver registry\<close>

datatype driver_kind = Lan | Public_cf

fun driver_kind_name :: "driver_kind \<Rightarrow> string" where
  "driver_kind_name Lan = ''lan''"
| "driver_kind_name Public_cf = ''public_cf''"

datatype driver_status = Active_driver | Suspended_driver | Retired_driver

fun driver_status_name :: "driver_status \<Rightarrow> string" where
  "driver_status_name Active_driver = ''active''"
| "driver_status_name Suspended_driver = ''suspended''"
| "driver_status_name Retired_driver = ''retired''"

record driver_row =
  rd_id :: string
  rd_name :: string
  rd_kind :: driver_kind
  rd_admin :: bool
  rd_token :: "string option"
  rd_rotated :: "int option"
  rd_host :: string
  rd_caps :: string
  rd_status :: driver_status
  rd_revision :: int
  rd_created :: int
  rd_seen :: "int option"

text \<open>A row of \<open>project_drivers\<close>; \<open>rm_ref\<close> is its rowid.\<close>

record member_row =
  rm_ref :: int
  rm_project :: string
  rm_driver :: string
  rm_member :: bool
  rm_revision :: int
  rm_actor :: string
  rm_updated :: int

record audit_row =
  ra_seq :: nat
  ra_driver :: string
  ra_op :: string
  ra_payload :: "(string \<times> pyval) list"
  ra_actor :: string
  ra_created :: int

section \<open>The director mailbox\<close>

datatype delivery_status = Unread | Acknowledged | Resolved

fun delivery_status_name :: "delivery_status \<Rightarrow> string" where
  "delivery_status_name Unread = ''unread''"
| "delivery_status_name Acknowledged = ''acknowledged''"
| "delivery_status_name Resolved = ''resolved''"

datatype delivery_mode = Transient | Standing

fun delivery_mode_name :: "delivery_mode \<Rightarrow> string" where
  "delivery_mode_name Transient = ''transient''"
| "delivery_mode_name Standing = ''standing''"

datatype ack_mode = At_least_n | Ack_broadcast

fun ack_mode_name :: "ack_mode \<Rightarrow> string" where
  "ack_mode_name At_least_n = ''at_least_n''"
| "ack_mode_name Ack_broadcast = ''broadcast''"

record director_message =
  dm_id :: string
  dm_thread :: string
  dm_sender :: string
  dm_identity :: string
  dm_actor :: string
  dm_subject :: string
  dm_body :: string
  dm_created :: int
  dm_reply :: "string option"
  dm_mode :: delivery_mode
  dm_driver :: "string option"
  dm_ack_mode :: ack_mode
  dm_quorum :: int

record director_delivery =
  dd_id :: string
  dd_message :: string
  dd_target :: string
  dd_seq :: int
  dd_status :: delivery_status
  dd_version :: int

record delivery_ack =
  da_delivery :: string
  da_driver :: string
  da_required :: bool
  da_acked :: "int option"
  da_event :: "nat option"
  da_removed :: "int option"

text \<open>A row of an idempotency table: the scope a request key lives in, its payload and its result.\<close>

record request_row =
  rq_actor :: string
  rq_scope :: string
  rq_op :: string
  rq_key :: string
  rq_payload :: pyval
  rq_result :: pyval

section \<open>The driver inbox\<close>

text \<open>
  \<open>ir_user\<close> is \<open>audience='user'\<close>, \<open>ir_channel\<close> is \<open>channel='user'\<close>; \<open>ir_segments\<close> is \<open>None\<close> for
  a message written as one body.
\<close>

record inbox_row =
  ir_id :: string
  ir_thread :: string
  ir_sender :: "string option"
  ir_project :: "string option"
  ir_kind :: string
  ir_mode :: delivery_mode
  ir_subject :: string
  ir_body :: string
  ir_refs :: pyval
  ir_reply :: "string option"
  ir_created :: int
  ir_user :: bool
  ir_channel :: bool
  ir_segments :: "pyval option"

record inbox_dlv =
  ix_id :: string
  ix_message :: string
  ix_target :: string
  ix_seq :: int
  ix_status :: delivery_status
  ix_version :: int

record read_marker =
  mk_project :: string
  mk_created :: int
  mk_message :: "string option"
  mk_updated :: int

section \<open>The shared database\<close>

text \<open>
  \<open>throttle\<close> is the module-wide dictionary \<open>_LAST_SEEN\<close> of the process (the monotonic clock of the
  last activity stamp of a driver); everything else is a table.
\<close>

record mdb =
  state :: db
  reg_drivers :: "driver_row list"
  reg_members :: "member_row list"
  reg_audit :: "audit_row list"
  throttle :: "(string \<times> int) list"
  director_messages :: "director_message list"
  director_deliveries :: "director_delivery list"
  delivery_acks :: "delivery_ack list"
  legacy_acks :: "string list"
  inbox_sequences :: "(string \<times> int) list"
  director_requests :: "request_row list"
  inbox_rows :: "inbox_row list"
  inbox_dlvs :: "inbox_dlv list"
  inbox_requests :: "request_row list"
  read_markers :: "read_marker list"

definition empty_mdb :: mdb where
  "empty_mdb = \<lparr>state = empty_db, reg_drivers = [], reg_members = [], reg_audit = [], throttle = [],
     director_messages = [], director_deliveries = [], delivery_acks = [], legacy_acks = [], inbox_sequences = [],
     director_requests = [], inbox_rows = [], inbox_dlvs = [], inbox_requests = [], read_markers = []\<rparr>"

text \<open>How the State graph reads the registry: which drivers are active, when they were seen, who is a member.\<close>

definition driver_view :: "driver_row \<Rightarrow> driver" where
  "driver_view d = \<lparr>dr_id = rd_id d, dr_active = (rd_status d = Active_driver), dr_last_seen = rd_seen d\<rparr>"

definition member_view :: "member_row \<Rightarrow> membership" where
  "member_view r = \<lparr>mb_project = rm_project r, mb_driver = rm_driver r, mb_member = rm_member r\<rparr>"

definition publish :: "mdb \<Rightarrow> mdb" where
  "publish m = m\<lparr>state := (state m)\<lparr>drivers := map driver_view (reg_drivers m),
                                   memberships := map member_view (reg_members m)\<rparr>\<rparr>"

definition find_driver :: "string \<Rightarrow> mdb \<Rightarrow> driver_row option" where
  "find_driver d m = find (\<lambda>r. rd_id r = d) (reg_drivers m)"

text \<open>Finding a row by the key an update is restricted to.\<close>

lemma find_update_key:
  assumes "\<And>r. key (f r) = key r"
  shows "find (\<lambda>r. key r = x) (update_where (\<lambda>r. key r = k) f rows) =
    (if x = k then map_option f (find (\<lambda>r. key r = x) rows) else find (\<lambda>r. key r = x) rows)"
  using assms by (induction rows) (auto simp: update_where_Cons)

section \<open>Dense sequence numbers\<close>

text \<open>
  A queue numbers the rows of each target consecutively from one. \<open>tgt\<close> and \<open>num\<close> read a row's target and
  number; \<open>alloc\<close> is the number the component gives the next row of a target. The client facts hold for
  every allocator that returns one more than the number of the target's rows.
\<close>

definition dense :: "('r \<Rightarrow> string) \<Rightarrow> ('r \<Rightarrow> int) \<Rightarrow> 'r list \<Rightarrow> bool" where
  "dense tgt num rows \<longleftrightarrow> (\<forall>t. map num (filter (\<lambda>r. tgt r = t) rows) =
     map int [1..<Suc (length (filter (\<lambda>r. tgt r = t) rows))])"

lemma dense_Nil [simp]: "dense tgt num []"
  by (simp add: dense_def)

lemma dense_update:
  assumes "\<And>r. P r \<Longrightarrow> tgt (f r) = tgt r \<and> num (f r) = num r"
  shows "dense tgt num (update_where P f rows) = dense tgt num rows"
proof -
  have "map num (filter (\<lambda>r. tgt r = t) (update_where P f rows)) = map num (filter (\<lambda>r. tgt r = t) rows)" for t
    using assms by (induction rows) (auto simp: update_where_Cons)
  moreover have "length (filter (\<lambda>r. tgt r = t) (update_where P f rows)) = length (filter (\<lambda>r. tgt r = t) rows)" for t
    using assms by (induction rows) (auto simp: update_where_Cons)
  ultimately show ?thesis by (simp add: dense_def)
qed

locale sequence_numbers =
  fixes tgt :: "'r \<Rightarrow> string" and num :: "'r \<Rightarrow> int" and rows_of :: "'s \<Rightarrow> 'r list"
    and alloc :: "'s \<Rightarrow> string \<Rightarrow> int" and ready :: "'s \<Rightarrow> bool"
  assumes alloc_next: "ready s \<Longrightarrow> dense tgt num (rows_of s) \<Longrightarrow>
    alloc s t = int (length (filter (\<lambda>r. tgt r = t) (rows_of s))) + 1"
begin

lemma dense_snoc:
  assumes "ready s" "dense tgt num (rows_of s)" "tgt r = t" "num r = alloc s t"
  shows "dense tgt num (rows_of s @ [r])"
  using assms alloc_next[OF assms(1,2), of t] by (auto simp: dense_def)

lemma alloc_new:
  assumes "ready s" "dense tgt num (rows_of s)" "r \<in> set (rows_of s)" "tgt r = t"
  shows "num r < alloc s t"
proof -
  have "map num (filter (\<lambda>r. tgt r = t) (rows_of s)) = map int [1..<Suc (length (filter (\<lambda>r. tgt r = t) (rows_of s)))]"
    using assms(2) unfolding dense_def by blast
  then have "set (map num (filter (\<lambda>r. tgt r = t) (rows_of s))) = int ` {1..<Suc (length (filter (\<lambda>r. tgt r = t) (rows_of s)))}"
    by (metis set_map set_upt)
  moreover have "num r \<in> set (map num (filter (\<lambda>r. tgt r = t) (rows_of s)))" using assms(3,4) by auto
  ultimately show ?thesis using alloc_next[OF assms(1,2), of t] by auto
qed

end

lemma dense_num_unique:
  assumes "dense tgt num rows" "i < length rows" "j < length rows" "tgt (rows ! i) = tgt (rows ! j)"
    "num (rows ! i) = num (rows ! j)"
  shows "i = j"
proof -
  have "distinct (map num (filter (\<lambda>r. tgt r = t) rows))" for t
    using assms(1) by (simp add: dense_def distinct_map inj_on_def)
  then have "distinct (map (\<lambda>r. (tgt r, num r)) rows)"
  proof (induction rows)
    case (Cons r rows)
    have "distinct (map num (filter (\<lambda>x. tgt x = t) rows))" for t
      using Cons.prems[of t] by (auto split: if_splits)
    moreover have "(tgt r, num r) \<notin> (\<lambda>r. (tgt r, num r)) ` set rows"
      using Cons.prems[of "tgt r"] by auto
    ultimately show ?case using Cons.IH by simp
  qed simp
  then show ?thesis using assms(2-5) by (auto simp: distinct_conv_nth)
qed

end
