(* ===== verification/Quorum.thy ===== *)
theory Quorum
  imports Messaging_Schema
begin

text \<open>
  Acknowledgement rows of a project's mailbox (\<open>src/core/director_messaging_quorum.py\<close>): who has
  acknowledged a delivery, who still has to, whether its quorum is met, and what the removal of a
  member does to the deliveries that wait for that member.
\<close>

definition members :: "mdb \<Rightarrow> string \<Rightarrow> string list" where
  "members m pid = sort (map rm_driver (filter (\<lambda>r. rm_project r = pid \<and> rm_member r) (reg_members m)))"

record ack_details =
  ad_mode :: ack_mode
  ad_quorum :: int
  ad_acks :: "(string \<times> int) list"
  ad_pending :: "string list"
  ad_mine :: bool
  ad_legacy :: bool
  ad_met :: bool
  ad_unreachable :: bool

definition ack_rows :: "mdb \<Rightarrow> string \<Rightarrow> delivery_ack list" where
  "ack_rows m did = sort_key da_driver (filter (\<lambda>a. da_delivery a = did) (delivery_acks m))"

definition ack_list :: "mdb \<Rightarrow> string \<Rightarrow> (string \<times> int) list" where
  "ack_list m did = List.map_filter (\<lambda>a. map_option (Pair (da_driver a)) (da_acked a)) (ack_rows m did)"

definition pending_list :: "mdb \<Rightarrow> string \<Rightarrow> string list" where
  "pending_list m did =
     map da_driver (filter (\<lambda>a. da_required a \<and> da_removed a = None \<and> da_acked a = None) (ack_rows m did))"

definition find_message :: "mdb \<Rightarrow> string \<Rightarrow> (service_error + director_message)" where
  "find_message m mid = require_some (find (\<lambda>x. dm_id x = mid) (director_messages m)) (RowMissing ''message'')"

definition details :: "mdb \<Rightarrow> director_delivery \<Rightarrow> string option \<Rightarrow> (service_error + ack_details)" where
  "details m d driver =
     bindE (find_message m (dd_message d)) (\<lambda>msg.
     let acks = ack_list m (dd_id d);
         pending = pending_list m (dd_id d);
         legacy = (dd_id d \<in> set (legacy_acks m));
         met = (legacy \<or> (if dm_ack_mode msg = Ack_broadcast then pending = [] else dm_quorum msg \<le> int (length acks))) in
     Inr \<lparr>ad_mode = dm_ack_mode msg, ad_quorum = dm_quorum msg, ad_acks = acks, ad_pending = pending,
          ad_mine = (case driver of None \<Rightarrow> False | Some x \<Rightarrow> x \<in> fst ` set acks), ad_legacy = legacy, ad_met = met,
          ad_unreachable = (dm_ack_mode msg = At_least_n \<and> \<not> met \<and> int (length (members m (dd_target d))) < dm_quorum msg)\<rparr>)"

text \<open>One delivery of \<open>membership_removed\<close>: the acknowledgement is no longer awaited.\<close>

definition release_ack :: "env \<Rightarrow> string \<Rightarrow> string \<Rightarrow> string \<Rightarrow> string \<Rightarrow> mdb \<Rightarrow> (service_error + mdb)" where
  "release_ack ev pid drv act did m =
     (let m1 = m\<lparr>delivery_acks := update_where (\<lambda>a. da_delivery a = did \<and> da_driver a = drv)
                  (\<lambda>a. a\<lparr>da_removed := Some (now_at ev)\<rparr>) (delivery_acks m)\<rparr> in
      bindE (require_some (find (\<lambda>d. dd_id d = did) (director_deliveries m1)) (RowMissing ''delivery'')) (\<lambda>row.
      bindE (details m1 row None) (\<lambda>meta.
      bindE (find_message m1 (dd_message row)) (\<lambda>msg.
      let m2 = (if ad_met meta \<and> dd_status row \<noteq> Resolved
                then m1\<lparr>director_deliveries := update_where (\<lambda>d. dd_id d = did)
                       (\<lambda>d. d\<lparr>dd_status := (if dm_mode msg = Transient then Resolved else Acknowledged),
                              dd_version := dd_version d + 1\<rparr>) (director_deliveries m1)\<rparr>
                else m1) in
      Inr (m2\<lparr>state := add_event ev pid None ''director_message_member_removed''
             (PDict [(''delivery_id'', PStr did), (''driver_id'', PStr drv), (''actor'', PStr act)]) (state m2)\<rparr>)))))"

definition awaited :: "mdb \<Rightarrow> string \<Rightarrow> string \<Rightarrow> string list" where
  "awaited m pid drv =
     List.map_filter (\<lambda>a. if da_driver a = drv \<and> da_required a \<and> da_acked a = None \<and> da_removed a = None
          \<and> list_ex (\<lambda>d. dd_id d = da_delivery a \<and> dd_target d = pid) (director_deliveries m)
        then Some (da_delivery a) else None) (delivery_acks m)"

definition membership_removed :: "env \<Rightarrow> string \<Rightarrow> string \<Rightarrow> string \<Rightarrow> mdb \<Rightarrow> (service_error + mdb)" where
  "membership_removed ev pid drv act m = foldE (release_ack ev pid drv act) (awaited m pid drv) m"

section \<open>How mailbox rows move\<close>

text \<open>
  A delivery keeps its identity, target and number; its version never decreases; a resolved delivery
  stays resolved and an acknowledged one never becomes unread. An acknowledgement row keeps its
  identity and, once given, its acknowledgement.
\<close>

definition moves_delivery :: "director_delivery \<Rightarrow> director_delivery \<Rightarrow> bool" where
  "moves_delivery d d' \<longleftrightarrow> dd_id d' = dd_id d \<and> dd_message d' = dd_message d \<and> dd_target d' = dd_target d \<and> dd_seq d' = dd_seq d \<and>
     dd_version d \<le> dd_version d' \<and> (dd_version d' = dd_version d \<longrightarrow> d' = d) \<and>
     (dd_status d = Resolved \<longrightarrow> dd_status d' = Resolved) \<and> (dd_status d' = Unread \<longrightarrow> dd_status d = Unread)"

definition keeps_ack :: "delivery_ack \<Rightarrow> delivery_ack \<Rightarrow> bool" where
  "keeps_ack a a' \<longleftrightarrow> da_delivery a' = da_delivery a \<and> da_driver a' = da_driver a \<and> da_required a' = da_required a \<and>
     (da_acked a \<noteq> None \<longrightarrow> da_acked a' = da_acked a) \<and> (da_removed a \<noteq> None \<longrightarrow> da_removed a' \<noteq> None)"

end
