(* ===== verification/Registry.thy ===== *)
theory Registry
  imports Quorum Presence Evolution
begin

text \<open>
  The driver registry (\<open>src/core/drivers.py\<close>): the one writer of \<open>drivers\<close>, \<open>project_drivers\<close> and
  \<open>driver_audit\<close>. Its operations check a revision before they write, refuse credentials in the audit
  trail, and append one audit row for every change; the lemmas show that the audit trail alone
  determines the revision, the status and the administrator flag of every driver and the revision
  and the status of every membership.

  A call reads, beside the environment of the State graph, the monotonic clock of the process, whether
  the database is locked when the activity stamp is written, the token \<open>secrets.token_urlsafe\<close> draws and
  the pepper file.
\<close>

record reg_env = env +
  mono_at :: int
  db_busy :: bool
  token_of :: string
  pepper :: string

section \<open>Credentials\<close>

definition hex_val :: "char \<Rightarrow> nat" where
  "hex_val c = (let n = (of_char c :: nat) in if n < 58 then n - 48 else n - 87)"

text \<open>The bytes a hexadecimal text stands for.\<close>

fun unhex :: "string \<Rightarrow> string" where
  "unhex (a # b # cs) = char_of (hex_val a * 16 + hex_val b) # unhex cs"
| "unhex cs = []"

text \<open>HMAC (RFC 2104) with a hash of 64-byte blocks, on bytes; the result is hexadecimal.\<close>

definition xor_with :: "nat \<Rightarrow> string \<Rightarrow> string" where
  "xor_with n s = map (\<lambda>c. char_of (xor (of_char c :: nat) n)) s"

definition hmac_hex :: "(string \<Rightarrow> string) \<Rightarrow> string \<Rightarrow> string \<Rightarrow> string" where
  "hmac_hex hash key msg =
     (let k = (if 64 < length key then unhex (hash key) else key);
          block = k @ replicate (64 - length k) (CHR 0x00) in
      hash (xor_with 0x5C block @ unhex (hash (xor_with 0x36 block @ msg))))"

definition token_hash :: "reg_env \<Rightarrow> string \<Rightarrow> string" where
  "token_hash ev t = hmac_hex (sha256_hex ev) (utf8 (pepper ev)) (utf8 t)"

definition TOKEN_PREFIX :: string where "TOKEN_PREFIX = ''aitd_''"

definition new_token :: "reg_env \<Rightarrow> string" where
  "new_token ev = TOKEN_PREFIX @ token_of ev"

definition OWNER_CLI_DRIVER_ID :: string where "OWNER_CLI_DRIVER_ID = ''owner-cli''"

section \<open>Checked arguments\<close>

definition driver_id_char :: "char \<Rightarrow> bool" where
  "driver_id_char c = (let n = (of_char c :: nat) in (97 \<le> n \<and> n \<le> 122) \<or> (48 \<le> n \<and> n \<le> 57))"

text \<open>\<open>re.compile(r"[a-z0-9][a-z0-9_.-]{0,63}\Z")\<close>.\<close>

definition driver_id_ok :: "string \<Rightarrow> bool" where
  "driver_id_ok s = (case s of [] \<Rightarrow> False
     | c # cs \<Rightarrow> driver_id_char c \<and> length cs \<le> 63 \<and> list_all (\<lambda>x. driver_id_char x \<or> x \<in> set ''_.-'') cs)"

definition check_driver_id :: "pyval \<Rightarrow> service_error + string" where
  "check_driver_id v = (case v of
     PStr s \<Rightarrow> if driver_id_ok s then Inr s else Inl (DriverError ''driver_id must match [a-z0-9][a-z0-9_.-]{0,63}'')
   | _ \<Rightarrow> Inl (DriverError ''driver_id must match [a-z0-9][a-z0-9_.-]{0,63}''))"

definition driver_text :: "pyval \<Rightarrow> string \<Rightarrow> nat \<Rightarrow> bool \<Rightarrow> service_error + string" where
  "driver_text v label maximum blank = (case v of
     PStr s \<Rightarrow> if maximum < length s \<or> (\<not> blank \<and> strip s = []) then Inl (DriverError label) else Inr (strip s)
   | _ \<Rightarrow> Inl (DriverError label))"

text \<open>\<open>json.dumps(value, sort_keys=True, ensure_ascii=False)\<close>.\<close>

fun dumps :: "pyval \<Rightarrow> string" where
  "dumps PNone = ''null''"
| "dumps (PBool b) = (if b then ''true'' else ''false'')"
| "dumps (PInt i) = show_int i"
| "dumps (PStr s) = json_string s"
| "dumps (PList vs) = ''['' @ join '', '' (map dumps vs) @ '']''"
| "dumps (PDict kvs) =
     ''{'' @ join '', '' (map (\<lambda>(k, s). json_string k @ '': '' @ s) (sort_key fst (map (\<lambda>(k, v). (k, dumps v)) kvs))) @ ''}''"

definition capabilities_text :: "pyval \<Rightarrow> service_error + string" where
  "capabilities_text v =
     bindE (case v of PNone \<Rightarrow> Inr (PDict []) | PDict kvs \<Rightarrow> Inr v
            | _ \<Rightarrow> Inl (DriverError ''capabilities must be an object'')) (\<lambda>d.
     bindE (raise_if (8000 < length (dumps d)) (DriverError ''capabilities must be at most 8000 characters of JSON'')) (\<lambda>_.
     Inr (dumps d)))"

definition as_bool :: "pyval \<Rightarrow> service_error + bool" where
  "as_bool v = (case v of PBool b \<Rightarrow> Inr b | _ \<Rightarrow> Inl (DriverError ''is_admin must be a boolean''))"

text \<open>\<open>check_director_identity\<close>: the driver's id, or the id with a non-empty label.\<close>

definition check_director_identity :: "string \<Rightarrow> pyval \<Rightarrow> service_error + string" where
  "check_director_identity d v = (case v of
     PNone \<Rightarrow> Inr d
   | PStr s \<Rightarrow> if s = d \<or> (starts_with s (d @ ''/'') \<and> length d + 1 < length s) then Inr s
               else Inl (DriverError ''director_identity must be the driver id or <id>/<label>'')
   | _ \<Rightarrow> Inl (DriverError ''director_identity must be text''))"

section \<open>The audit trail\<close>

text \<open>What an operation may record: one of a few words, a boolean, a positive integer.\<close>

datatype fact = One_of "string list" | A_bool | Positive_int

definition STATUSES :: "string list" where
  "STATUSES = [''active'', ''suspended'', ''retired'']"

definition audit_schema :: "string \<Rightarrow> (string \<times> pyval) list \<Rightarrow> (string \<times> fact) list option" where
  "audit_schema op payload =
     (if op = ''rotate'' \<and> payload = [(''source'', PStr ''legacy_admin_token'')]
      then Some [(''source'', One_of [''legacy_admin_token''])]
      else map_of
       [(''register'', [(''kind'', One_of [''lan'', ''public_cf'']), (''is_admin'', A_bool)]),
        (''rotate'', []),
        (''activate'', [(''previous'', One_of STATUSES)]),
        (''suspend'', [(''previous'', One_of STATUSES)]),
        (''retire'', [(''previous'', One_of STATUSES)]),
        (''set_admin'', [(''is_admin'', A_bool)]),
        (''membership'', [(''membership_ref'', Positive_int), (''status'', One_of [''member'', ''removed''])])] op)"

fun fact_ok :: "fact \<Rightarrow> pyval \<Rightarrow> bool" where
  "fact_ok (One_of ws) (PStr s) \<longleftrightarrow> s \<in> set ws"
| "fact_ok A_bool (PBool b) \<longleftrightarrow> True"
| "fact_ok Positive_int (PInt i) \<longleftrightarrow> 0 < i"
| "fact_ok f v \<longleftrightarrow> False"

definition known_hashes :: "mdb \<Rightarrow> string list" where
  "known_hashes m = List.map_filter rd_token (reg_drivers m)"

definition is_credential :: "reg_env \<Rightarrow> mdb \<Rightarrow> string \<Rightarrow> bool" where
  "is_credential ev m s \<longleftrightarrow> s \<in> set (known_hashes m) \<or> token_hash ev s \<in> set (known_hashes m)"

definition payload_strings :: "(string \<times> pyval) list \<Rightarrow> string list" where
  "payload_strings payload = List.map_filter (\<lambda>(k, v). case v of PStr s \<Rightarrow> Some s | _ \<Rightarrow> None) payload"

definition audit_driver :: "reg_env \<Rightarrow> string \<Rightarrow> string \<Rightarrow> (string \<times> pyval) list \<Rightarrow> string \<Rightarrow> mdb \<Rightarrow> service_error + mdb" where
  "audit_driver ev d op payload act m =
     bindE (require_some (audit_schema op payload) (DriverError ''audit payload does not match its closed operation schema'')) (\<lambda>schema.
     bindE (raise_if (set (map fst payload) \<noteq> set (map fst schema))
              (DriverError ''audit payload does not match its closed operation schema'')) (\<lambda>_.
     bindE (raise_if (\<not> list_all (\<lambda>(k, f). case map_of payload k of None \<Rightarrow> False | Some v \<Rightarrow> fact_ok f v) schema)
              (DriverError ''audit payload contains an invalid operation fact'')) (\<lambda>_.
     bindE (raise_if (list_ex (is_credential ev m) (payload_strings payload @ [d, act]))
              (DriverError ''audit payload must not carry credentials'')) (\<lambda>_.
     Inr (m\<lparr>reg_audit := reg_audit m @ [\<lparr>ra_seq = Suc (length (reg_audit m)), ra_driver = d, ra_op = op,
            ra_payload = payload, ra_actor = act, ra_created = now_at ev\<rparr>]\<rparr>)))))"

section \<open>Rows\<close>

text \<open>The table constraint of \<open>drivers\<close>: a LAN driver holds a token, the public one neither token nor rights.\<close>

definition row_check :: "driver_row \<Rightarrow> bool" where
  "row_check r \<longleftrightarrow> (rd_kind r = Lan \<and> rd_token r \<noteq> None) \<or> (rd_kind r = Public_cf \<and> rd_token r = None \<and> \<not> rd_admin r)"

definition insert_driver :: "reg_env \<Rightarrow> string \<Rightarrow> string \<Rightarrow> driver_kind \<Rightarrow> bool \<Rightarrow> string option \<Rightarrow> string \<Rightarrow> string \<Rightarrow> string
    \<Rightarrow> mdb \<Rightarrow> service_error + mdb" where
  "insert_driver ev d name kind admin hsh host caps act m =
     (let row = \<lparr>rd_id = d, rd_name = name, rd_kind = kind, rd_admin = admin, rd_token = hsh,
                 rd_rotated = (case hsh of None \<Rightarrow> None | Some h \<Rightarrow> if h = [] then None else Some (now_at ev)),
                 rd_host = host, rd_caps = caps, rd_status = Active_driver, rd_revision = 1, rd_created = now_at ev, rd_seen = None\<rparr> in
      bindE (raise_if (find_driver d m \<noteq> None) (SqliteIntegrity ''drivers.driver_id'')) (\<lambda>_.
      bindE (raise_if (hsh \<noteq> None \<and> list_ex (\<lambda>r. rd_token r = hsh) (reg_drivers m)) (SqliteIntegrity ''drivers.token_hash'')) (\<lambda>_.
      bindE (raise_if (kind = Public_cf \<and> list_ex (\<lambda>r. rd_kind r = Public_cf) (reg_drivers m)) (SqliteIntegrity ''drivers.kind'')) (\<lambda>_.
      bindE (raise_if (\<not> row_check row) (SqliteIntegrity ''CHECK'')) (\<lambda>_.
      audit_driver ev d ''register'' [(''kind'', PStr (driver_kind_name kind)), (''is_admin'', PBool admin)] act
        (m\<lparr>reg_drivers := reg_drivers m @ [row]\<rparr>))))))"

definition update_driver :: "string \<Rightarrow> (driver_row \<Rightarrow> driver_row) \<Rightarrow> mdb \<Rightarrow> mdb" where
  "update_driver d f m = m\<lparr>reg_drivers := update_where (\<lambda>r. rd_id r = d) f (reg_drivers m)\<rparr>"

text \<open>\<open>UPDATE drivers SET token_hash=?, token_rotated_at=?, revision=revision+1\<close> under the unique index.\<close>

definition put_token :: "reg_env \<Rightarrow> string \<Rightarrow> string \<Rightarrow> mdb \<Rightarrow> service_error + mdb" where
  "put_token ev d h m =
     bindE (raise_if (list_ex (\<lambda>r. rd_token r = Some h \<and> rd_id r \<noteq> d) (reg_drivers m)) (SqliteIntegrity ''drivers.token_hash'')) (\<lambda>_.
     Inr (update_driver d (\<lambda>r. r\<lparr>rd_token := Some h, rd_rotated := Some (now_at ev), rd_revision := rd_revision r + 1\<rparr>) m))"

text \<open>\<open>_current\<close>: the row at the revision the caller has seen.\<close>

definition current_row :: "string \<Rightarrow> pyval \<Rightarrow> mdb \<Rightarrow> service_error + driver_row" where
  "current_row d expected m =
     bindE (require_some (find_driver d m) (DriverError ''no driver'')) (\<lambda>row.
     bindE (raise_if (expected \<noteq> PInt (rd_revision row)) (DriverConflict ''driver revision moved; reload'')) (\<lambda>_.
     Inr row))"

section \<open>Reads\<close>

text \<open>A driver row as any reader may see it: \<open>PUBLIC_FIELDS\<close>, without the token hash.\<close>

record driver_public =
  pv_id :: string
  pv_name :: string
  pv_kind :: driver_kind
  pv_admin :: bool
  pv_host :: string
  pv_caps :: string
  pv_status :: driver_status
  pv_revision :: int
  pv_created :: int
  pv_seen :: "int option"
  pv_rotated :: "int option"

definition public_view_of :: "driver_row \<Rightarrow> driver_public" where
  "public_view_of r = \<lparr>pv_id = rd_id r, pv_name = rd_name r, pv_kind = rd_kind r, pv_admin = rd_admin r, pv_host = rd_host r,
     pv_caps = rd_caps r, pv_status = rd_status r, pv_revision = rd_revision r, pv_created = rd_created r,
     pv_seen = rd_seen r, pv_rotated = rd_rotated r\<rparr>"

definition driver_memberships :: "mdb \<Rightarrow> string \<Rightarrow> (string \<times> bool \<times> int) list" where
  "driver_memberships m d = sort_key fst (map (\<lambda>r. (rm_project r, rm_member r, rm_revision r)) (filter (\<lambda>r. rm_driver r = d) (reg_members m)))"

definition effective_view :: "reg_env \<Rightarrow> mdb \<Rightarrow> string \<Rightarrow> presence" where
  "effective_view ev m d = effective_presence (env.truncate ev) (state (publish m)) d"

type_synonym driver_info = "driver_public \<times> (string \<times> bool \<times> int) list \<times> presence"

definition get_driver :: "reg_env \<Rightarrow> string \<Rightarrow> mdb \<Rightarrow> service_error + driver_info" where
  "get_driver ev d m =
     bindE (require_some (find_driver d m) (DriverError ''no driver'')) (\<lambda>row.
     Inr (public_view_of row, driver_memberships m d, effective_view ev m d))"

definition list_drivers :: "reg_env \<Rightarrow> mdb \<Rightarrow> (driver_public \<times> presence) list" where
  "list_drivers ev m = map (\<lambda>r. (public_view_of r, effective_view ev m (rd_id r))) (sort_key rd_id (reg_drivers m))"

definition project_members :: "mdb \<Rightarrow> string \<Rightarrow> member_row list" where
  "project_members m pid = sort_key rm_driver (filter (\<lambda>r. rm_project r = pid) (reg_members m))"

definition read_audit :: "string option \<Rightarrow> int \<Rightarrow> mdb \<Rightarrow> audit_row list" where
  "read_audit d limit m =
     take (nat (max 1 (min limit 500))) (rev (filter (\<lambda>a. case d of None \<Rightarrow> True | Some x \<Rightarrow> ra_driver a = x) (reg_audit m)))"

section \<open>Activity stamps\<close>

definition LAST_SEEN_THROTTLE :: int where "LAST_SEEN_THROTTLE = 60 * 1000000"
definition LAST_SEEN_RETRY :: int where "LAST_SEEN_RETRY = 5 * 1000000"

definition throttled :: "reg_env \<Rightarrow> string \<Rightarrow> mdb \<Rightarrow> bool" where
  "throttled ev d m = (case map_of (throttle m) d of None \<Rightarrow> mono_at ev + 1000000000 * 1000000 < LAST_SEEN_THROTTLE
     | Some t \<Rightarrow> mono_at ev - t < LAST_SEEN_THROTTLE)"

definition stamp_last_seen :: "reg_env \<Rightarrow> string \<Rightarrow> int option \<Rightarrow> mdb \<Rightarrow> mdb" where
  "stamp_last_seen ev d retry m =
     (if throttled ev d m then m
      else if db_busy ev
      then m\<lparr>throttle := (d, case retry of None \<Rightarrow> mono_at ev | Some x \<Rightarrow> mono_at ev - LAST_SEEN_THROTTLE + x) # throttle m\<rparr>
      else (update_driver d (\<lambda>r. r\<lparr>rd_seen := Some (now_at ev)\<rparr>) m)\<lparr>throttle := (d, mono_at ev) # throttle m\<rparr>)"

definition touch_driver :: "reg_env \<Rightarrow> string \<Rightarrow> mdb \<Rightarrow> mdb" where
  "touch_driver ev d m = (if d = [] then m else stamp_last_seen ev d (Some LAST_SEEN_RETRY) m)"

definition lookup_token :: "reg_env \<Rightarrow> string \<Rightarrow> mdb \<Rightarrow> driver_public option \<times> mdb" where
  "lookup_token ev t m =
     (if t = [] \<or> 512 < length t then (None, m)
      else case find (\<lambda>r. rd_token r = Some (token_hash ev t) \<and> rd_kind r = Lan) (reg_drivers m) of
        None \<Rightarrow> (None, m)
      | Some row \<Rightarrow> if rd_status row \<noteq> Active_driver then (None, m)
          else (Some (public_view_of row), stamp_last_seen ev (rd_id row) None m))"

definition public_driver :: "reg_env \<Rightarrow> mdb \<Rightarrow> driver_public option \<times> mdb" where
  "public_driver ev m = (case find_driver PUBLIC_DRIVER_ID m of
     None \<Rightarrow> (None, m)
   | Some row \<Rightarrow> if rd_status row \<noteq> Active_driver then (None, m)
       else (Some (public_view_of row), stamp_last_seen ev PUBLIC_DRIVER_ID None m))"

section \<open>The presence of recipients\<close>

definition PRESENCE_LIST_CAP :: nat where "PRESENCE_LIST_CAP = 200"

text \<open>
  What a sender is told about the drivers a message went to: their presence (at most 200 entries of a
  fan-out, those not online first, with the full number when it was cut), the first five drivers the
  advice names and how many more are not online. The wording of the advice is left out.
\<close>

record presence_block =
  pb_items :: "(string \<times> presence_status \<times> int option) list"
  pb_total :: "nat option"
  pb_advised :: "string list"
  pb_more :: nat

definition presence_items :: "env \<Rightarrow> mdb \<Rightarrow> string list \<Rightarrow> bool \<Rightarrow> (string \<times> presence_status \<times> int option) list" where
  "presence_items ev m ids fan_out =
     List.map_filter (\<lambda>d. case find_driver d m of
        None \<Rightarrow> None
      | Some r \<Rightarrow> if \<not> fan_out \<or> rd_status r = Active_driver then Some (d, presence_now ev (rd_seen r)) else None)
     (sort (remdups (filter (\<lambda>d. d \<noteq> []) ids)))"

definition recipient_presence_block :: "env \<Rightarrow> mdb \<Rightarrow> string list \<Rightarrow> bool \<Rightarrow> presence_block option" where
  "recipient_presence_block ev m ids fan_out =
     (let items = presence_items ev m ids fan_out;
          absent = map fst (filter (\<lambda>(d, st, age). st \<noteq> Online) items);
          listed = (if fan_out then sort_key (\<lambda>(d, st, age). if st = Online then 1 else (0 :: nat)) items else take 1 items) in
      if items = [] then None
      else Some \<lparr>pb_items = (if fan_out then take PRESENCE_LIST_CAP listed else listed),
                 pb_total = (if fan_out \<and> PRESENCE_LIST_CAP < length items then Some (length items) else None),
                 pb_advised = take 5 absent, pb_more = length absent - 5\<rparr>)"

section \<open>Writes\<close>

definition seed :: "reg_env \<Rightarrow> string option \<Rightarrow> string \<Rightarrow> mdb \<Rightarrow> service_error + string list \<times> mdb" where
  "seed ev legacy act m =
     bindE (if find_driver PUBLIC_DRIVER_ID m = None
            then bindE (insert_driver ev PUBLIC_DRIVER_ID ''Public (Cloudflare tunnel, external token)'' Public_cf False None
                   ''cloudflare'' ''{}'' act m) (\<lambda>m1. Inr ([PUBLIC_DRIVER_ID], m1))
            else Inr ([], m)) (\<lambda>(created, m1).
     case legacy of
       None \<Rightarrow> Inr (created, m1)
     | Some t \<Rightarrow>
       if t = [] then Inr (created, m1)
       else case find_driver OWNER_CLI_DRIVER_ID m1 of
         None \<Rightarrow> bindE (insert_driver ev OWNER_CLI_DRIVER_ID ''Owner CLI (legacy admin token)'' Lan True
                    (Some (token_hash ev t)) ''linxuhaserver'' ''{}'' act m1) (\<lambda>m2. Inr (created @ [OWNER_CLI_DRIVER_ID], m2))
       | Some row \<Rightarrow>
           if rd_token row \<noteq> Some (token_hash ev t)
           then bindE (put_token ev OWNER_CLI_DRIVER_ID (token_hash ev t) m1) (\<lambda>m2.
                bindE (audit_driver ev OWNER_CLI_DRIVER_ID ''rotate'' [(''source'', PStr ''legacy_admin_token'')] act m2) (\<lambda>m3.
                Inr (created, m3)))
           else Inr (created, m1))"

definition register :: "reg_env \<Rightarrow> pyval \<Rightarrow> pyval \<Rightarrow> pyval \<Rightarrow> pyval \<Rightarrow> pyval \<Rightarrow> string \<Rightarrow> mdb
    \<Rightarrow> service_error + (driver_info \<times> string) \<times> mdb" where
  "register ev did name host caps admin act m =
     bindE (check_driver_id did) (\<lambda>d.
     bindE (raise_if (d = PUBLIC_DRIVER_ID) (DriverConflict ''public is created by migration and cannot be registered'')) (\<lambda>_.
     bindE (driver_text name ''display_name'' 200 False) (\<lambda>nm.
     bindE (driver_text host ''host_label'' 200 True) (\<lambda>hl.
     bindE (capabilities_text caps) (\<lambda>cp.
     bindE (as_bool admin) (\<lambda>adm.
     bindE (raise_if (find_driver d m \<noteq> None) (DriverConflict ''driver already exists'')) (\<lambda>_.
     bindE (insert_driver ev d nm Lan adm (Some (token_hash ev (new_token ev))) hl cp act m) (\<lambda>m1.
     bindE (get_driver ev d m1) (\<lambda>view.
     Inr ((view, new_token ev), m1))))))))))"

definition rotate_token :: "reg_env \<Rightarrow> string \<Rightarrow> pyval \<Rightarrow> string \<Rightarrow> mdb \<Rightarrow> service_error + (driver_info \<times> string) \<times> mdb" where
  "rotate_token ev d expected act m =
     bindE (current_row d expected m) (\<lambda>row.
     bindE (raise_if (rd_kind row \<noteq> Lan) (DriverError ''only LAN drivers hold a token'')) (\<lambda>_.
     bindE (raise_if (rd_status row = Retired_driver) (DriverConflict ''a retired driver cannot get a new token'')) (\<lambda>_.
     bindE (put_token ev d (token_hash ev (new_token ev)) m) (\<lambda>m1.
     bindE (audit_driver ev d ''rotate'' [] act m1) (\<lambda>m2.
     bindE (get_driver ev d m2) (\<lambda>view.
     Inr ((view, new_token ev), m2)))))))"

fun status_operation :: "driver_status \<Rightarrow> string" where
  "status_operation Active_driver = ''activate''"
| "status_operation Suspended_driver = ''suspend''"
| "status_operation Retired_driver = ''retire''"

definition parse_status :: "string \<Rightarrow> driver_status option" where
  "parse_status s = map_of [(''active'', Active_driver), (''suspended'', Suspended_driver), (''retired'', Retired_driver)] s"

definition set_status :: "reg_env \<Rightarrow> string \<Rightarrow> string \<Rightarrow> pyval \<Rightarrow> pyval \<Rightarrow> string \<Rightarrow> mdb \<Rightarrow> service_error + driver_info \<times> mdb" where
  "set_status ev d status expected reason act m =
     bindE (require_some (parse_status status) (DriverError ''status must be active, suspended or retired'')) (\<lambda>st.
     bindE (driver_text reason ''reason'' 2000 False) (\<lambda>_.
     bindE (current_row d expected m) (\<lambda>row.
     bindE (raise_if (rd_status row = Retired_driver) (DriverConflict ''a retired driver stays retired'')) (\<lambda>_.
     bindE (raise_if (d = PUBLIC_DRIVER_ID \<and> st = Retired_driver) (DriverConflict ''public can be suspended, not retired'')) (\<lambda>_.
     bindE (audit_driver ev d (status_operation st) [(''previous'', PStr (driver_status_name (rd_status row)))] act
              (update_driver d (\<lambda>r. r\<lparr>rd_status := st, rd_revision := rd_revision r + 1\<rparr>) m)) (\<lambda>m1.
     bindE (get_driver ev d m1) (\<lambda>view.
     Inr (view, m1))))))))"

definition set_admin :: "reg_env \<Rightarrow> string \<Rightarrow> pyval \<Rightarrow> pyval \<Rightarrow> pyval \<Rightarrow> string \<Rightarrow> mdb \<Rightarrow> service_error + driver_info \<times> mdb" where
  "set_admin ev d admin expected reason act m =
     bindE (as_bool admin) (\<lambda>adm.
     bindE (driver_text reason ''reason'' 2000 False) (\<lambda>_.
     bindE (current_row d expected m) (\<lambda>row.
     bindE (raise_if (rd_kind row \<noteq> Lan \<and> adm) (DriverError ''only a LAN driver can be an admin'')) (\<lambda>_.
     bindE (audit_driver ev d ''set_admin'' [(''is_admin'', PBool adm)] act
              (update_driver d (\<lambda>r. r\<lparr>rd_admin := adm, rd_revision := rd_revision r + 1\<rparr>) m)) (\<lambda>m1.
     bindE (get_driver ev d m1) (\<lambda>view.
     Inr (view, m1)))))))"

definition find_member :: "string \<Rightarrow> string \<Rightarrow> mdb \<Rightarrow> member_row option" where
  "find_member pid d m = find (\<lambda>r. rm_project r = pid \<and> rm_driver r = d) (reg_members m)"

text \<open>The insert or update of \<open>set_membership\<close>, and the rowid it is audited under.\<close>

definition put_member :: "reg_env \<Rightarrow> string \<Rightarrow> string \<Rightarrow> bool \<Rightarrow> string \<Rightarrow> mdb \<Rightarrow> int \<times> mdb" where
  "put_member ev pid d mem act m = (case find_member pid d m of
     None \<Rightarrow>
       (let ref = fold (\<lambda>r acc. max acc (rm_ref r)) (reg_members m) 0 + 1 in
        (ref, m\<lparr>reg_members := reg_members m @ [\<lparr>rm_ref = ref, rm_project = pid, rm_driver = d, rm_member = mem, rm_revision = 1,
             rm_actor = act, rm_updated = now_at ev\<rparr>]\<rparr>))
   | Some row \<Rightarrow>
       (rm_ref row, m\<lparr>reg_members := update_where (\<lambda>r. rm_project r = pid \<and> rm_driver r = d)
          (\<lambda>r. r\<lparr>rm_member := mem, rm_revision := rm_revision r + 1, rm_actor := act, rm_updated := now_at ev\<rparr>) (reg_members m)\<rparr>))"

text \<open>\<open>known_project\<close> is the caller's \<open>project_exists\<close>, where it is given.\<close>

definition set_membership :: "reg_env \<Rightarrow> string \<Rightarrow> string \<Rightarrow> string \<Rightarrow> pyval \<Rightarrow> pyval \<Rightarrow> string \<Rightarrow> (string \<Rightarrow> bool) option \<Rightarrow> mdb
    \<Rightarrow> service_error + member_row \<times> mdb" where
  "set_membership ev pid d status expected reason act known_project m =
     bindE (raise_if (status \<notin> {''member'', ''removed''}) (DriverError ''status must be member or removed'')) (\<lambda>_.
     bindE (raise_if (pid = [] \<or> 128 < length pid) (DriverError ''project_id must be text'')) (\<lambda>_.
     bindE (driver_text reason ''reason'' 2000 False) (\<lambda>_.
     bindE (raise_if (case known_project of None \<Rightarrow> False | Some f \<Rightarrow> \<not> f pid) (DriverError ''no State project'')) (\<lambda>_.
     bindE (raise_if (find_driver d m = None) (DriverError ''no driver'')) (\<lambda>_.
     bindE (raise_if (expected \<noteq> PInt (case find_member pid d m of None \<Rightarrow> 0 | Some r \<Rightarrow> rm_revision r))
              (DriverConflict ''membership revision moved; reload'')) (\<lambda>_.
     case put_member ev pid d (status = ''member'') act m of (ref, m1) \<Rightarrow>
     bindE (audit_driver ev d ''membership'' [(''membership_ref'', PInt ref), (''status'', PStr status)] act m1) (\<lambda>m2.
     bindE (if status = ''removed'' then membership_removed (env.truncate ev) pid d act m2 else Inr m2) (\<lambda>m3.
     bindE (require_some (find_member pid d m3) (RowMissing ''project_drivers'')) (\<lambda>row.
     Inr (row, m3))))))))))"

end
