(* ===== verification/Registry_Inv.thy ===== *)
theory Registry_Inv
  imports Registry
begin

text \<open>
  What the registry keeps. The specification is the audit trail itself: replaying the rows of one
  driver yields its revision, status and administrator flag, and replaying the rows of one membership
  reference yields that membership's revision and status. The invariant \<open>reg_inv\<close> says that the
  tables agree with this replay and with their own constraints; \<open>reg_evolves\<close> says how rows may move.
\<close>

section \<open>The audit trail as a specification\<close>

type_synonym driver_facts = "int \<times> driver_status \<times> bool"

definition facts_of :: "driver_row \<Rightarrow> driver_facts" where
  "facts_of r = (rd_revision r, rd_status r, rd_admin r)"

fun bump :: "driver_facts option \<Rightarrow> (driver_status \<Rightarrow> driver_status) \<Rightarrow> (bool \<Rightarrow> bool) \<Rightarrow> driver_facts option" where
  "bump None f g = None"
| "bump (Some (n, st, adm)) f g = Some (n + 1, f st, g adm)"

definition audit_effect :: "audit_row \<Rightarrow> driver_facts option \<Rightarrow> driver_facts option" where
  "audit_effect a acc =
     (if ra_op a = ''register'' then Some (1, Active_driver, map_of (ra_payload a) ''is_admin'' = Some (PBool True))
      else if ra_op a = ''rotate'' then bump acc id id
      else if ra_op a = ''activate'' then bump acc (\<lambda>_. Active_driver) id
      else if ra_op a = ''suspend'' then bump acc (\<lambda>_. Suspended_driver) id
      else if ra_op a = ''retire'' then bump acc (\<lambda>_. Retired_driver) id
      else if ra_op a = ''set_admin'' then bump acc id (\<lambda>_. map_of (ra_payload a) ''is_admin'' = Some (PBool True))
      else acc)"

definition replay_driver :: "audit_row list \<Rightarrow> string \<Rightarrow> driver_facts option" where
  "replay_driver audit d = fold audit_effect (filter (\<lambda>a. ra_driver a = d) audit) None"

text \<open>The membership a row of the trail is about, and the replay of one membership.\<close>

definition names_member :: "int \<Rightarrow> audit_row \<Rightarrow> bool" where
  "names_member ref a \<longleftrightarrow> ra_op a = ''membership'' \<and> map_of (ra_payload a) ''membership_ref'' = Some (PInt ref)"

definition member_effect :: "audit_row \<Rightarrow> (int \<times> bool) option \<Rightarrow> (int \<times> bool) option" where
  "member_effect a acc =
     Some (case acc of None \<Rightarrow> 1 | Some (n, _) \<Rightarrow> n + 1, map_of (ra_payload a) ''status'' = Some (PStr ''member''))"

definition replay_member :: "audit_row list \<Rightarrow> int \<Rightarrow> (int \<times> bool) option" where
  "replay_member audit ref = fold member_effect (filter (names_member ref) audit) None"

lemma replay_driver_snoc:
  "replay_driver (audit @ [a]) d = (if ra_driver a = d then audit_effect a (replay_driver audit d) else replay_driver audit d)"
  by (simp add: replay_driver_def)

lemma replay_member_snoc:
  "replay_member (audit @ [a]) ref = (if names_member ref a then member_effect a (replay_member audit ref) else replay_member audit ref)"
  by (simp add: replay_member_def)

lemma replay_Nil [simp]: "replay_driver [] d = None" "replay_member [] ref = None"
  by (simp_all add: replay_driver_def replay_member_def)

section \<open>The invariant\<close>

definition member_facts :: "member_row \<Rightarrow> int \<times> bool" where
  "member_facts r = (rm_revision r, rm_member r)"

definition reg_inv :: "mdb \<Rightarrow> bool" where
  "reg_inv m \<longleftrightarrow>
     unique_on rd_id (reg_drivers m) \<and>
     (\<forall>r \<in> set (reg_drivers m). \<forall>s \<in> set (reg_drivers m). \<forall>h. rd_token r = Some h \<and> rd_token s = Some h \<longrightarrow> r = s) \<and>
     (\<forall>r \<in> set (reg_drivers m). rd_kind r = Public_cf \<longleftrightarrow> rd_id r = PUBLIC_DRIVER_ID) \<and>
     (\<forall>r \<in> set (reg_drivers m). row_check r) \<and>
     (\<forall>d. map_option facts_of (find_driver d m) = replay_driver (reg_audit m) d) \<and>
     unique_on (\<lambda>r. (rm_project r, rm_driver r)) (reg_members m) \<and>
     unique_on rm_ref (reg_members m) \<and>
     (\<forall>r \<in> set (reg_members m). 0 < rm_ref r \<and> find_driver (rm_driver r) m \<noteq> None) \<and>
     (\<forall>ref. map_option member_facts (find (\<lambda>r. rm_ref r = ref) (reg_members m)) = replay_member (reg_audit m) ref) \<and>
     map ra_seq (reg_audit m) = [1..<Suc (length (reg_audit m))]"

lemma reg_inv_empty: "reg_inv empty_mdb"
  by (simp add: reg_inv_def empty_mdb_def find_driver_def)

text \<open>
  A driver row keeps its id, kind and creation time; its revision never decreases, and within one
  revision nothing but the activity stamp changes; a retired driver stays retired.
\<close>

definition keeps_driver :: "driver_row \<Rightarrow> driver_row \<Rightarrow> bool" where
  "keeps_driver r r' \<longleftrightarrow> rd_id r' = rd_id r \<and> rd_kind r' = rd_kind r \<and> rd_created r' = rd_created r \<and>
     rd_revision r \<le> rd_revision r' \<and> (rd_revision r' = rd_revision r \<longrightarrow> r' = r\<lparr>rd_seen := rd_seen r'\<rparr>) \<and>
     (rd_status r = Retired_driver \<longrightarrow> rd_status r' = Retired_driver)"

definition keeps_member :: "member_row \<Rightarrow> member_row \<Rightarrow> bool" where
  "keeps_member r r' \<longleftrightarrow> rm_ref r' = rm_ref r \<and> rm_project r' = rm_project r \<and> rm_driver r' = rm_driver r \<and>
     rm_revision r \<le> rm_revision r' \<and> (rm_revision r' = rm_revision r \<longrightarrow> r' = r)"

lemma keeps_driver_trans:
  assumes "keeps_driver r s" "keeps_driver s t"
  shows "keeps_driver r t"
proof -
  have "t = r\<lparr>rd_seen := rd_seen t\<rparr>" if eq: "rd_revision t = rd_revision r"
  proof -
    have "rd_revision s = rd_revision r" "rd_revision t = rd_revision s" using assms eq by (simp_all add: keeps_driver_def)
    then have "s = r\<lparr>rd_seen := rd_seen s\<rparr>" "t = s\<lparr>rd_seen := rd_seen t\<rparr>" using assms by (simp_all add: keeps_driver_def)
    then have "t = (r\<lparr>rd_seen := rd_seen s\<rparr>)\<lparr>rd_seen := rd_seen t\<rparr>" by metis
    then show ?thesis by simp
  qed
  then show ?thesis using assms by (auto simp: keeps_driver_def)
qed

interpretation driver_rows: row_evolution keeps_driver
proof unfold_locales
  show "keeps_driver r r" for r by (simp add: keeps_driver_def)
qed (rule keeps_driver_trans)

interpretation member_rows: row_evolution keeps_member
  by unfold_locales (auto simp: keeps_member_def)

definition reg_evolves :: "mdb \<Rightarrow> mdb \<Rightarrow> bool" where
  "reg_evolves m m' \<longleftrightarrow> grows keeps_driver (reg_drivers m) (reg_drivers m') \<and> grows keeps_member (reg_members m) (reg_members m') \<and>
     prefix (reg_audit m) (reg_audit m')"

lemma reg_evolves_refl [simp]: "reg_evolves m m"
  by (simp add: reg_evolves_def driver_rows.table_refl member_rows.table_refl)

lemma reg_evolves_trans: "reg_evolves m m' \<Longrightarrow> reg_evolves m' m'' \<Longrightarrow> reg_evolves m m''"
  unfolding reg_evolves_def using driver_rows.table_trans member_rows.table_trans by (meson prefix_order.trans)

definition reg_safe :: "mdb \<Rightarrow> mdb \<Rightarrow> bool" where
  "reg_safe m m' \<longleftrightarrow> (reg_inv m \<longrightarrow> reg_inv m' \<and> reg_evolves m m')"

text \<open>A step that writes no table of the registry.\<close>

definition same_registry :: "mdb \<Rightarrow> mdb \<Rightarrow> bool" where
  "same_registry m m' \<longleftrightarrow> reg_drivers m' = reg_drivers m \<and> reg_members m' = reg_members m \<and> reg_audit m' = reg_audit m"

lemma find_driver_cong: "reg_drivers m' = reg_drivers m \<Longrightarrow> find_driver d m' = find_driver d m"
  by (simp add: find_driver_def)

lemma same_registry_safe: "same_registry m m' \<Longrightarrow> reg_safe m m'"
proof -
  assume same: "same_registry m m'"
  then have "reg_inv m' = reg_inv m" unfolding reg_inv_def same_registry_def find_driver_def by (elim conjE) (simp only:)
  then show ?thesis using same by (simp add: same_registry_def reg_safe_def reg_evolves_def driver_rows.table_refl member_rows.table_refl)
qed

lemma reg_safe_trans: "reg_safe m m' \<Longrightarrow> reg_safe m' m'' \<Longrightarrow> reg_safe m m''"
  unfolding reg_safe_def using reg_evolves_trans by blast

lemma release_ack_same: "release_ack ev pid drv act did m = Inr m' \<Longrightarrow> same_registry m m'"
  by (auto simp: release_ack_def Let_def same_registry_def add_event_def)

lemma membership_removed_same: "membership_removed ev pid drv act m = Inr m' \<Longrightarrow> same_registry m m'"
  unfolding membership_removed_def
  by (rule foldE_invariant[where P = "same_registry m"])
     (auto simp: same_registry_def dest!: release_ack_same)

section \<open>One driver\<close>

lemma reg_invD:
  assumes "reg_inv m"
  shows reg_unique_id: "unique_on rd_id (reg_drivers m)"
    and reg_unique_token: "r \<in> set (reg_drivers m) \<Longrightarrow> s \<in> set (reg_drivers m) \<Longrightarrow> rd_token r = Some h \<Longrightarrow> rd_token s = Some h \<Longrightarrow> r = s"
    and reg_public: "r \<in> set (reg_drivers m) \<Longrightarrow> rd_kind r = Public_cf \<longleftrightarrow> rd_id r = PUBLIC_DRIVER_ID"
    and reg_row_check: "r \<in> set (reg_drivers m) \<Longrightarrow> row_check r"
    and reg_replay: "map_option facts_of (find_driver d m) = replay_driver (reg_audit m) d"
    and reg_unique_member: "unique_on (\<lambda>r. (rm_project r, rm_driver r)) (reg_members m)"
    and reg_unique_ref: "unique_on rm_ref (reg_members m)"
    and reg_member_pos: "x \<in> set (reg_members m) \<Longrightarrow> 0 < rm_ref x \<and> find_driver (rm_driver x) m \<noteq> None"
    and reg_member_replay: "map_option member_facts (find (\<lambda>r. rm_ref r = ref) (reg_members m)) = replay_member (reg_audit m) ref"
    and reg_audit_seq: "map ra_seq (reg_audit m) = [1..<Suc (length (reg_audit m))]"
  using assms unfolding reg_inv_def by blast+

lemma find_driver_Some: "reg_inv m \<Longrightarrow> find_driver d m = Some r \<longleftrightarrow> r \<in> set (reg_drivers m) \<and> rd_id r = d"
  unfolding find_driver_def by (rule find_unique_iff[OF reg_unique_id])

lemma find_update_driver:
  assumes "\<And>r. rd_id (f r) = rd_id r"
  shows "find_driver x (update_driver d f m) = (if x = d then map_option f (find_driver x m) else find_driver x m)"
  using find_update_key[where key = rd_id and f = f, OF assms] by (simp add: find_driver_def update_driver_def)

text \<open>
  The shared step of every driver operation: one row is updated and one row of audit appended, such
  that the replay of the audit row is the update.
\<close>

lemma update_with_audit:
  assumes inv: "reg_inv m" and row: "find_driver d m = Some row"
    and m': "m' = (update_driver d f m)\<lparr>reg_audit := reg_audit m @ [a]\<rparr>"
    and f: "\<And>r. rd_id (f r) = rd_id r" "\<And>r. rd_kind (f r) = rd_kind r"
    and keeps: "keeps_driver row (f row)" "row_check (f row)"
    and token: "\<And>r h. r \<in> set (reg_drivers m) \<Longrightarrow> rd_token (f row) = Some h \<Longrightarrow> rd_token r = Some h \<Longrightarrow> rd_id r = d"
    and a: "ra_driver a = d" "ra_op a \<noteq> ''membership''" "ra_seq a = Suc (length (reg_audit m))"
    and effect: "audit_effect a (Some (facts_of row)) = Some (facts_of (f row))"
  shows "reg_inv m' \<and> reg_evolves m m'"
proof -
  have mem: "row \<in> set (reg_drivers m)" "rd_id row = d" using row find_driver_Some[OF inv] by auto
  have only: "r = row" if "r \<in> set (reg_drivers m)" "rd_id r = d" for r
    using unique_onD[OF reg_unique_id[OF inv] that(1) mem(1)] that(2) mem(2) by simp
  have set': "set (reg_drivers m') = {r \<in> set (reg_drivers m). rd_id r \<noteq> d} \<union> {f row}"
  proof -
    have "{r \<in> set (reg_drivers m). rd_id r = d} = {row}" using only mem by blast
    then show ?thesis by (simp add: m' update_driver_def set_update_where)
  qed
  have finds: "find_driver x m' = (if x = d then Some (f row) else find_driver x m)" for x
    using find_update_driver[OF f(1), of x d m] row by (simp add: m' find_driver_def)
  have rest: "reg_members m' = reg_members m" "reg_audit m' = reg_audit m @ [a]"
    by (simp_all add: m' update_driver_def)
  have not_named: "\<not> names_member ref a" for ref using a(2) by (simp add: names_member_def)
  have "unique_on rd_id (reg_drivers m')"
    using reg_unique_id[OF inv] f(1) by (simp add: m' update_driver_def unique_on_update)
  moreover have "r = s" if "r \<in> set (reg_drivers m')" "s \<in> set (reg_drivers m')" "rd_token r = Some h" "rd_token s = Some h" for r s h
    using that token reg_unique_token[OF inv, of r s h] unfolding set' by blast
  moreover have "rd_kind r = Public_cf \<longleftrightarrow> rd_id r = PUBLIC_DRIVER_ID" if "r \<in> set (reg_drivers m')" for r
    using that reg_public[OF inv] mem(1) f by (auto simp: set')
  moreover have "\<forall>r \<in> set (reg_drivers m'). row_check r"
    using reg_row_check[OF inv] keeps(2) unfolding set' by auto
  moreover have "map_option facts_of (find_driver x m') = replay_driver (reg_audit m') x" for x
    using reg_replay[OF inv, of x] row effect a(1) by (auto simp: finds rest replay_driver_snoc)
  moreover have "\<forall>r \<in> set (reg_members m'). 0 < rm_ref r \<and> find_driver (rm_driver r) m' \<noteq> None"
    using reg_member_pos[OF inv] by (simp add: rest finds)
  moreover have "map_option member_facts (find (\<lambda>r. rm_ref r = ref) (reg_members m')) = replay_member (reg_audit m') ref" for ref
    using reg_member_replay[OF inv] by (simp add: rest replay_member_snoc not_named)
  moreover have "map ra_seq (reg_audit m') = [1..<Suc (length (reg_audit m'))]"
    using reg_audit_seq[OF inv] a(3) by (simp add: rest)
  ultimately have "reg_inv m'"
    unfolding reg_inv_def rest(1) using reg_unique_member[OF inv] reg_unique_ref[OF inv] by blast
  moreover have "grows keeps_driver (reg_drivers m) (reg_drivers m')"
  proof -
    have "keeps_driver r (f r)" if "r \<in> set (reg_drivers m)" "rd_id r = d" for r using only[OF that] keeps(1) by simp
    then have "grows keeps_driver (reg_drivers m) (update_where (\<lambda>r. rd_id r = d) f (reg_drivers m))"
      by (rule driver_rows.table_update_grows)
    then show ?thesis by (simp add: m' update_driver_def)
  qed
  ultimately show ?thesis by (simp add: reg_evolves_def rest member_rows.table_refl)
qed

lemma audit_driver_Inr:
  assumes "audit_driver ev d op payload act m = Inr m'"
  shows "m' = m\<lparr>reg_audit := reg_audit m @ [\<lparr>ra_seq = Suc (length (reg_audit m)), ra_driver = d, ra_op = op,
           ra_payload = payload, ra_actor = act, ra_created = now_at ev\<rparr>]\<rparr>"
    and "s \<in> set (payload_strings payload @ [d, act]) \<Longrightarrow> \<not> is_credential ev m s"
  using assms by (auto simp: audit_driver_def list_ex_iff)

lemma insert_safe:
  assumes ins: "insert_driver ev d name kind admin hsh host caps act m = Inr m'" and pub: "kind = Public_cf \<longleftrightarrow> d = PUBLIC_DRIVER_ID"
  shows "reg_safe m m'"
  unfolding reg_safe_def
proof
  assume inv: "reg_inv m"
  define row where "row = \<lparr>rd_id = d, rd_name = name, rd_kind = kind, rd_admin = admin, rd_token = hsh,
                 rd_rotated = (case hsh of None \<Rightarrow> None | Some h \<Rightarrow> if h = [] then None else Some (now_at ev)),
                 rd_host = host, rd_caps = caps, rd_status = Active_driver, rd_revision = 1, rd_created = now_at ev, rd_seen = None\<rparr>"
  have ok: "find_driver d m = None" "hsh = None \<or> (\<forall>r \<in> set (reg_drivers m). rd_token r \<noteq> hsh)"
      "row_check row"
    and aud: "audit_driver ev d ''register'' [(''kind'', PStr (driver_kind_name kind)), (''is_admin'', PBool admin)] act
        (m\<lparr>reg_drivers := reg_drivers m @ [row]\<rparr>) = Inr m'"
    using ins by (auto simp: insert_driver_def Let_def row_def list_ex_iff)
  have fields: "rd_id row = d" "rd_token row = hsh" "rd_kind row = kind" "facts_of row = (1, Active_driver, admin)"
    by (simp_all add: row_def facts_of_def)
  note m' = audit_driver_Inr(1)[OF aud]
  have finds: "find_driver x m' = (if x = d then Some row else find_driver x m)" for x
    using ok(1) fields(1) by (auto simp: m' find_driver_def find_append_row split: option.splits)
  have new: "rd_id r \<noteq> d" if "r \<in> set (reg_drivers m)" for r
    using ok(1) that by (auto simp: find_driver_def find_None_set)
  have rest: "reg_drivers m' = reg_drivers m @ [row]" "reg_members m' = reg_members m" by (simp_all add: m')
  have not_named: "replay_member (reg_audit m') ref = replay_member (reg_audit m) ref" for ref
    by (simp add: m' replay_member_snoc names_member_def)
  have "unique_on rd_id (reg_drivers m')" using reg_unique_id[OF inv] new fields(1) by (simp add: rest unique_on_snoc)
  moreover have "r = s" if "r \<in> set (reg_drivers m')" "s \<in> set (reg_drivers m')" "rd_token r = Some h" "rd_token s = Some h" for r s h
    using that ok(2) reg_unique_token[OF inv, of r s h] fields(2) unfolding rest by fastforce
  moreover have "rd_kind r = Public_cf \<longleftrightarrow> rd_id r = PUBLIC_DRIVER_ID" if "r \<in> set (reg_drivers m')" for r
    using that reg_public[OF inv] pub fields(1,3) by (auto simp: rest)
  moreover have "\<forall>r \<in> set (reg_drivers m'). row_check r" using reg_row_check[OF inv] ok(3) by (auto simp: rest)
  moreover have "map_option facts_of (find_driver x m') = replay_driver (reg_audit m') x" for x
    using reg_replay[OF inv, of x] fields(4) unfolding finds by (auto simp: replay_driver_snoc audit_effect_def m')
  moreover have "\<forall>r \<in> set (reg_members m'). 0 < rm_ref r \<and> find_driver (rm_driver r) m' \<noteq> None"
    using reg_member_pos[OF inv] by (simp add: rest finds)
  moreover have "map_option member_facts (find (\<lambda>r. rm_ref r = ref) (reg_members m')) = replay_member (reg_audit m') ref" for ref
    using reg_member_replay[OF inv] by (simp add: rest not_named)
  moreover have "map ra_seq (reg_audit m') = [1..<Suc (length (reg_audit m'))]"
    using reg_audit_seq[OF inv] by (simp add: m')
  ultimately have "reg_inv m'"
    unfolding reg_inv_def rest(2) using reg_unique_member[OF inv] reg_unique_ref[OF inv] by blast
  then show "reg_inv m' \<and> reg_evolves m m'"
    using driver_rows.table_append[of "reg_drivers m" "[row]"] by (simp add: reg_evolves_def rest m' member_rows.table_refl)
qed

section \<open>Every operation\<close>

lemma current_row_Inr: "current_row d expected m = Inr row \<longleftrightarrow> find_driver d m = Some row \<and> expected = PInt (rd_revision row)"
  by (auto simp: current_row_def)

lemma put_token_Inr:
  "put_token ev d h m = Inr m' \<longleftrightarrow> (\<forall>r \<in> set (reg_drivers m). rd_token r = Some h \<longrightarrow> rd_id r = d) \<and>
     m' = update_driver d (\<lambda>r. r\<lparr>rd_token := Some h, rd_rotated := Some (now_at ev), rd_revision := rd_revision r + 1\<rparr>) m"
  by (auto simp: put_token_def list_ex_iff)

lemma put_token_safe:
  assumes "find_driver d m = Some row" "rd_kind row = Lan" "put_token ev d h m = Inr m1" "audit_driver ev d ''rotate'' payload act m1 = Inr m2"
  shows "reg_safe m m2"
  unfolding reg_safe_def
proof
  assume inv: "reg_inv m"
  let ?f = "\<lambda>r. r\<lparr>rd_token := Some h, rd_rotated := Some (now_at ev), rd_revision := rd_revision r + 1\<rparr>"
  have m1: "m1 = update_driver d ?f m" and uniq: "\<forall>r \<in> set (reg_drivers m). rd_token r = Some h \<longrightarrow> rd_id r = d"
    using assms(3) by (simp_all add: put_token_Inr)
  note m2 = audit_driver_Inr(1)[OF assms(4)]
  show "reg_inv m2 \<and> reg_evolves m m2"
  proof (rule update_with_audit[OF inv assms(1), where f = ?f])
    show "m2 = (update_driver d ?f m)\<lparr>reg_audit := reg_audit m @ [\<lparr>ra_seq = Suc (length (reg_audit m)), ra_driver = d, ra_op = ''rotate'',
           ra_payload = payload, ra_actor = act, ra_created = now_at ev\<rparr>]\<rparr>"
      using m2 by (simp add: m1 update_driver_def)
  qed (use assms(2) uniq in \<open>auto simp: keeps_driver_def row_check_def audit_effect_def facts_of_def\<close>)
qed

lemma set_status_safe:
  assumes row: "find_driver d m = Some row" and live: "rd_status row \<noteq> Retired_driver"
    and aud: "audit_driver ev d (status_operation st) payload act
      (update_driver d (\<lambda>r. r\<lparr>rd_status := st, rd_revision := rd_revision r + 1\<rparr>) m) = Inr m'"
  shows "reg_safe m m'"
  unfolding reg_safe_def
proof
  assume inv: "reg_inv m"
  let ?f = "\<lambda>r. r\<lparr>rd_status := st, rd_revision := rd_revision r + 1\<rparr>"
  have mem: "row \<in> set (reg_drivers m)" "rd_id row = d" using row find_driver_Some[OF inv] by auto
  show "reg_inv m' \<and> reg_evolves m m'"
  proof (rule update_with_audit[OF inv row, where f = ?f])
    show "m' = (update_driver d ?f m)\<lparr>reg_audit := reg_audit m @ [\<lparr>ra_seq = Suc (length (reg_audit m)), ra_driver = d, ra_op = status_operation st,
           ra_payload = payload, ra_actor = act, ra_created = now_at ev\<rparr>]\<rparr>"
      using audit_driver_Inr(1)[OF aud] by (simp add: update_driver_def)
    show "row_check (?f row)" using reg_row_check[OF inv mem(1)] by (simp add: row_check_def)
    show "rd_id r = d" if "r \<in> set (reg_drivers m)" "rd_token (?f row) = Some h" "rd_token r = Some h" for r h
      using reg_unique_token[OF inv that(1) mem(1) that(3)] that(2) mem(2) by simp
  qed (use live in \<open>cases st; auto simp: keeps_driver_def audit_effect_def facts_of_def\<close>)+
qed

lemma set_admin_safe:
  assumes row: "find_driver d m = Some row" and lan: "rd_kind row = Lan \<or> \<not> adm"
    and aud: "audit_driver ev d ''set_admin'' [(''is_admin'', PBool adm)] act
      (update_driver d (\<lambda>r. r\<lparr>rd_admin := adm, rd_revision := rd_revision r + 1\<rparr>) m) = Inr m'"
  shows "reg_safe m m'"
  unfolding reg_safe_def
proof
  assume inv: "reg_inv m"
  let ?f = "\<lambda>r. r\<lparr>rd_admin := adm, rd_revision := rd_revision r + 1\<rparr>"
  have mem: "row \<in> set (reg_drivers m)" "rd_id row = d" using row find_driver_Some[OF inv] by auto
  show "reg_inv m' \<and> reg_evolves m m'"
  proof (rule update_with_audit[OF inv row, where f = ?f])
    show "m' = (update_driver d ?f m)\<lparr>reg_audit := reg_audit m @ [\<lparr>ra_seq = Suc (length (reg_audit m)), ra_driver = d, ra_op = ''set_admin'',
           ra_payload = [(''is_admin'', PBool adm)], ra_actor = act, ra_created = now_at ev\<rparr>]\<rparr>"
      using audit_driver_Inr(1)[OF aud] by (simp add: update_driver_def)
    show "row_check (?f row)" using reg_row_check[OF inv mem(1)] lan by (auto simp: row_check_def)
    show "rd_id r = d" if "r \<in> set (reg_drivers m)" "rd_token (?f row) = Some h" "rd_token r = Some h" for r h
      using reg_unique_token[OF inv that(1) mem(1) that(3)] that(2) mem(2) by simp
  qed (auto simp: keeps_driver_def audit_effect_def facts_of_def)
qed

subsection \<open>Memberships\<close>

lemma ref_max_ge: "acc \<le> fold (\<lambda>r acc. max acc (f r)) rs (acc :: int) \<and> (\<forall>r \<in> set rs. f r \<le> fold (\<lambda>r acc. max acc (f r)) rs acc)"
proof (induction rs arbitrary: acc)
  case (Cons r rs)
  from Cons.IH[of "max acc (f r)"] show ?case by auto
qed simp

text \<open>What \<open>put_member\<close> does to the table: one row is new or one row is bumped.\<close>

lemma put_member_cases:
  assumes inv: "reg_inv m" and put: "put_member ev pid d mem act m = (ref, m1)"
  shows "0 < ref \<and> unique_on rm_ref (reg_members m1) \<and> unique_on (\<lambda>r. (rm_project r, rm_driver r)) (reg_members m1) \<and>
     grows keeps_member (reg_members m) (reg_members m1) \<and>
     (\<forall>x. map_option member_facts (find (\<lambda>r. rm_ref r = x) (reg_members m1)) =
        (if x = ref then Some (case map_option member_facts (find (\<lambda>r. rm_ref r = x) (reg_members m)) of None \<Rightarrow> 1 | Some (n, _) \<Rightarrow> n + 1, mem)
         else map_option member_facts (find (\<lambda>r. rm_ref r = x) (reg_members m)))) \<and>
     (\<forall>r \<in> set (reg_members m1). r \<in> set (reg_members m) \<or> rm_ref r = ref \<and> rm_driver r = d) \<and>
     (reg_drivers m1 = reg_drivers m \<and> reg_audit m1 = reg_audit m)"
proof (cases "find_member pid d m")
  case None
  define row where "row = \<lparr>rm_ref = ref, rm_project = pid, rm_driver = d, rm_member = mem, rm_revision = 1, rm_actor = act, rm_updated = now_at ev\<rparr>"
  have ref: "ref = fold (\<lambda>r acc. max acc (rm_ref r)) (reg_members m) 0 + 1" and m1: "m1 = m\<lparr>reg_members := reg_members m @ [row]\<rparr>"
    using put None by (auto simp: put_member_def Let_def row_def)
  have bound: "rm_ref r < ref" if "r \<in> set (reg_members m)" for r
    using ref_max_ge[of 0 rm_ref "reg_members m"] that by (auto simp: ref)
  then have fresh: "find (\<lambda>r. rm_ref r = ref) (reg_members m) = None" by (fastforce simp: find_None_set)
  have nokey: "\<forall>r \<in> set (reg_members m). \<not> (rm_project r = pid \<and> rm_driver r = d)"
    using None by (simp add: find_member_def find_None_set)
  have row: "rm_ref row = ref" "rm_project row = pid" "rm_driver row = d" "member_facts row = (1, mem)" by (simp_all add: row_def member_facts_def)
  have find1: "find (\<lambda>r. rm_ref r = x) (reg_members m1) = (if x = ref then Some row else find (\<lambda>r. rm_ref r = x) (reg_members m))" for x
    using fresh row(1) by (auto simp: m1 find_append_row split: option.splits)
  have "0 < ref" using ref_max_ge[of 0 rm_ref "reg_members m"] by (simp add: ref)
  moreover have "unique_on rm_ref (reg_members m1)"
    using reg_unique_ref[OF inv] bound row(1) by (fastforce simp: m1 unique_on_snoc)
  moreover have "unique_on (\<lambda>r. (rm_project r, rm_driver r)) (reg_members m1)"
    using reg_unique_member[OF inv] nokey row(2,3) by (auto simp: m1 unique_on_snoc)
  moreover have "grows keeps_member (reg_members m) (reg_members m1)"
    using member_rows.table_append[of "reg_members m" "[row]"] by (simp add: m1)
  ultimately show ?thesis using row fresh unfolding find1 by (auto simp: m1)
next
  case (Some old)
  let ?f = "\<lambda>r. r\<lparr>rm_member := mem, rm_revision := rm_revision r + 1, rm_actor := act, rm_updated := now_at ev\<rparr>"
  let ?P = "\<lambda>r. rm_project r = pid \<and> rm_driver r = d"
  have old: "old \<in> set (reg_members m)" "rm_project old = pid" "rm_driver old = d" "rm_ref old = ref"
    and m1: "m1 = m\<lparr>reg_members := update_where ?P ?f (reg_members m)\<rparr>"
    using put Some find_SomeD[of _ "reg_members m"] by (auto simp: put_member_def find_member_def)
  have only: "?P r \<longleftrightarrow> rm_ref r = ref" if "r \<in> set (reg_members m)" for r
    using unique_onD[OF reg_unique_member[OF inv] that old(1)] unique_onD[OF reg_unique_ref[OF inv] that old(1)] old by auto
  have upd: "update_where ?P ?f (reg_members m) = update_where (\<lambda>r. rm_ref r = ref) ?f (reg_members m)"
    unfolding update_where_def using only by (intro map_cong refl) (simp only:)
  have find1: "find (\<lambda>r. rm_ref r = x) (reg_members m1) = (if x = ref then Some (?f old) else find (\<lambda>r. rm_ref r = x) (reg_members m))" for x
    using find_unique[OF reg_unique_ref[OF inv] old(1,4)] unfolding m1 by (simp add: upd find_update_key)
  have "find (\<lambda>r. rm_ref r = ref) (reg_members m) = Some old" using find_unique[OF reg_unique_ref[OF inv] old(1,4)] .
  moreover have "0 < ref" using reg_member_pos[OF inv old(1)] old(4) by simp
  moreover have "unique_on rm_ref (reg_members m1)" "unique_on (\<lambda>r. (rm_project r, rm_driver r)) (reg_members m1)"
    using reg_unique_ref[OF inv] reg_unique_member[OF inv] by (simp_all add: m1 unique_on_update)
  moreover have "grows keeps_member (reg_members m) (reg_members m1)"
    unfolding m1 by (simp add: keeps_member_def member_rows.table_update_grows)
  moreover have "\<forall>r \<in> set (reg_members m1). r \<in> set (reg_members m) \<or> rm_ref r = ref \<and> rm_driver r = d"
    using only by (fastforce simp: m1 set_update_where)
  ultimately show ?thesis unfolding find1 by (auto simp: m1 member_facts_def)
qed

lemma set_membership_safe:
  assumes put: "put_member ev pid d mem act m = (ref, m1)" and drv: "find_driver d m \<noteq> None"
    and aud: "audit_driver ev d ''membership'' [(''membership_ref'', PInt ref), (''status'', PStr st)] act m1 = Inr m2"
    and st: "mem = (st = ''member'')"
  shows "reg_safe m m2"
  unfolding reg_safe_def
proof
  assume inv: "reg_inv m"
  note put1 = put_member_cases[OF inv put] and m2 = audit_driver_Inr(1)[OF aud]
  have same: "reg_drivers m2 = reg_drivers m" "reg_members m2 = reg_members m1" using put1 by (simp_all add: m2)
  have fd: "find_driver x m2 = find_driver x m" for x by (rule find_driver_cong[OF same(1)])
  have named: "replay_member (reg_audit m2) x =
      (if x = ref then Some (case replay_member (reg_audit m) x of None \<Rightarrow> 1 | Some (n, _) \<Rightarrow> n + 1, mem) else replay_member (reg_audit m) x)" for x
    using put1 st by (simp add: m2 replay_member_snoc names_member_def member_effect_def)
  have "map_option member_facts (find (\<lambda>r. rm_ref r = x) (reg_members m2)) = replay_member (reg_audit m2) x" for x
    using put1 unfolding named same reg_member_replay[OF inv, symmetric] by blast
  moreover have "map_option facts_of (find_driver x m2) = replay_driver (reg_audit m2) x" for x
    using reg_replay[OF inv, of x] put1 unfolding fd by (simp add: m2 replay_driver_snoc audit_effect_def)
  moreover have "map ra_seq (reg_audit m2) = [1..<Suc (length (reg_audit m2))]"
    using reg_audit_seq[OF inv] put1 by (simp add: m2)
  moreover have "\<forall>r \<in> set (reg_members m2). 0 < rm_ref r \<and> find_driver (rm_driver r) m2 \<noteq> None"
    using put1 reg_member_pos[OF inv] drv by (auto simp: same fd)
  ultimately have "reg_inv m2"
    unfolding reg_inv_def same(1)
    using put1 same(2) reg_unique_id[OF inv] reg_unique_token[OF inv] reg_public[OF inv] reg_row_check[OF inv] by simp
  then show "reg_inv m2 \<and> reg_evolves m m2"
    using put1 by (simp add: reg_evolves_def same m2 driver_rows.table_refl)
qed

subsection \<open>Activity stamps\<close>

lemma stamp_safe: "reg_safe m (stamp_last_seen ev d retry m)"
proof -
  let ?f = "\<lambda>r. r\<lparr>rd_seen := Some (now_at ev)\<rparr>"
  let ?t = "update_driver d ?f m"
  have same: "reg_safe m (m\<lparr>throttle := x\<rparr>)" "reg_safe ?t (?t\<lparr>throttle := x\<rparr>)" for x
    by (auto intro!: same_registry_safe simp: same_registry_def)
  have "reg_safe m ?t"
    unfolding reg_safe_def
  proof
    assume inv: "reg_inv m"
    have finds: "find_driver x ?t = (if x = d then map_option ?f (find_driver x m) else find_driver x m)" for x
      by (rule find_update_driver) simp
    have facts: "map_option facts_of (find_driver x ?t) = map_option facts_of (find_driver x m)" for x
      unfolding finds by (cases "find_driver x m") (auto simp: facts_of_def)
    have set': "\<exists>r0 \<in> set (reg_drivers m). r = (if rd_id r0 = d then ?f r0 else r0)" if "r \<in> set (reg_drivers ?t)" for r
      using that by (auto simp: update_driver_def update_where_def)
    have tab: "reg_members ?t = reg_members m" "reg_audit ?t = reg_audit m" by (simp_all add: update_driver_def)
    have "unique_on rd_id (reg_drivers ?t)" using reg_unique_id[OF inv] by (simp add: update_driver_def unique_on_update)
    moreover have "r = s" if "r \<in> set (reg_drivers ?t)" "s \<in> set (reg_drivers ?t)" "rd_token r = Some h" "rd_token s = Some h" for r s h
    proof -
      note rows = that
      obtain r0 s0 where rs: "r0 \<in> set (reg_drivers m)" "r = (if rd_id r0 = d then ?f r0 else r0)"
          "s0 \<in> set (reg_drivers m)" "s = (if rd_id s0 = d then ?f s0 else s0)"
        using set'[OF rows(1)] set'[OF rows(2)] by blast
      then have "rd_token r0 = Some h" "rd_token s0 = Some h" using rows(3,4) by (auto split: if_splits)
      then have "r0 = s0" using reg_unique_token[OF inv rs(1,3)] by blast
      then show ?thesis using rs(2,4) by simp
    qed
    moreover have "rd_kind r = Public_cf \<longleftrightarrow> rd_id r = PUBLIC_DRIVER_ID" if "r \<in> set (reg_drivers ?t)" for r
      using set'[OF that] reg_public[OF inv] by (auto split: if_splits)
    moreover have "row_check r" if "r \<in> set (reg_drivers ?t)" for r
    proof -
      obtain r0 where "r0 \<in> set (reg_drivers m)" "r = (if rd_id r0 = d then ?f r0 else r0)" using set'[OF \<open>r \<in> _\<close>] by blast
      then show ?thesis using reg_row_check[OF inv, of r0] by (simp add: row_check_def)
    qed
    moreover have "\<forall>r \<in> set (reg_members m). 0 < rm_ref r \<and> find_driver (rm_driver r) ?t \<noteq> None"
      using reg_member_pos[OF inv] by (auto simp: finds)
    ultimately have "reg_inv ?t"
      unfolding reg_inv_def tab facts
      using reg_replay[OF inv] reg_unique_member[OF inv] reg_unique_ref[OF inv] reg_member_replay[OF inv] reg_audit_seq[OF inv] by blast
    moreover have "grows keeps_driver (reg_drivers m) (reg_drivers ?t)"
      by (simp add: update_driver_def keeps_driver_def driver_rows.table_update_grows)
    ultimately show "reg_inv ?t \<and> reg_evolves m ?t" by (simp add: reg_evolves_def tab member_rows.table_refl)
  qed
  then show ?thesis unfolding stamp_last_seen_def using same reg_safe_trans[OF \<open>reg_safe m ?t\<close>] same_registry_safe[of m m]
    by (auto simp: same_registry_def)
qed

section \<open>The registry as a machine\<close>

text \<open>
  Every way the registry's tables change: its operations (a refused one leaves the database as it was),
  the activity stamps of authenticated requests, the audit rows of presence declarations, and the steps of
  other components, which write none of these tables.
\<close>

inductive reg_step :: "mdb \<Rightarrow> mdb \<Rightarrow> bool" where
  seeded: "seed ev legacy act m = Inr (created, m') \<Longrightarrow> reg_step m m'"
| registered: "register ev did name host caps admin act m = Inr (res, m') \<Longrightarrow> reg_step m m'"
| rotated: "rotate_token ev d expected act m = Inr (res, m') \<Longrightarrow> reg_step m m'"
| status_set: "set_status ev d st expected reason act m = Inr (view, m') \<Longrightarrow> reg_step m m'"
| admin_set: "set_admin ev d admin expected reason act m = Inr (view, m') \<Longrightarrow> reg_step m m'"
| membership_set: "set_membership ev pid d st expected reason act known m = Inr (row, m') \<Longrightarrow> reg_step m m'"
| token_used: "lookup_token ev t m = (view, m') \<Longrightarrow> reg_step m m'"
| public_used: "public_driver ev m = (view, m') \<Longrightarrow> reg_step m m'"
| touched: "reg_step m (touch_driver ev d m)"
| presence_noted: "ra_op a = ''presence'' \<Longrightarrow> ra_seq a = Suc (length (reg_audit m)) \<Longrightarrow>
    reg_step m (m\<lparr>reg_audit := reg_audit m @ [a]\<rparr>)"
| elsewhere: "same_registry m m' \<Longrightarrow> reg_step m m'"

inductive_cases reg_stepE: "reg_step m m'"

lemma seed_safe: "seed ev legacy act m = Inr (created, m') \<Longrightarrow> reg_safe m m'"
proof -
  assume s: "seed ev legacy act m = Inr (created, m')"
  have refl: "reg_safe x x" for x by (auto intro!: same_registry_safe simp: same_registry_def)
  obtain c1 m1 where m1: "(if find_driver PUBLIC_DRIVER_ID m = None
            then bindE (insert_driver ev PUBLIC_DRIVER_ID ''Public (Cloudflare tunnel, external token)'' Public_cf False None
                   ''cloudflare'' ''{}'' act m) (\<lambda>m1. Inr ([PUBLIC_DRIVER_ID], m1))
            else Inr ([], m)) = Inr (c1, m1)"
    using s by (auto simp only: seed_def bindE_Inr_iff)
  have ids: "OWNER_CLI_DRIVER_ID \<noteq> PUBLIC_DRIVER_ID" by (simp add: OWNER_CLI_DRIVER_ID_def PUBLIC_DRIVER_ID_def)
  have first: "reg_safe m m1" using m1 insert_safe[where kind = Public_cf and d = PUBLIC_DRIVER_ID] by (auto simp: refl split: if_splits)
  have "reg_safe m1 m'"
  proof (cases "reg_inv m1")
    case True
    have lan: "rd_kind row = Lan" if "find_driver OWNER_CLI_DRIVER_ID m1 = Some row" for row
    proof -
      have "row \<in> set (reg_drivers m1)" "rd_id row \<noteq> PUBLIC_DRIVER_ID" using that find_driver_Some[OF True] ids by auto
      then have "rd_kind row \<noteq> Public_cf" using reg_public[OF True] by simp
      then show ?thesis by (cases "rd_kind row") simp_all
    qed
    note s1 = s[unfolded seed_def m1 bindE_simps prod.case]
    show ?thesis
    proof (cases legacy)
      case None
      then show ?thesis using s1 refl by simp
    next
      case (Some t)
      note s2 = s1[unfolded Some option.case]
      show ?thesis
      proof (cases "t = []")
        case True
        then show ?thesis using s2 refl by simp
      next
        case False
        note s3 = s2[unfolded if_not_P[OF False]]
        show ?thesis
        proof (cases "find_driver OWNER_CLI_DRIVER_ID m1")
          case None
          have "insert_driver ev OWNER_CLI_DRIVER_ID ''Owner CLI (legacy admin token)'' Lan True
                    (Some (token_hash ev t)) ''linxuhaserver'' ''{}'' act m1 = Inr m'" using s3[unfolded None option.case] by auto
          then show ?thesis using insert_safe ids by blast
        next
          case (Some row)
          show ?thesis
          proof (cases "rd_token row = Some (token_hash ev t)")
            case True
            then show ?thesis using s3[unfolded Some option.case] refl by simp
          next
            case False
            then show ?thesis using s3[unfolded Some option.case] put_token_safe[OF Some lan[OF Some]] by auto
          qed
        qed
      qed
    qed
  qed (simp add: reg_safe_def)
  then show ?thesis using first reg_safe_trans by blast
qed

lemma register_safe: "register ev did name host caps admin act m = Inr (res, m') \<Longrightarrow> reg_safe m m'"
  unfolding register_def by (auto intro: insert_safe)

lemma rotate_safe: "rotate_token ev d expected act m = Inr (res, m') \<Longrightarrow> reg_safe m m'"
  unfolding rotate_token_def by (auto simp: current_row_Inr intro: put_token_safe)

lemma status_safe: "set_status ev d st expected reason act m = Inr (view, m') \<Longrightarrow> reg_safe m m'"
  unfolding set_status_def by (auto simp: current_row_Inr intro: set_status_safe)

lemma admin_safe: "set_admin ev d admin expected reason act m = Inr (view, m') \<Longrightarrow> reg_safe m m'"
  unfolding set_admin_def by (auto simp: current_row_Inr intro: set_admin_safe)

lemma membership_safe: "set_membership ev pid d st expected reason act known m = Inr (row, m') \<Longrightarrow> reg_safe m m'"
proof -
  assume s: "set_membership ev pid d st expected reason act known m = Inr (row, m')"
  obtain ref m1 where put: "put_member ev pid d (st = ''member'') act m = (ref, m1)" by force
  obtain m2 where aud: "audit_driver ev d ''membership'' [(''membership_ref'', PInt ref), (''status'', PStr st)] act m1 = Inr m2"
    and last: "(if st = ''removed'' then membership_removed (env.truncate ev) pid d act m2 else Inr m2) = Inr m'"
    and drv: "find_driver d m \<noteq> None"
    using s unfolding set_membership_def put prod.case by auto
  have "same_registry m2 m'" using last membership_removed_same by (auto simp: same_registry_def split: if_splits)
  then show ?thesis using set_membership_safe[OF put drv aud refl] same_registry_safe reg_safe_trans by blast
qed

lemma audit_presence_safe:
  assumes "ra_op a = ''presence''" "ra_seq a = Suc (length (reg_audit m))"
  shows "reg_safe m (m\<lparr>reg_audit := reg_audit m @ [a]\<rparr>)"
  unfolding reg_safe_def
proof
  assume inv: "reg_inv m"
  have "replay_driver (reg_audit m @ [a]) d = replay_driver (reg_audit m) d" "replay_member (reg_audit m @ [a]) ref = replay_member (reg_audit m) ref" for d ref
    using assms(1) by (simp_all add: replay_driver_snoc replay_member_snoc audit_effect_def names_member_def)
  moreover have "map ra_seq (reg_audit m @ [a]) = [1..<Suc (length (reg_audit m @ [a]))]"
    using reg_audit_seq[OF inv] assms(2) by simp
  ultimately show "reg_inv (m\<lparr>reg_audit := reg_audit m @ [a]\<rparr>) \<and> reg_evolves m (m\<lparr>reg_audit := reg_audit m @ [a]\<rparr>)"
    using inv unfolding reg_inv_def by (simp add: reg_evolves_def find_driver_def driver_rows.table_refl member_rows.table_refl del: upt_Suc)
qed

lemma reg_safe_refl [simp]: "reg_safe m m"
  by (simp add: reg_safe_def)

lemma reg_step_safe: "reg_step m m' \<Longrightarrow> reg_safe m m'"
proof (induction rule: reg_step.induct)
  case (token_used ev t m view m')
  then show ?case using stamp_safe by (auto simp: lookup_token_def split: if_splits option.splits)
next
  case (public_used ev m view m')
  then show ?case using stamp_safe by (auto simp: public_driver_def split: if_splits option.splits)
next
  case (touched m ev d)
  then show ?case using stamp_safe by (simp add: touch_driver_def)
qed (auto intro: seed_safe register_safe rotate_safe status_safe admin_safe membership_safe audit_presence_safe same_registry_safe)

interpretation registry: machine empty_mdb reg_step reg_inv reg_evolves
proof unfold_locales
  show "reg_inv empty_mdb" by (rule reg_inv_empty)
  show "reg_inv m \<Longrightarrow> reg_step m m' \<Longrightarrow> reg_inv m' \<and> reg_evolves m m'" for m m' using reg_step_safe by (simp add: reg_safe_def)
qed (simp, rule reg_evolves_trans)

section \<open>Authentication\<close>

lemma lookup_token_iff:
  assumes inv: "reg_inv m"
  shows "fst (lookup_token ev t m) = Some v \<longleftrightarrow> t \<noteq> [] \<and> length t \<le> 512 \<and>
     (\<exists>r \<in> set (reg_drivers m). rd_token r = Some (token_hash ev t) \<and> rd_status r = Active_driver \<and> v = public_view_of r)"
proof (cases "t = [] \<or> 512 < length t")
  case True
  then show ?thesis by (auto simp: lookup_token_def)
next
  case False
  have lan: "rd_kind r = Lan" if "r \<in> set (reg_drivers m)" "rd_token r = Some h" for r h
    using reg_row_check[OF inv that(1)] that(2) by (simp add: row_check_def)
  show ?thesis
  proof (cases "find (\<lambda>r. rd_token r = Some (token_hash ev t) \<and> rd_kind r = Lan) (reg_drivers m)")
    case None
    then have "rd_token r \<noteq> Some (token_hash ev t)" if "r \<in> set (reg_drivers m)" for r
      using that lan by (auto simp: find_None_set)
    then show ?thesis using None False by (simp add: lookup_token_def)
  next
    case (Some row)
    then have row: "row \<in> set (reg_drivers m)" "rd_token row = Some (token_hash ev t)" using find_SomeD by fastforce+
    have "r = row" if "r \<in> set (reg_drivers m)" "rd_token r = Some (token_hash ev t)" for r
      using reg_unique_token[OF inv that(1) row(1) that(2) row(2)] .
    then have "(\<exists>r \<in> set (reg_drivers m). rd_token r = Some (token_hash ev t) \<and> rd_status r = Active_driver \<and> v = public_view_of r) \<longleftrightarrow>
        rd_status row = Active_driver \<and> v = public_view_of row"
      using row by metis
    then show ?thesis using Some False by (auto simp: lookup_token_def)
  qed
qed

lemma rotate_effect:
  assumes "rotate_token ev d expected act m = Inr (res, m')"
  obtains row where "find_driver d m = Some row" "rd_status row \<noteq> Retired_driver" "snd res = new_token ev"
    "reg_drivers m' = update_where (\<lambda>r. rd_id r = d) (\<lambda>r. r\<lparr>rd_token := Some (token_hash ev (new_token ev)),
       rd_rotated := Some (now_at ev), rd_revision := rd_revision r + 1\<rparr>) (reg_drivers m)"
proof -
  obtain row m1 where row: "find_driver d m = Some row" "rd_status row \<noteq> Retired_driver" "snd res = new_token ev"
    and m1: "put_token ev d (token_hash ev (new_token ev)) m = Inr m1" "audit_driver ev d ''rotate'' [] act m1 = Inr m'"
    using assms by (auto simp: rotate_token_def current_row_Inr)
  have "reg_drivers m' = reg_drivers m1" using audit_driver_Inr(1)[OF m1(2)] by simp
  then show thesis using that row m1(1) by (simp add: put_token_Inr update_driver_def)
qed

end
