(* ===== verification/Registry_Properties.thy ===== *)
theory Registry_Properties
  imports Registry_Inv
begin

text \<open>
  The properties of the driver registry, over every state its machine reaches, and the concrete
  registry they are exercised on: the migration seeds \<open>public\<close> and \<open>owner-cli\<close>, the owner registers the
  driver \<open>bob\<close>, makes it a member of a project, suspends it, reactivates it and rotates its token.
\<close>

section \<open>A concrete registry\<close>

text \<open>
  A hash with no collisions on the inputs used: it drops the 64-byte key block of the HMAC and keeps the
  message.
\<close>

definition demo_reg :: "int \<Rightarrow> string \<Rightarrow> reg_env" where
  "demo_reg t tok = \<lparr>now_at = t, fresh_hex = (\<lambda>i. ''00''), sha256_hex = drop 64, env_int = (\<lambda>_. None), identity_on = True,
     mono_at = t, db_busy = False, token_of = tok, pepper = replicate 32 (CHR ''k'')\<rparr>"

definition run_reg :: "(mdb \<Rightarrow> service_error + 'a \<times> mdb) \<Rightarrow> mdb \<Rightarrow> mdb" where
  "run_reg op m = (case op m of Inl e \<Rightarrow> m | Inr (x, m') \<Rightarrow> m')"

definition seeded_registry :: mdb where
  "seeded_registry = run_reg (seed (demo_reg 1000000 []) (Some ''ab12cd34ab12cd34ab12cd34ab'') ''migration'') empty_mdb"

definition joined_registry :: mdb where
  "joined_registry = run_reg (register (demo_reg 2000000 ''0b0b0b0b0b0b0b0b0b0b'') (PStr ''bob'') (PStr ''Bob'') (PStr ''host'') PNone (PBool False) ''owner:ann'')
      seeded_registry"

definition member_registry :: mdb where
  "member_registry = run_reg (set_membership (demo_reg 3000000 []) ''p'' ''bob'' ''member'' (PInt 0) (PStr ''joins'') ''owner:ann'' None) joined_registry"

definition paused_registry :: mdb where
  "paused_registry = run_reg (set_status (demo_reg 4000000 []) ''bob'' ''suspended'' (PInt 1) (PStr ''pause'') ''owner:ann'') member_registry"

definition bob_registry :: mdb where
  "bob_registry = run_reg (set_status (demo_reg 5000000 []) ''bob'' ''active'' (PInt 2) (PStr ''back'') ''owner:ann'') paused_registry"

definition rotated_registry :: mdb where
  "rotated_registry = run_reg (rotate_token (demo_reg 6000000 ''0c0c0c0c0c0c0c0c0c0c0c0c'') ''bob'' (PInt 3) ''owner:ann'') bob_registry"

lemma run_reg_step: "(\<And>x m'. op m = Inr (x, m') \<Longrightarrow> reg_step m m') \<Longrightarrow> reg_step\<^sup>*\<^sup>* m (run_reg op m)"
  by (auto simp: run_reg_def split: sum.splits prod.splits)

lemma seeded_reachable: "reg_step\<^sup>*\<^sup>* empty_mdb seeded_registry"
  unfolding seeded_registry_def by (rule run_reg_step) (rule reg_step.seeded)

lemma bob_reachable: "reg_step\<^sup>*\<^sup>* empty_mdb bob_registry"
  unfolding bob_registry_def paused_registry_def member_registry_def joined_registry_def
  by (intro rtranclp_trans[OF _ run_reg_step] seeded_reachable) (auto intro: reg_step.intros)

lemma rotated_reachable: "reg_step\<^sup>*\<^sup>* bob_registry rotated_registry"
  unfolding rotated_registry_def by (rule run_reg_step) (rule reg_step.rotated)

lemma demo_token_hash [simp]: "token_hash (demo_reg t tok) s = unhex (utf8 s)"
proof -
  have len: "length (utf8 (pepper (demo_reg t tok))) = 32"
    by (simp add: demo_reg_def utf8_def utf8_char_def numeral_eq_Suc)
  have sha: "sha256_hex (demo_reg t tok) = drop 64" by (simp add: demo_reg_def)
  show ?thesis unfolding token_hash_def hmac_hex_def sha Let_def len by (simp add: len xor_with_def)
qed

lemmas demo_simps = run_reg_def seed_def insert_driver_def audit_driver_def find_driver_def audit_schema_def row_check_def
  known_hashes_def is_credential_def payload_strings_def empty_mdb_def PUBLIC_DRIVER_ID_def OWNER_CLI_DRIVER_ID_def Let_def
  map_filter_simps new_token_def TOKEN_PREFIX_def utf8_def utf8_char_def hex_val_def

definition registry_row :: "string \<Rightarrow> string \<Rightarrow> driver_kind \<Rightarrow> bool \<Rightarrow> string option \<Rightarrow> string \<Rightarrow> int \<Rightarrow> int \<Rightarrow> int option \<Rightarrow> driver_row" where
  "registry_row d name kind adm tok host n created rotated = \<lparr>rd_id = d, rd_name = name, rd_kind = kind, rd_admin = adm, rd_token = tok,
     rd_rotated = rotated, rd_host = host, rd_caps = ''{}'', rd_status = Active_driver, rd_revision = n, rd_created = created, rd_seen = None\<rparr>"

definition demo_audit :: "nat \<Rightarrow> string \<Rightarrow> string \<Rightarrow> (string \<times> pyval) list \<Rightarrow> string \<Rightarrow> int \<Rightarrow> audit_row" where
  "demo_audit n d op payload act t = \<lparr>ra_seq = n, ra_driver = d, ra_op = op, ra_payload = payload, ra_actor = act, ra_created = t\<rparr>"

definition public_row :: driver_row where
  "public_row = registry_row ''public'' ''Public (Cloudflare tunnel, external token)'' Public_cf False None ''cloudflare'' 1 1000000 None"

definition owner_row :: driver_row where
  "owner_row = registry_row ''owner-cli'' ''Owner CLI (legacy admin token)'' Lan True (Some (unhex ''ab12cd34ab12cd34ab12cd34ab'')) ''linxuhaserver'' 1 1000000 (Some 1000000)"

definition bob_row :: driver_row where
  "bob_row = registry_row ''bob'' ''Bob'' Lan False (Some (unhex ''aitd_0b0b0b0b0b0b0b0b0b0b'')) ''host'' 3 2000000 (Some 2000000)"

lemmas row_defs = registry_row_def demo_audit_def public_row_def owner_row_def bob_row_def

lemma demo_env_fields [simp]: "now_at (demo_reg t tok) = t" "mono_at (demo_reg t tok) = t" "token_of (demo_reg t tok) = tok" "db_busy (demo_reg t tok) = False"
  by (simp_all add: demo_reg_def)

definition seed_audit :: "audit_row list" where
  "seed_audit = [demo_audit 1 ''public'' ''register'' [(''kind'', PStr ''public_cf''), (''is_admin'', PBool False)] ''migration'' 1000000,
     demo_audit 2 ''owner-cli'' ''register'' [(''kind'', PStr ''lan''), (''is_admin'', PBool True)] ''migration'' 1000000]"

definition bob_audit :: "audit_row list" where
  "bob_audit = seed_audit @ [demo_audit 3 ''bob'' ''register'' [(''kind'', PStr ''lan''), (''is_admin'', PBool False)] ''owner:ann'' 2000000,
     demo_audit 4 ''bob'' ''membership'' [(''membership_ref'', PInt 1), (''status'', PStr ''member'')] ''owner:ann'' 3000000,
     demo_audit 5 ''bob'' ''suspend'' [(''previous'', PStr ''active'')] ''owner:ann'' 4000000,
     demo_audit 6 ''bob'' ''activate'' [(''previous'', PStr ''suspended'')] ''owner:ann'' 5000000]"

lemma seeded_val: "seeded_registry = empty_mdb\<lparr>reg_drivers := [public_row, owner_row], reg_audit := seed_audit\<rparr>"
  by (simp add: seeded_registry_def demo_simps row_defs seed_audit_def)

lemmas op_simps = demo_simps register_def set_status_def set_membership_def check_driver_id_def driver_text_def capabilities_text_def as_bool_def
  get_driver_def current_row_def update_driver_def put_member_def find_member_def parse_status_def strip_def py_space_def
  driver_id_ok_def driver_id_char_def STATUSES_def update_where_def put_token_def

lemma joined_val: "joined_registry = empty_mdb\<lparr>reg_drivers := [public_row, owner_row, bob_row\<lparr>rd_revision := 1\<rparr>], reg_audit := take 3 bob_audit\<rparr>"
  unfolding joined_registry_def seeded_val
  by (simp add: op_simps row_defs seed_audit_def bob_audit_def)

definition bob_member :: member_row where
  "bob_member = \<lparr>rm_ref = 1, rm_project = ''p'', rm_driver = ''bob'', rm_member = True, rm_revision = 1, rm_actor = ''owner:ann'', rm_updated = 3000000\<rparr>"

lemma member_val: "member_registry = empty_mdb\<lparr>reg_drivers := [public_row, owner_row, bob_row\<lparr>rd_revision := 1\<rparr>],
    reg_members := [bob_member], reg_audit := take 4 bob_audit\<rparr>"
  unfolding member_registry_def joined_val
  by (simp add: op_simps row_defs seed_audit_def bob_audit_def bob_member_def)

lemma paused_val: "paused_registry = empty_mdb\<lparr>reg_drivers := [public_row, owner_row, bob_row\<lparr>rd_revision := 2, rd_status := Suspended_driver\<rparr>],
    reg_members := [bob_member], reg_audit := take 5 bob_audit\<rparr>"
  unfolding paused_registry_def member_val
  by (simp add: op_simps row_defs seed_audit_def bob_audit_def)

lemma bob_val: "bob_registry = empty_mdb\<lparr>reg_drivers := [public_row, owner_row, bob_row], reg_members := [bob_member], reg_audit := bob_audit\<rparr>"
  unfolding bob_registry_def paused_val
  by (simp add: op_simps row_defs seed_audit_def bob_audit_def)

definition rotated_row :: driver_row where
  "rotated_row = bob_row\<lparr>rd_token := Some (unhex ''aitd_0c0c0c0c0c0c0c0c0c0c0c0c''), rd_rotated := Some 6000000, rd_revision := 4\<rparr>"

lemma rotated_val: "rotated_registry = empty_mdb\<lparr>reg_drivers := [public_row, owner_row, rotated_row], reg_members := [bob_member],
    reg_audit := bob_audit @ [demo_audit 7 ''bob'' ''rotate'' [] ''owner:ann'' 6000000]\<rparr>"
  unfolding rotated_registry_def bob_val
  by (simp add: op_simps rotate_token_def row_defs seed_audit_def bob_audit_def rotated_row_def)

lemma rotate_ok: "\<exists>res. rotate_token (demo_reg 6000000 ''0c0c0c0c0c0c0c0c0c0c0c0c'') ''bob'' (PInt 3) ''owner:ann'' bob_registry = Inr (res, rotated_registry)"
  unfolding rotated_registry_def bob_val
  by (simp add: op_simps rotate_token_def row_defs seed_audit_def bob_audit_def)

section \<open>Properties\<close>

text \<open>
  C36: the audit trail is a complete account of the registry. In every state the registry reaches,
  replaying the rows of a driver gives exactly its revision, its status and its administrator flag (and
  no row at all for a driver that was never registered), and replaying the rows of a membership
  reference gives exactly that membership's revision and status; the trail is numbered without gaps.
\<close>

theorem audit_determines_registry:
  assumes "reg_step\<^sup>*\<^sup>* empty_mdb m"
  shows "map_option facts_of (find_driver d m) = replay_driver (reg_audit m) d \<and>
    map_option member_facts (find (\<lambda>r. rm_ref r = ref) (reg_members m)) = replay_member (reg_audit m) ref \<and>
    map ra_seq (reg_audit m) = [1..<Suc (length (reg_audit m))]"
  using registry.initial_run_inv[OF assms] reg_replay reg_member_replay reg_audit_seq by blast

theorem audit_determines_registry_witness:
  "replay_driver bob_audit ''bob'' = Some (3, Active_driver, False) \<and> replay_member bob_audit 1 = Some (1, True)"
  using audit_determines_registry[OF bob_reachable, of "''bob''" 1] unfolding bob_val
  by (simp add: find_driver_def row_defs facts_of_def member_facts_def bob_member_def)

text \<open>
  Driver rows are permanent and move under their revision. Between two states of a run every driver
  still exists with the same id, kind and creation time, its revision has not decreased, an unchanged
  revision means that nothing but the activity stamp changed, and a retired driver is still retired; the
  old audit trail is a prefix of the new one.
\<close>

lemma drivers_move_by_revision:
  assumes "reg_step\<^sup>*\<^sup>* empty_mdb m" "reg_step\<^sup>*\<^sup>* m m'" "r \<in> set (reg_drivers m)"
  shows "(\<exists>r' \<in> set (reg_drivers m'). rd_id r' = rd_id r \<and> rd_kind r' = rd_kind r \<and> rd_created r' = rd_created r \<and>
      rd_revision r \<le> rd_revision r' \<and> (rd_revision r' = rd_revision r \<longrightarrow> r' = r\<lparr>rd_seen := rd_seen r'\<rparr>) \<and>
      (rd_status r = Retired_driver \<longrightarrow> rd_status r' = Retired_driver)) \<and> prefix (reg_audit m) (reg_audit m')"
proof -
  have "reg_evolves m m'" using registry.run_inv[OF assms(2)] registry.initial_run_inv[OF assms(1)] by blast
  then show ?thesis using driver_rows.table_row[OF _ assms(3)] unfolding reg_evolves_def keeps_driver_def by blast
qed

text \<open>
  A token authenticates exactly the active LAN driver that holds it. In every reachable state
  \<open>lookup_token\<close> returns a driver if and only if the presented text has an acceptable length and its
  keyed hash is stored on a row that is active; the driver it returns is that row, which is the only
  row with that hash.
\<close>

lemma token_authenticates:
  assumes "reg_step\<^sup>*\<^sup>* empty_mdb m"
  shows "fst (lookup_token ev t m) = Some v \<longleftrightarrow> t \<noteq> [] \<and> length t \<le> 512 \<and>
     (\<exists>!r. r \<in> set (reg_drivers m) \<and> rd_token r = Some (token_hash ev t)) \<and>
     (\<exists>r \<in> set (reg_drivers m). rd_token r = Some (token_hash ev t) \<and> rd_kind r = Lan \<and> rd_status r = Active_driver \<and> v = public_view_of r)"
proof -
  have inv: "reg_inv m" using registry.initial_run_inv[OF assms] .
  have lan: "rd_kind r = Lan" if "r \<in> set (reg_drivers m)" "rd_token r = Some h" for r h
    using reg_row_check[OF inv that(1)] that(2) by (simp add: row_check_def)
  show ?thesis unfolding lookup_token_iff[OF inv] using lan reg_unique_token[OF inv] by blast
qed

text \<open>
  C37: a rotation replaces the token, and it does not lift a suspension. After it the new token (of
  acceptable length) authenticates the driver, at the next revision, exactly when the driver is active,
  and nobody when it is not; the old token authenticates nobody, provided the hash tells the two apart.
\<close>

theorem rotation_replaces_token:
  assumes "reg_step\<^sup>*\<^sup>* empty_mdb m" "rotate_token ev d expected act m = Inr (res, m')" "find_driver d m = Some row"
    "rd_token row = Some (token_hash ev old)" "token_hash ev old \<noteq> token_hash ev (new_token ev)" "length (new_token ev) \<le> 512"
  shows "snd res = new_token ev \<and> fst (lookup_token ev old m') = None \<and>
     (if rd_status row = Active_driver then \<exists>v. fst (lookup_token ev (new_token ev) m') = Some v \<and> pv_id v = d \<and> pv_revision v = rd_revision row + 1
      else fst (lookup_token ev (new_token ev) m') = None)"
proof -
  have inv: "reg_inv m" using registry.initial_run_inv[OF assms(1)] .
  have inv': "reg_inv m'" using rotate_safe[OF assms(2)] inv by (simp add: reg_safe_def)
  obtain row' where row': "find_driver d m = Some row'" "snd res = new_token ev"
    and upd: "reg_drivers m' = update_where (\<lambda>r. rd_id r = d) (\<lambda>r. r\<lparr>rd_token := Some (token_hash ev (new_token ev)),
       rd_rotated := Some (now_at ev), rd_revision := rd_revision r + 1\<rparr>) (reg_drivers m)"
    using rotate_effect[OF assms(2)] by blast
  have mem: "row \<in> set (reg_drivers m)" "rd_id row = d" using assms(3) find_driver_Some[OF inv] by auto
  have "rd_token r \<noteq> Some (token_hash ev old)" if r: "r \<in> set (reg_drivers m')" for r
  proof
    assume tok: "rd_token r = Some (token_hash ev old)"
    from r[unfolded upd set_update_where] show False
    proof
      assume "r \<in> {r \<in> set (reg_drivers m). rd_id r \<noteq> d}"
      then show False using reg_unique_token[OF inv _ mem(1) tok assms(4)] mem(2) by blast
    next
      assume "r \<in> (\<lambda>r. r\<lparr>rd_token := Some (token_hash ev (new_token ev)), rd_rotated := Some (now_at ev),
        rd_revision := rd_revision r + 1\<rparr>) ` {r \<in> set (reg_drivers m). rd_id r = d}"
      then have "rd_token r = Some (token_hash ev (new_token ev))" by (elim imageE) simp
      then show False using tok assms(5) by simp
    qed
  qed
  then have "fst (lookup_token ev old m') = None"
    using lookup_token_iff[OF inv', of ev old] by (cases "fst (lookup_token ev old m')") auto
  moreover have "if rd_status row = Active_driver then \<exists>v. fst (lookup_token ev (new_token ev) m') = Some v \<and> pv_id v = d \<and> pv_revision v = rd_revision row + 1
      else fst (lookup_token ev (new_token ev) m') = None"
  proof -
    let ?r = "row\<lparr>rd_token := Some (token_hash ev (new_token ev)), rd_rotated := Some (now_at ev), rd_revision := rd_revision row + 1\<rparr>"
    have r: "?r \<in> set (reg_drivers m')" "rd_token ?r = Some (token_hash ev (new_token ev))"
      unfolding upd set_update_where using mem by (auto intro!: UnI2 image_eqI[of _ _ row])
    have only: "x = ?r" if "x \<in> set (reg_drivers m')" "rd_token x = Some (token_hash ev (new_token ev))" for x
      by (rule reg_unique_token[OF inv' that(1) r(1) that(2) r(2)])
    have "new_token ev \<noteq> []" by (simp add: new_token_def TOKEN_PREFIX_def)
    moreover have "rd_status ?r = rd_status row" by simp
    ultimately have iff: "fst (lookup_token ev (new_token ev) m') = Some v \<longleftrightarrow> rd_status row = Active_driver \<and> v = public_view_of ?r" for v
      unfolding lookup_token_iff[OF inv'] using assms(6) r only by metis
    have view: "pv_id (public_view_of ?r) = d" "pv_revision (public_view_of ?r) = rd_revision row + 1"
      using mem(2) by (simp_all add: public_view_of_def)
    show ?thesis using iff view by (metis option.exhaust)
  qed
  ultimately show ?thesis using row'(2) by simp
qed

theorem rotation_replaces_token_witness:
  "fst (lookup_token (demo_reg 6000000 ''0c0c0c0c0c0c0c0c0c0c0c0c'') ''aitd_0b0b0b0b0b0b0b0b0b0b'' rotated_registry) = None \<and>
   (\<exists>v. fst (lookup_token (demo_reg 6000000 ''0c0c0c0c0c0c0c0c0c0c0c0c'') ''aitd_0c0c0c0c0c0c0c0c0c0c0c0c'' rotated_registry) = Some v \<and> pv_id v = ''bob'' \<and> pv_revision v = 4)"
proof -
  let ?ev = "demo_reg 6000000 ''0c0c0c0c0c0c0c0c0c0c0c0c''"
  obtain res where res: "rotate_token ?ev ''bob'' (PInt 3) ''owner:ann'' bob_registry = Inr (res, rotated_registry)"
    using rotate_ok by blast
  have new: "new_token ?ev = ''aitd_0c0c0c0c0c0c0c0c0c0c0c0c''" by (simp add: new_token_def TOKEN_PREFIX_def)
  have "find_driver ''bob'' bob_registry = Some bob_row" by (simp add: bob_val find_driver_def row_defs)
  moreover have "rd_token bob_row = Some (token_hash ?ev ''aitd_0b0b0b0b0b0b0b0b0b0b'')" by (simp add: row_defs utf8_def utf8_char_def)
  moreover have "token_hash ?ev ''aitd_0b0b0b0b0b0b0b0b0b0b'' \<noteq> token_hash ?ev (new_token ?ev)" by (simp add: new utf8_def utf8_char_def)
  moreover have "length (new_token ?ev) \<le> 512" by (simp add: new)
  ultimately show ?thesis
    using rotation_replaces_token[OF bob_reachable res, of bob_row "''aitd_0b0b0b0b0b0b0b0b0b0b''"] by (simp add: new row_defs)
qed

end
