(* ===== verification/Paging.thy ===== *)
theory Paging
  imports Messaging_Schema
begin

text \<open>
  Two interfaces the message components share. \<open>keyset_pages\<close> is a reader that pages through rows by a
  key, newest first: what one fetch promises, and what a walk over many fetches returns while rows keep
  arriving between them. \<open>request_log\<close> is an idempotency table: what a replayed request finds.
\<close>

section \<open>Keyset paging\<close>

definition below :: "'k::linorder option \<Rightarrow> 'k \<Rightarrow> bool" where
  "below b k = (case b of None \<Rightarrow> True | Some x \<Rightarrow> k < x)"

lemma below_simps [simp]: "below None k" "below (Some x) k \<longleftrightarrow> k < x"
  by (simp_all add: below_def)

text \<open>
  A walk: fetch a page, continue strictly below the key of its last row while the reader says there is
  more. The \<open>i\<close>-th fetch sees the \<open>i\<close>-th state. The result is the rows of all pages and whether the
  reader reached the end.
\<close>

fun walk :: "('s \<Rightarrow> 'k option \<Rightarrow> 'r list \<times> bool) \<Rightarrow> ('r \<Rightarrow> 'k) \<Rightarrow> 'k option \<Rightarrow> 's list \<Rightarrow> 'r list \<times> bool" where
  "walk fetch key b [] = ([], False)"
| "walk fetch key b (s # ss) = (case fetch s b of (page, cont) \<Rightarrow>
     if cont then (case walk fetch key (Some (key (last page))) ss of (rest, ended) \<Rightarrow> (page @ rest, ended))
     else (page, True))"

locale keyset_pages =
  fixes key :: "'r \<Rightarrow> 'k::linorder" and rows :: "'s \<Rightarrow> 'r set" and fetch :: "'s \<Rightarrow> 'k option \<Rightarrow> 'r list \<times> bool"
    and limit :: nat and ok :: "'s \<Rightarrow> bool"
  assumes fetch_rows: "ok s \<Longrightarrow> fetch s b = (page, cont) \<Longrightarrow> set page \<subseteq> {r \<in> rows s. below b (key r)}"
    and fetch_newest_first: "ok s \<Longrightarrow> fetch s b = (page, cont) \<Longrightarrow> sorted_wrt (\<lambda>r r'. key r' < key r) page"
    and fetch_more: "ok s \<Longrightarrow> fetch s b = (page, True) \<Longrightarrow> page \<noteq> [] \<and> length page = limit"
    and fetch_rest: "ok s \<Longrightarrow> fetch s b = (page, cont) \<Longrightarrow> r \<in> rows s \<Longrightarrow> below b (key r) \<Longrightarrow> r \<notin> set page \<Longrightarrow> cont \<and> key r < key (last page)"
begin

lemma page_bounds:
  assumes "ok s" "fetch s b = (page, cont)" "r \<in> set page"
  shows "below b (key r)" "r \<in> rows s" "key (last page) \<le> key r"
proof -
  show "below b (key r)" "r \<in> rows s" using fetch_rows[OF assms(1,2)] assms(3) by auto
  have "page = butlast page @ [last page]" using assms(3) by (metis append_butlast_last_id empty_iff empty_set)
  then have "sorted_wrt (\<lambda>r r'. key r' < key r) (butlast page @ [last page])" using fetch_newest_first[OF assms(1,2)] by simp
  moreover have "r \<in> set (butlast page) \<or> r = last page" using assms(3) \<open>page = _\<close> by (metis Un_iff empty_iff insert_iff list.set set_append)
  ultimately show "key (last page) \<le> key r" by (auto simp: sorted_wrt_append intro: less_imp_le)
qed

text \<open>Every page continues strictly below the last one: no row is returned twice.\<close>

lemma walk_below: "\<forall>s \<in> set ss. ok s \<Longrightarrow> walk fetch key b ss = (out, fin) \<Longrightarrow> r \<in> set out \<Longrightarrow> below b (key r) \<and> (\<exists>s \<in> set ss. r \<in> rows s)"
proof (induction ss arbitrary: b out fin)
  case (Cons s ss)
  obtain page cont where f: "fetch s b = (page, cont)" by force
  have s: "ok s" "\<forall>s \<in> set ss. ok s" using Cons.prems(1) by auto
  obtain rest ended where w: "walk fetch key (Some (key (last page))) ss = (rest, ended)" by force
  show ?case
  proof (cases "r \<in> set page")
    case True
    then show ?thesis using page_bounds[OF s(1) f] by auto
  next
    case False
    then have m: "cont" "r \<in> set rest" using Cons.prems(2,3) f w by (auto split: if_splits)
    have "page \<noteq> []" using f fetch_more s(1) m(1) by auto
    then have "below b (key (last page))" using page_bounds(1)[OF s(1) f] by simp
    then show ?thesis using Cons.IH[OF s(2) w m(2)] by (cases b) auto
  qed
qed simp

lemma walk_newest_first: "\<forall>s \<in> set ss. ok s \<Longrightarrow> walk fetch key b ss = (out, fin) \<Longrightarrow> sorted_wrt (\<lambda>r r'. key r' < key r) out"
proof (induction ss arbitrary: b out fin)
  case (Cons s ss)
  obtain page cont where f: "fetch s b = (page, cont)" by force
  have s: "ok s" "\<forall>s \<in> set ss. ok s" using Cons.prems(1) by auto
  obtain rest ended where w: "walk fetch key (Some (key (last page))) ss = (rest, ended)" by force
  have "key y < key x" if "x \<in> set page" "y \<in> set rest" for x y
    using walk_below[OF s(2) w that(2)] page_bounds(3)[OF s(1) f that(1)] by auto
  then show ?case using Cons.prems(2) f w fetch_newest_first[OF s(1) f] Cons.IH[OF s(2) w] by (auto simp: sorted_wrt_append split: if_splits)
qed simp

lemma walk_distinct: "\<forall>s \<in> set ss. ok s \<Longrightarrow> walk fetch key b ss = (out, fin) \<Longrightarrow> distinct out"
  using walk_newest_first by (metis (mono_tags, lifting) distinct_conv_nth linorder_neqE_nat order_less_irrefl sorted_wrt_nth_less)

text \<open>A row that is there in every state the walk reads is not stepped over, if the walk reaches the end.\<close>

lemma walk_complete:
  "\<forall>s \<in> set ss. ok s \<Longrightarrow> walk fetch key b ss = (out, True) \<Longrightarrow> (\<And>s. s \<in> set ss \<Longrightarrow> r \<in> rows s) \<Longrightarrow> below b (key r) \<Longrightarrow> r \<in> set out"
proof (induction ss arbitrary: b out)
  case (Cons s ss)
  obtain page cont where f: "fetch s b = (page, cont)" by force
  have s: "ok s" "\<forall>s \<in> set ss. ok s" using Cons.prems(1) by auto
  obtain rest ended where w: "walk fetch key (Some (key (last page))) ss = (rest, ended)" by force
  show ?case
  proof (cases "r \<in> set page")
    case True
    then show ?thesis using Cons.prems(2) f w by (auto split: if_splits)
  next
    case False
    then have m: "cont" "key r < key (last page)" using fetch_rest[OF s(1) f _ Cons.prems(4)] Cons.prems(3) by auto
    then have "out = page @ rest" "ended" using Cons.prems(2) f w by auto
    then have "r \<in> set rest" using Cons.IH[OF s(2), of "Some (key (last page))" rest] w m(2) Cons.prems(3) by simp
    then show ?thesis using \<open>out = page @ rest\<close> by simp
  qed
qed simp

text \<open>While no row arrives, one fetch per row of the table is enough to reach the end.\<close>

lemma walk_terminates:
  "ok s \<Longrightarrow> finite (rows s) \<Longrightarrow> card {r \<in> rows s. below b (key r)} < n \<Longrightarrow> snd (walk fetch key b (replicate n s))"
proof (induction n arbitrary: b)
  case (Suc n)
  obtain page cont where f: "fetch s b = (page, cont)" by force
  obtain rest ended where w: "walk fetch key (Some (key (last page))) (replicate n s) = (rest, ended)" by force
  show ?case
  proof (cases cont)
    case True
    then have ne: "page \<noteq> []" using f fetch_more Suc.prems(1) by auto
    then have last: "below b (key (last page))" "last page \<in> rows s" using page_bounds[OF Suc.prems(1) f] by auto
    have "{r \<in> rows s. key r < key (last page)} \<subset> {r \<in> rows s. below b (key r)}"
      using last by (cases b) auto
    then have "card {r \<in> rows s. key r < key (last page)} < card {r \<in> rows s. below b (key r)}"
      using Suc.prems(2) by (intro psubset_card_mono) auto
    then have "ended" using Suc.IH[of "Some (key (last page))"] Suc.prems w by simp
    then show ?thesis using f w True by simp
  qed (use f in simp)
qed simp

end

text \<open>The query \<open>WHERE key < ? ORDER BY key DESC LIMIT n+1\<close>, cut to \<open>n\<close> rows.\<close>

definition newest_page :: "('r \<Rightarrow> 'k::linorder) \<Rightarrow> nat \<Rightarrow> 'k option \<Rightarrow> 'r list \<Rightarrow> 'r list \<times> bool" where
  "newest_page key n b rs = (let xs = take (n + 1) (rev (sort_key key (filter (\<lambda>r. below b (key r)) rs))) in (take n xs, n < length xs))"

lemma keyset_pages_newest:
  assumes n: "0 < n" and uniq: "\<And>s. ok s \<Longrightarrow> distinct (map key (table s))"
  shows "keyset_pages key (\<lambda>s. set (table s)) (\<lambda>s b. newest_page key n b (table s)) n ok"
proof -
  define L where "L s b = rev (sort_key key (filter (\<lambda>r. below b (key r)) (table s)))" for s b
  have desc: "sorted_wrt (\<lambda>r r'. key r' < key r) (L s b)" if "ok s" for s b
  proof -
    have "distinct (map key (filter (\<lambda>r. below b (key r)) (table s)))" using uniq[OF that] by (simp add: distinct_map_filter)
    then have "distinct (map key (sort_key key (filter (\<lambda>r. below b (key r)) (table s))))" by (simp add: distinct_map)
    then have "sorted_wrt (<) (map key (sort_key key (filter (\<lambda>r. below b (key r)) (table s))))"
      using sorted_sort_key strict_sorted_iff by blast
    then show ?thesis by (simp add: L_def sorted_wrt_rev sorted_wrt_map)
  qed
  have set_L: "set (L s b) = {r \<in> set (table s). below b (key r)}" for s b by (auto simp: L_def)
  have eq: "newest_page key n b (table s) = (page, cont) \<longleftrightarrow> page = take n (L s b) \<and> cont = (n < length (L s b))" for s b page cont
    by (auto simp: newest_page_def L_def Let_def min_def)
  have rest: "n < length (L s b) \<and> key r < key (last (take n (L s b)))" if r: "r \<in> set (L s b)" "r \<notin> set (take n (L s b))" and ok: "ok s" for s b r
  proof -
    obtain i where i: "i < length (L s b)" "r = L s b ! i" using r(1) by (metis in_set_conv_nth)
    have "n \<le> i"
    proof (rule ccontr)
      assume "\<not> n \<le> i"
      then have "r = take n (L s b) ! i" "i < length (take n (L s b))" using i by simp_all
      then show False using r(2) nth_mem by metis
    qed
    moreover have "last (take n (L s b)) = L s b ! (n - 1)"
    proof -
      have "length (take n (L s b)) = n" using i \<open>n \<le> i\<close> by simp
      then have "last (take n (L s b)) = take n (L s b) ! (n - 1)" using n last_conv_nth[of "take n (L s b)"] by fastforce
      then show ?thesis using n by simp
    qed
    moreover have "key (L s b ! i) < key (L s b ! (n - 1))"
      using sorted_wrt_nth_less[OF desc[OF ok], of "n - 1" i b] n i(1) \<open>n \<le> i\<close> by simp
    ultimately show ?thesis using i by simp
  qed
  show ?thesis
    by unfold_locales
       (use set_L desc n rest in \<open>auto simp: eq dest: in_set_takeD intro: sorted_wrt_take\<close>)
qed

section \<open>Idempotent requests\<close>

text \<open>
  A request is recorded under the actor, the scope, the operation and the key it names; a later request
  under the same four is answered from the record, and refused when it asks for something else.
\<close>

definition same_request :: "string \<Rightarrow> string \<Rightarrow> string \<Rightarrow> string \<Rightarrow> request_row \<Rightarrow> bool" where
  "same_request act scope op k q \<longleftrightarrow> rq_actor q = act \<and> rq_scope q = scope \<and> rq_op q = op \<and> rq_key q = k"

definition request_id :: "request_row \<Rightarrow> string \<times> string \<times> string \<times> string" where
  "request_id q = (rq_actor q, rq_scope q, rq_op q, rq_key q)"

text \<open>
  A recorded operation: a known request is answered by its record, a new one runs and is recorded in
  the same transaction.
\<close>

definition once :: "('s \<Rightarrow> 'q \<Rightarrow> 'p \<Rightarrow> 'e + 'a option) \<Rightarrow> ('q \<Rightarrow> 'p \<Rightarrow> 'a \<Rightarrow> 's \<Rightarrow> 's) \<Rightarrow> 'q \<Rightarrow> 'p \<Rightarrow> ('s \<Rightarrow> 'e + 'a \<times> 's) \<Rightarrow> 's \<Rightarrow> 'e + 'a \<times> 's" where
  "once replay record_as q p body s =
     bindE (replay s q p) (\<lambda>hit. case hit of
       Some r \<Rightarrow> Inr (r, s)
     | None \<Rightarrow> bindE (body s) (\<lambda>(r, s'). Inr (r, record_as q p r s')))"

lemma once_cases:
  assumes "once replay record_as q p body s = Inr (r, t)"
  obtains (hit) "replay s q p = Inr (Some r)" "t = s"
    | (ran) s' where "replay s q p = Inr None" "body s = Inr (r, s')" "t = record_as q p r s'"
proof -
  obtain h where h: "replay s q p = Inr h" using assms by (auto simp: once_def)
  show thesis
  proof (cases h)
    case None
    then obtain s' where "body s = Inr (r, s')" "t = record_as q p r s'" using assms h by (auto simp: once_def)
    then show thesis using ran h None by blast
  next
    case (Some r')
    then show thesis using hit assms h by (simp add: once_def)
  qed
qed

locale request_log =
  fixes replay :: "'s \<Rightarrow> 'q \<Rightarrow> 'p \<Rightarrow> 'e + 'a option" and record_as :: "'q \<Rightarrow> 'p \<Rightarrow> 'a \<Rightarrow> 's \<Rightarrow> 's"
    and log :: "'s \<Rightarrow> 'l" and seen_again :: "'a \<Rightarrow> 'a"
  assumes replay_recorded: "replay s q p = Inr None \<Longrightarrow> log s' = log s \<Longrightarrow> replay (record_as q p r s') q p = Inr (Some (seen_again r))"
    and replay_seen: "replay s q p = Inr (Some r) \<Longrightarrow> seen_again r = r"
begin

text \<open>The second call with the same request changes nothing and returns the first result, as a replay shows it.\<close>

lemma once_again:
  assumes "once replay record_as q p body s = Inr (r, t)" "\<And>r' s'. body s = Inr (r', s') \<Longrightarrow> log s' = log s"
  shows "once replay record_as q p body' t = Inr (seen_again r, t)"
  using assms(1)
proof (cases rule: once_cases)
  case hit
  then show ?thesis using replay_seen by (simp add: once_def)
next
  case (ran s')
  then show ?thesis using replay_recorded[OF ran(1) assms(2)[OF ran(2)], of r] by (simp add: once_def)
qed

end

end
