(* ===== verification/Inbox.thy ===== *)
theory Inbox
  imports Paging Registry "HOL-Library.Product_Lexorder"
begin

text \<open>
  Private driver deliveries and the user's conversation (\<open>src/core/driver_inbox.py\<close>). A \<open>caller\<close> is
  the pair of actor and driver id the inbox is built for, with the trust of its store. Identifiers
  drawn in one call are numbered (the message first, then its deliveries); a collision with a stored
  identifier is SQLite's refusal. The text codec of the paging cursor and the wake-up of waiting
  readers are left out: a cursor is the pair it encodes.
\<close>

definition is_owner :: "string \<Rightarrow> bool" where
  "is_owner act \<longleftrightarrow> starts_with act ''owner:''"

definition has_driver :: "caller \<Rightarrow> bool" where
  "has_driver c \<longleftrightarrow> nonempty (by_driver c)"

definition caller_row :: "caller \<Rightarrow> mdb \<Rightarrow> driver_row option" where
  "caller_row c m = (case by_driver c of None \<Rightarrow> None | Some d \<Rightarrow> find_driver d m)"

section \<open>Arguments\<close>

definition check_request :: "pyval \<Rightarrow> nat \<Rightarrow> nat \<Rightarrow> string result" where
  "check_request v lo hi = (case v of
     PStr s \<Rightarrow> if lo \<le> length s \<and> length s \<le> hi then Inr s else Inl (StateGraphError ''invalid_request'')
   | _ \<Rightarrow> Inl (StateGraphError ''invalid_request''))"

definition check_limit :: "pyval \<Rightarrow> int \<Rightarrow> int \<Rightarrow> int result" where
  "check_limit v lo hi = (case v of
     PInt i \<Rightarrow> if lo \<le> i \<and> i \<le> hi then Inr i else Inl (StateGraphError ''invalid_request'')
   | _ \<Rightarrow> Inl (StateGraphError ''invalid_request''))"

definition refuse_private_read :: "caller \<Rightarrow> unit result" where
  "refuse_private_read c = raise_if (\<not> by_trusted c) (StateGraphError ''project_private'')"

text \<open>\<open>_segments\<close>: at most twenty tagged blocks of bounded text.\<close>

definition segment_of :: "pyval \<Rightarrow> (string \<times> string) result" where
  "segment_of item = (case item of
     PDict kvs \<Rightarrow> (case (map_of kvs ''kind'', map_of kvs ''text'') of
        (Some (PStr k), Some (PStr t)) \<Rightarrow>
          if k \<in> {''info'', ''question''} \<and> 1 \<le> length t \<and> length t \<le> 2000 then Inr (k, t) else Inl (StateGraphError ''invalid_segments'')
      | _ \<Rightarrow> Inl (StateGraphError ''invalid_segments''))
   | _ \<Rightarrow> Inl (StateGraphError ''invalid_segments''))"

definition segments :: "pyval \<Rightarrow> (string \<times> string) list result" where
  "segments v = (case v of
     PNone \<Rightarrow> Inr []
   | PList items \<Rightarrow>
       bindE (raise_if (20 < length items) (StateGraphError ''invalid_segments'')) (\<lambda>_.
       bindE (mapE segment_of items) (\<lambda>segs.
       bindE (raise_if (8000 < sum_list (map (\<lambda>(k, t). length t) segs)) (StateGraphError ''invalid_segments'')) (\<lambda>_.
       Inr segs)))
   | _ \<Rightarrow> Inl (StateGraphError ''invalid_segments''))"

definition segment_json :: "string \<times> string \<Rightarrow> pyval" where
  "segment_json s = (case s of (k, t) \<Rightarrow> PDict [(''kind'', PStr k), (''text'', PStr t)])"

definition check_refs :: "pyval \<Rightarrow> ((string \<times> pyval) list) result" where
  "check_refs v = (case v of PNone \<Rightarrow> Inr [] | PDict kvs \<Rightarrow> Inr kvs
     | _ \<Rightarrow> Inl (StateGraphError ''invalid_refs: refs must be an object mapping allowed keys to ids''))"

section \<open>Who may act\<close>

definition authorize :: "caller \<Rightarrow> string option \<Rightarrow> bool \<Rightarrow> string option \<Rightarrow> mdb \<Rightarrow> unit result" where
  "authorize c driver write reason m =
     bindE (raise_if (\<not> by_trusted c) (StateGraphError ''not_inbox_recipient'')) (\<lambda>_.
     let active = (case caller_row c m of None \<Rightarrow> False | Some r \<Rightarrow> rd_status r = Active_driver);
         admin = (case caller_row c m of None \<Rightarrow> False | Some r \<Rightarrow> rd_status r = Active_driver \<and> rd_admin r) in
     raise_if (\<not> (by_driver c = driver \<and> has_driver c \<and> active \<or>
                  is_owner (by_actor c) \<and> (\<not> write \<or> nonempty reason) \<or>
                  write \<and> nonempty reason \<and> admin))
       (StateGraphError ''not_inbox_recipient''))"

definition inbox_driver :: "mdb \<Rightarrow> string \<Rightarrow> unit result" where
  "inbox_driver m d = raise_if (find_driver d m = None) (StateGraphError ''unknown_driver'')"

definition active_sender :: "mdb \<Rightarrow> string \<Rightarrow> unit result" where
  "active_sender m d =
     bindE (inbox_driver m d) (\<lambda>_.
     raise_if (case find_driver d m of None \<Rightarrow> True | Some r \<Rightarrow> rd_status r \<noteq> Active_driver) (StateGraphError ''inactive_driver''))"

definition resolve_ref :: "mdb \<Rightarrow> string option \<Rightarrow> string \<times> pyval \<Rightarrow> unit result" where
  "resolve_ref m pid kv = (case kv of (k, v) \<Rightarrow>
     if k = ''node_key'' \<and> nonempty pid
     then (case v of PStr s \<Rightarrow> bindE (get_node (state m) (the pid) s) (\<lambda>_. Inr ()) | _ \<Rightarrow> bindE (check_key v) (\<lambda>_. Inr ()))
     else if k \<in> {''attempt_id'', ''issue_id'', ''claim_id'', ''subagent_id''}
     then (case v of
       PStr s \<Rightarrow>
         if s = [] then Inl (StateGraphError ''invalid_refs: must be a non-empty string id'')
         else raise_if (\<not> (if k = ''attempt_id'' then s \<in> set (map a_id (attempts (state m)))
                           else if k = ''issue_id'' then s \<in> set (map i_id (issues (state m)))
                           else if k = ''claim_id'' then s \<in> set (map c_id (claims (state m)))
                           else s \<in> set (map sa_id (subagents (state m)))))
                (StateGraphError ''invalid_refs: names no existing record'')
     | _ \<Rightarrow> Inl (StateGraphError ''invalid_refs: must be a non-empty string id''))
     else if k = ''node_key'' then Inl (StateGraphError ''invalid_refs: refs.node_key needs project_id'')
     else Inl (StateGraphError ''invalid_refs: key is not allowed''))"

definition resolve_refs :: "mdb \<Rightarrow> string option \<Rightarrow> (string \<times> pyval) list \<Rightarrow> unit result" where
  "resolve_refs m pid refs = bindE (mapE (resolve_ref m pid) refs) (\<lambda>_. Inr ())"

section \<open>Recorded requests\<close>

type_synonym inbox_key = "string \<times> string \<times> string"

type_synonym inbox_result = "pyval \<times> presence_block option"

definition inbox_replay :: "mdb \<Rightarrow> inbox_key \<Rightarrow> pyval \<Rightarrow> inbox_result option result" where
  "inbox_replay m q payload = (case q of (act, op, k) \<Rightarrow>
     (case find (same_request act [] op k) (inbox_requests m) of
        None \<Rightarrow> Inr None
      | Some row \<Rightarrow> if dumps (rq_payload row) \<noteq> dumps payload then Inl (StateGraphError ''idempotency_conflict'')
                    else Inr (Some (rq_result row, None))))"

definition inbox_record :: "inbox_key \<Rightarrow> pyval \<Rightarrow> inbox_result \<Rightarrow> mdb \<Rightarrow> mdb" where
  "inbox_record q payload res m = (case q of (act, op, k) \<Rightarrow>
     m\<lparr>inbox_requests := inbox_requests m @ [\<lparr>rq_actor = act, rq_scope = [], rq_op = op, rq_key = k, rq_payload = payload, rq_result = fst res\<rparr>]\<rparr>)"

section \<open>Messages and deliveries\<close>

definition insert_message :: "inbox_row \<Rightarrow> mdb \<Rightarrow> mdb result" where
  "insert_message row m =
     bindE (raise_if (ir_id row \<in> set (map ir_id (inbox_rows m))) (IntegrityError ''driver_inbox_messages.message_id'')) (\<lambda>_.
     Inr (m\<lparr>inbox_rows := inbox_rows m @ [row]\<rparr>))"

text \<open>\<open>SELECT COALESCE(MAX(seq),0)+1 ... WHERE target_driver_id=?\<close>.\<close>

definition max_seq :: "mdb \<Rightarrow> string \<Rightarrow> int" where
  "max_seq m t = fold (\<lambda>d acc. max acc (ix_seq d)) (filter (\<lambda>d. ix_target d = t) (inbox_dlvs m)) 0"

definition next_seq :: "mdb \<Rightarrow> string \<Rightarrow> int" where
  "next_seq m t = max_seq m t + 1"

definition insert_delivery :: "string \<Rightarrow> string \<Rightarrow> string \<Rightarrow> mdb \<Rightarrow> (pyval \<times> mdb) result" where
  "insert_delivery did mid t m =
     bindE (raise_if (did \<in> set (map ix_id (inbox_dlvs m))) (IntegrityError ''driver_inbox_deliveries.delivery_id'')) (\<lambda>_.
     bindE (raise_if (list_ex (\<lambda>d. ix_message d = mid \<and> ix_target d = t) (inbox_dlvs m))
              (IntegrityError ''driver_inbox_deliveries.message_id,target_driver_id'')) (\<lambda>_.
     Inr (PDict [(''delivery_id'', PStr did), (''target_driver_id'', PStr t), (''seq'', PInt (next_seq m t)), (''status'', PStr ''unread''), (''version'', PInt 1)],
       m\<lparr>inbox_dlvs := inbox_dlvs m @ [\<lparr>ix_id = did, ix_message = mid, ix_target = t, ix_seq = next_seq m t, ix_status = Unread, ix_version = 1\<rparr>]\<rparr>)))"

fun deliver_all :: "env \<Rightarrow> string \<Rightarrow> nat \<Rightarrow> string list \<Rightarrow> mdb \<Rightarrow> (pyval list \<times> mdb) result" where
  "deliver_all ev mid i [] m = Inr ([], m)"
| "deliver_all ev mid i (t # ts) m =
     bindE (insert_delivery (fresh_id ev [] i) mid t m) (\<lambda>(d, m1).
     bindE (deliver_all ev mid (Suc i) ts m1) (\<lambda>(ds, m2). Inr (d # ds, m2)))"

text \<open>\<open>SELECT p.driver_id FROM project_drivers p JOIN drivers d ... WHERE p.status='member' ... ORDER BY p.driver_id\<close>.\<close>

definition joined_members :: "mdb \<Rightarrow> string \<Rightarrow> string list" where
  "joined_members m pid = sort (map rm_driver (filter (\<lambda>r. rm_project r = pid \<and> rm_member r \<and> find_driver (rm_driver r) m \<noteq> None) (reg_members m)))"

definition INBOX_KINDS :: "string list" where
  "INBOX_KINDS = [''note'', ''request'', ''review_request'', ''handoff_offer'', ''handoff_reply'']"

definition SYSTEM_KINDS :: "string list" where
  "SYSTEM_KINDS = [''lease_notice'', ''takeover_notice'', ''subagent_orphaned'', ''handoff_offer'']"

definition parse_mode :: "string \<Rightarrow> delivery_mode option" where
  "parse_mode s = map_of [(''transient'', Transient), (''standing'', Standing)] s"

section \<open>Sending\<close>

record send_args =
  sg_key :: pyval
  sg_subject :: pyval
  sg_body :: pyval
  sg_target :: "string option"
  sg_members :: "string option"
  sg_project :: "string option"
  sg_kind :: string
  sg_mode :: string
  sg_refs :: pyval
  sg_reply :: "string option"
  sg_system :: bool

text \<open>The recipients, resolved and bounded.\<close>

definition send_targets :: "caller \<Rightarrow> send_args \<Rightarrow> mdb \<Rightarrow> string list result" where
  "send_targets c a m =
     bindE (if nonempty (sg_members a)
            then bindE (get_project (state m) (the (sg_members a))) (\<lambda>_.
                 Inr (filter (\<lambda>d. d \<noteq> (case by_driver c of None \<Rightarrow> [] | Some x \<Rightarrow> x)) (joined_members m (the (sg_members a)))))
            else Inr [the (sg_target a)]) (\<lambda>targets.
     bindE (raise_if (targets = []) (StateGraphError ''no_recipients'')) (\<lambda>_.
     bindE (raise_if (200 < length targets) (StateGraphError ''no_recipients'')) (\<lambda>_.
     bindE (mapE (inbox_driver m) targets) (\<lambda>_.
     Inr targets))))"

text \<open>A reply joins the thread of a message that was delivered to the caller.\<close>

definition reply_thread :: "caller \<Rightarrow> string option \<Rightarrow> mdb \<Rightarrow> string option result" where
  "reply_thread c reply m =
     (if nonempty reply
      then bindE (require_some (find (\<lambda>r. ir_id r = the reply \<and>
                    list_ex (\<lambda>d. ix_message d = ir_id r \<and> Some (ix_target d) = by_driver c) (inbox_dlvs m)) (inbox_rows m))
                  (StateGraphError ''unknown_message'')) (\<lambda>r. Inr (Some (ir_thread r)))
      else Inr None)"

definition send_body :: "env \<Rightarrow> caller \<Rightarrow> send_args \<Rightarrow> string \<Rightarrow> string \<Rightarrow> delivery_mode \<Rightarrow> (string \<times> pyval) list \<Rightarrow> mdb \<Rightarrow> (inbox_result \<times> mdb) result" where
  "send_body ev c a subject body mode refs m =
     bindE (if \<not> sg_system a \<and> has_driver c then active_sender m (the (by_driver c)) else Inr ()) (\<lambda>_.
     bindE (send_targets c a m) (\<lambda>targets.
     bindE (if nonempty (sg_project a) then bindE (get_project (state m) (the (sg_project a))) (\<lambda>_. Inr ()) else Inr ()) (\<lambda>_.
     bindE (resolve_refs m (sg_project a) refs) (\<lambda>_.
     bindE (reply_thread c (sg_reply a) m) (\<lambda>thread.
     let mid = fresh_id ev [] 0 in
     bindE (insert_message \<lparr>ir_id = mid, ir_thread = (case thread of None \<Rightarrow> mid | Some t \<Rightarrow> if t = [] then mid else t),
              ir_sender = (if sg_system a then None else by_driver c), ir_project = sg_project a, ir_kind = sg_kind a, ir_mode = mode,
              ir_subject = subject, ir_body = body, ir_refs = PDict refs, ir_reply = sg_reply a, ir_created = now_at ev,
              ir_user = False, ir_channel = False, ir_segments = None\<rparr> m) (\<lambda>m1.
     bindE (deliver_all ev mid 1 targets m1) (\<lambda>(ds, m2).
     Inr ((PDict [(''message_id'', PStr mid), (''deliveries'', PList ds)],
           if sg_system a then None else recipient_presence_block ev m2 targets (nonempty (sg_members a))), m2))))))))"

definition send_driver_message :: "env \<Rightarrow> caller \<Rightarrow> send_args \<Rightarrow> mdb \<Rightarrow> (inbox_result \<times> mdb) result" where
  "send_driver_message ev c a m =
     bindE (check_request (sg_key a) 1 320) (\<lambda>k.
     bindE (check_request (sg_subject a) 1 200) (\<lambda>subject.
     bindE (check_request (sg_body a) 0 8000) (\<lambda>body.
     bindE (raise_if (nonempty (sg_target a) \<and> nonempty (sg_members a)) (StateGraphError ''invalid_request: mutually exclusive'')) (\<lambda>_.
     bindE (raise_if (\<not> nonempty (sg_target a) \<and> \<not> nonempty (sg_members a)) (StateGraphError ''invalid_request: set exactly one'')) (\<lambda>_.
     bindE (require_some (parse_mode (sg_mode a)) (StateGraphError ''invalid_request: delivery_mode'')) (\<lambda>mode.
     bindE (raise_if (sg_kind a \<notin> set (if sg_system a then SYSTEM_KINDS else INBOX_KINDS)) (StateGraphError ''invalid_request: kind'')) (\<lambda>_.
     bindE (raise_if (\<not> sg_system a \<and> \<not> has_driver c \<and> \<not> (by_trusted c \<and> is_owner (by_actor c)))
              (StateGraphError ''invalid_request: sending requires a driver identity or an owner actor'')) (\<lambda>_.
     bindE (check_refs (sg_refs a)) (\<lambda>refs.
     once inbox_replay inbox_record (by_actor c, ''send'', k)
       (PList [PStr subject, PStr body, py_str_opt (sg_target a), py_str_opt (sg_members a), py_str_opt (sg_project a), PStr (sg_kind a),
               PStr (sg_mode a), PDict refs, py_str_opt (sg_reply a), if sg_system a then PNone else py_str_opt (by_driver c)])
       (send_body ev c a subject body mode refs) m)))))))))"

definition system_notice :: "env \<Rightarrow> caller \<Rightarrow> send_args \<Rightarrow> mdb \<Rightarrow> (inbox_result \<times> mdb) result" where
  "system_notice ev c a m = send_driver_message ev c (a\<lparr>sg_system := True\<rparr>) m"

section \<open>The user's conversation\<close>

text \<open>\<open>CONVERSATION\<close>: a driver's message to the user, or the user's message to a driver.\<close>

definition in_conversation :: "string \<Rightarrow> inbox_row \<Rightarrow> bool" where
  "in_conversation pid r \<longleftrightarrow> ir_project r = Some pid \<and> (ir_user r \<or> ir_channel r)"

definition conversation_message :: "mdb \<Rightarrow> string \<Rightarrow> string \<Rightarrow> inbox_row result" where
  "conversation_message m pid mid =
     bindE (raise_if (mid = [] \<or> 200 < length mid) (StateGraphError ''invalid_request'')) (\<lambda>_.
     require_some (find (\<lambda>r. ir_id r = mid \<and> in_conversation pid r) (inbox_rows m)) (StateGraphError ''unknown_message''))"

text \<open>A driver writes to the project's user: one row, no delivery.\<close>

definition user_message_body :: "env \<Rightarrow> string \<Rightarrow> string \<Rightarrow> string \<Rightarrow> string \<Rightarrow> (string \<times> pyval) list \<Rightarrow> string option \<Rightarrow> (string \<times> string) list \<Rightarrow> mdb
    \<Rightarrow> (inbox_result \<times> mdb) result" where
  "user_message_body ev d subject body pid refs reply segs m =
     bindE (active_sender m d) (\<lambda>_.
     bindE (get_project (state m) pid) (\<lambda>_.
     bindE (resolve_refs m (Some pid) refs) (\<lambda>_.
     bindE (case reply of
              None \<Rightarrow> Inr None
            | Some rid \<Rightarrow>
                bindE (conversation_message m pid rid) (\<lambda>parent.
                bindE (raise_if (ir_user parent \<or> \<not> ir_channel parent) (StateGraphError ''invalid_reply_target'')) (\<lambda>_.
                Inr (Some (ir_thread parent))))) (\<lambda>thread.
     let mid = fresh_id ev [] 0 in
     bindE (insert_message \<lparr>ir_id = mid, ir_thread = (case thread of None \<Rightarrow> mid | Some t \<Rightarrow> t), ir_sender = Some d, ir_project = Some pid,
              ir_kind = ''note'', ir_mode = Transient, ir_subject = subject, ir_body = body, ir_refs = PDict refs, ir_reply = reply,
              ir_created = now_at ev, ir_user = True, ir_channel = False,
              ir_segments = (if segs = [] then None else Some (PList (map segment_json segs)))\<rparr> m) (\<lambda>m1.
     Inr ((PDict [(''message_id'', PStr mid), (''project_id'', PStr pid), (''sender_driver_id'', PStr d), (''created_at'', PInt (now_at ev))],
           None), m1))))))"

definition send_user_message :: "env \<Rightarrow> caller \<Rightarrow> pyval \<Rightarrow> pyval \<Rightarrow> pyval \<Rightarrow> string \<Rightarrow> pyval \<Rightarrow> string option \<Rightarrow> pyval \<Rightarrow> mdb
    \<Rightarrow> (inbox_result \<times> mdb) result" where
  "send_user_message ev c key subject body pid refs reply segs m =
     bindE (check_request key 1 320) (\<lambda>k.
     bindE (check_request subject 1 200) (\<lambda>sub.
     bindE (check_request body 0 8000) (\<lambda>bod.
     bindE (raise_if (\<not> has_driver c) (StateGraphError ''driver_identity_required'')) (\<lambda>_.
     bindE (check_refs refs) (\<lambda>rf.
     bindE (segments segs) (\<lambda>sg.
     once inbox_replay inbox_record (by_actor c, ''send_user'', k)
       (PList ([PStr sub, PStr bod, PStr pid, PDict rf, py_str_opt (by_driver c)] @
               (case reply of None \<Rightarrow> [] | Some r \<Rightarrow> [PStr r]) @ (if sg = [] then [] else [PList (map segment_json sg)])))
       (user_message_body ev (the (by_driver c)) sub bod pid rf reply sg) m))))))"

text \<open>The user writes to a driver: one row and the deliveries that make it visible.\<close>

definition conversation_body :: "env \<Rightarrow> string \<Rightarrow> string \<Rightarrow> string \<Rightarrow> string option \<Rightarrow> string option \<Rightarrow> mdb \<Rightarrow> (inbox_result \<times> mdb) result" where
  "conversation_body ev pid subject body reply target m =
     bindE (get_project (state m) pid) (\<lambda>_.
     bindE (case reply of
              None \<Rightarrow> Inr None
            | Some rid \<Rightarrow>
                bindE (conversation_message m pid rid) (\<lambda>parent.
                bindE (raise_if (\<not> ir_user parent \<or> \<not> nonempty (ir_sender parent)) (StateGraphError ''invalid_reply_target'')) (\<lambda>_.
                Inr (Some parent)))) (\<lambda>parent.
     let targets = (case target of Some t \<Rightarrow> [t] | None \<Rightarrow>
           (case parent of Some p \<Rightarrow> [the (ir_sender p)] | None \<Rightarrow> joined_members m pid)) in
     bindE (raise_if (targets = [] \<or> 200 < length targets) (StateGraphError ''no_recipients'')) (\<lambda>_.
     bindE (mapE (inbox_driver m) targets) (\<lambda>_.
     let mid = fresh_id ev [] 0 in
     bindE (insert_message \<lparr>ir_id = mid, ir_thread = (case parent of None \<Rightarrow> mid | Some p \<Rightarrow> ir_thread p), ir_sender = None, ir_project = Some pid,
              ir_kind = ''note'', ir_mode = Transient, ir_subject = subject, ir_body = body, ir_refs = PDict [], ir_reply = reply,
              ir_created = now_at ev, ir_user = False, ir_channel = True, ir_segments = None\<rparr> m) (\<lambda>m1.
     bindE (deliver_all ev mid 1 targets m1) (\<lambda>(ds, m2).
     Inr ((PDict [(''message_id'', PStr mid), (''project_id'', PStr pid), (''sender_kind'', PStr ''user''), (''created_at'', PInt (now_at ev)),
                  (''reply_to_message_id'', py_str_opt reply), (''deliveries'', PList ds)], None), m2)))))))"

definition send_user_conversation_message :: "env \<Rightarrow> caller \<Rightarrow> pyval \<Rightarrow> string \<Rightarrow> pyval \<Rightarrow> pyval \<Rightarrow> string option \<Rightarrow> string option \<Rightarrow> mdb
    \<Rightarrow> (inbox_result \<times> mdb) result" where
  "send_user_conversation_message ev c key pid body subject reply target m =
     bindE (check_request key 1 320) (\<lambda>k.
     bindE (check_request (if subject = PNone then PStr ''Message from the user'' else subject) 1 200) (\<lambda>sub.
     bindE (check_request body 0 8000) (\<lambda>bod.
     bindE (raise_if (has_driver c \<or> \<not> by_trusted c \<or> \<not> is_owner (by_actor c)) (StateGraphError ''user_identity_required'')) (\<lambda>_.
     once inbox_replay inbox_record (by_actor c, ''send_user_conversation'', k)
       (PList [PStr sub, PStr bod, PStr pid, py_str_opt reply, py_str_opt target])
       (conversation_body ev pid sub bod reply target) m))))"

section \<open>Reading the conversation\<close>

text \<open>The order \<open>ORDER BY created_at DESC, message_id DESC\<close> reads down from.\<close>

definition row_key :: "inbox_row \<Rightarrow> int \<times> string" where
  "row_key r = (ir_created r, ir_id r)"

definition conversation :: "string \<Rightarrow> mdb \<Rightarrow> inbox_row list" where
  "conversation pid m = filter (in_conversation pid) (inbox_rows m)"

definition read_marker_of :: "mdb \<Rightarrow> string \<Rightarrow> read_marker option" where
  "read_marker_of m pid = find (\<lambda>k. mk_project k = pid) (read_markers m)"

definition marker_key :: "read_marker \<Rightarrow> int \<times> string" where
  "marker_key k = (mk_created k, case mk_message k of None \<Rightarrow> [] | Some x \<Rightarrow> x)"

text \<open>\<open>_unread\<close>: the messages the drivers sent the user that are newer than the marker.\<close>

definition unread_rows :: "mdb \<Rightarrow> string \<Rightarrow> inbox_row list" where
  "unread_rows m pid = filter (\<lambda>r. ir_user r \<and> ir_project r = Some pid \<and>
     (case read_marker_of m pid of None \<Rightarrow> True
      | Some k \<Rightarrow> mk_created k < ir_created r \<or> (ir_created r = mk_created k \<and> (case mk_message k of None \<Rightarrow> [] | Some x \<Rightarrow> x) < ir_id r)))
     (inbox_rows m)"

definition unread :: "mdb \<Rightarrow> string \<Rightarrow> nat" where
  "unread m pid = length (unread_rows m pid)"

record conversation_item =
  ci_id :: string
  ci_thread :: string
  ci_project :: "string option"
  ci_kind :: string
  ci_sender :: "string option"
  ci_subject :: string
  ci_body :: string
  ci_refs :: pyval
  ci_segments :: pyval
  ci_reply :: "string option"
  ci_created :: int

definition conversation_item_of :: "inbox_row \<Rightarrow> conversation_item" where
  "conversation_item_of r = \<lparr>ci_id = ir_id r, ci_thread = ir_thread r, ci_project = ir_project r,
     ci_kind = (if ir_user r then ''driver'' else ''user''), ci_sender = ir_sender r, ci_subject = ir_subject r, ci_body = ir_body r,
     ci_refs = ir_refs r, ci_segments = (case ir_segments r of None \<Rightarrow> PList [] | Some s \<Rightarrow> s), ci_reply = ir_reply r, ci_created = ir_created r\<rparr>"

record conversation_page =
  cp_items :: "conversation_item list"
  cp_more :: bool
  cp_next :: "(int \<times> string) option"
  cp_total :: nat
  cp_unread :: nat
  cp_marker :: "read_marker option"

definition list_user_conversation :: "caller \<Rightarrow> string \<Rightarrow> pyval \<Rightarrow> (int \<times> string) option \<Rightarrow> mdb \<Rightarrow> conversation_page result" where
  "list_user_conversation c pid limit cursor m =
     bindE (refuse_private_read c) (\<lambda>_.
     bindE (check_limit limit 1 200) (\<lambda>n.
     bindE (get_project (state m) pid) (\<lambda>_.
     case newest_page row_key (nat n) cursor (conversation pid m) of (page, cont) \<Rightarrow>
     Inr \<lparr>cp_items = map conversation_item_of page, cp_more = cont,
          cp_next = (if cont then Some (row_key (last page)) else None),
          cp_total = length (conversation pid m), cp_unread = unread m pid, cp_marker = read_marker_of m pid\<rparr>)))"

text \<open>\<open>mark_user_conversation_read\<close>: the marker moves to a row of this conversation, never backwards.\<close>

definition mark_user_conversation_read :: "env \<Rightarrow> caller \<Rightarrow> string \<Rightarrow> string \<Rightarrow> mdb \<Rightarrow> ((bool \<times> read_marker option \<times> nat) \<times> mdb) result" where
  "mark_user_conversation_read ev c pid mid m =
     bindE (raise_if (mid = []) (StateGraphError ''invalid_request'')) (\<lambda>_.
     bindE (raise_if (has_driver c \<or> \<not> by_trusted c \<or> \<not> is_owner (by_actor c)) (StateGraphError ''user_identity_required'')) (\<lambda>_.
     bindE (get_project (state m) pid) (\<lambda>_.
     bindE (require_some (find (\<lambda>r. ir_id r = mid \<and> in_conversation pid r) (inbox_rows m)) (StateGraphError ''unknown_message'')) (\<lambda>row.
     let advanced = (case read_marker_of m pid of None \<Rightarrow> True
           | Some k \<Rightarrow> mk_created k < ir_created row \<or> (ir_created row = mk_created k \<and> (case mk_message k of None \<Rightarrow> [] | Some x \<Rightarrow> x) < mid));
         m' = (if advanced
               then m\<lparr>read_markers := filter (\<lambda>k. mk_project k \<noteq> pid) (read_markers m) @
                        [\<lparr>mk_project = pid, mk_created = ir_created row, mk_message = Some mid, mk_updated = now_at ev\<rparr>]\<rparr>
               else m) in
     Inr ((advanced, read_marker_of m' pid, unread m' pid), m')))))"

text \<open>\<open>user_conversation_unread\<close>: the badge per project; a driver sees only the projects it is a member of.\<close>

definition user_conversation_unread :: "caller \<Rightarrow> string option \<Rightarrow> mdb \<Rightarrow> ((string \<times> nat) list \<times> nat) result" where
  "user_conversation_unread c project m =
     bindE (refuse_private_read c) (\<lambda>_.
     bindE (case project of
              Some pid \<Rightarrow> bindE (get_project (state m) pid) (\<lambda>_. Inr [pid])
            | None \<Rightarrow>
                let named = remdups (List.map_filter (\<lambda>r. if ir_user r then ir_project r else None) (inbox_rows m)) in
                Inr (if has_driver c
                     then filter (\<lambda>p. list_ex (\<lambda>r. rm_project r = p \<and> Some (rm_driver r) = by_driver c \<and> rm_member r) (reg_members m)) named
                     else named)) (\<lambda>pids.
     let counts = map (\<lambda>p. (p, unread m p)) pids in
     Inr (counts, sum_list (map snd counts))))"

text \<open>\<open>list_user_messages\<close>: the newest messages the drivers sent this project's user.\<close>

definition list_user_messages :: "caller \<Rightarrow> string \<Rightarrow> pyval \<Rightarrow> mdb \<Rightarrow> (inbox_row list \<times> nat \<times> bool) result" where
  "list_user_messages c pid limit m =
     bindE (refuse_private_read c) (\<lambda>_.
     bindE (check_limit limit 1 200) (\<lambda>n.
     bindE (get_project (state m) pid) (\<lambda>_.
     let mine = filter (\<lambda>r. ir_user r \<and> ir_project r = Some pid) (inbox_rows m) in
     case newest_page row_key (nat n) None mine of (page, cont) \<Rightarrow> Inr (page, length mine, cont))))"

section \<open>A driver reads its inbox\<close>

text \<open>
  \<open>d.seq > ? ORDER BY d.seq\<close> reads upward from a sequence number, which is downward from its negation;
  a delivery without its message is dropped by the join.
\<close>

definition seq_key :: "inbox_dlv \<Rightarrow> int" where
  "seq_key d = - ix_seq d"

definition inbox_of :: "string \<Rightarrow> mdb \<Rightarrow> inbox_dlv list" where
  "inbox_of t m = filter (\<lambda>d. ix_target d = t \<and> ix_message d \<in> set (map ir_id (inbox_rows m))) (inbox_dlvs m)"

definition list_driver_messages :: "reg_env \<Rightarrow> caller \<Rightarrow> string option \<Rightarrow> pyval \<Rightarrow> pyval \<Rightarrow> mdb \<Rightarrow> ((inbox_dlv list \<times> int \<times> bool) \<times> mdb) result" where
  "list_driver_messages ev c driver after limit m =
     bindE (refuse_private_read c) (\<lambda>_.
     let d = (if nonempty driver then driver else by_driver c) in
     bindE (authorize c d False None m) (\<lambda>_.
     bindE (case after of PInt i \<Rightarrow> if 0 \<le> i then Inr i else Inl (StateGraphError ''invalid_request'')
              | _ \<Rightarrow> Inl (StateGraphError ''invalid_request'')) (\<lambda>aft.
     bindE (check_limit limit 1 100) (\<lambda>n.
     let m1 = touch_driver ev (case by_driver c of None \<Rightarrow> [] | Some x \<Rightarrow> x) m in
     bindE (require_some d (StateGraphError ''unknown_driver'')) (\<lambda>t.
     bindE (inbox_driver m1 t) (\<lambda>_.
     case newest_page seq_key (nat n) (Some (- aft)) (inbox_of t m1) of (page, cont) \<Rightarrow>
     Inr ((page, if cont then ix_seq (last page) else max aft (max_seq m1 t), cont), m1)))))))"

text \<open>\<open>active_standing\<close>: the open standing messages of the calling driver, at most eight, and their number.\<close>

definition active_standing :: "caller \<Rightarrow> mdb \<Rightarrow> (inbox_dlv list \<times> nat) result" where
  "active_standing c m =
     bindE (authorize c (by_driver c) False None m) (\<lambda>_.
     if \<not> has_driver c then Inr ([], 0)
     else let open_rows = sort_key ix_seq (filter (\<lambda>d. Some (ix_target d) = by_driver c \<and> ix_status d \<noteq> Resolved \<and>
                  list_ex (\<lambda>r. ir_id r = ix_message d \<and> ir_mode r = Standing) (inbox_rows m)) (inbox_dlvs m)) in
          Inr (take 8 open_rows, length open_rows))"

section \<open>Acknowledging and resolving\<close>

definition delivery_json :: "inbox_dlv \<Rightarrow> pyval" where
  "delivery_json d = PDict [(''delivery_id'', PStr (ix_id d)), (''message_id'', PStr (ix_message d)), (''target_driver_id'', PStr (ix_target d)),
     (''seq'', PInt (ix_seq d)), (''status'', PStr (delivery_status_name (ix_status d))), (''version'', PInt (ix_version d))]"

definition transition_body :: "inbox_dlv \<Rightarrow> int \<Rightarrow> delivery_status \<Rightarrow> mdb \<Rightarrow> (inbox_result \<times> mdb) result" where
  "transition_body row v target m =
     bindE (raise_if (ix_version row \<noteq> v) (StateGraphError ''version_conflict'')) (\<lambda>_.
     bindE (raise_if (ix_status row \<noteq> (if target = Acknowledged then Unread else Acknowledged)) (StateGraphError ''invalid_transition'')) (\<lambda>_.
     Inr ((delivery_json (row\<lparr>ix_status := target, ix_version := v + 1\<rparr>), None),
       m\<lparr>inbox_dlvs := update_where (\<lambda>d. ix_id d = ix_id row \<and> ix_version d = v)
            (\<lambda>d. d\<lparr>ix_status := target, ix_version := ix_version d + 1\<rparr>) (inbox_dlvs m)\<rparr>)))"

definition transition :: "caller \<Rightarrow> string \<Rightarrow> pyval \<Rightarrow> pyval \<Rightarrow> delivery_status \<Rightarrow> string option \<Rightarrow> mdb \<Rightarrow> (inbox_result \<times> mdb) result" where
  "transition c did expected key target reason m =
     bindE (case expected of PInt i \<Rightarrow> if 1 \<le> i then Inr i else Inl (StateGraphError ''invalid_request'')
              | _ \<Rightarrow> Inl (StateGraphError ''invalid_request'')) (\<lambda>v.
     bindE (check_request key 1 320) (\<lambda>k.
     bindE (require_some (find (\<lambda>d. ix_id d = did) (inbox_dlvs m)) (StateGraphError ''unknown_delivery'')) (\<lambda>row.
     bindE (authorize c (Some (ix_target row)) True reason m) (\<lambda>_.
     once inbox_replay inbox_record (by_actor c, delivery_status_name target, k)
       (PList [PStr did, PInt v, PStr (delivery_status_name target), py_str_opt reason])
       (transition_body row v target) m))))"

definition acknowledge_driver_message :: "caller \<Rightarrow> string \<Rightarrow> pyval \<Rightarrow> pyval \<Rightarrow> string option \<Rightarrow> mdb \<Rightarrow> (inbox_result \<times> mdb) result" where
  "acknowledge_driver_message c did expected key reason m = transition c did expected key Acknowledged reason m"

definition resolve_driver_message :: "caller \<Rightarrow> string \<Rightarrow> pyval \<Rightarrow> pyval \<Rightarrow> string option \<Rightarrow> mdb \<Rightarrow> (inbox_result \<times> mdb) result" where
  "resolve_driver_message c did expected key reason m = transition c did expected key Resolved reason m"

section \<open>Notices of the ownership layer\<close>

text \<open>\<open>deliver_notice\<close> on the full tables: one message with one delivery, or skipped for a target with no inbox.\<close>

definition deliver_inbox_notice :: "env \<Rightarrow> string \<Rightarrow> string option \<Rightarrow> string option \<Rightarrow> string \<Rightarrow> string \<Rightarrow> string \<Rightarrow> pyval \<Rightarrow> mdb
    \<Rightarrow> (inbox_dlv option \<times> mdb) result" where
  "deliver_inbox_notice ev target sender pid kind subject body refs m =
     (if find_driver target m = None then Inr (None, m)
      else bindE (insert_message \<lparr>ir_id = fresh_id ev [] 8, ir_thread = fresh_id ev [] 8, ir_sender = sender, ir_project = pid, ir_kind = kind,
                   ir_mode = Transient, ir_subject = subject, ir_body = body, ir_refs = refs, ir_reply = None, ir_created = now_at ev,
                   ir_user = False, ir_channel = False, ir_segments = None\<rparr> m) (\<lambda>m1.
           bindE (insert_delivery (fresh_id ev [] 9) (fresh_id ev [] 8) target m1) (\<lambda>(d, m2).
           Inr (find (\<lambda>x. ix_id x = fresh_id ev [] 9) (inbox_dlvs m2), m2))))"

end
