(* ===== verification/Inbox_Inv.thy ===== *)
theory Inbox_Inv
  imports Inbox
begin

text \<open>
  What the driver inbox keeps: identifiers are unique, every target's deliveries are numbered one, two,
  three without gaps, the version of a delivery tells its status, a request is recorded once, and a read
  marker names a row of its own conversation. Messages and recorded requests are permanent, deliveries
  only move forward, and read markers never move backwards.
\<close>

section \<open>Sequence numbers\<close>

lemma fold_max_upt: "fold (\<lambda>x acc. max acc x) (map int [1..<Suc n]) 0 = int n"
  by (induction n) (simp_all add: fold_append)

lemma fold_max_map: "fold (\<lambda>d acc. max acc (f d)) ds (a :: int) = fold (\<lambda>x acc. max acc x) (map f ds) a"
  by (induction ds arbitrary: a) simp_all

lemma max_seq_dense:
  assumes "dense ix_target ix_seq (inbox_dlvs m)"
  shows "max_seq m t = int (length (filter (\<lambda>d. ix_target d = t) (inbox_dlvs m)))"
proof -
  have "map ix_seq (filter (\<lambda>d. ix_target d = t) (inbox_dlvs m)) = map int [1..<Suc (length (filter (\<lambda>d. ix_target d = t) (inbox_dlvs m)))]"
    using assms unfolding dense_def by blast
  then show ?thesis by (simp only: max_seq_def fold_max_map[where f = ix_seq] fold_max_upt)
qed

interpretation inbox_numbers: sequence_numbers ix_target ix_seq inbox_dlvs next_seq "\<lambda>_. True"
  by unfold_locales (simp add: next_seq_def max_seq_dense)

section \<open>The invariant\<close>

fun status_version :: "delivery_status \<Rightarrow> int" where
  "status_version Unread = 1"
| "status_version Acknowledged = 2"
| "status_version Resolved = 3"

definition marker_ok :: "mdb \<Rightarrow> read_marker \<Rightarrow> bool" where
  "marker_ok m k \<longleftrightarrow> (\<exists>r \<in> set (inbox_rows m). in_conversation (mk_project k) r \<and> mk_message k = Some (ir_id r) \<and> mk_created k = ir_created r)"

definition inbox_inv :: "mdb \<Rightarrow> bool" where
  "inbox_inv m \<longleftrightarrow>
     unique_on ir_id (inbox_rows m) \<and> unique_on ix_id (inbox_dlvs m) \<and> unique_on request_id (inbox_requests m) \<and>
     unique_on mk_project (read_markers m) \<and> dense ix_target ix_seq (inbox_dlvs m) \<and>
     (\<forall>d \<in> set (inbox_dlvs m). ix_message d \<in> set (map ir_id (inbox_rows m)) \<and> ix_version d = status_version (ix_status d)) \<and>
     (\<forall>k \<in> set (read_markers m). marker_ok m k)"

lemma inbox_invD:
  assumes "inbox_inv m"
  shows inbox_ids: "unique_on ir_id (inbox_rows m)"
    and inbox_dlv_ids: "unique_on ix_id (inbox_dlvs m)"
    and inbox_request_ids: "unique_on request_id (inbox_requests m)"
    and inbox_marker_ids: "unique_on mk_project (read_markers m)"
    and inbox_dense: "dense ix_target ix_seq (inbox_dlvs m)"
    and inbox_dlv_ok: "d \<in> set (inbox_dlvs m) \<Longrightarrow> ix_message d \<in> set (map ir_id (inbox_rows m)) \<and> ix_version d = status_version (ix_status d)"
    and inbox_marker_ok: "k \<in> set (read_markers m) \<Longrightarrow> marker_ok m k"
  using assms unfolding inbox_inv_def by blast+

definition moves_inbox :: "inbox_dlv \<Rightarrow> inbox_dlv \<Rightarrow> bool" where
  "moves_inbox d d' \<longleftrightarrow> ix_id d' = ix_id d \<and> ix_message d' = ix_message d \<and> ix_target d' = ix_target d \<and> ix_seq d' = ix_seq d \<and>
     ix_version d \<le> ix_version d' \<and> (ix_version d' = ix_version d \<longrightarrow> d' = d)"

interpretation inbox_deliveries: row_evolution moves_inbox
  by unfold_locales (auto simp: moves_inbox_def)

definition marker_at_least :: "mdb \<Rightarrow> mdb \<Rightarrow> bool" where
  "marker_at_least m m' \<longleftrightarrow> (\<forall>pid k. read_marker_of m pid = Some k \<longrightarrow>
     (\<exists>k'. read_marker_of m' pid = Some k' \<and> marker_key k \<le> marker_key k'))"

lemma marker_at_least_refl [simp]: "marker_at_least m m"
  by (simp add: marker_at_least_def)

lemma marker_at_least_trans: "marker_at_least m m' \<Longrightarrow> marker_at_least m' m'' \<Longrightarrow> marker_at_least m m''"
  unfolding marker_at_least_def by (meson order_trans)

definition inbox_evolves :: "mdb \<Rightarrow> mdb \<Rightarrow> bool" where
  "inbox_evolves m m' \<longleftrightarrow> prefix (inbox_rows m) (inbox_rows m') \<and> grows moves_inbox (inbox_dlvs m) (inbox_dlvs m') \<and>
     prefix (inbox_requests m) (inbox_requests m') \<and> marker_at_least m m'"

lemma inbox_evolves_refl [simp]: "inbox_evolves m m"
  by (simp add: inbox_evolves_def inbox_deliveries.table_refl)

lemma inbox_evolves_trans: "inbox_evolves m m' \<Longrightarrow> inbox_evolves m' m'' \<Longrightarrow> inbox_evolves m m''"
  unfolding inbox_evolves_def
  using inbox_deliveries.table_trans[of "inbox_dlvs m" "inbox_dlvs m'" "inbox_dlvs m''"] marker_at_least_trans[of m m' m'']
    prefix_order.trans[of "inbox_rows m"] prefix_order.trans[of "inbox_requests m"] by blast

definition inbox_safe :: "mdb \<Rightarrow> mdb \<Rightarrow> bool" where
  "inbox_safe m m' \<longleftrightarrow> (inbox_inv m \<longrightarrow> inbox_inv m' \<and> inbox_evolves m m')"

lemma inbox_safe_refl [simp]: "inbox_safe m m"
  by (simp add: inbox_safe_def)

lemma inbox_safe_trans: "inbox_safe m m' \<Longrightarrow> inbox_safe m' m'' \<Longrightarrow> inbox_safe m m''"
  unfolding inbox_safe_def using inbox_evolves_trans by blast

definition same_inbox :: "mdb \<Rightarrow> mdb \<Rightarrow> bool" where
  "same_inbox m m' \<longleftrightarrow> inbox_rows m' = inbox_rows m \<and> inbox_dlvs m' = inbox_dlvs m \<and> inbox_requests m' = inbox_requests m \<and>
     read_markers m' = read_markers m"

lemma same_inbox_safe: "same_inbox m m' \<Longrightarrow> inbox_safe m m'"
  by (simp add: same_inbox_def inbox_safe_def inbox_inv_def inbox_evolves_def marker_ok_def marker_at_least_def read_marker_of_def
      inbox_deliveries.table_refl)

lemma inbox_inv_empty: "inbox_inv empty_mdb"
  by (simp add: inbox_inv_def empty_mdb_def)

section \<open>The writes\<close>

lemma insert_message_Inr:
  "insert_message row m = Inr m' \<longleftrightarrow> (\<forall>r \<in> set (inbox_rows m). ir_id r \<noteq> ir_id row) \<and> m' = m\<lparr>inbox_rows := inbox_rows m @ [row]\<rparr>"
  by (auto simp: insert_message_def image_iff)

lemma insert_message_safe: "insert_message row m = Inr m' \<Longrightarrow> inbox_safe m m'"
  unfolding inbox_safe_def inbox_inv_def
  by (auto simp: insert_message_Inr unique_on_snoc inbox_evolves_def inbox_deliveries.table_refl marker_ok_def marker_at_least_def read_marker_of_def)

lemma insert_delivery_Inr:
  "insert_delivery did mid t m = Inr (d, m') \<longleftrightarrow> (\<forall>x \<in> set (inbox_dlvs m). ix_id x \<noteq> did) \<and>
     (\<forall>x \<in> set (inbox_dlvs m). \<not> (ix_message x = mid \<and> ix_target x = t)) \<and>
     d = PDict [(''delivery_id'', PStr did), (''target_driver_id'', PStr t), (''seq'', PInt (next_seq m t)), (''status'', PStr ''unread''), (''version'', PInt 1)] \<and>
     m' = m\<lparr>inbox_dlvs := inbox_dlvs m @ [\<lparr>ix_id = did, ix_message = mid, ix_target = t, ix_seq = next_seq m t, ix_status = Unread, ix_version = 1\<rparr>]\<rparr>"
  by (auto simp: insert_delivery_def list_ex_iff image_iff)

lemma insert_delivery_safe:
  assumes "insert_delivery did mid t m = Inr (d, m')" "mid \<in> set (map ir_id (inbox_rows m))"
  shows "inbox_safe m m'"
  unfolding inbox_safe_def
proof
  assume inv: "inbox_inv m"
  let ?row = "\<lparr>ix_id = did, ix_message = mid, ix_target = t, ix_seq = next_seq m t, ix_status = Unread, ix_version = 1\<rparr>"
  have m': "m' = m\<lparr>inbox_dlvs := inbox_dlvs m @ [?row]\<rparr>" and new: "\<forall>x \<in> set (inbox_dlvs m). ix_id x \<noteq> did"
    using assms(1) by (simp_all add: insert_delivery_Inr)
  have "dense ix_target ix_seq (inbox_dlvs m @ [?row])"
    using inv by (intro inbox_numbers.dense_snoc[of m ?row t]) (simp_all add: inbox_inv_def)
  then have "inbox_inv m'"
    using inv new assms(2) by (auto simp: m' inbox_inv_def unique_on_snoc marker_ok_def)
  moreover have "inbox_evolves m m'"
    by (simp add: m' inbox_evolves_def marker_at_least_def read_marker_of_def inbox_deliveries.table_append)
  ultimately show "inbox_inv m' \<and> inbox_evolves m m'" by blast
qed

lemma deliver_all_frame: "deliver_all ev mid i ts m = Inr (ds, m') \<Longrightarrow> \<exists>new. m' = m\<lparr>inbox_dlvs := inbox_dlvs m @ new\<rparr>"
proof (induction ts arbitrary: i m ds m')
  case (Cons t ts)
  obtain d m1 ds' where 1: "insert_delivery (fresh_id ev [] i) mid t m = Inr (d, m1)" "deliver_all ev mid (Suc i) ts m1 = Inr (ds', m')"
    using Cons.prems by auto
  then obtain new where "m' = m1\<lparr>inbox_dlvs := inbox_dlvs m1 @ new\<rparr>" using Cons.IH by blast
  then show ?case using 1(1) by (auto simp: insert_delivery_Inr)
qed (auto intro: exI[of _ "[]"])

lemma deliver_all_safe: "deliver_all ev mid i ts m = Inr (ds, m') \<Longrightarrow> mid \<in> set (map ir_id (inbox_rows m)) \<Longrightarrow> inbox_safe m m'"
proof (induction ts arbitrary: i m ds m')
  case (Cons t ts)
  obtain d m1 ds' where 1: "insert_delivery (fresh_id ev [] i) mid t m = Inr (d, m1)" "deliver_all ev mid (Suc i) ts m1 = Inr (ds', m')"
    using Cons.prems by auto
  have "inbox_rows m1 = inbox_rows m" using 1(1) by (simp add: insert_delivery_Inr)
  then have "inbox_safe m1 m'" using Cons.IH[OF 1(2)] Cons.prems(2) by simp
  then show ?case using insert_delivery_safe[OF 1(1) Cons.prems(2)] inbox_safe_trans by blast
qed simp

text \<open>A message with its deliveries.\<close>

lemma message_delivered_safe:
  assumes "insert_message row m = Inr m1" "deliver_all ev (ir_id row) i ts m1 = Inr (ds, m2)"
  shows "inbox_safe m m2" "inbox_requests m2 = inbox_requests m"
proof -
  have m1: "m1 = m\<lparr>inbox_rows := inbox_rows m @ [row]\<rparr>" using assms(1) by (simp add: insert_message_Inr)
  show "inbox_safe m m2"
    using insert_message_safe[OF assms(1)] deliver_all_safe[OF assms(2)] inbox_safe_trans by (auto simp: m1)
  show "inbox_requests m2 = inbox_requests m" using deliver_all_frame[OF assms(2)] by (auto simp: m1)
qed

section \<open>Recorded requests\<close>

interpretation inbox_log: request_log inbox_replay inbox_record "inbox_requests :: mdb \<Rightarrow> _" "\<lambda>r. (fst r, None)"
proof unfold_locales
  fix s s' :: mdb and q p and r :: inbox_result
  assume none: "inbox_replay s q p = Inr None" and same: "inbox_requests s' = inbox_requests s"
  obtain act op k where q: "q = (act, op, k)" by (cases q)
  have "find (same_request act [] op k) (inbox_requests s) = None"
    using none by (auto simp: inbox_replay_def q split: option.splits if_splits)
  then show "inbox_replay (inbox_record q p r s') q p = Inr (Some (fst r, None))"
    using same by (simp add: inbox_replay_def inbox_record_def q find_append_row same_request_def)
next
  fix s :: mdb and q p and r :: inbox_result
  assume "inbox_replay s q p = Inr (Some r)"
  then show "(fst r, None) = r" by (auto simp: inbox_replay_def split: prod.splits option.splits if_splits)
qed

lemma once_safe:
  assumes run: "once inbox_replay inbox_record q p body m = Inr (r, m')"
    and body: "\<And>r' m1. body m = Inr (r', m1) \<Longrightarrow> inbox_safe m m1 \<and> inbox_requests m1 = inbox_requests m"
  shows "inbox_safe m m'"
  using run
proof (cases rule: once_cases)
  case hit
  then show ?thesis by simp
next
  case (ran m1)
  obtain act op k where q: "q = (act, op, k)" by (cases q)
  have new: "\<forall>x \<in> set (inbox_requests m). \<not> same_request act [] op k x"
    using ran(1) by (auto simp: inbox_replay_def q find_None_set split: option.splits if_splits)
  have b: "inbox_safe m m1" "inbox_requests m1 = inbox_requests m" using body[OF ran(2)] by auto
  have "inbox_safe m1 m'"
    using new b(2) unfolding inbox_safe_def inbox_inv_def ran(3) inbox_record_def q
    by (auto simp: unique_on_snoc request_id_def same_request_def inbox_evolves_def inbox_deliveries.table_refl marker_ok_def
        marker_at_least_def read_marker_of_def)
  then show ?thesis using b(1) inbox_safe_trans by blast
qed

section \<open>Every operation\<close>

lemma send_body_safe:
  assumes "send_body ev c a subject body mode refs m = Inr (r, m')"
  shows "inbox_safe m m' \<and> inbox_requests m' = inbox_requests m"
proof -
  obtain row m1 ts ds where "insert_message row m = Inr m1" "deliver_all ev (ir_id row) 1 ts m1 = Inr (ds, m')"
    using assms by (fastforce simp: send_body_def Let_def)
  then show ?thesis using message_delivered_safe by blast
qed

lemma send_safe: "send_driver_message ev c a m = Inr (r, m') \<Longrightarrow> inbox_safe m m'"
  unfolding send_driver_message_def by (auto elim!: once_safe dest: send_body_safe)

lemma user_message_body_safe:
  assumes "user_message_body ev d subject body pid refs reply segs m = Inr (r, m')"
  shows "inbox_safe m m' \<and> inbox_requests m' = inbox_requests m"
proof -
  obtain row where "insert_message row m = Inr m'" using assms by (fastforce simp: user_message_body_def Let_def)
  then show ?thesis using insert_message_safe by (auto simp: insert_message_Inr)
qed

lemma user_message_safe: "send_user_message ev c key subject body pid refs reply segs m = Inr (r, m') \<Longrightarrow> inbox_safe m m'"
  unfolding send_user_message_def
  by (auto elim!: once_safe dest: user_message_body_safe)

lemma conversation_body_safe:
  assumes "conversation_body ev pid subject body reply target m = Inr (r, m')"
  shows "inbox_safe m m' \<and> inbox_requests m' = inbox_requests m"
proof -
  obtain row m1 ts ds where "insert_message row m = Inr m1" "deliver_all ev (ir_id row) 1 ts m1 = Inr (ds, m')"
    using assms by (fastforce simp: conversation_body_def Let_def)
  then show ?thesis using message_delivered_safe by blast
qed

lemma conversation_send_safe: "send_user_conversation_message ev c key pid body subject reply target m = Inr (r, m') \<Longrightarrow> inbox_safe m m'"
  unfolding send_user_conversation_message_def by (auto elim!: once_safe dest: conversation_body_safe)

lemma transition_body_safe:
  assumes "transition_body row v target m = Inr (r, m')" "target \<noteq> Unread" "find (\<lambda>d. ix_id d = did) (inbox_dlvs m) = Some row"
  shows "inbox_safe m m' \<and> inbox_requests m' = inbox_requests m"
proof -
  let ?P = "\<lambda>d. ix_id d = ix_id row \<and> ix_version d = v" and ?f = "\<lambda>d. d\<lparr>ix_status := target, ix_version := ix_version d + 1\<rparr>"
  have m': "m' = m\<lparr>inbox_dlvs := update_where ?P ?f (inbox_dlvs m)\<rparr>"
    and row: "ix_version row = v" "ix_status row = (if target = Acknowledged then Unread else Acknowledged)" "row \<in> set (inbox_dlvs m)"
    using assms(1,3) find_SomeD by (fastforce simp: transition_body_def)+
  have "inbox_safe m m'"
    unfolding inbox_safe_def
  proof
    assume inv: "inbox_inv m"
    have only: "d = row" if "d \<in> set (inbox_dlvs m)" "?P d" for d
      using unique_onD[of ix_id "inbox_dlvs m" d row] inv that row(3) by (simp add: inbox_inv_def)
    have "status_version target = v + 1"
      using inv row assms(2) by (cases target) (auto simp: inbox_inv_def)
    moreover have same: "inbox_rows m' = inbox_rows m" "inbox_requests m' = inbox_requests m" "read_markers m' = read_markers m"
      by (simp_all add: m')
    have uniq: "unique_on ix_id (inbox_dlvs m')" "dense ix_target ix_seq (inbox_dlvs m')"
      using inbox_dlv_ids[OF inv] inbox_dense[OF inv] by (simp_all add: m' unique_on_update dense_update)
    have marks: "\<forall>k \<in> set (read_markers m). marker_ok m' k" using inbox_marker_ok[OF inv] by (simp add: marker_ok_def same)
    ultimately have "\<forall>d \<in> set (inbox_dlvs m'). ix_message d \<in> set (map ir_id (inbox_rows m')) \<and> ix_version d = status_version (ix_status d)"
      using inbox_dlv_ok[OF inv] by (auto simp: m' update_where_def)
    then have "inbox_inv m'"
      unfolding inbox_inv_def
      using inbox_ids[OF inv] inbox_request_ids[OF inv] inbox_marker_ids[OF inv] uniq marks unfolding same by blast
    moreover have "grows moves_inbox (inbox_dlvs m) (update_where ?P ?f (inbox_dlvs m))"
      by (rule inbox_deliveries.table_update_grows) (simp add: moves_inbox_def)
    ultimately show "inbox_inv m' \<and> inbox_evolves m m'" by (simp add: inbox_evolves_def m' marker_at_least_def read_marker_of_def)
  qed
  then show ?thesis by (simp add: m')
qed

lemma transition_safe:
  assumes "transition c did expected key target reason m = Inr (r, m')" "target \<noteq> Unread"
  shows "inbox_safe m m'"
proof -
  obtain v k row where row: "find (\<lambda>d. ix_id d = did) (inbox_dlvs m) = Some row"
    and run: "once inbox_replay inbox_record (by_actor c, delivery_status_name target, k)
       (PList [PStr did, PInt v, PStr (delivery_status_name target), py_str_opt reason]) (transition_body row v target) m = Inr (r, m')"
    using assms(1) unfolding transition_def by auto
  show ?thesis using once_safe[OF run] transition_body_safe[OF _ assms(2) row] by blast
qed

lemma read_marker_replaced:
  "mk_project k = pid \<Longrightarrow> read_marker_of (m\<lparr>read_markers := filter (\<lambda>k. mk_project k \<noteq> pid) (read_markers m) @ [k]\<rparr>) p =
     (if p = pid then Some k else read_marker_of m p)"
proof -
  assume k: "mk_project k = pid"
  have flt: "find (\<lambda>k. mk_project k = p) (filter (\<lambda>k. mk_project k \<noteq> pid) ks) = (if p = pid then None else find (\<lambda>k. mk_project k = p) ks)" for ks p
    by (induction ks) auto
  show ?thesis using k by (cases "p = pid") (auto simp: read_marker_of_def find_append_row flt split: option.splits)
qed

text \<open>What marking does: the marker is the later of the old one and the row named.\<close>

lemma mark_effect:
  assumes "mark_user_conversation_read ev c pid mid m = Inr (res, m')" "unique_on ir_id (inbox_rows m)"
  obtains row where "row \<in> set (inbox_rows m)" "ir_id row = mid" "in_conversation pid row"
    "fst res = (case read_marker_of m pid of None \<Rightarrow> True | Some k \<Rightarrow> marker_key k < row_key row)"
    "m' = (if fst res then m\<lparr>read_markers := filter (\<lambda>k. mk_project k \<noteq> pid) (read_markers m) @
        [\<lparr>mk_project = pid, mk_created = ir_created row, mk_message = Some mid, mk_updated = now_at ev\<rparr>]\<rparr> else m)"
    "snd (snd res) = unread m' pid"
proof -
  obtain row where row: "find (\<lambda>r. ir_id r = mid \<and> in_conversation pid r) (inbox_rows m) = Some row"
    and adv: "fst res = (case read_marker_of m pid of None \<Rightarrow> True
           | Some k \<Rightarrow> mk_created k < ir_created row \<or> (ir_created row = mk_created k \<and> (case mk_message k of None \<Rightarrow> [] | Some x \<Rightarrow> x) < mid))"
    and m': "m' = (if fst res then m\<lparr>read_markers := filter (\<lambda>k. mk_project k \<noteq> pid) (read_markers m) @
        [\<lparr>mk_project = pid, mk_created = ir_created row, mk_message = Some mid, mk_updated = now_at ev\<rparr>]\<rparr> else m)"
    and un: "snd (snd res) = unread m' pid"
    using assms(1) unfolding mark_user_conversation_read_def Let_def by auto
  have mem: "row \<in> set (inbox_rows m)" "ir_id row = mid" "in_conversation pid row" using find_SomeD[OF row] by auto
  have "fst res = (case read_marker_of m pid of None \<Rightarrow> True | Some k \<Rightarrow> marker_key k < row_key row)"
    unfolding adv using mem(2) by (auto simp: marker_key_def row_key_def less_prod_def split: option.splits)
  from that[OF mem this m' un] show thesis .
qed

lemma mark_safe: "mark_user_conversation_read ev c pid mid m = Inr (res, m') \<Longrightarrow> inbox_safe m m'"
  unfolding inbox_safe_def
proof
  assume run: "mark_user_conversation_read ev c pid mid m = Inr (res, m')" and inv: "inbox_inv m"
  have "unique_on ir_id (inbox_rows m)" using inv by (simp add: inbox_inv_def)
  then obtain row where row: "row \<in> set (inbox_rows m)" "ir_id row = mid" "in_conversation pid row"
    and adv: "fst res = (case read_marker_of m pid of None \<Rightarrow> True | Some k \<Rightarrow> marker_key k < row_key row)"
    and m': "m' = (if fst res then m\<lparr>read_markers := filter (\<lambda>k. mk_project k \<noteq> pid) (read_markers m) @
        [\<lparr>mk_project = pid, mk_created = ir_created row, mk_message = Some mid, mk_updated = now_at ev\<rparr>]\<rparr> else m)"
    by (rule mark_effect[OF run])
  let ?k = "\<lparr>mk_project = pid, mk_created = ir_created row, mk_message = Some mid, mk_updated = now_at ev\<rparr>"
  show "inbox_inv m' \<and> inbox_evolves m m'"
  proof (cases "fst res")
    case True
    have "unique_on mk_project (filter (\<lambda>k. mk_project k \<noteq> pid) (read_markers m) @ [?k])"
      using inv by (auto simp: inbox_inv_def unique_on_def distinct_map_filter)
    moreover have "marker_ok m ?k" using row by (auto simp: marker_ok_def)
    ultimately have "inbox_inv m'" using inv True by (auto simp: m' inbox_inv_def marker_ok_def)
    moreover have "marker_at_least m m'"
      using adv True row(2) by (auto simp: m' marker_at_least_def read_marker_replaced marker_key_def row_key_def intro: less_imp_le)
    ultimately show ?thesis using True by (simp add: m' inbox_evolves_def inbox_deliveries.table_refl)
  qed (use inv m' in simp)
qed

lemma notice_safe: "deliver_inbox_notice ev target sender pid kind subject body refs m = Inr (d, m') \<Longrightarrow> inbox_safe m m'"
proof -
  assume run: "deliver_inbox_notice ev target sender pid kind subject body refs m = Inr (d, m')"
  show ?thesis
  proof (cases "find_driver target m = None")
    case True
    then show ?thesis using run by (simp add: deliver_inbox_notice_def)
  next
    case False
    then obtain row m1 x where 1: "insert_message row m = Inr m1" "ir_id row = fresh_id ev [] 8"
        "insert_delivery (fresh_id ev [] 9) (fresh_id ev [] 8) target m1 = Inr (x, m')"
      using run by (fastforce simp: deliver_inbox_notice_def)
    then have "fresh_id ev [] 8 \<in> set (map ir_id (inbox_rows m1))" by (simp add: insert_message_Inr)
    then show ?thesis using insert_message_safe[OF 1(1)] insert_delivery_safe[OF 1(3)] inbox_safe_trans by blast
  qed
qed

section \<open>The inbox as a machine\<close>

inductive inbox_step :: "mdb \<Rightarrow> mdb \<Rightarrow> bool" where
  sent: "send_driver_message ev c a m = Inr (r, m') \<Longrightarrow> inbox_step m m'"
| user_sent: "send_user_message ev c key subject body pid refs reply segs m = Inr (r, m') \<Longrightarrow> inbox_step m m'"
| conversation_sent: "send_user_conversation_message ev c key pid body subject reply target m = Inr (r, m') \<Longrightarrow> inbox_step m m'"
| marked: "mark_user_conversation_read ev c pid mid m = Inr (res, m') \<Longrightarrow> inbox_step m m'"
| listed: "list_driver_messages re c driver after limit m = Inr (page, m') \<Longrightarrow> inbox_step m m'"
| acknowledged: "acknowledge_driver_message c did expected key reason m = Inr (r, m') \<Longrightarrow> inbox_step m m'"
| resolved: "resolve_driver_message c did expected key reason m = Inr (r, m') \<Longrightarrow> inbox_step m m'"
| noticed: "deliver_inbox_notice ev target sender project kind subj bod refs m = Inr (d, m') \<Longrightarrow> inbox_step m m'"
| other_tables: "same_inbox m m' \<Longrightarrow> inbox_step m m'"

lemma touch_same_inbox: "same_inbox m (touch_driver ev d m)"
  by (simp add: same_inbox_def touch_driver_def stamp_last_seen_def update_driver_def)

lemma list_driver_messages_state:
  "list_driver_messages ev c driver after limit m = Inr (page, m') \<Longrightarrow> m' = touch_driver ev (case by_driver c of None \<Rightarrow> [] | Some x \<Rightarrow> x) m"
  unfolding list_driver_messages_def Let_def by (auto simp: case_prod_beta)

lemma inbox_step_safe: "inbox_step m m' \<Longrightarrow> inbox_safe m m'"
proof (induction rule: inbox_step.induct)
  case (listed re c driver after limit m page m')
  then show ?case using list_driver_messages_state touch_same_inbox same_inbox_safe by metis
next
  case (acknowledged c did expected key reason m r m')
  then show ?case unfolding acknowledge_driver_message_def by (rule transition_safe) simp
next
  case (resolved c did expected key reason m r m')
  then show ?case unfolding resolve_driver_message_def by (rule transition_safe) simp
qed (auto intro: send_safe user_message_safe conversation_send_safe mark_safe notice_safe same_inbox_safe)

interpretation inbox_machine: machine empty_mdb inbox_step inbox_inv inbox_evolves
proof unfold_locales
  show "inbox_inv empty_mdb" by (rule inbox_inv_empty)
  show "inbox_inv m \<Longrightarrow> inbox_step m m' \<Longrightarrow> inbox_inv m' \<and> inbox_evolves m m'" for m m' using inbox_step_safe by (simp add: inbox_safe_def)
qed (simp, rule inbox_evolves_trans)

section \<open>Pages\<close>

lemma distinct_row_keys: "unique_on ir_id (inbox_rows m) \<Longrightarrow> distinct (map row_key (filter P (inbox_rows m)))"
proof -
  assume "unique_on ir_id (inbox_rows m)"
  then have "distinct (map row_key (inbox_rows m))"
    by (induction "inbox_rows m" arbitrary: m) (auto simp: unique_on_def row_key_def distinct_map inj_on_def)
  then show ?thesis by (rule distinct_map_filter)
qed

interpretation conversation_pages: keyset_pages row_key "\<lambda>m. set (conversation pid m)"
    "\<lambda>m b. newest_page row_key (Suc k) b (conversation pid m)" "Suc k" "\<lambda>m. unique_on ir_id (inbox_rows m)" for pid k
  by (rule keyset_pages_newest) (simp_all add: conversation_def distinct_row_keys)

lemma dense_distinct_target: "dense tgt num rows \<Longrightarrow> distinct (map num (filter (\<lambda>r. tgt r = t) rows))"
  by (simp add: dense_def distinct_map inj_on_def)

lemma distinct_seq_keys: "dense ix_target ix_seq (inbox_dlvs m) \<Longrightarrow> distinct (map seq_key (inbox_of t m))"
proof -
  assume "dense ix_target ix_seq (inbox_dlvs m)"
  then have "distinct (map ix_seq (filter (\<lambda>d. ix_message d \<in> set (map ir_id (inbox_rows m))) (filter (\<lambda>d. ix_target d = t) (inbox_dlvs m))))"
    using dense_distinct_target distinct_map_filter by blast
  then have "distinct (map ix_seq (inbox_of t m))" by (simp add: inbox_of_def conj_commute)
  then show ?thesis by (simp add: distinct_map inj_on_def seq_key_def)
qed

interpretation inbox_pages: keyset_pages seq_key "\<lambda>m. set (inbox_of t m)"
    "\<lambda>m b. newest_page seq_key (Suc k) b (inbox_of t m)" "Suc k" "\<lambda>m. dense ix_target ix_seq (inbox_dlvs m)" for t k
  by (rule keyset_pages_newest) (simp_all add: distinct_seq_keys)

text \<open>
  A client that reads the conversation page by page: it asks with the cursor the last page returned, as
  long as the page says there is more; the \<open>i\<close>-th fetch sees the \<open>i\<close>-th state. The result is the items of
  all pages and whether the client was told that history ends.
\<close>

primrec follow :: "caller \<Rightarrow> string \<Rightarrow> nat \<Rightarrow> (int \<times> string) option \<Rightarrow> mdb list \<Rightarrow> conversation_item list \<times> bool" where
  "follow c pid n cursor [] = ([], False)"
| "follow c pid n cursor (m # ms) = (case list_user_conversation c pid (PInt (int n)) cursor m of
     Inl e \<Rightarrow> ([], False)
   | Inr p \<Rightarrow> if cp_more p then (case follow c pid n (cp_next p) ms of (rest, ended) \<Rightarrow> (cp_items p @ rest, ended))
             else (cp_items p, True))"

definition item_key :: "conversation_item \<Rightarrow> int \<times> string" where
  "item_key i = (ci_created i, ci_id i)"

lemma item_key_of [simp]: "item_key (conversation_item_of r) = row_key r"
  by (simp add: item_key_def conversation_item_of_def row_key_def)

definition readable :: "caller \<Rightarrow> string \<Rightarrow> mdb \<Rightarrow> bool" where
  "readable c pid m \<longleftrightarrow> by_trusted c \<and> (\<exists>p. get_project (state m) pid = Inr p)"

lemma list_user_conversation_ok:
  assumes "readable c pid m" "1 \<le> n" "n \<le> 200"
  shows "list_user_conversation c pid (PInt n) cursor m =
    (case newest_page row_key (nat n) cursor (conversation pid m) of (page, cont) \<Rightarrow>
     Inr \<lparr>cp_items = map conversation_item_of page, cp_more = cont, cp_next = (if cont then Some (row_key (last page)) else None),
          cp_total = length (conversation pid m), cp_unread = unread m pid, cp_marker = read_marker_of m pid\<rparr>)"
  using assms by (auto simp: readable_def list_user_conversation_def refuse_private_read_def check_limit_def)

text \<open>Following the returned cursors is the walk over the rows of the conversation.\<close>

lemma follow_rows:
  assumes "\<forall>m \<in> set ms. readable c pid m" "k < 200"
  shows "follow c pid (Suc k) b ms =
    (case walk (\<lambda>m b. newest_page row_key (Suc k) b (conversation pid m)) row_key b ms of (out, fin) \<Rightarrow> (map conversation_item_of out, fin))"
  using assms(1)
proof (induction ms arbitrary: b)
  case (Cons m ms)
  obtain page cont where f: "newest_page row_key (Suc k) b (conversation pid m) = (page, cont)" by force
  have "list_user_conversation c pid (PInt (int (Suc k))) b m =
     Inr \<lparr>cp_items = map conversation_item_of page, cp_more = cont, cp_next = (if cont then Some (row_key (last page)) else None),
          cp_total = length (conversation pid m), cp_unread = unread m pid, cp_marker = read_marker_of m pid\<rparr>"
    using list_user_conversation_ok[of c pid m "int (Suc k)" b] Cons.prems assms(2) f by (simp add: nat_add_distrib)
  then show ?case
    using Cons.IH[of "Some (row_key (last page))"] Cons.prems f by (simp split: prod.splits)
qed simp

end
