(* ===== verification/Inbox_Properties.thy ===== *)
theory Inbox_Properties
  imports Inbox_Inv Registry_Properties
begin

text \<open>
  The properties of the driver inbox and of the user's conversation, and the concrete conversation they
  are exercised on: the driver \<open>bob\<close> writes to the user of project \<open>p\<close> twice, the user answers.
\<close>

section \<open>A concrete conversation\<close>

definition chat_env :: "int \<Rightarrow> string \<Rightarrow> env" where
  "chat_env t h = \<lparr>now_at = t, fresh_hex = (\<lambda>i. h @ show_nat i), sha256_hex = (\<lambda>b. b), env_int = (\<lambda>_. None), identity_on = True\<rparr>"

definition chat_row :: "string \<Rightarrow> driver_row" where
  "chat_row d = registry_row d d Lan False (Some (''token-'' @ d)) [] 1 1000000 None"

definition chat_project :: "string \<Rightarrow> project" where
  "chat_project pid = \<lparr>p_id = pid, p_title = pid, p_source = None, p_created = 1000000\<rparr>"

definition chat0 :: mdb where
  "chat0 = empty_mdb\<lparr>reg_drivers := [chat_row ''ann'', chat_row ''bob''], reg_members := [bob_member], state := empty_db\<lparr>projects := [chat_project ''p'']\<rparr>\<rparr>"

definition bob_caller :: caller where
  "bob_caller = \<lparr>by_actor = ''driver:bob'', by_driver = Some ''bob'', by_admin = False, by_trusted = True\<rparr>"

definition ann_caller :: caller where
  "ann_caller = \<lparr>by_actor = ''owner:ann'', by_driver = None, by_admin = False, by_trusted = True\<rparr>"

definition run_inbox :: "(mdb \<Rightarrow> ('a \<times> mdb) result) \<Rightarrow> mdb \<Rightarrow> mdb" where
  "run_inbox op m = (case op m of Inl e \<Rightarrow> m | Inr (x, m') \<Rightarrow> m')"

definition chat1 :: mdb where
  "chat1 = run_inbox (send_user_message (chat_env 2000000 ''a'') bob_caller (PStr ''k1'') (PStr ''hello'') (PStr ''first'') ''p'' PNone None PNone) chat0"

definition chat2 :: mdb where
  "chat2 = run_inbox (send_user_conversation_message (chat_env 3000000 ''b'') ann_caller (PStr ''k2'') ''p'' (PStr ''go on'') PNone (Some ''a0'') None) chat1"

definition chat3 :: mdb where
  "chat3 = run_inbox (send_user_message (chat_env 4000000 ''c'') bob_caller (PStr ''k3'') (PStr ''done'') (PStr ''second'') ''p'' PNone (Some ''b0'') PNone) chat2"

lemma run_inbox_step: "(\<And>x m'. op m = Inr (x, m') \<Longrightarrow> inbox_step m m') \<Longrightarrow> inbox_step\<^sup>*\<^sup>* m (run_inbox op m)"
  by (auto simp: run_inbox_def split: sum.splits prod.splits)

lemma chat_steps: "inbox_step\<^sup>*\<^sup>* empty_mdb chat0" "inbox_step\<^sup>*\<^sup>* chat0 chat1" "inbox_step\<^sup>*\<^sup>* chat1 chat2" "inbox_step\<^sup>*\<^sup>* chat2 chat3"
proof -
  have "same_inbox empty_mdb chat0" by (simp add: same_inbox_def chat0_def)
  then show "inbox_step\<^sup>*\<^sup>* empty_mdb chat0" using inbox_step.other_tables by blast
  show "inbox_step\<^sup>*\<^sup>* chat0 chat1" unfolding chat1_def by (rule run_inbox_step) (rule inbox_step.user_sent)
  show "inbox_step\<^sup>*\<^sup>* chat1 chat2" unfolding chat2_def by (rule run_inbox_step) (rule inbox_step.conversation_sent)
  show "inbox_step\<^sup>*\<^sup>* chat2 chat3" unfolding chat3_def by (rule run_inbox_step) (rule inbox_step.user_sent)
qed

lemma chat_eval:
  "let m2 = chat2; m3 = chat3 in
   (map row_key (inbox_rows m3), map (\<lambda>d. (ix_id d, ix_target d, ix_seq d)) (inbox_dlvs m3), unread m3 ''p'', length (inbox_rows m2)) =
   ([(2000000, ''a0''), (3000000, ''b0''), (4000000, ''c0'')], [(''b1'', ''bob'', 1)], 2, 2)"
  by code_simp

section \<open>Properties\<close>

text \<open>The states a client's fetches see: a run of the inbox, in order.\<close>

lemma run_rows_grow:
  assumes "inbox_inv m" "inbox_step\<^sup>*\<^sup>* m m'"
  shows "set (conversation pid m) \<subseteq> set (conversation pid m')"
proof -
  have "inbox_evolves m m'" using inbox_machine.run_inv[OF assms(2,1)] by blast
  then show ?thesis by (auto simp: inbox_evolves_def conversation_def dest: set_mono_prefix)
qed

lemma newest_first_unique:
  fixes key :: "'r \<Rightarrow> 'k::linorder"
  assumes "sorted_wrt (\<lambda>r r'. key r' < key r) xs" "sorted_wrt (\<lambda>r r'. key r' < key r) ys" "set xs = set ys"
  shows "xs = ys"
  using assms
proof (induction xs arbitrary: ys)
  case (Cons x xs)
  then obtain y ys' where ys: "ys = y # ys'" by (cases ys) auto
  have "x = y"
  proof (rule ccontr)
    assume "x \<noteq> y"
    then have "x \<in> set ys'" "y \<in> set xs" using Cons.prems(3) ys by auto
    then have "key x < key y" "key y < key x" using Cons.prems(1,2) ys by auto
    then show False by simp
  qed
  moreover have "x \<notin> set xs" "y \<notin> set ys'" using Cons.prems(1,2) ys by auto
  then have "set xs = set ys'" using Cons.prems(3) ys \<open>x = y\<close> by (metis insert_ident list.simps(15))
  then have "xs = ys'" using Cons.IH[of ys'] Cons.prems(1,2) ys by simp
  ultimately show ?case using ys by simp
qed simp

text \<open>
  C38: paging through a conversation is safe against arrivals. A client walks a project's conversation
  page by page, asking each time with the cursor the last page returned, while messages keep arriving
  between its fetches (each fetch sees a later state of the run). The pages it gets, joined, are strictly newest first, so that no message is
  returned twice; every item is a message of the conversation; and when the walk reaches the end of
  history, no message that existed when it started has been stepped over.
\<close>

theorem conversation_walk:
  assumes run: "inbox_step\<^sup>*\<^sup>* empty_mdb m0" "sorted_wrt (inbox_step\<^sup>*\<^sup>*) (m0 # ms)"
    and readable: "\<forall>m \<in> set (m0 # ms). readable c pid m" and limit: "1 \<le> n" "n \<le> 200"
    and walk: "follow c pid n None (m0 # ms) = (out, fin)"
  shows "sorted_wrt (\<lambda>i j. item_key j < item_key i) out \<and>
    set out \<subseteq> conversation_item_of ` set (conversation pid (last (m0 # ms))) \<and>
    (fin \<longrightarrow> conversation_item_of ` set (conversation pid m0) \<subseteq> set out)"
proof -
  obtain k where k: "n = Suc k" "k < 200" using limit by (cases n) auto
  have inv: "inbox_inv m" if "m \<in> set (m0 # ms)" for m
    using that run inbox_machine.initial_run_inv by (auto intro: rtranclp_trans)
  then have ok: "\<forall>m \<in> set (m0 # ms). unique_on ir_id (inbox_rows m)" using inbox_ids by blast
  obtain rs where rs: "walk (\<lambda>m b. newest_page row_key (Suc k) b (conversation pid m)) row_key None (m0 # ms) = (rs, fin)"
    and out: "out = map conversation_item_of rs"
    using walk follow_rows[OF readable k(2), of None] unfolding k(1) by (auto split: prod.splits)
  have "sorted_wrt (\<lambda>r r'. row_key r' < row_key r) rs" using conversation_pages.walk_newest_first[OF ok rs] .
  then have "sorted_wrt (\<lambda>i j. item_key j < item_key i) out" by (simp add: out sorted_wrt_map)
  moreover have "set rs \<subseteq> set (conversation pid (last (m0 # ms)))"
  proof
    fix r assume "r \<in> set rs"
    then obtain m where m: "m \<in> set (m0 # ms)" "r \<in> set (conversation pid m)" using conversation_pages.walk_below[OF ok rs] by blast
    have "inbox_step\<^sup>*\<^sup>* m (last (m0 # ms))"
    proof (cases "m = last (m0 # ms)")
      case False
      then have "m \<in> set (butlast (m0 # ms))" using m(1) by (metis append_butlast_last_id in_set_butlastD list.distinct(1) rotate1.simps(2) set_ConsD set_rotate1)
      moreover have "sorted_wrt (inbox_step\<^sup>*\<^sup>*) (butlast (m0 # ms) @ [last (m0 # ms)])" using run(2) by simp
      ultimately show ?thesis by (simp add: sorted_wrt_append)
    qed simp
    then show "r \<in> set (conversation pid (last (m0 # ms)))" using run_rows_grow[OF inv[OF m(1)]] m(2) by blast
  qed
  moreover have "set (conversation pid m0) \<subseteq> set rs" if fin
  proof
    fix r assume r: "r \<in> set (conversation pid m0)"
    have "r \<in> set (conversation pid m)" if "m \<in> set (m0 # ms)" for m
    proof -
      have "inbox_step\<^sup>*\<^sup>* m0 m" using that run(2) by auto
      then show ?thesis using run_rows_grow[OF inv[of m0]] r by auto
    qed
    then show "r \<in> set rs" using conversation_pages.walk_complete[OF ok, of k pid None rs r] rs \<open>fin\<close> by simp
  qed
  ultimately show ?thesis unfolding out by auto
qed

text \<open>
  C39: without arrivals the walk ends and returns the conversation. With one fetch more than there are
  messages, each asked with the cursor the last page returned, whatever the page size, the pages joined are exactly the project's conversation, newest
  first, and the reader has been told that history ends.
\<close>

theorem quiet_walk_returns_conversation:
  assumes run: "inbox_step\<^sup>*\<^sup>* empty_mdb m" and readable: "readable c pid m" and limit: "1 \<le> n" "n \<le> 200"
  shows "follow c pid n None (replicate (Suc (length (conversation pid m))) m) =
    (map conversation_item_of (rev (sort_key row_key (conversation pid m))), True)"
proof -
  obtain k where k: "n = Suc k" "k < 200" using limit by (cases n) auto
  let ?ms = "replicate (Suc (length (conversation pid m))) m"
  have ok: "unique_on ir_id (inbox_rows m)" using inbox_machine.initial_run_inv[OF run] inbox_ids by blast
  then have oks: "\<forall>x \<in> set ?ms. unique_on ir_id (inbox_rows x)" by simp
  have all: "\<forall>x \<in> set ?ms. readable c pid x" using readable by simp
  obtain rs fin where rs: "walk (\<lambda>m b. newest_page row_key (Suc k) b (conversation pid m)) row_key None ?ms = (rs, fin)" by force
  have "card {r \<in> set (conversation pid m). below None (row_key r)} < Suc (length (conversation pid m))"
    by (simp add: card_length less_Suc_eq_le)
  from conversation_pages.walk_terminates[OF ok finite_set this, of k] have fin: "fin" unfolding rs by simp
  have sets: "set rs = set (conversation pid m)"
  proof
    show "set rs \<subseteq> set (conversation pid m)" using conversation_pages.walk_below[OF oks rs] by auto
    show "set (conversation pid m) \<subseteq> set rs" using conversation_pages.walk_complete[OF oks, of k pid None rs] rs fin by auto
  qed
  have down: "sorted_wrt (\<lambda>r r'. row_key r' < row_key r) rs" using conversation_pages.walk_newest_first[OF oks rs] .
  have down': "sorted_wrt (\<lambda>r r'. row_key r' < row_key r) (rev (sort_key row_key (conversation pid m)))"
  proof -
    have "distinct (map row_key (sort_key row_key (conversation pid m)))" using distinct_row_keys[OF ok] by (simp add: conversation_def distinct_map)
    then have "sorted_wrt (<) (map row_key (sort_key row_key (conversation pid m)))" using sorted_sort_key strict_sorted_iff by blast
    then show ?thesis by (simp add: sorted_wrt_rev sorted_wrt_map)
  qed
  have "rs = rev (sort_key row_key (conversation pid m))"
    by (rule newest_first_unique[OF down down']) (simp add: sets)
  then show ?thesis using follow_rows[OF all k(2), of None] rs fin unfolding k(1) by simp
qed

lemmas chat_facts = chat_eval[unfolded Let_def prod.inject]

lemma chat3_reachable: "inbox_step\<^sup>*\<^sup>* empty_mdb chat3" "inbox_step\<^sup>*\<^sup>* empty_mdb chat2"
  using chat_steps rtranclp_trans by metis+

lemma chat_readable: "readable ann_caller ''p'' chat2" "readable ann_caller ''p'' chat3"
proof -
  have "(case get_project (state chat2) ''p'' of Inl e \<Rightarrow> False | Inr p \<Rightarrow> True) \<and> (case get_project (state chat3) ''p'' of Inl e \<Rightarrow> False | Inr p \<Rightarrow> True)"
    by code_simp
  then show "readable ann_caller ''p'' chat2" "readable ann_caller ''p'' chat3" by (auto simp: readable_def ann_caller_def split: sum.splits)
qed

text \<open>The client fetches one item per page; the second message of \<open>bob\<close> arrives after its first fetch.\<close>

theorem conversation_walk_witness:
  "\<exists>out. follow ann_caller ''p'' 1 None [chat2, chat3] = (out, True) \<and>
     sorted_wrt (\<lambda>i j. item_key j < item_key i) out \<and> conversation_item_of ` set (conversation ''p'' chat2) \<subseteq> set out"
proof -
  have fin: "snd (follow ann_caller ''p'' 1 None [chat2, chat3])" by code_simp
  then obtain out where out: "follow ann_caller ''p'' 1 None [chat2, chat3] = (out, True)"
    by (cases "follow ann_caller ''p'' 1 None [chat2, chat3]") auto
  have "sorted_wrt (inbox_step\<^sup>*\<^sup>*) [chat2, chat3]" using chat_steps by simp
  from conversation_walk[OF chat3_reachable(2) this _ _ _ out] chat_readable show ?thesis using out by auto
qed

theorem quiet_walk_returns_conversation_witness:
  "follow ann_caller ''p'' 2 None (replicate (Suc (length (conversation ''p'' chat3))) chat3) =
    (map conversation_item_of (rev (sort_key row_key (conversation ''p'' chat3))), True) \<and> length (conversation ''p'' chat3) = 3"
proof -
  have "length (conversation ''p'' chat3) = 3" by code_simp
  then show ?thesis using quiet_walk_returns_conversation[OF chat3_reachable(1) chat_readable(2), of 2] by simp
qed

lemma find_in_conversation:
  assumes "unique_on ir_id rows" "row \<in> set rows" "ir_id row = mid" "in_conversation pid row"
  shows "find (\<lambda>r. ir_id r = mid \<and> in_conversation pid r) rows = Some row"
  using assms by (induction rows) (auto simp: unique_on_def)

lemma length_filter_le_impl: "(\<And>x. x \<in> set xs \<Longrightarrow> P x \<Longrightarrow> Q x) \<Longrightarrow> length (filter P xs) \<le> length (filter Q xs)"
  by (induction xs) auto

text \<open>
  C40: the read marker only moves forward and the badge counts what is newer. Marking a message of the
  conversation read leaves the marker at the later of its old position and that message, the unread count
  returned is the number of messages the drivers sent that are newer than the marker, it is at most the
  count before, and marking the same message again changes nothing.
\<close>

theorem mark_read_monotone:
  assumes run: "inbox_step\<^sup>*\<^sup>* empty_mdb m" and mark: "mark_user_conversation_read ev c pid mid m = Inr ((adv, marker, count), m')"
  shows "\<exists>row k. row \<in> set (inbox_rows m) \<and> ir_id row = mid \<and> read_marker_of m' pid = Some k \<and>
      marker_key k = (case read_marker_of m pid of None \<Rightarrow> row_key row | Some k0 \<Rightarrow> max (marker_key k0) (row_key row)) \<and>
      count = length (filter (\<lambda>r. ir_user r \<and> ir_project r = Some pid \<and> marker_key k < row_key r) (inbox_rows m)) \<and>
      count \<le> unread m pid \<and> mark_user_conversation_read ev c pid mid m' = Inr ((False, Some k, count), m')"
proof -
  have ids: "unique_on ir_id (inbox_rows m)" using inbox_machine.initial_run_inv[OF run] inbox_ids by blast
  obtain row where row: "row \<in> set (inbox_rows m)" "ir_id row = mid" "in_conversation pid row"
    and adv: "adv = (case read_marker_of m pid of None \<Rightarrow> True | Some k \<Rightarrow> marker_key k < row_key row)"
    and m': "m' = (if adv then m\<lparr>read_markers := filter (\<lambda>k. mk_project k \<noteq> pid) (read_markers m) @
        [\<lparr>mk_project = pid, mk_created = ir_created row, mk_message = Some mid, mk_updated = now_at ev\<rparr>]\<rparr> else m)"
    and count: "count = unread m' pid"
    using mark_effect[OF mark ids] by (metis fst_conv snd_conv)
  let ?new = "\<lparr>mk_project = pid, mk_created = ir_created row, mk_message = Some mid, mk_updated = now_at ev\<rparr>"
  have keys: "marker_key ?new = row_key row" using row(2) by (simp add: marker_key_def row_key_def)
  have rows: "inbox_rows m' = inbox_rows m" by (simp add: m')
  obtain k where k: "read_marker_of m' pid = Some k"
      "marker_key k = (case read_marker_of m pid of None \<Rightarrow> row_key row | Some k0 \<Rightarrow> max (marker_key k0) (row_key row))"
  proof (cases adv)
    case True
    then have "read_marker_of m' pid = Some ?new" by (simp add: m' read_marker_replaced)
    moreover have "marker_key ?new = (case read_marker_of m pid of None \<Rightarrow> row_key row | Some k0 \<Rightarrow> max (marker_key k0) (row_key row))"
      unfolding keys using adv True by (auto simp: max_def split: option.splits)
    ultimately show ?thesis using that by blast
  next
    case False
    then obtain k0 where "read_marker_of m pid = Some k0" "\<not> marker_key k0 < row_key row" using adv by (cases "read_marker_of m pid") auto
    then show ?thesis using that[of k0] False by (simp add: m' max_def)
  qed
  have newer: "unread x pid = length (filter (\<lambda>r. ir_user r \<and> ir_project r = Some pid \<and>
      (case read_marker_of x pid of None \<Rightarrow> True | Some k \<Rightarrow> marker_key k < row_key r)) (inbox_rows x))" for x
    unfolding unread_def unread_rows_def
    by (intro arg_cong[where f = length] filter_cong refl) (auto simp: marker_key_def row_key_def less_prod_def split: option.splits)
  have c1: "count = length (filter (\<lambda>r. ir_user r \<and> ir_project r = Some pid \<and> marker_key k < row_key r) (inbox_rows m))"
    unfolding count newer k(1) by (simp add: rows)
  have "marker_key k0 \<le> marker_key k" if "read_marker_of m pid = Some k0" for k0 using k(2) that by simp
  then have "count \<le> unread m pid"
    unfolding c1 newer by (intro length_filter_le_impl) (auto split: option.splits)
  moreover have "mark_user_conversation_read ev c pid mid m' = Inr ((False, Some k, count), m')"
  proof -
    have "\<not> marker_key k < row_key row" using k(2) by (auto split: option.splits)
    then have "\<not> (mk_created k < ir_created row \<or> (ir_created row = mk_created k \<and> (case mk_message k of None \<Rightarrow> [] | Some x \<Rightarrow> x) < mid))"
      using row(2) by (auto simp: marker_key_def row_key_def less_prod_def)
    moreover have "find (\<lambda>r. ir_id r = mid \<and> in_conversation pid r) (inbox_rows m') = Some row"
      unfolding rows by (rule find_in_conversation[OF ids row])
    moreover have "state m' = state m" by (simp add: m')
    ultimately show ?thesis using mark k(1) count
      by (auto simp: mark_user_conversation_read_def Let_def)
  qed
  ultimately show ?thesis using row k c1 by blast
qed

theorem mark_read_monotone_witness:
  "\<exists>adv marker count m'. mark_user_conversation_read (chat_env 5000000 ''e'') ann_caller ''p'' ''a0'' chat3 = Inr ((adv, marker, count), m') \<and>
     count \<le> unread chat3 ''p'' \<and>
     (\<exists>k. mark_user_conversation_read (chat_env 5000000 ''e'') ann_caller ''p'' ''a0'' m' = Inr ((False, Some k, count), m'))"
proof -
  have "case mark_user_conversation_read (chat_env 5000000 ''e'') ann_caller ''p'' ''a0'' chat3 of Inl e \<Rightarrow> False | Inr x \<Rightarrow> True"
    by code_simp
  then obtain adv marker count m' where run: "mark_user_conversation_read (chat_env 5000000 ''e'') ann_caller ''p'' ''a0'' chat3 = Inr ((adv, marker, count), m')"
    by (auto split: sum.splits)
  from mark_read_monotone[OF chat3_reachable(1) this] show ?thesis using run by blast
qed

text \<open>
  A message is sent once. Repeating a successful \<open>send_driver_message\<close> with the same request key and
  payload, at any later time and whatever identifiers are drawn, returns the identity of the first message
  and its deliveries and changes nothing.
\<close>

lemma send_once:
  assumes "send_driver_message ev c a m = Inr ((res, block), m')"
  shows "send_driver_message ev' c a m' = Inr ((res, None), m')"
proof -
  obtain k subject body mode refs where args: "check_request (sg_key a) 1 320 = Inr k" "check_request (sg_subject a) 1 200 = Inr subject"
      "check_request (sg_body a) 0 8000 = Inr body" "\<not> (nonempty (sg_target a) \<and> nonempty (sg_members a))"
      "\<not> (\<not> nonempty (sg_target a) \<and> \<not> nonempty (sg_members a))" "parse_mode (sg_mode a) = Some mode"
      "\<not> sg_kind a \<notin> set (if sg_system a then SYSTEM_KINDS else INBOX_KINDS)"
      "\<not> (\<not> sg_system a \<and> \<not> has_driver c \<and> \<not> (by_trusted c \<and> is_owner (by_actor c)))" "check_refs (sg_refs a) = Inr refs"
    and run: "once inbox_replay inbox_record (by_actor c, ''send'', k)
       (PList [PStr subject, PStr body, py_str_opt (sg_target a), py_str_opt (sg_members a), py_str_opt (sg_project a), PStr (sg_kind a),
               PStr (sg_mode a), PDict refs, py_str_opt (sg_reply a), if sg_system a then PNone else py_str_opt (by_driver c)])
       (send_body ev c a subject body mode refs) m = Inr ((res, block), m')"
    using assms
    by (simp only: send_driver_message_def bindE_simps bindE_Inr_iff raise_if_iff require_some_iff) (elim exE conjE, rule that, assumption+)
  have "inbox_requests m1 = inbox_requests m" if "send_body ev c a subject body mode refs m = Inr (r, m1)" for r m1
    using send_body_safe[OF that] by blast
  from inbox_log.once_again[OF run this] show ?thesis
    unfolding send_driver_message_def args require_some_iff bindE_simps raise_if_def if_not_P[OF args(4)] if_not_P[OF args(5)]
      if_not_P[OF args(7)] if_not_P[OF args(8)] by simp
qed

definition bob_note :: send_args where
  "bob_note = \<lparr>sg_key = PStr ''n1'', sg_subject = PStr ''review'', sg_body = PStr ''please'', sg_target = Some ''bob'', sg_members = None, sg_project = Some ''p'',
     sg_kind = ''request'', sg_mode = ''standing'', sg_refs = PNone, sg_reply = None, sg_system = False\<rparr>"

end
