(* ===== verification/Mailbox.thy ===== *)
theory Mailbox
  imports Paging Registry_Inv
begin

text \<open>
  The director mailbox (\<open>src/core/director_messaging.py\<close> with \<open>director_messaging_protocol.py\<close>): one
  project's director writes to another project, every delivery is numbered in its target's mailbox, and
  the members of the target acknowledge it, alone (v2) or towards a quorum (v3). Unicode normalisation
  is the identity on the code points of the model; the redactor of event summaries is the provider's own
  argument. The transport's rendering of active standing guidance is left out.
\<close>

section \<open>The provider\<close>

text \<open>
  An actor-bound provider. \<open>mg_v3\<close> says whether it keeps quorum acknowledgements (once a caller asked for
  them, it stays so); \<open>mg_wide\<close> is the reply schema negotiated for the current call.
\<close>

record provider =
  mg_actor :: string
  mg_driver :: "string option"
  mg_trusted :: bool
  mg_redact :: "string \<Rightarrow> string"
  mg_v3 :: bool
  mg_wide :: bool

definition owner_actor :: "string \<Rightarrow> bool" where
  "owner_actor act \<longleftrightarrow> starts_with act ''owner:''"

definition provider_for :: "string \<Rightarrow> string option \<Rightarrow> bool \<Rightarrow> (string \<Rightarrow> string) \<Rightarrow> provider" where
  "provider_for act driver trusted redact = \<lparr>mg_actor = act, mg_driver = driver, mg_trusted = trusted, mg_redact = redact,
     mg_v3 = (nonempty driver \<or> owner_actor act), mg_wide = False\<rparr>"

definition director_error :: "string \<Rightarrow> service_error" where
  "director_error code = DirectorMessageError code"

definition ERROR_CODES :: "string list" where
  "ERROR_CODES = [''invalid_request'', ''unauthorized'', ''unknown_project'', ''unknown_delivery'', ''idempotency_conflict'',
     ''invalid_transition'', ''version_conflict'', ''recipient_limit'', ''no_recipients'']"

text \<open>\<open>_set_reply_schema\<close>.\<close>

definition negotiate :: "provider \<Rightarrow> string \<Rightarrow> bool \<Rightarrow> service_error + provider" where
  "negotiate p version extended =
     bindE (raise_if (version \<notin> {''v2'', ''v3''}) (director_error ''invalid_request'')) (\<lambda>_.
     let wide = (version = ''v3'' \<or> extended) in Inr (p\<lparr>mg_wide := wide, mg_v3 := mg_v3 p \<or> wide\<rparr>))"

text \<open>\<open>_message_errors\<close>: a refusal the negotiated schema does not declare becomes \<open>invalid_request\<close>.\<close>

definition wire_errors :: "bool \<Rightarrow> service_error + 'a \<Rightarrow> service_error + 'a" where
  "wire_errors wide r = (case r of
     Inl (DirectorMessageError code) \<Rightarrow> Inl (DirectorMessageError (if \<not> wide \<and> code \<notin> set ERROR_CODES then ''invalid_request'' else code))
   | _ \<Rightarrow> r)"

section \<open>Arguments\<close>

definition mail_text :: "pyval \<Rightarrow> nat \<Rightarrow> nat \<Rightarrow> service_error + string" where
  "mail_text v lo hi = (case v of
     PStr s \<Rightarrow> if lo \<le> length s \<and> length s \<le> hi then Inr s else Inl (director_error ''invalid_request'')
   | _ \<Rightarrow> Inl (director_error ''invalid_request''))"

definition mail_text_opt :: "pyval \<Rightarrow> service_error + string option" where
  "mail_text_opt v = (if v = PNone then Inr None else bindE (mail_text v 1 320) (\<lambda>s. Inr (Some s)))"

definition mail_int :: "pyval \<Rightarrow> int \<Rightarrow> int option \<Rightarrow> service_error + int" where
  "mail_int v lo hi = (case v of
     PInt i \<Rightarrow> if lo \<le> i \<and> (case hi of None \<Rightarrow> True | Some h \<Rightarrow> i \<le> h) then Inr i else Inl (director_error ''invalid_request'')
   | _ \<Rightarrow> Inl (director_error ''invalid_request''))"

definition parse_ack_mode :: "string \<Rightarrow> ack_mode option" where
  "parse_ack_mode s = map_of [(''at_least_n'', At_least_n), (''broadcast'', Ack_broadcast)] s"

definition mail_mode :: "string \<Rightarrow> delivery_mode option" where
  "mail_mode s = map_of [(''transient'', Transient), (''standing'', Standing)] s"

definition mail_project :: "mdb \<Rightarrow> string \<Rightarrow> service_error + unit" where
  "mail_project m pid = raise_if (find (\<lambda>r. p_id r = pid) (projects (state m)) = None) (director_error ''unknown_project'')"

section \<open>Results\<close>

definition message_json :: "director_message \<Rightarrow> bool \<Rightarrow> pyval" where
  "message_json x v3 = PDict ([(''message_id'', PStr (dm_id x)), (''thread_id'', PStr (dm_thread x)), (''sender_project_id'', PStr (dm_sender x)),
     (''director_identity'', PStr (dm_identity x)), (''actor'', PStr (dm_actor x)), (''subject'', PStr (dm_subject x)), (''body'', PStr (dm_body x)),
     (''created_at'', PInt (dm_created x)), (''reply_to_delivery_id'', py_str_opt (dm_reply x)), (''delivery_mode'', PStr (delivery_mode_name (dm_mode x)))] @
     (if v3 then [(''sender_driver_id'', py_str_opt (dm_driver x)), (''ack_mode'', PStr (ack_mode_name (dm_ack_mode x))), (''ack_quorum'', PInt (dm_quorum x))] else []))"

definition row_delivery :: "director_delivery \<Rightarrow> pyval" where
  "row_delivery d = PDict [(''delivery_id'', PStr (dd_id d)), (''message_id'', PStr (dd_message d)), (''target_project_id'', PStr (dd_target d)),
     (''delivery_seq'', PInt (dd_seq d)), (''status'', PStr (delivery_status_name (dd_status d))), (''version'', PInt (dd_version d))]"

definition details_json :: "ack_details \<Rightarrow> (string \<times> pyval) list" where
  "details_json a = [(''ack_mode'', PStr (ack_mode_name (ad_mode a))), (''ack_quorum'', PInt (ad_quorum a)),
     (''acks'', PList (map (\<lambda>(d, t). PDict [(''driver_id'', PStr d), (''acked_at'', PInt t)]) (ad_acks a))),
     (''acked_count'', PInt (int (length (ad_acks a)))), (''pending_drivers'', py_strs (ad_pending a)), (''acked_by_me'', PBool (ad_mine a)),
     (''legacy_ack'', PBool (ad_legacy a)), (''quorum_met'', PBool (ad_met a)), (''ack_quorum_unreachable'', PBool (ad_unreachable a))]"

definition drop_keys :: "string list \<Rightarrow> pyval \<Rightarrow> pyval" where
  "drop_keys ks v = (case v of PDict kvs \<Rightarrow> PDict (filter (\<lambda>(k, x). k \<notin> set ks) kvs) | _ \<Rightarrow> v)"

definition keep_keys :: "string list \<Rightarrow> pyval \<Rightarrow> pyval" where
  "keep_keys ks v = (case v of PDict kvs \<Rightarrow> PDict (filter (\<lambda>(k, x). k \<in> set ks) kvs) | _ \<Rightarrow> v)"

text \<open>\<open>_success\<close>: the negotiated v2 schema shows neither the sender's driver nor the quorum.\<close>

definition success :: "provider \<Rightarrow> pyval \<Rightarrow> pyval" where
  "success p r =
     (if mg_wide p then r
      else let r1 = (case dict_get ''message'' r of None \<Rightarrow> r
                | Some msg \<Rightarrow> dict_set ''message'' (drop_keys [''sender_driver_id'', ''ack_mode'', ''ack_quorum''] msg) r) in
           if dict_get ''delivery'' r1 = None then r1 else keep_keys [''delivery'', ''replayed''] r1)"

section \<open>Recorded requests\<close>

text \<open>A request is recorded under its actor, project, operation and key.\<close>

type_synonym mail_key = "string \<times> string \<times> string \<times> string"

text \<open>What a replay shows: a first-version record of a send gains its default mode, and it is marked.\<close>

definition as_replayed :: "pyval \<Rightarrow> pyval" where
  "as_replayed r = dict_set ''replayed'' (PBool True)
     (case dict_get ''message'' r of
        Some (PDict kvs) \<Rightarrow> if map_of kvs ''delivery_mode'' = None then dict_set ''message'' (PDict (kvs @ [(''delivery_mode'', PStr ''transient'')])) r else r
      | _ \<Rightarrow> r)"

text \<open>A v1 record of a send predates the default-expanded delivery mode.\<close>

definition upgraded_payload :: "string \<Rightarrow> pyval \<Rightarrow> pyval \<Rightarrow> pyval" where
  "upgraded_payload op recorded current =
     (if canonical recorded \<noteq> canonical current \<and> op = ''send_director_message'' \<and> dict_get ''delivery_mode'' recorded = None \<and>
         dict_get ''delivery_mode'' current = Some (PStr ''transient'')
      then dict_set ''delivery_mode'' (PStr ''transient'') recorded else recorded)"

definition dedupe :: "mdb \<Rightarrow> mail_key \<Rightarrow> pyval \<Rightarrow> service_error + pyval option" where
  "dedupe m q payload = (case q of (act, scope, op, k) \<Rightarrow>
     (case find (same_request act scope op k) (director_requests m) of
        None \<Rightarrow> Inr None
      | Some row \<Rightarrow>
          if canonical (upgraded_payload op (rq_payload row) payload) \<noteq> canonical payload then Inl (director_error ''idempotency_conflict'')
          else Inr (Some (as_replayed (rq_result row)))))"

definition record_mail :: "mail_key \<Rightarrow> pyval \<Rightarrow> pyval \<Rightarrow> mdb \<Rightarrow> mdb" where
  "record_mail q payload r m = (case q of (act, scope, op, k) \<Rightarrow>
     m\<lparr>director_requests := director_requests m @ [\<lparr>rq_actor = act, rq_scope = scope, rq_op = op, rq_key = k, rq_payload = payload, rq_result = r\<rparr>]\<rparr>)"

section \<open>Numbering\<close>

definition next_delivery_seq :: "mdb \<Rightarrow> string \<Rightarrow> int" where
  "next_delivery_seq m pid = (case map_of (inbox_sequences m) pid of None \<Rightarrow> 1 | Some n \<Rightarrow> n)"

definition bump_sequence :: "string \<Rightarrow> mdb \<Rightarrow> mdb" where
  "bump_sequence pid m = (case map_of (inbox_sequences m) pid of
     None \<Rightarrow> m\<lparr>inbox_sequences := inbox_sequences m @ [(pid, 2)]\<rparr>
   | Some n \<Rightarrow> m\<lparr>inbox_sequences := map (\<lambda>(p, x). if p = pid then (p, n + 1) else (p, x)) (inbox_sequences m)\<rparr>)"

section \<open>Sending\<close>

text \<open>One target: its delivery row, the acknowledgements a broadcast awaits, and the event.\<close>

definition deliver_to :: "env \<Rightarrow> provider \<Rightarrow> director_message \<Rightarrow> string \<Rightarrow> string \<Rightarrow> string \<Rightarrow> mdb \<Rightarrow> service_error + pyval \<times> mdb" where
  "deliver_to ev p msg summary did t m =
     (let row = \<lparr>dd_id = did, dd_message = dm_id msg, dd_target = t, dd_seq = next_delivery_seq m t, dd_status = Unread, dd_version = 1\<rparr>;
          m1 = bump_sequence t m in
      bindE (raise_if (list_ex (\<lambda>d. dd_id d = did \<or> dd_message d = dm_id msg \<and> dd_target d = t \<or> dd_target d = t \<and> dd_seq d = dd_seq row) (director_deliveries m1))
               (SqliteIntegrity ''state_director_deliveries'')) (\<lambda>_.
      let awaited_by = (if mg_v3 p \<and> dm_ack_mode msg = Ack_broadcast then members m1 t else []) in
      bindE (raise_if (\<not> distinct awaited_by \<or> list_ex (\<lambda>a. da_delivery a = did \<and> da_driver a \<in> set awaited_by) (delivery_acks m1))
               (SqliteIntegrity ''state_director_delivery_acks'')) (\<lambda>_.
      let m2 = m1\<lparr>director_deliveries := director_deliveries m1 @ [row],
                  delivery_acks := delivery_acks m1 @ map (\<lambda>d. \<lparr>da_delivery = did, da_driver = d, da_required = True, da_acked = None,
                                                                 da_event = None, da_removed = None\<rparr>) awaited_by\<rparr>;
          m3 = m2\<lparr>state := add_event ev t None ''director_message_received''
                 (PDict [(''message_id'', PStr (dm_id msg)), (''thread_id'', PStr (dm_thread msg)), (''delivery_id'', PStr did), (''summary'', PStr summary)]) (state m2)\<rparr> in
      Inr (row_delivery row, m3))))"

fun deliver_mail :: "env \<Rightarrow> provider \<Rightarrow> director_message \<Rightarrow> string \<Rightarrow> nat \<Rightarrow> string list \<Rightarrow> mdb \<Rightarrow> service_error + pyval list \<times> mdb" where
  "deliver_mail ev p msg summary i [] m = Inr ([], m)"
| "deliver_mail ev p msg summary i (t # ts) m =
     bindE (deliver_to ev p msg summary (fresh_id ev [] i) t m) (\<lambda>(d, m1).
     bindE (deliver_mail ev p msg summary (Suc i) ts m1) (\<lambda>(ds, m2). Inr (d # ds, m2)))"

record mail_args =
  ma_sender :: string
  ma_identity :: string
  ma_key :: string
  ma_subject :: string
  ma_body :: string
  ma_target :: "string option"
  ma_broadcast :: bool
  ma_reply :: "string option"
  ma_mode :: delivery_mode
  ma_ack_mode :: ack_mode
  ma_quorum :: int

text \<open>The projects a message goes to, and the thread a reply joins.\<close>

definition mail_targets :: "mail_args \<Rightarrow> mdb \<Rightarrow> service_error + string list \<times> string option" where
  "mail_targets a m = (case ma_target a of
     Some t \<Rightarrow> bindE (mail_project m t) (\<lambda>_. Inr ([t], None))
   | None \<Rightarrow>
       if ma_broadcast a then
         let ts = sort (filter (\<lambda>x. x \<noteq> ma_sender a) (map p_id (projects (state m)))) in
         bindE (raise_if (ts = []) (director_error ''no_recipients'')) (\<lambda>_.
         bindE (raise_if (200 < length ts) (director_error ''recipient_limit'')) (\<lambda>_.
         Inr (ts, None)))
       else
         bindE (require_some (find (\<lambda>d. Some (dd_id d) = ma_reply a \<and> (\<exists>x \<in> set (director_messages m). dm_id x = dd_message d)) (director_deliveries m))
                  (director_error ''unknown_delivery'')) (\<lambda>cited.
         bindE (raise_if (dd_target cited \<noteq> ma_sender a) (director_error ''unknown_delivery'')) (\<lambda>_.
         bindE (find_message m (dd_message cited)) (\<lambda>orig.
         bindE (mail_project m (dm_sender orig)) (\<lambda>_.
         Inr ([dm_sender orig], Some (dm_thread orig)))))))"

definition send_mail_body :: "env \<Rightarrow> provider \<Rightarrow> mail_args \<Rightarrow> mdb \<Rightarrow> service_error + pyval \<times> mdb" where
  "send_mail_body ev p a m =
     bindE (mail_project m (ma_sender a)) (\<lambda>_.
     bindE (mail_targets a m) (\<lambda>(ts, thread).
     bindE (raise_if (mg_v3 p \<and> ma_ack_mode a = At_least_n \<and> list_ex (\<lambda>t. int (length (members m t)) < ma_quorum a) ts)
              (director_error (if mg_wide p then ''ack_quorum_unreachable'' else ''no_recipients''))) (\<lambda>_.
     let mid = fresh_id ev [] 0;
         msg = \<lparr>dm_id = mid, dm_thread = (case thread of None \<Rightarrow> mid | Some t \<Rightarrow> if t = [] then mid else t), dm_sender = ma_sender a,
                dm_identity = ma_identity a, dm_actor = mg_actor p, dm_subject = ma_subject a, dm_body = ma_body a, dm_created = now_at ev,
                dm_reply = ma_reply a, dm_mode = ma_mode a, dm_driver = mg_driver p, dm_ack_mode = ma_ack_mode a, dm_quorum = ma_quorum a\<rparr>;
         summary = take 320 (mg_redact p (ma_subject a @ [CHR 0x0A] @ ma_body a)) in
     bindE (raise_if (mid \<in> set (map dm_id (director_messages m))) (SqliteIntegrity ''state_director_messages'')) (\<lambda>_.
     bindE (deliver_mail ev p msg summary 1 ts (m\<lparr>director_messages := director_messages m @ [msg]\<rparr>)) (\<lambda>(ds, m2).
     Inr (PDict [(''message'', message_json msg (mg_v3 p)), (''deliveries'', PList ds), (''replayed'', PBool False)], m2))))))"

definition mail_payload :: "mail_args \<Rightarrow> bool \<Rightarrow> pyval" where
  "mail_payload a extended = PDict ([(''body'', PStr (ma_body a)), (''broadcast'', PBool (ma_broadcast a)), (''director_identity'', PStr (ma_identity a)),
     (''reply_to_delivery_id'', py_str_opt (ma_reply a)), (''request_key'', PStr (ma_key a)), (''sender_project_id'', PStr (ma_sender a)),
     (''subject'', PStr (ma_subject a)), (''target_project_id'', py_str_opt (ma_target a)), (''delivery_mode'', PStr (delivery_mode_name (ma_mode a)))] @
     (if extended then [(''ack_mode'', PStr (ack_mode_name (ma_ack_mode a))), (''ack_quorum'', PInt (ma_quorum a))] else []))"

text \<open>The member drivers a v3 sender is told about, beside itself.\<close>

definition mail_presence :: "env \<Rightarrow> provider \<Rightarrow> pyval \<Rightarrow> mdb \<Rightarrow> presence_block option" where
  "mail_presence ev p r m =
     (if \<not> mg_wide p then None
      else case dict_get ''deliveries'' r of
        Some (PList ds) \<Rightarrow>
          let pids = List.map_filter (\<lambda>d. case dict_get ''target_project_id'' d of Some (PStr t) \<Rightarrow> Some t | _ \<Rightarrow> None) ds in
          recipient_presence_block ev m (filter (\<lambda>d. Some d \<noteq> mg_driver p) (concat (map (members m) (remdups pids)))) True
      | _ \<Rightarrow> None)"

definition check_mail_args :: "provider \<Rightarrow> pyval \<Rightarrow> pyval \<Rightarrow> pyval \<Rightarrow> pyval \<Rightarrow> pyval \<Rightarrow> pyval \<Rightarrow> pyval \<Rightarrow> pyval \<Rightarrow> string \<Rightarrow> string option \<Rightarrow> pyval
    \<Rightarrow> service_error + mail_args" where
  "check_mail_args p sender identity key subject body target broadcast reply mode amode quorum =
     bindE (mail_text sender 1 320) (\<lambda>sn.
     bindE (mail_text identity 1 320) (\<lambda>idn.
     bindE (mail_text key 1 320) (\<lambda>k.
     bindE (mail_text subject 1 200) (\<lambda>sub.
     bindE (mail_text body 0 8000) (\<lambda>bod.
     bindE (case broadcast of PBool b \<Rightarrow> Inr b | _ \<Rightarrow> Inl (director_error ''invalid_request'')) (\<lambda>bc.
     bindE (mail_text_opt target) (\<lambda>tg.
     bindE (mail_text_opt reply) (\<lambda>rp.
     bindE (require_some (mail_mode mode) (director_error ''invalid_request'')) (\<lambda>md.
     bindE (raise_if (\<not> ((\<not> bc \<and> tg \<noteq> None \<and> rp = None) \<or> (bc \<and> tg = None \<and> rp = None) \<or> (\<not> bc \<and> tg = None \<and> rp \<noteq> None)))
              (director_error ''invalid_request'')) (\<lambda>_.
     bindE (raise_if (tg = Some sn) (director_error (if mg_wide p then ''use_driver_inbox'' else ''invalid_request''))) (\<lambda>_.
     bindE (require_some (parse_ack_mode (case amode of None \<Rightarrow> ''at_least_n'' | Some x \<Rightarrow> x)) (director_error ''invalid_request'')) (\<lambda>am.
     bindE (if quorum = PNone then Inr 1 else mail_int quorum 1 None) (\<lambda>n.
     Inr \<lparr>ma_sender = sn, ma_identity = idn, ma_key = k, ma_subject = sub, ma_body = bod, ma_target = tg, ma_broadcast = bc, ma_reply = rp,
          ma_mode = md, ma_ack_mode = am, ma_quorum = n\<rparr>)))))))))))))"

definition send_director_message :: "env \<Rightarrow> provider \<Rightarrow> string \<Rightarrow> pyval \<Rightarrow> pyval \<Rightarrow> pyval \<Rightarrow> pyval \<Rightarrow> pyval \<Rightarrow> pyval \<Rightarrow> pyval \<Rightarrow> pyval \<Rightarrow> string \<Rightarrow> string option \<Rightarrow> pyval
    \<Rightarrow> mdb \<Rightarrow> service_error + (pyval \<times> presence_block option) \<times> mdb" where
  "send_director_message ev p0 version sender identity key subject body target broadcast reply mode amode quorum m =
     bindE (negotiate p0 version (amode \<noteq> None \<or> quorum \<noteq> PNone)) (\<lambda>p.
     wire_errors (mg_wide p)
      (bindE (check_mail_args p sender identity key subject body target broadcast reply mode amode quorum) (\<lambda>a.
       bindE (once dedupe record_mail (mg_actor p, ma_sender a, ''send_director_message'', ma_key a)
                (mail_payload a (amode \<noteq> None \<or> quorum \<noteq> PNone)) (send_mail_body ev p a) m) (\<lambda>(r, m').
       Inr ((success p r, if dict_get ''replayed'' r = Some (PBool True) then None else mail_presence ev p r m'), m')))))"

section \<open>Acknowledging and resolving\<close>

text \<open>\<open>_acker\<close>: who acknowledges: the owner, or an active member driver of the project.\<close>

definition acker_of :: "provider \<Rightarrow> mdb \<Rightarrow> string \<Rightarrow> service_error + string" where
  "acker_of p m pid =
     (if owner_actor (mg_actor p) then Inr ''owner''
      else case mg_driver p of
        None \<Rightarrow> Inl (director_error ''unauthorized'')
      | Some d \<Rightarrow>
          bindE (raise_if (d = [] \<or> d \<notin> set (members m pid)) (director_error ''unauthorized'')) (\<lambda>_.
          bindE (raise_if (case find_driver d m of None \<Rightarrow> True | Some r \<Rightarrow> rd_status r \<noteq> Active_driver) (director_error ''unauthorized'')) (\<lambda>_.
          Inr d)))"

definition find_ack :: "mdb \<Rightarrow> string \<Rightarrow> string \<Rightarrow> delivery_ack option" where
  "find_ack m did who = find (\<lambda>a. da_delivery a = did \<and> da_driver a = who) (delivery_acks m)"

text \<open>\<open>INSERT ... ON CONFLICT(delivery_id,driver_id) DO UPDATE SET acked_at=excluded.acked_at\<close>.\<close>

definition put_ack :: "env \<Rightarrow> string \<Rightarrow> string \<Rightarrow> mdb \<Rightarrow> mdb" where
  "put_ack ev did who m =
     (if find_ack m did who = None
      then m\<lparr>delivery_acks := delivery_acks m @ [\<lparr>da_delivery = did, da_driver = who, da_required = False, da_acked = Some (now_at ev),
             da_event = None, da_removed = None\<rparr>]\<rparr>
      else m\<lparr>delivery_acks := update_where (\<lambda>a. da_delivery a = did \<and> da_driver a = who) (\<lambda>a. a\<lparr>da_acked := Some (now_at ev)\<rparr>) (delivery_acks m)\<rparr>)"

definition move_delivery :: "string \<Rightarrow> int \<Rightarrow> delivery_status \<Rightarrow> mdb \<Rightarrow> mdb" where
  "move_delivery did v st m = m\<lparr>director_deliveries := update_where (\<lambda>d. dd_id d = did \<and> dd_version d = v)
     (\<lambda>d. d\<lparr>dd_status := st, dd_version := dd_version d + 1\<rparr>) (director_deliveries m)\<rparr>"

definition note_ack_event :: "string \<Rightarrow> string \<Rightarrow> mdb \<Rightarrow> mdb" where
  "note_ack_event did who m = m\<lparr>delivery_acks := update_where (\<lambda>a. da_delivery a = did \<and> da_driver a = who)
     (\<lambda>a. a\<lparr>da_event := Some (length (events (state m)))\<rparr>) (delivery_acks m)\<rparr>"

definition acks_json :: "ack_details \<Rightarrow> pyval" where
  "acks_json a = PList (map (\<lambda>(d, t). PDict [(''driver_id'', PStr d), (''acked_at'', PInt t)]) (ad_acks a))"

text \<open>The v3 writes of an acknowledgement, a resolution: the rows, the event, the details after it.\<close>

definition apply_transition :: "env \<Rightarrow> provider \<Rightarrow> string \<Rightarrow> director_delivery \<Rightarrow> string \<Rightarrow> delivery_status \<Rightarrow> mdb \<Rightarrow> service_error + pyval \<times> mdb" where
  "apply_transition ev p pid d who target m =
     (let m1 = (if target = Acknowledged then put_ack ev (dd_id d) who m else m) in
      bindE (details m1 d (Some who)) (\<lambda>meta.
      bindE (find_message m1 (dd_message d)) (\<lambda>msg.
      let st = (if target = Acknowledged \<and> \<not> (ad_met meta \<and> dm_mode msg = Transient) then Acknowledged else Resolved);
          m2 = move_delivery (dd_id d) (dd_version d) st m1;
          d' = d\<lparr>dd_status := st, dd_version := dd_version d + 1\<rparr> in
      bindE (details m2 d' (Some who)) (\<lambda>after.
      let m3 = m2\<lparr>state := add_event ev pid None (if target = Acknowledged then ''director_message_acked'' else ''director_message_resolved'')
                 (PDict [(''delivery_id'', PStr (dd_id d)), (''driver_id'', PStr who), (''actor'', PStr (mg_actor p)), (''acks'', acks_json after)]) (state m2)\<rparr>;
          m4 = (if target = Acknowledged then note_ack_event (dd_id d) who m3 else m3) in
      bindE (details m4 d' (Some who)) (\<lambda>final.
      Inr (PDict ([(''delivery'', row_delivery d'), (''replayed'', PBool False)] @ details_json final), m4))))))"

text \<open>The first record of this operation on the same delivery by the same actor.\<close>

definition first_record :: "mdb \<Rightarrow> string \<Rightarrow> string \<Rightarrow> string \<Rightarrow> string \<Rightarrow> request_row option" where
  "first_record m act pid op did = find (\<lambda>q. rq_actor q = act \<and> rq_scope q = pid \<and> rq_op q = op \<and>
     dict_get ''delivery_id'' (rq_payload q) = Some (PStr did)) (director_requests m)"

definition transition_name :: "delivery_status \<Rightarrow> string" where
  "transition_name target = (if target = Acknowledged then ''acknowledge_director_message'' else ''resolve_director_message'')"

text \<open>The result of \<open>_transition\<close> and whether it is recorded: a repeated v3 acknowledgement is answered without a record.\<close>

definition quorum_transition :: "env \<Rightarrow> provider \<Rightarrow> string \<Rightarrow> director_delivery \<Rightarrow> int \<Rightarrow> delivery_status \<Rightarrow> mdb \<Rightarrow> service_error + (pyval \<times> bool) \<times> mdb" where
  "quorum_transition ev p pid d v target m =
     bindE (acker_of p m pid) (\<lambda>who.
     if target = Acknowledged \<and> (case find_ack m (dd_id d) who of None \<Rightarrow> False | Some a \<Rightarrow> da_acked a \<noteq> None)
     then Inr ((dict_set ''replayed'' (PBool True)
                 (case first_record m (mg_actor p) pid (transition_name target) (dd_id d) of
                    Some q \<Rightarrow> rq_result q | None \<Rightarrow> PDict [(''delivery'', row_delivery d)]), False), m)
     else
       bindE (raise_if (dd_version d \<noteq> v) (director_error ''version_conflict'')) (\<lambda>_.
       if dd_status d = Resolved
       then if target = Resolved
            then bindE (details m d (Some who)) (\<lambda>meta.
                 Inr ((PDict ([(''delivery'', row_delivery d), (''replayed'', PBool False)] @ details_json meta), True), m))
            else Inl (director_error ''invalid_transition'')
       else bindE (apply_transition ev p pid d who target m) (\<lambda>(r, m'). Inr ((r, True), m'))))"

definition plain_transition :: "director_delivery \<Rightarrow> int \<Rightarrow> delivery_status \<Rightarrow> mdb \<Rightarrow> service_error + (pyval \<times> bool) \<times> mdb" where
  "plain_transition d v target m =
     (if dd_status d = target then Inr ((PDict [(''delivery'', row_delivery d), (''replayed'', PBool False)], True), m)
      else
        bindE (raise_if (dd_status d \<noteq> (if target = Acknowledged then Unread else Acknowledged)) (director_error ''invalid_transition'')) (\<lambda>_.
        bindE (raise_if (dd_version d \<noteq> v) (director_error ''version_conflict'')) (\<lambda>_.
        Inr ((PDict [(''delivery'', row_delivery (d\<lparr>dd_status := target, dd_version := v + 1\<rparr>)), (''replayed'', PBool False)], True),
          move_delivery (dd_id d) v target m))))"

definition mail_transition :: "env \<Rightarrow> provider \<Rightarrow> pyval \<Rightarrow> pyval \<Rightarrow> pyval \<Rightarrow> pyval \<Rightarrow> delivery_status \<Rightarrow> mdb \<Rightarrow> service_error + pyval \<times> mdb" where
  "mail_transition ev p project delivery expected key target m =
     bindE (mail_text project 1 320) (\<lambda>pid.
     bindE (mail_text delivery 1 320) (\<lambda>did.
     bindE (mail_int expected 1 None) (\<lambda>v.
     bindE (mail_text key 1 320) (\<lambda>k.
     let q = (mg_actor p, pid, transition_name target, k);
         payload = PDict [(''delivery_id'', PStr did), (''expected_version'', PInt v), (''project_id'', PStr pid), (''request_key'', PStr k)] in
     bindE (dedupe m q payload) (\<lambda>hit. case hit of
       Some r \<Rightarrow> Inr (success p r, m)
     | None \<Rightarrow>
         bindE (mail_project m pid) (\<lambda>_.
         bindE (require_some (find (\<lambda>d. dd_id d = did) (director_deliveries m)) (director_error ''unknown_delivery'')) (\<lambda>d.
         bindE (raise_if (dd_target d \<noteq> pid) (director_error ''unknown_delivery'')) (\<lambda>_.
         bindE (if mg_v3 p then quorum_transition ev p pid d v target m else plain_transition d v target m) (\<lambda>((r, recorded), m1).
         Inr (success p r, if recorded then record_mail q payload r m1 else m1))))))))))"

definition acknowledge_director_message :: "env \<Rightarrow> provider \<Rightarrow> string \<Rightarrow> pyval \<Rightarrow> pyval \<Rightarrow> pyval \<Rightarrow> pyval \<Rightarrow> mdb \<Rightarrow> service_error + pyval \<times> mdb" where
  "acknowledge_director_message ev p0 version project delivery expected key m =
     bindE (negotiate p0 version False) (\<lambda>p. wire_errors (mg_wide p) (mail_transition ev p project delivery expected key Acknowledged m))"

definition resolve_director_message :: "env \<Rightarrow> provider \<Rightarrow> string \<Rightarrow> pyval \<Rightarrow> pyval \<Rightarrow> pyval \<Rightarrow> pyval \<Rightarrow> mdb \<Rightarrow> service_error + pyval \<times> mdb" where
  "resolve_director_message ev p0 version project delivery expected key m =
     bindE (negotiate p0 version False) (\<lambda>p. wire_errors (mg_wide p) (mail_transition ev p project delivery expected key Resolved m))"

section \<open>Reading the mailbox\<close>

record mail_filter =
  mf_mode :: "delivery_mode option"
  mf_statuses :: "delivery_status list option"
  mf_ack_mode :: "ack_mode option"
  mf_mine :: bool

text \<open>The \<open>WHERE\<close> clauses of \<open>list_director_messages\<close> on a delivery and its message; \<open>who\<close> acknowledges.\<close>

definition mail_match :: "mdb \<Rightarrow> mail_filter \<Rightarrow> string \<Rightarrow> director_delivery \<times> director_message \<Rightarrow> bool" where
  "mail_match m f who r = (case r of (d, x) \<Rightarrow>
     (case mf_ack_mode f of None \<Rightarrow> True | Some am \<Rightarrow> dm_ack_mode x = am) \<and>
     (case mf_mode f of None \<Rightarrow> True | Some md \<Rightarrow> dm_mode x = md) \<and>
     (case mf_statuses f of None \<Rightarrow> True | Some sts \<Rightarrow> dd_status d \<in> set sts) \<and>
     (mf_mine f \<longrightarrow>
        dd_id d \<notin> set (legacy_acks m) \<and> dd_status d \<noteq> Resolved \<and>
        \<not> list_ex (\<lambda>a. da_delivery a = dd_id d \<and> da_driver a = who \<and> da_acked a \<noteq> None) (delivery_acks m) \<and>
        (dm_ack_mode x = At_least_n \<and> int (length (filter (\<lambda>a. da_delivery a = dd_id d \<and> da_acked a \<noteq> None) (delivery_acks m))) < dm_quorum x \<or>
         dm_ack_mode x = Ack_broadcast \<and> list_ex (\<lambda>a. da_delivery a = dd_id d \<and> da_driver a = who \<and> da_required a \<and> da_removed a = None \<and>
                                               da_acked a = None) (delivery_acks m))))"

definition mailbox_of :: "mdb \<Rightarrow> string \<Rightarrow> (director_delivery \<times> director_message) list" where
  "mailbox_of m pid = List.map_filter (\<lambda>d. map_option (Pair d) (find (\<lambda>x. dm_id x = dd_message d) (director_messages m)))
     (filter (\<lambda>d. dd_target d = pid) (director_deliveries m))"

definition max_delivery_seq :: "mdb \<Rightarrow> string \<Rightarrow> int" where
  "max_delivery_seq m pid = fold (\<lambda>d acc. max acc (dd_seq d)) (filter (\<lambda>d. dd_target d = pid) (director_deliveries m)) 0"

definition reader_name :: "provider \<Rightarrow> string" where
  "reader_name p = (case mg_driver p of None \<Rightarrow> ''owner'' | Some d \<Rightarrow> if d = [] then ''owner'' else d)"

text \<open>The filter that is applied again to the rows a member still has to acknowledge.\<close>

definition still_mine :: "mdb \<Rightarrow> provider \<Rightarrow> director_delivery \<times> director_message \<Rightarrow> bool" where
  "still_mine m p r = (case details m (fst r) (if nonempty (mg_driver p) then mg_driver p else if owner_actor (mg_actor p) then Some ''owner'' else None) of
     Inl e \<Rightarrow> False
   | Inr a \<Rightarrow> \<not> ad_mine a \<and> dd_status (fst r) \<noteq> Resolved \<and>
       (ad_mode a = Ack_broadcast \<and> mg_driver p \<in> Some ` set (ad_pending a) \<or> ad_mode a = At_least_n \<and> \<not> ad_met a))"

text \<open>The deliveries after a sequence number, in order: the page, the number that match, whether more follow, where to continue;
  taking the last of no items is Python's \<open>IndexError\<close>.\<close>

definition list_director_messages :: "provider \<Rightarrow> string \<Rightarrow> pyval \<Rightarrow> pyval \<Rightarrow> pyval \<Rightarrow> mail_filter \<Rightarrow> mdb
    \<Rightarrow> service_error + (director_delivery \<times> director_message) list \<times> nat \<times> bool \<times> int" where
  "list_director_messages p0 version project after limit f m =
     bindE (raise_if (\<not> mg_trusted p0) (director_error ''project_private'')) (\<lambda>_.
     bindE (negotiate p0 version (mf_mine f \<or> mf_ack_mode f \<noteq> None)) (\<lambda>p.
     wire_errors (mg_wide p)
      (bindE (mail_text project 1 320) (\<lambda>pid.
       bindE (mail_int after 0 None) (\<lambda>aft.
       bindE (mail_int limit 1 (Some 100)) (\<lambda>n.
       bindE (raise_if (case mf_statuses f of None \<Rightarrow> False | Some sts \<Rightarrow> sts = [] \<or> \<not> distinct sts) (director_error ''invalid_request'')) (\<lambda>_.
       bindE (mail_project m pid) (\<lambda>_.
       bindE (if mf_mine f then bindE (acker_of p m pid) (\<lambda>_. Inr ()) else Inr ()) (\<lambda>_.
       let high = max_delivery_seq m pid;
           matched = filter (\<lambda>r. aft < dd_seq (fst r) \<and> dd_seq (fst r) \<le> high \<and> mail_match m f (reader_name p) r) (mailbox_of m pid);
           rows = take (nat n) (sort_key (\<lambda>r. dd_seq (fst r)) matched);
           items = (if mf_mine f then filter (still_mine m p) rows else rows);
           cont = length items < length matched in
       bindE (raise_if (cont \<and> items = []) (RowMissing ''items[-1]'')) (\<lambda>_.
       Inr (items, length matched, cont, if cont then dd_seq (fst (last items)) else max aft high)))))))))))"

end
