(* ===== verification/Mailbox_Inv.thy ===== *)
theory Mailbox_Inv
  imports Mailbox
begin

text \<open>
  What the director mailbox keeps: identifiers are unique, every project's deliveries are numbered one,
  two, three by the stored counter, no delivery or acknowledgement is without its message or delivery,
  nobody acknowledges twice. Messages and requests are permanent, deliveries only move forward, and an
  acknowledgement once given stays.
\<close>

section \<open>The invariant\<close>

definition counters_ok :: "mdb \<Rightarrow> bool" where
  "counters_ok m \<longleftrightarrow> (\<forall>t. next_delivery_seq m t = int (length (filter (\<lambda>d. dd_target d = t) (director_deliveries m))) + 1)"

definition ack_id :: "delivery_ack \<Rightarrow> string \<times> string" where
  "ack_id a = (da_delivery a, da_driver a)"

definition mail_inv :: "mdb \<Rightarrow> bool" where
  "mail_inv m \<longleftrightarrow>
     unique_on dm_id (director_messages m) \<and> unique_on dd_id (director_deliveries m) \<and> unique_on ack_id (delivery_acks m) \<and>
     unique_on request_id (director_requests m) \<and> dense dd_target dd_seq (director_deliveries m) \<and> counters_ok m \<and>
     (\<forall>d \<in> set (director_deliveries m). dd_message d \<in> dm_id ` set (director_messages m) \<and> 1 \<le> dd_version d) \<and>
     (\<forall>a \<in> set (delivery_acks m). da_delivery a \<in> dd_id ` set (director_deliveries m))"

lemma mail_invD:
  assumes "mail_inv m"
  shows mail_ids: "unique_on dm_id (director_messages m)"
    and mail_dlv_ids: "unique_on dd_id (director_deliveries m)"
    and mail_ack_ids: "unique_on ack_id (delivery_acks m)"
    and mail_request_ids: "unique_on request_id (director_requests m)"
    and mail_dense: "dense dd_target dd_seq (director_deliveries m)"
    and mail_counters: "counters_ok m"
    and mail_dlv_ok: "d \<in> set (director_deliveries m) \<Longrightarrow> dd_message d \<in> dm_id ` set (director_messages m) \<and> 1 \<le> dd_version d"
    and mail_ack_ok: "a \<in> set (delivery_acks m) \<Longrightarrow> da_delivery a \<in> dd_id ` set (director_deliveries m)"
  using assms unfolding mail_inv_def by blast+

interpretation mail_numbers: sequence_numbers dd_target dd_seq director_deliveries next_delivery_seq counters_ok
  by unfold_locales (simp add: counters_ok_def)

lemma moves_delivery_trans:
  assumes "moves_delivery d e" "moves_delivery e f"
  shows "moves_delivery d f"
proof -
  note de = assms(1)[unfolded moves_delivery_def] and ef = assms(2)[unfolded moves_delivery_def]
  have "f = d" if "dd_version f = dd_version d"
  proof -
    have "dd_version e = dd_version d" "dd_version f = dd_version e" using de ef that by linarith+
    then show ?thesis using de ef by blast
  qed
  moreover have "dd_version d \<le> dd_version f" using de ef by linarith
  moreover have "dd_id f = dd_id d" "dd_message f = dd_message d" "dd_target f = dd_target d" "dd_seq f = dd_seq d"
    using de ef by metis+
  moreover have "dd_status d = Resolved \<longrightarrow> dd_status f = Resolved" "dd_status f = Unread \<longrightarrow> dd_status d = Unread" using de ef by blast+
  ultimately show ?thesis unfolding moves_delivery_def by blast
qed

interpretation mail_deliveries: row_evolution moves_delivery
  by unfold_locales (simp add: moves_delivery_def, rule moves_delivery_trans)

interpretation mail_acks: row_evolution keeps_ack
proof unfold_locales
  show "keeps_ack r r" for r by (simp add: keeps_ack_def)
  show "keeps_ack r s \<Longrightarrow> keeps_ack s t \<Longrightarrow> keeps_ack r t" for r s t by (simp add: keeps_ack_def)
qed

definition mail_evolves :: "mdb \<Rightarrow> mdb \<Rightarrow> bool" where
  "mail_evolves m m' \<longleftrightarrow> prefix (director_messages m) (director_messages m') \<and> grows moves_delivery (director_deliveries m) (director_deliveries m') \<and>
     grows keeps_ack (delivery_acks m) (delivery_acks m') \<and> prefix (director_requests m) (director_requests m')"

lemma mail_evolves_refl [simp]: "mail_evolves m m"
  by (simp add: mail_evolves_def mail_deliveries.table_refl mail_acks.table_refl)

lemma mail_evolves_trans: "mail_evolves m m' \<Longrightarrow> mail_evolves m' m'' \<Longrightarrow> mail_evolves m m''"
  unfolding mail_evolves_def
  using mail_deliveries.table_trans[of "director_deliveries m" "director_deliveries m'" "director_deliveries m''"]
    mail_acks.table_trans[of "delivery_acks m" "delivery_acks m'" "delivery_acks m''"]
    prefix_order.trans[of "director_messages m"] prefix_order.trans[of "director_requests m"] by blast

definition mail_safe :: "mdb \<Rightarrow> mdb \<Rightarrow> bool" where
  "mail_safe m m' \<longleftrightarrow> (mail_inv m \<longrightarrow> mail_inv m' \<and> mail_evolves m m')"

lemma mail_safe_refl [simp]: "mail_safe m m"
  by (simp add: mail_safe_def)

lemma mail_safe_trans: "mail_safe m m' \<Longrightarrow> mail_safe m' m'' \<Longrightarrow> mail_safe m m''"
  unfolding mail_safe_def using mail_evolves_trans by blast

definition same_mail :: "mdb \<Rightarrow> mdb \<Rightarrow> bool" where
  "same_mail m m' \<longleftrightarrow> director_messages m' = director_messages m \<and> director_deliveries m' = director_deliveries m \<and>
     delivery_acks m' = delivery_acks m \<and> inbox_sequences m' = inbox_sequences m \<and> director_requests m' = director_requests m \<and>
     legacy_acks m' = legacy_acks m"

lemma same_mail_safe: "same_mail m m' \<Longrightarrow> mail_safe m m'"
  by (simp add: same_mail_def mail_safe_def mail_inv_def counters_ok_def next_delivery_seq_def mail_evolves_def
      mail_deliveries.table_refl mail_acks.table_refl)

lemma same_mail_refl [simp]: "same_mail m m"
  by (simp add: same_mail_def)

lemma mail_inv_empty: "mail_inv empty_mdb"
  by (simp add: mail_inv_def empty_mdb_def counters_ok_def next_delivery_seq_def)

section \<open>Row updates\<close>

text \<open>An update of one delivery that keeps its identity and moves it forward.\<close>

lemma update_delivery_safe:
  assumes f: "\<And>d. d \<in> set (director_deliveries m) \<Longrightarrow> P d \<Longrightarrow> moves_delivery d (f d)"
    and frame: "\<And>d. dd_id (f d) = dd_id d" "\<And>d. dd_target (f d) = dd_target d \<and> dd_seq (f d) = dd_seq d" "\<And>d. dd_message (f d) = dd_message d"
  shows "mail_safe m (m\<lparr>director_deliveries := update_where P f (director_deliveries m)\<rparr>)"
  unfolding mail_safe_def
proof
  assume inv: "mail_inv m"
  let ?t = "m\<lparr>director_deliveries := update_where P f (director_deliveries m)\<rparr>"
  have ids: "map dd_id (update_where P f (director_deliveries m)) = map dd_id (director_deliveries m)" by (rule map_update_where) (simp add: frame)
  have "length (filter (\<lambda>d. dd_target d = t) (update_where P f ds)) = length (filter (\<lambda>d. dd_target d = t) ds)" for t ds
    using frame(2) by (induction ds) (auto simp: update_where_Cons)
  then have "counters_ok ?t" using mail_counters[OF inv] by (simp add: counters_ok_def next_delivery_seq_def)
  moreover have "unique_on dd_id (director_deliveries ?t)" using mail_dlv_ids[OF inv] ids by (simp add: unique_on_def)
  moreover have "dense dd_target dd_seq (director_deliveries ?t)" using mail_dense[OF inv] frame(2) by (simp add: dense_update)
  moreover have "dd_message d \<in> dm_id ` set (director_messages m) \<and> 1 \<le> dd_version d" if d: "d \<in> set (director_deliveries ?t)" for d
  proof -
    obtain d0 where d0: "d0 \<in> set (director_deliveries m)" "d = (if P d0 then f d0 else d0)" using d by (auto simp: update_where_def)
    then have "moves_delivery d0 d" using f mail_deliveries.row_refl by (cases "P d0") auto
    then show ?thesis using mail_dlv_ok[OF inv d0(1)] by (auto simp: moves_delivery_def)
  qed
  moreover have "dd_id ` set (director_deliveries ?t) = dd_id ` set (director_deliveries m)"
    using arg_cong[OF ids, of set] by simp
  ultimately have "mail_inv ?t"
    using mail_ids[OF inv] mail_ack_ids[OF inv] mail_request_ids[OF inv] mail_ack_ok[OF inv] unfolding mail_inv_def by simp
  then show "mail_inv ?t \<and> mail_evolves m ?t"
    using mail_deliveries.table_update_grows[of "director_deliveries m" P f] f by (simp add: mail_evolves_def mail_acks.table_refl)
qed

lemma update_ack_safe:
  assumes f: "\<And>a. a \<in> set (delivery_acks m) \<Longrightarrow> P a \<Longrightarrow> keeps_ack a (f a)" and frame: "\<And>a. da_delivery (f a) = da_delivery a \<and> da_driver (f a) = da_driver a"
  shows "mail_safe m (m\<lparr>delivery_acks := update_where P f (delivery_acks m)\<rparr>)"
  unfolding mail_safe_def
proof
  assume inv: "mail_inv m"
  let ?t = "m\<lparr>delivery_acks := update_where P f (delivery_acks m)\<rparr>"
  have "unique_on ack_id (delivery_acks ?t)" using mail_ack_ids[OF inv] frame by (simp add: unique_on_update ack_id_def)
  moreover have "da_delivery a \<in> dd_id ` set (director_deliveries m)" if a: "a \<in> set (delivery_acks ?t)" for a
  proof -
    obtain a0 where "a0 \<in> set (delivery_acks m)" "da_delivery a = da_delivery a0" using a frame by (auto simp: update_where_def)
    then show ?thesis using mail_ack_ok[OF inv] by simp
  qed
  ultimately have "mail_inv ?t" using inv unfolding mail_inv_def by (simp add: counters_ok_def next_delivery_seq_def)
  then show "mail_inv ?t \<and> mail_evolves m ?t"
    using mail_acks.table_update_grows[of "delivery_acks m" P f] f by (simp add: mail_evolves_def mail_deliveries.table_refl)
qed

lemma event_same_mail: "same_mail m (m\<lparr>state := s\<rparr>)"
  by (simp add: same_mail_def)

text \<open>What the release of one awaited acknowledgement writes.\<close>

abbreviation mark_removed :: "env \<Rightarrow> string \<Rightarrow> string \<Rightarrow> mdb \<Rightarrow> mdb" where
  "mark_removed ev drv did m \<equiv>
     m\<lparr>delivery_acks := update_where (\<lambda>a. da_delivery a = did \<and> da_driver a = drv) (\<lambda>a. a\<lparr>da_removed := Some (now_at ev)\<rparr>) (delivery_acks m)\<rparr>"

lemma release_ack_Inr:
  assumes "release_ack ev pid drv act did m = Inr m'"
  obtains row meta msg where "find (\<lambda>d. dd_id d = did) (director_deliveries (mark_removed ev drv did m)) = Some row"
    "details (mark_removed ev drv did m) row None = Inr meta" "find_message (mark_removed ev drv did m) (dd_message row) = Inr msg"
    "m' = (let m2 = (if ad_met meta \<and> dd_status row \<noteq> Resolved
                then (mark_removed ev drv did m)\<lparr>director_deliveries := update_where (\<lambda>d. dd_id d = did)
                       (\<lambda>d. d\<lparr>dd_status := (if dm_mode msg = Transient then Resolved else Acknowledged),
                              dd_version := dd_version d + 1\<rparr>) (director_deliveries (mark_removed ev drv did m))\<rparr>
                else mark_removed ev drv did m) in m2\<lparr>state := add_event ev pid None ''director_message_member_removed''
             (PDict [(''delivery_id'', PStr did), (''driver_id'', PStr drv), (''actor'', PStr act)]) (state m2)\<rparr>)"
  using assms
  by (simp only: release_ack_def Let_def bindE_Inr_iff require_some_iff sum.inject) (elim exE conjE, rule that, assumption, assumption, assumption, simp only: Let_def)

lemma release_ack_safe: "release_ack ev pid drv act did m = Inr m' \<Longrightarrow> mail_safe m m'"
proof -
  assume run: "release_ack ev pid drv act did m = Inr m'"
  let ?m1 = "mark_removed ev drv did m"
  obtain row meta msg where row: "find (\<lambda>d. dd_id d = did) (director_deliveries ?m1) = Some row" "details ?m1 row None = Inr meta"
      "find_message ?m1 (dd_message row) = Inr msg"
    and m': "m' = (let m2 = (if ad_met meta \<and> dd_status row \<noteq> Resolved
                then ?m1\<lparr>director_deliveries := update_where (\<lambda>d. dd_id d = did)
                       (\<lambda>d. d\<lparr>dd_status := (if dm_mode msg = Transient then Resolved else Acknowledged),
                              dd_version := dd_version d + 1\<rparr>) (director_deliveries ?m1)\<rparr>
                else ?m1) in m2\<lparr>state := add_event ev pid None ''director_message_member_removed''
             (PDict [(''delivery_id'', PStr did), (''driver_id'', PStr drv), (''actor'', PStr act)]) (state m2)\<rparr>)"
    by (rule release_ack_Inr[OF run])
  have first: "mail_safe m ?m1" by (rule update_ack_safe) (simp_all add: keeps_ack_def)
  have second: "mail_safe ?m1 (?m1\<lparr>director_deliveries := update_where (\<lambda>d. dd_id d = did)
      (\<lambda>d. d\<lparr>dd_status := (if dm_mode msg = Transient then Resolved else Acknowledged), dd_version := dd_version d + 1\<rparr>) (director_deliveries ?m1)\<rparr>)"
    if "dd_status row \<noteq> Resolved"
  proof (cases "mail_inv ?m1")
    case True
    have "d = row" if "d \<in> set (director_deliveries ?m1)" "dd_id d = did" for d
      using find_unique_iff[OF mail_dlv_ids[OF True], of did row] row(1) unique_onD[OF mail_dlv_ids[OF True] that(1), of row] that(2) by simp
    then show ?thesis using that by (intro update_delivery_safe) (auto simp: moves_delivery_def)
  qed (simp add: mail_safe_def)
  have "mail_safe ?m1 m'"
    using second mail_safe_trans[OF second same_mail_safe[OF event_same_mail]] same_mail_safe[OF event_same_mail]
    unfolding m' Let_def by auto
  then show ?thesis using first mail_safe_trans by blast
qed

lemma membership_removed_safe: "membership_removed ev pid drv act m = Inr m' \<Longrightarrow> mail_safe m m'"
  unfolding membership_removed_def
  by (rule foldE_invariant[where P = "mail_safe m"]) (auto dest!: release_ack_safe intro: mail_safe_trans)

section \<open>Sending\<close>

lemma next_delivery_seq_bump:
  "next_delivery_seq (bump_sequence t m) x = (if x = t then next_delivery_seq m t + 1 else next_delivery_seq m x)"
proof -
  have "map_of (map (\<lambda>(p, y). if p = t then (p, n + 1) else (p, y)) kvs) x = (if x = t then map_option (\<lambda>_. n + 1) (map_of kvs t) else map_of kvs x)" for n :: int and kvs
    by (induction kvs) auto
  then show ?thesis
    by (auto simp: bump_sequence_def next_delivery_seq_def map_add_def split: option.splits)
qed

lemma bump_same: "director_messages (bump_sequence t m) = director_messages m" "director_deliveries (bump_sequence t m) = director_deliveries m"
  "delivery_acks (bump_sequence t m) = delivery_acks m" "director_requests (bump_sequence t m) = director_requests m"
  "state (bump_sequence t m) = state m" "reg_members (bump_sequence t m) = reg_members m" "legacy_acks (bump_sequence t m) = legacy_acks m"
  "reg_drivers (bump_sequence t m) = reg_drivers m" "reg_audit (bump_sequence t m) = reg_audit m"
  by (simp_all add: bump_sequence_def split: option.splits)

lemma distinct_ack_rows: "distinct ds \<Longrightarrow> distinct (map ack_id (map (\<lambda>d. \<lparr>da_delivery = did, da_driver = d, da_required = True, da_acked = None,
    da_event = None, da_removed = None\<rparr>) ds))"
  by (induction ds) (auto simp: ack_id_def)

lemma deliver_to_Inr:
  assumes "deliver_to ev p msg summary did t m = Inr (r, m')"
  obtains awaited_by where "\<forall>d \<in> set (director_deliveries m). dd_id d \<noteq> did"
    "distinct awaited_by" "\<forall>a \<in> set (delivery_acks m). \<not> (da_delivery a = did \<and> da_driver a \<in> set awaited_by)"
    "director_messages m' = director_messages m" "director_requests m' = director_requests m"
    "director_deliveries m' = director_deliveries m @ [\<lparr>dd_id = did, dd_message = dm_id msg, dd_target = t, dd_seq = next_delivery_seq m t,
       dd_status = Unread, dd_version = 1\<rparr>]"
    "delivery_acks m' = delivery_acks m @ map (\<lambda>d. \<lparr>da_delivery = did, da_driver = d, da_required = True, da_acked = None,
       da_event = None, da_removed = None\<rparr>) awaited_by"
    "\<forall>x. next_delivery_seq m' x = next_delivery_seq (bump_sequence t m) x"
proof -
  let ?aw = "if mg_v3 p \<and> dm_ack_mode msg = Ack_broadcast then members (bump_sequence t m) t else []"
  show thesis
    by (rule that[of ?aw]) (use assms in \<open>auto simp: deliver_to_def Let_def bump_same list_ex_iff next_delivery_seq_def\<close>)
qed

lemma deliver_to_safe:
  assumes run: "deliver_to ev p msg summary did t m = Inr (r, m')" and msg: "dm_id msg \<in> dm_id ` set (director_messages m)"
  shows "mail_safe m m'"
  unfolding mail_safe_def
proof
  assume inv: "mail_inv m"
  let ?row = "\<lparr>dd_id = did, dd_message = dm_id msg, dd_target = t, dd_seq = next_delivery_seq m t, dd_status = Unread, dd_version = 1\<rparr>"
  obtain aw where new: "\<forall>d \<in> set (director_deliveries m). dd_id d \<noteq> did"
    and aw: "distinct aw" "\<forall>a \<in> set (delivery_acks m). \<not> (da_delivery a = did \<and> da_driver a \<in> set aw)"
    and tabs: "director_messages m' = director_messages m" "director_requests m' = director_requests m" "director_deliveries m' = director_deliveries m @ [?row]"
    and acks: "delivery_acks m' = delivery_acks m @ map (\<lambda>d. \<lparr>da_delivery = did, da_driver = d, da_required = True, da_acked = None,
       da_event = None, da_removed = None\<rparr>) aw"
    and seqs: "\<forall>x. next_delivery_seq m' x = next_delivery_seq (bump_sequence t m) x"
    using deliver_to_Inr[OF run] by blast
  have "dense dd_target dd_seq (director_deliveries m')"
    unfolding tabs using mail_counters[OF inv] mail_dense[OF inv] by (intro mail_numbers.dense_snoc[of m ?row t]) simp_all
  moreover have "counters_ok m'"
    using mail_counters[OF inv] by (simp add: counters_ok_def seqs next_delivery_seq_bump tabs)
  moreover have "unique_on ack_id (delivery_acks m')"
    using mail_ack_ids[OF inv] distinct_ack_rows[OF aw(1), of did] aw(2) by (auto simp: acks unique_on_def ack_id_def)
  moreover have "unique_on dd_id (director_deliveries m')" using mail_dlv_ids[OF inv] new by (simp add: tabs unique_on_snoc)
  moreover have "\<forall>d \<in> set (director_deliveries m'). dd_message d \<in> dm_id ` set (director_messages m') \<and> 1 \<le> dd_version d"
    using mail_dlv_ok[OF inv] msg by (simp add: tabs)
  moreover have "\<forall>a \<in> set (delivery_acks m'). da_delivery a \<in> dd_id ` set (director_deliveries m')"
    using mail_ack_ok[OF inv] by (auto simp: tabs acks)
  ultimately have "mail_inv m'"
    unfolding mail_inv_def using mail_ids[OF inv] mail_request_ids[OF inv] tabs(1,2) by simp
  then show "mail_inv m' \<and> mail_evolves m m'"
    by (simp add: mail_evolves_def tabs acks mail_deliveries.table_append mail_acks.table_append)
qed

lemma deliver_mail_safe:
  "deliver_mail ev p msg summary i ts m = Inr (ds, m') \<Longrightarrow> dm_id msg \<in> dm_id ` set (director_messages m) \<Longrightarrow>
   mail_safe m m' \<and> director_requests m' = director_requests m"
proof (induction ts arbitrary: i m ds m')
  case (Cons t ts)
  obtain d m1 ds' where 1: "deliver_to ev p msg summary (fresh_id ev [] i) t m = Inr (d, m1)" "deliver_mail ev p msg summary (Suc i) ts m1 = Inr (ds', m')"
    using Cons.prems by auto
  have same: "director_messages m1 = director_messages m" "director_requests m1 = director_requests m" by (rule deliver_to_Inr[OF 1(1)], simp)+
  have "mail_safe m1 m'" "director_requests m' = director_requests m1" using Cons.IH[OF 1(2)] Cons.prems(2) same(1) by auto
  then show ?case using deliver_to_safe[OF 1(1) Cons.prems(2)] mail_safe_trans same(2) by metis
qed simp

lemma insert_mail_safe:
  assumes "dm_id msg \<notin> set (map dm_id (director_messages m))"
  shows "mail_safe m (m\<lparr>director_messages := director_messages m @ [msg]\<rparr>)"
  using assms unfolding mail_safe_def mail_inv_def
  by (auto simp: unique_on_snoc counters_ok_def next_delivery_seq_def mail_evolves_def mail_deliveries.table_refl mail_acks.table_refl image_iff)

lemma send_mail_body_safe:
  assumes "send_mail_body ev p a m = Inr (r, m')"
  shows "mail_safe m m' \<and> director_requests m' = director_requests m"
proof -
  obtain msg summary ts ds where msg: "dm_id msg \<notin> set (map dm_id (director_messages m))"
    and run: "deliver_mail ev p msg summary 1 ts (m\<lparr>director_messages := director_messages m @ [msg]\<rparr>) = Inr (ds, m')"
    using assms
    by (simp only: send_mail_body_def Let_def bindE_Inr_iff raise_if_iff split_paired_Ex prod.case prod.inject sum.inject)
       (elim exE conjE, rule that[rotated], simp only:, simp)
  show ?thesis using insert_mail_safe[OF msg] deliver_mail_safe[OF run] mail_safe_trans by auto
qed

section \<open>Recorded requests\<close>

lemma dict_upd_same: "dict_upd k v (dict_upd k v kvs) = dict_upd k v kvs"
  by (induction kvs) auto

lemma as_replayed_again: "as_replayed (as_replayed r) = as_replayed r"
  by (cases r) (auto simp: as_replayed_def map_of_dict_upd dict_upd_same split: option.splits pyval.splits)

interpretation mail_log: request_log dedupe record_mail "director_requests :: mdb \<Rightarrow> _" as_replayed
proof unfold_locales
  fix s s' :: mdb and q p r
  assume none: "dedupe s q p = Inr None" and same: "director_requests s' = director_requests s"
  obtain act scope op k where q: "q = (act, scope, op, k)" by (cases q)
  have "find (same_request act scope op k) (director_requests s) = None"
    using none by (auto simp: dedupe_def q split: option.splits if_splits)
  then show "dedupe (record_mail q p r s') q p = Inr (Some (as_replayed r))"
    using same by (simp add: dedupe_def record_mail_def q find_append_row same_request_def upgraded_payload_def)
next
  fix s :: mdb and q p r
  assume "dedupe s q p = Inr (Some r)"
  then show "as_replayed r = r" by (auto simp: dedupe_def as_replayed_again split: prod.splits option.splits if_splits)
qed

lemma wire_errors_Inr: "wire_errors wide r = Inr x \<longleftrightarrow> r = Inr x"
  by (auto simp: wire_errors_def split: sum.splits service_error.splits)

lemma record_mail_safe:
  assumes "dedupe m q p = Inr None" "director_requests m1 = director_requests m"
  shows "mail_safe m1 (record_mail q p r m1)"
proof -
  obtain act scope op k where q: "q = (act, scope, op, k)" by (cases q)
  have "\<forall>x \<in> set (director_requests m1). \<not> same_request act scope op k x"
    using assms by (auto simp: dedupe_def q find_None_set split: option.splits if_splits)
  then show ?thesis
    unfolding mail_safe_def mail_inv_def record_mail_def q
    by (auto simp: unique_on_snoc request_id_def same_request_def counters_ok_def next_delivery_seq_def mail_evolves_def
        mail_deliveries.table_refl mail_acks.table_refl)
qed

lemma send_mail_safe:
  assumes "send_director_message ev p0 version sender identity key subject body target broadcast reply mode amode quorum m = Inr (r, m')"
  shows "mail_safe m m'"
proof -
  obtain p a q payload r0 where run: "once dedupe record_mail q payload (send_mail_body ev p a) m = Inr (r0, m')"
    using assms
    by (simp only: send_director_message_def bindE_Inr_iff wire_errors_Inr split_paired_Ex prod.case prod.inject sum.inject)
       (elim exE conjE, rule that, simp only:)
  from run show ?thesis
  proof (cases rule: once_cases)
    case hit
    then show ?thesis by simp
  next
    case (ran m1)
    note b = send_mail_body_safe[OF ran(2)]
    show ?thesis unfolding ran(3) using b record_mail_safe[OF ran(1)] mail_safe_trans by blast
  qed
qed

section \<open>Acknowledging and resolving\<close>

lemma find_ack_Some: "mail_inv m \<Longrightarrow> find_ack m did who = Some a \<longleftrightarrow> a \<in> set (delivery_acks m) \<and> da_delivery a = did \<and> da_driver a = who"
  using find_unique_iff[OF mail_ack_ids, of m "(did, who)" a] by (simp add: find_ack_def ack_id_def)

lemma put_ack_safe:
  assumes did: "did \<in> dd_id ` set (director_deliveries m)" and first: "\<And>a. find_ack m did who = Some a \<Longrightarrow> da_acked a = None"
  shows "mail_safe m (put_ack ev did who m)"
proof (cases "find_ack m did who")
  case None
  then have "\<forall>a \<in> set (delivery_acks m). \<not> (da_delivery a = did \<and> da_driver a = who)" by (simp add: find_ack_def find_None_set)
  then show ?thesis
    using did None unfolding mail_safe_def mail_inv_def put_ack_def
    by (auto simp: unique_on_snoc ack_id_def counters_ok_def next_delivery_seq_def mail_evolves_def mail_deliveries.table_refl mail_acks.table_append)
next
  case (Some a)
  show ?thesis
  proof (cases "mail_inv m")
    case True
    have "da_acked x = None" if "x \<in> set (delivery_acks m)" "da_delivery x = did \<and> da_driver x = who" for x
      using that first find_ack_Some[OF True] by blast
    then show ?thesis unfolding put_ack_def using Some by (auto intro!: update_ack_safe simp: keeps_ack_def)
  qed (simp add: mail_safe_def)
qed

lemma move_delivery_safe:
  assumes "find (\<lambda>d. dd_id d = did) (director_deliveries m) = Some d" "dd_status d \<noteq> Resolved" "st \<noteq> Unread"
  shows "mail_safe m (move_delivery did v st m)"
proof (cases "mail_inv m")
  case True
  have "dd_status x \<noteq> Resolved" if "x \<in> set (director_deliveries m)" "dd_id x = did" for x
    using unique_onD[OF mail_dlv_ids[OF True] that(1), of d] find_SomeD[OF assms(1)] that(2) assms(2) by auto
  then show ?thesis unfolding move_delivery_def using assms(3) by (auto intro!: update_delivery_safe simp: moves_delivery_def)
qed (simp add: mail_safe_def)

lemma note_ack_event_safe: "mail_safe m (note_ack_event did who m)"
  unfolding note_ack_event_def by (rule update_ack_safe) (simp_all add: keeps_ack_def)

lemma mail_frames [simp]:
  "director_deliveries (put_ack ev did who m) = director_deliveries m" "director_requests (put_ack ev did who m) = director_requests m"
  "director_requests (move_delivery did v st m) = director_requests m" "director_requests (note_ack_event did who m) = director_requests m"
  "delivery_acks (move_delivery did v st m) = delivery_acks m" "director_deliveries (note_ack_event did who m) = director_deliveries m"
  "director_messages (put_ack ev did who m) = director_messages m" "director_messages (move_delivery did v st m) = director_messages m"
  "director_messages (note_ack_event did who m) = director_messages m" "legacy_acks (put_ack ev did who m) = legacy_acks m"
  "legacy_acks (move_delivery did v st m) = legacy_acks m" "legacy_acks (note_ack_event did who m) = legacy_acks m"
  by (simp_all add: put_ack_def move_delivery_def note_ack_event_def)

text \<open>What a v3 transition writes.\<close>

lemma apply_transition_Inr:
  assumes "apply_transition ev p pid d who target m = Inr (r, m')"
  obtains m1 meta msg st s' where "m1 = (if target = Acknowledged then put_ack ev (dd_id d) who m else m)"
    "details m1 d (Some who) = Inr meta" "find_message m1 (dd_message d) = Inr msg"
    "st = (if target = Acknowledged \<and> \<not> (ad_met meta \<and> dm_mode msg = Transient) then Acknowledged else Resolved)"
    "m' = (if target = Acknowledged then note_ack_event (dd_id d) who ((move_delivery (dd_id d) (dd_version d) st m1)\<lparr>state := s'\<rparr>)
           else (move_delivery (dd_id d) (dd_version d) st m1)\<lparr>state := s'\<rparr>)"
  using assms
  by (simp only: apply_transition_def Let_def bindE_Inr_iff split_paired_Ex prod.case prod.inject sum.inject)
     (elim exE conjE, rule that, rule refl, assumption, assumption, rule refl, erule sym)

lemma apply_transition_safe:
  assumes run: "apply_transition ev p pid d who target m = Inr (r, m')"
    and d: "find (\<lambda>x. dd_id x = dd_id d) (director_deliveries m) = Some d" "dd_status d \<noteq> Resolved"
    and first: "\<And>a. target = Acknowledged \<Longrightarrow> find_ack m (dd_id d) who = Some a \<Longrightarrow> da_acked a = None"
  shows "mail_safe m m' \<and> director_requests m' = director_requests m"
proof -
  obtain m1 meta msg st s' where m1: "m1 = (if target = Acknowledged then put_ack ev (dd_id d) who m else m)"
      "details m1 d (Some who) = Inr meta" "find_message m1 (dd_message d) = Inr msg"
    and st: "st = (if target = Acknowledged \<and> \<not> (ad_met meta \<and> dm_mode msg = Transient) then Acknowledged else Resolved)"
    and m': "m' = (if target = Acknowledged then note_ack_event (dd_id d) who ((move_delivery (dd_id d) (dd_version d) st m1)\<lparr>state := s'\<rparr>)
           else (move_delivery (dd_id d) (dd_version d) st m1)\<lparr>state := s'\<rparr>)"
    by (rule apply_transition_Inr[OF run])
  have "dd_id d \<in> dd_id ` set (director_deliveries m)" using find_SomeD[OF d(1)] by simp
  then have "mail_safe m m1" using put_ack_safe first by (simp add: m1(1))
  moreover have "mail_safe m1 (move_delivery (dd_id d) (dd_version d) st m1)"
    using d by (intro move_delivery_safe[of "dd_id d" m1 d]) (simp_all add: m1(1) st)
  moreover have "mail_safe x (x\<lparr>state := s'\<rparr>)" for x by (rule same_mail_safe[OF event_same_mail])
  ultimately have "mail_safe m ((move_delivery (dd_id d) (dd_version d) st m1)\<lparr>state := s'\<rparr>)" using mail_safe_trans by blast
  then have "mail_safe m m'" unfolding m' using note_ack_event_safe mail_safe_trans by auto
  then show ?thesis by (simp add: m' m1(1))
qed

lemma transition_rows_safe:
  assumes run: "(if mg_v3 p then quorum_transition ev p pid d v target m else plain_transition d v target m) = Inr ((r, recorded), m')"
    and d: "find (\<lambda>x. dd_id x = did) (director_deliveries m) = Some d" and target: "target \<noteq> Unread"
  shows "mail_safe m m' \<and> director_requests m' = director_requests m"
proof (cases "mg_v3 p")
  case True
  have did: "dd_id d = did" using find_SomeD[OF d] by simp
  consider (same) "m' = m" | (moved) who where "dd_status d \<noteq> Resolved" "apply_transition ev p pid d who target m = Inr (r, m')"
      "\<not> (target = Acknowledged \<and> (case find_ack m (dd_id d) who of None \<Rightarrow> False | Some a \<Rightarrow> da_acked a \<noteq> None))"
    using run True unfolding quorum_transition_def by (auto split: if_splits)
  then show ?thesis
  proof cases
    case (moved who)
    from moved(3) have "da_acked a = None" if "target = Acknowledged" "find_ack m (dd_id d) who = Some a" for a using that by simp
    from apply_transition_safe[OF moved(2) _ moved(1) this] show ?thesis using d did by simp
  qed simp
next
  case False
  then show ?thesis using run target move_delivery_safe[OF d _ target] find_SomeD[OF d]
    by (auto simp: plain_transition_def split: if_splits)
qed

text \<open>A transition is answered from the record, or it moves one delivery and is recorded.\<close>

lemma mail_transition_cases:
  assumes "mail_transition ev p project delivery expected key target m = Inr (r, m')"
  obtains (hit) pid did v k row where
        "project = PStr pid" "delivery = PStr did" "expected = PInt v" "key = PStr k" "m' = m"
        "find (same_request (mg_actor p) pid (transition_name target) k) (director_requests m) = Some row"
        "canonical (rq_payload row) = canonical (PDict [(''delivery_id'', PStr did), (''expected_version'', PInt v), (''project_id'', PStr pid), (''request_key'', PStr k)])"
    | (ran) pid did v d q payload r0 recorded m1 k where
        "project = PStr pid" "delivery = PStr did" "expected = PInt v" "dedupe m q payload = Inr None"
        "find (\<lambda>d. dd_id d = did) (director_deliveries m) = Some d" "dd_target d = pid"
        "(if mg_v3 p then quorum_transition ev p pid d v target m else plain_transition d v target m) = Inr ((r0, recorded), m1)"
        "m' = (if recorded then record_mail q payload r0 m1 else m1)"
        "key = PStr k" "q = (mg_actor p, pid, transition_name target, k)"
proof -
  obtain pid did v k h where args: "project = PStr pid" "delivery = PStr did" "expected = PInt v" "key = PStr k"
    and h: "dedupe m (mg_actor p, pid, transition_name target, k)
      (PDict [(''delivery_id'', PStr did), (''expected_version'', PInt v), (''project_id'', PStr pid), (''request_key'', PStr k)]) = Inr h"
    and rest: "(case h of
       Some r \<Rightarrow> Inr (success p r, m)
     | None \<Rightarrow>
         bindE (mail_project m pid) (\<lambda>_.
         bindE (require_some (find (\<lambda>d. dd_id d = did) (director_deliveries m)) (director_error ''unknown_delivery'')) (\<lambda>d.
         bindE (raise_if (dd_target d \<noteq> pid) (director_error ''unknown_delivery'')) (\<lambda>_.
         bindE (if mg_v3 p then quorum_transition ev p pid d v target m else plain_transition d v target m) (\<lambda>((r, recorded), m1).
         Inr (success p r, if recorded then record_mail (mg_actor p, pid, transition_name target, k)
           (PDict [(''delivery_id'', PStr did), (''expected_version'', PInt v), (''project_id'', PStr pid), (''request_key'', PStr k)]) r m1 else m1)))))) = Inr (r, m')"
    using assms unfolding mail_transition_def Let_def
    by (auto simp: mail_text_def mail_int_def split: pyval.splits if_splits)
  show thesis
  proof (cases h)
    case None
    from rest[unfolded None option.case] obtain d r0 recorded m1 where
        "find (\<lambda>d. dd_id d = did) (director_deliveries m) = Some d" "dd_target d = pid"
        "(if mg_v3 p then quorum_transition ev p pid d v target m else plain_transition d v target m) = Inr ((r0, recorded), m1)"
        "m' = (if recorded then record_mail (mg_actor p, pid, transition_name target, k)
           (PDict [(''delivery_id'', PStr did), (''expected_version'', PInt v), (''project_id'', PStr pid), (''request_key'', PStr k)]) r0 m1 else m1)"
      by (simp only: bindE_Inr_iff require_some_iff raise_if_iff not_not split_paired_Ex prod.case prod.inject sum.inject) metis
    then show thesis using ran args h None by blast
  next
    case (Some r')
    have "transition_name target \<noteq> ''send_director_message''" by (simp add: transition_name_def)
    with h obtain row where "find (same_request (mg_actor p) pid (transition_name target) k) (director_requests m) = Some row"
        "canonical (rq_payload row) = canonical (PDict [(''delivery_id'', PStr did), (''expected_version'', PInt v), (''project_id'', PStr pid), (''request_key'', PStr k)])"
      unfolding Some by (auto simp: dedupe_def upgraded_payload_def split: option.splits if_splits)
    moreover have "m' = m" using rest by (simp add: Some)
    ultimately show thesis using hit args by blast
  qed
qed

lemma mail_transition_safe:
  assumes "mail_transition ev p project delivery expected key target m = Inr (r, m')" "target \<noteq> Unread"
  shows "mail_safe m m'"
  using assms(1)
proof (cases rule: mail_transition_cases)
  case hit
  then show ?thesis by simp
next
  case (ran pid did v d q payload r0 recorded m1 k)
  note rows = transition_rows_safe[OF ran(7,5) assms(2)]
  show ?thesis unfolding ran(8) using rows record_mail_safe[OF ran(4)] mail_safe_trans by (cases recorded) (simp_all, blast)
qed

lemma set_membership_cases:
  assumes "set_membership ev pid d st expected reason act known m = Inr (row, m')"
  obtains m2 where "same_mail m m2" "(if st = ''removed'' then membership_removed (env.truncate ev) pid d act m2 else Inr m2) = Inr m'"
proof -
  obtain ref m1 where put: "put_member ev pid d (st = ''member'') act m = (ref, m1)" by force
  obtain m2 where aud: "audit_driver ev d ''membership'' [(''membership_ref'', PInt ref), (''status'', PStr st)] act m1 = Inr m2"
    and last: "(if st = ''removed'' then membership_removed (env.truncate ev) pid d act m2 else Inr m2) = Inr m'"
    using assms unfolding set_membership_def put prod.case by auto
  have "same_mail m m1" using put by (auto simp: put_member_def same_mail_def Let_def split: option.splits)
  then have "same_mail m m2" using audit_driver_Inr(1)[OF aud] by (simp add: same_mail_def)
  then show thesis using that last by blast
qed

lemma set_membership_removed:
  assumes "set_membership ev pid d ''removed'' expected reason act known m = Inr (row, m')"
  obtains m2 where "same_mail m m2" "membership_removed (env.truncate ev) pid d act m2 = Inr m'"
  using set_membership_cases[OF assms] by auto

lemma set_membership_mail_safe:
  assumes "set_membership ev pid d st expected reason act known m = Inr (row, m')"
  shows "mail_safe m m'"
proof -
  obtain m2 where m2: "same_mail m m2" "(if st = ''removed'' then membership_removed (env.truncate ev) pid d act m2 else Inr m2) = Inr m'"
    by (rule set_membership_cases[OF assms])
  then have "mail_safe m2 m'" using membership_removed_safe by (auto split: if_splits)
  then show ?thesis using same_mail_safe[OF m2(1)] mail_safe_trans by blast
qed

section \<open>The mailbox as a machine\<close>

inductive mail_step :: "mdb \<Rightarrow> mdb \<Rightarrow> bool" where
  mailed: "send_director_message ev p version sender identity key subject body target broadcast reply mode amode quorum m = Inr (r, m') \<Longrightarrow> mail_step m m'"
| mail_acknowledged: "acknowledge_director_message ev p version project delivery expected key m = Inr (r, m') \<Longrightarrow> mail_step m m'"
| mail_resolved: "resolve_director_message ev p version project delivery expected key m = Inr (r, m') \<Longrightarrow> mail_step m m'"
| member_changed: "set_membership re pid d st expected reason act known m = Inr (row, m') \<Longrightarrow> mail_step m m'"
| no_mail: "same_mail m m' \<Longrightarrow> mail_step m m'"

lemma mail_step_safe: "mail_step m m' \<Longrightarrow> mail_safe m m'"
proof (induction rule: mail_step.induct)
  case (mail_acknowledged ev p version project delivery expected key m r m')
  then obtain p' where "mail_transition ev p' project delivery expected key Acknowledged m = Inr (r, m')"
    by (auto simp: acknowledge_director_message_def wire_errors_Inr)
  then show ?case by (rule mail_transition_safe) simp
next
  case (mail_resolved ev p version project delivery expected key m r m')
  then obtain p' where "mail_transition ev p' project delivery expected key Resolved m = Inr (r, m')"
    by (auto simp: resolve_director_message_def wire_errors_Inr)
  then show ?case by (rule mail_transition_safe) simp
qed (auto intro: send_mail_safe set_membership_mail_safe same_mail_safe)

interpretation mailbox: machine empty_mdb mail_step mail_inv mail_evolves
proof unfold_locales
  show "mail_inv empty_mdb" by (rule mail_inv_empty)
  show "mail_inv m \<Longrightarrow> mail_step m m' \<Longrightarrow> mail_inv m' \<and> mail_evolves m m'" for m m' using mail_step_safe by (simp add: mail_safe_def)
qed (simp, rule mail_evolves_trans)

end
