(* ===== verification/Mailbox_Properties.thy ===== *)
theory Mailbox_Properties
  imports Mailbox_Inv Inbox_Properties
begin

text \<open>
  The properties of the director mailbox: what an acknowledgement counts towards, what the removal of a
  member releases, and that the list of what a member still has to acknowledge is paged correctly.
\<close>

section \<open>Quorums, declaratively\<close>

definition ackers :: "mdb \<Rightarrow> string \<Rightarrow> string set" where
  "ackers m did = {da_driver a | a. a \<in> set (delivery_acks m) \<and> da_delivery a = did \<and> da_acked a \<noteq> None}"

definition awaiting :: "mdb \<Rightarrow> string \<Rightarrow> string set" where
  "awaiting m did = {da_driver a | a. a \<in> set (delivery_acks m) \<and> da_delivery a = did \<and> da_required a \<and> da_removed a = None \<and> da_acked a = None}"

definition quorum_reached :: "mdb \<Rightarrow> string \<Rightarrow> director_message \<Rightarrow> bool" where
  "quorum_reached m did x \<longleftrightarrow> did \<in> set (legacy_acks m) \<or>
     (if dm_ack_mode x = Ack_broadcast then awaiting m did = {} else dm_quorum x \<le> int (card (ackers m did)))"

lemma ackers_iff: "w \<in> ackers m did \<longleftrightarrow> (\<exists>a \<in> set (delivery_acks m). da_delivery a = did \<and> da_acked a \<noteq> None \<and> da_driver a = w)"
  unfolding ackers_def by blast

lemma awaiting_iff:
  "w \<in> awaiting m did \<longleftrightarrow>
    (\<exists>a \<in> set (delivery_acks m). da_delivery a = did \<and> da_required a \<and> da_removed a = None \<and> da_acked a = None \<and> da_driver a = w)"
  unfolding awaiting_def by blast

lemma pending_awaiting: "set (pending_list m did) = awaiting m did"
  by (auto simp: pending_list_def ack_rows_def awaiting_def)

lemma ack_list_iff: "w \<in> fst ` set (ack_list m did) \<longleftrightarrow> w \<in> ackers m did"
proof -
  have "w \<in> fst ` set (List.map_filter (\<lambda>a. map_option (Pair (da_driver a)) (da_acked a)) as) \<longleftrightarrow> (\<exists>a \<in> set as. da_acked a \<noteq> None \<and> da_driver a = w)" for as
    by (induction as) (auto simp: map_filter_simps split: option.splits)
  from this[of "ack_rows m did"] show ?thesis by (simp add: ack_list_def ack_rows_def ackers_iff) blast
qed

lemma ack_list_card:
  assumes "mail_inv m"
  shows "length (ack_list m did) = card (ackers m did)"
proof -
  have one: "distinct (map da_driver (filter (\<lambda>a. da_delivery a = did) (delivery_acks m)))"
    using mail_ack_ids[OF assms] by (auto simp: unique_on_def ack_id_def distinct_map inj_on_def)
  have "distinct (map da_driver (ack_rows m did))"
    using one by (simp add: ack_rows_def distinct_map)
  moreover have "map fst (List.map_filter (\<lambda>a. map_option (Pair (da_driver a)) (da_acked a)) as) = map da_driver (filter (\<lambda>a. da_acked a \<noteq> None) as)" for as
    by (induction as) (auto simp: map_filter_simps split: option.splits)
  ultimately have "distinct (map fst (ack_list m did))" unfolding ack_list_def using distinct_map_filter by metis
  then have "length (ack_list m did) = card (fst ` set (ack_list m did))" using distinct_card by fastforce
  also have "fst ` set (ack_list m did) = ackers m did" using ack_list_iff by blast
  finally show ?thesis .
qed

lemma details_met:
  assumes "mail_inv m" "details m d who = Inr a" "find_message m (dd_message d) = Inr x"
  shows "ad_met a = quorum_reached m (dd_id d) x"
  using assms(2,3) ack_list_card[OF assms(1), of "dd_id d"] pending_awaiting[of m "dd_id d"]
  by (auto simp: details_def Let_def quorum_reached_def)

section \<open>Acknowledging\<close>

lemma put_ack_None:
  "find_ack m did who = None \<Longrightarrow> delivery_acks (put_ack ev did who m) = delivery_acks m @ [\<lparr>da_delivery = did, da_driver = who, da_required = False,
     da_acked = Some (now_at ev), da_event = None, da_removed = None\<rparr>]"
  by (simp add: put_ack_def)

lemma put_ack_Some:
  "find_ack m did who \<noteq> None \<Longrightarrow> delivery_acks (put_ack ev did who m) =
     update_where (\<lambda>a. da_delivery a = did \<and> da_driver a = who) (\<lambda>a. a\<lparr>da_acked := Some (now_at ev)\<rparr>) (delivery_acks m)"
  by (auto simp: put_ack_def)

lemma bex_update_where: "(\<exists>x \<in> set (update_where P f xs). Q x) \<longleftrightarrow> (\<exists>x \<in> set xs. Q (if P x then f x else x))"
  by (auto simp: update_where_def)

lemma find_ack_None: "find_ack m did who = None \<longleftrightarrow> \<not> (\<exists>a \<in> set (delivery_acks m). da_delivery a = did \<and> da_driver a = who)"
  by (auto simp: find_ack_def find_None_iff)

lemma put_ack_ackers: "ackers (put_ack ev did who m) x = (if x = did then insert who (ackers m did) else ackers m x)"
proof (rule set_eqI)
  fix w
  show "w \<in> ackers (put_ack ev did who m) x \<longleftrightarrow> w \<in> (if x = did then insert who (ackers m did) else ackers m x)"
  proof (cases "find_ack m did who = None")
    case True
    then show ?thesis by (auto simp: ackers_iff put_ack_None)
  next
    case False
    then obtain a where "a \<in> set (delivery_acks m)" "da_delivery a = did" "da_driver a = who" by (auto simp: find_ack_None)
    moreover have "da_delivery (if P then a\<lparr>da_acked := t\<rparr> else a) = da_delivery a" "da_driver (if P then a\<lparr>da_acked := t\<rparr> else a) = da_driver a"
        "da_acked (if P then a\<lparr>da_acked := t\<rparr> else a) = (if P then t else da_acked a)" for P a t by simp_all
    ultimately show ?thesis unfolding ackers_iff put_ack_Some[OF False] bex_update_where
      by (cases "x = did"; cases "w = who") (simp_all add: ackers_iff, blast+)
  qed
qed

lemma put_ack_awaiting: "awaiting (put_ack ev did who m) x = (if x = did then awaiting m did - {who} else awaiting m x)"
proof (rule set_eqI)
  fix w
  show "w \<in> awaiting (put_ack ev did who m) x \<longleftrightarrow> w \<in> (if x = did then awaiting m did - {who} else awaiting m x)"
  proof (cases "find_ack m did who = None")
    case True
    then show ?thesis by (auto simp: awaiting_iff put_ack_None find_ack_None)
  next
    case False
    then show ?thesis unfolding awaiting_iff put_ack_Some[OF False] bex_update_where by (auto simp: awaiting_iff)
  qed
qed

lemma note_ack_event_sets:
  "ackers (note_ack_event did who m) x = ackers m x" "awaiting (note_ack_event did who m) x = awaiting m x"
  by (auto simp: set_eq_iff ackers_iff awaiting_iff note_ack_event_def bex_update_where)

lemma same_acks_sets: "delivery_acks m' = delivery_acks m \<Longrightarrow> ackers m' = ackers m \<and> awaiting m' = awaiting m"
  by (auto simp: fun_eq_iff ackers_def awaiting_def)

lemma unique_move:
  assumes "mail_inv m" "find (\<lambda>x. dd_id x = did) (director_deliveries m) = Some d"
  shows "update_where (\<lambda>x. dd_id x = did \<and> dd_version x = dd_version d) f (director_deliveries m) = update_where (\<lambda>x. dd_id x = did) f (director_deliveries m)"
  using find_unique_iff[OF mail_dlv_ids[OF assms(1)], of did d] assms(2) unique_onD[OF mail_dlv_ids[OF assms(1)], of _ d]
  by (auto simp: update_where_def)

lemma move_delivery_sets:
  "ackers ((move_delivery did v st m)\<lparr>state := s\<rparr>) = ackers m" "awaiting ((move_delivery did v st m)\<lparr>state := s\<rparr>) = awaiting m"
  using same_acks_sets[of "(move_delivery did v st m)\<lparr>state := s\<rparr>" m] by simp_all

lemma record_mail_frames [simp]:
  "delivery_acks (record_mail q b r m) = delivery_acks m" "director_deliveries (record_mail q b r m) = director_deliveries m"
  "legacy_acks (record_mail q b r m) = legacy_acks m"
  by (cases q, simp add: record_mail_def)+

text \<open>The rows a first acknowledgement writes.\<close>

lemma acknowledge_rows:
  assumes inv: "mail_inv m" and run: "apply_transition ev p pid d who Acknowledged m = Inr (r, m')"
    and d: "find (\<lambda>x. dd_id x = dd_id d) (director_deliveries m) = Some d" and first: "who \<notin> ackers m (dd_id d)"
  obtains x where "find_message m (dd_message d) = Inr x"
    "\<forall>y. ackers m' y = (if y = dd_id d then insert who (ackers m (dd_id d)) else ackers m y)"
    "\<forall>y. awaiting m' y = (if y = dd_id d then awaiting m (dd_id d) - {who} else awaiting m y)"
    "director_deliveries m' = update_where (\<lambda>e. dd_id e = dd_id d)
       (\<lambda>e. e\<lparr>dd_status := (if quorum_reached m' (dd_id d) x \<and> dm_mode x = Transient then Resolved else Acknowledged), dd_version := dd_version e + 1\<rparr>)
       (director_deliveries m)"
proof -
  obtain m1 meta x st s' where raw: "m1 = (if Acknowledged = Acknowledged then put_ack ev (dd_id d) who m else m)"
      "details m1 d (Some who) = Inr meta" "find_message m1 (dd_message d) = Inr x"
      "st = (if Acknowledged = Acknowledged \<and> \<not> (ad_met meta \<and> dm_mode x = Transient) then Acknowledged else Resolved)"
      "m' = (if Acknowledged = Acknowledged then note_ack_event (dd_id d) who ((move_delivery (dd_id d) (dd_version d) st m1)\<lparr>state := s'\<rparr>)
             else (move_delivery (dd_id d) (dd_version d) st m1)\<lparr>state := s'\<rparr>)"
    by (rule apply_transition_Inr[OF run])
  note m1 = raw(1)[unfolded simp_thms if_True] raw(2,3) and st = raw(4)[unfolded simp_thms] and m' = raw(5)[unfolded simp_thms if_True]
  have sets: "ackers m' = ackers m1" "awaiting m' = awaiting m1" "legacy_acks m' = legacy_acks m1"
    by (auto simp: m' fun_eq_iff note_ack_event_sets move_delivery_sets)
  have "da_acked a = None" if "find_ack m (dd_id d) who = Some a" for a
    using that first find_ack_Some[OF inv] by (auto simp: ackers_iff)
  moreover have "dd_id d \<in> dd_id ` set (director_deliveries m)" using find_SomeD[OF d] by simp
  ultimately have "mail_inv m1" using put_ack_safe[of "dd_id d" m who ev] inv by (simp add: m1(1) mail_safe_def)
  then have met: "ad_met meta = quorum_reached m' (dd_id d) x"
    using details_met[OF _ m1(2,3)] by (simp add: quorum_reached_def sets)
  have rows: "director_deliveries m' = update_where (\<lambda>e. dd_id e = dd_id d) (\<lambda>e. e\<lparr>dd_status := st, dd_version := dd_version e + 1\<rparr>) (director_deliveries m)"
    unfolding unique_move[OF inv d, symmetric] by (simp add: m' move_delivery_def m1(1))
  have status: "st = (if quorum_reached m' (dd_id d) x \<and> dm_mode x = Transient then Resolved else Acknowledged)"
    unfolding st met by simp
  show thesis
  proof (rule that[of x])
    show "find_message m (dd_message d) = Inr x" using m1(3) by (simp add: m1(1) find_message_def)
    show "director_deliveries m' = update_where (\<lambda>e. dd_id e = dd_id d)
       (\<lambda>e. e\<lparr>dd_status := (if quorum_reached m' (dd_id d) x \<and> dm_mode x = Transient then Resolved else Acknowledged), dd_version := dd_version e + 1\<rparr>)
       (director_deliveries m)"
      using rows unfolding status .
  qed (simp_all add: sets m1(1) put_ack_ackers put_ack_awaiting)
qed

section \<open>Removing a member\<close>

text \<open>What a delivery of \<open>ids\<close> looks like once its quorum was checked in \<open>m\<close>.\<close>

definition settled :: "mdb \<Rightarrow> string set \<Rightarrow> director_delivery \<Rightarrow> director_delivery" where
  "settled m ids d = (case find_message m (dd_message d) of
     Inr x \<Rightarrow> if dd_id d \<in> ids \<and> dd_status d \<noteq> Resolved \<and> quorum_reached m (dd_id d) x
       then d\<lparr>dd_status := (if dm_mode x = Transient then Resolved else Acknowledged), dd_version := dd_version d + 1\<rparr> else d
   | Inl e \<Rightarrow> d)"

lemma settled_id [simp]: "dd_id (settled m ids d) = dd_id d" "dd_message (settled m ids d) = dd_message d"
  by (auto simp: settled_def split: sum.splits)

lemma settled_other: "dd_id d \<notin> ids \<Longrightarrow> settled m ids d = d"
  by (simp add: settled_def split: sum.splits)

lemma settled_member: "(dd_id d \<in> ids \<longleftrightarrow> dd_id d \<in> ids') \<Longrightarrow> settled m ids d = settled m ids' d"
  by (cases "find_message m (dd_message d)") (simp_all add: settled_def)

lemma removed_sets:
  assumes "delivery_acks m' = update_where (\<lambda>a. da_delivery a = did \<and> da_driver a = drv) (\<lambda>a. a\<lparr>da_removed := Some t\<rparr>) (delivery_acks m)"
  shows "ackers m' = ackers m" "awaiting m' y = (if y = did then awaiting m did - {drv} else awaiting m y)"
  by (auto simp: fun_eq_iff set_eq_iff ackers_iff awaiting_iff assms bex_update_where)

lemma release_ack_rows:
  assumes inv: "mail_inv m" and run: "release_ack ev pid drv act did m = Inr m'"
  shows "director_messages m' = director_messages m" "legacy_acks m' = legacy_acks m" "ackers m' = ackers m"
    "awaiting m' y = (if y = did then awaiting m did - {drv} else awaiting m y)"
    "director_deliveries m' = map (settled m' {did}) (director_deliveries m)"
proof -
  let ?m1 = "m\<lparr>delivery_acks := update_where (\<lambda>a. da_delivery a = did \<and> da_driver a = drv) (\<lambda>a. a\<lparr>da_removed := Some (now_at ev)\<rparr>) (delivery_acks m)\<rparr>"
  let ?move = "\<lambda>x d. d\<lparr>dd_status := (if dm_mode x = Transient then Resolved else Acknowledged), dd_version := dd_version d + 1\<rparr>"
  obtain row meta x where row: "find (\<lambda>d. dd_id d = did) (director_deliveries ?m1) = Some row" "details ?m1 row None = Inr meta"
      "find_message ?m1 (dd_message row) = Inr x"
    and let': "m' = (let m2 = (if ad_met meta \<and> dd_status row \<noteq> Resolved
                then ?m1\<lparr>director_deliveries := update_where (\<lambda>d. dd_id d = did) (?move x) (director_deliveries ?m1)\<rparr> else ?m1) in
              m2\<lparr>state := add_event ev pid None ''director_message_member_removed''
             (PDict [(''delivery_id'', PStr did), (''driver_id'', PStr drv), (''actor'', PStr act)]) (state m2)\<rparr>)"
    by (rule release_ack_Inr[OF run])
  obtain s' where m': "m' = (if ad_met meta \<and> dd_status row \<noteq> Resolved
      then ?m1\<lparr>director_deliveries := update_where (\<lambda>d. dd_id d = did) (?move x) (director_deliveries ?m1)\<rparr> else ?m1)\<lparr>state := s'\<rparr>"
    using let' unfolding Let_def by blast
  show same: "director_messages m' = director_messages m" "legacy_acks m' = legacy_acks m" by (simp_all add: m')
  have acks: "delivery_acks m' = delivery_acks ?m1" by (simp add: m')
  show "ackers m' = ackers m" "awaiting m' y = (if y = did then awaiting m did - {drv} else awaiting m y)"
    using removed_sets[of m' did drv "now_at ev" m] acks by simp_all
  have "mail_safe m ?m1" by (rule update_ack_safe) (simp_all add: keeps_ack_def)
  then have "mail_inv ?m1" using inv by (simp add: mail_safe_def)
  then have "ad_met meta = quorum_reached ?m1 (dd_id row) x" by (rule details_met[OF _ row(2,3)])
  then have met: "ad_met meta \<longleftrightarrow> quorum_reached m' did x"
    using same_acks_sets[OF acks] find_SomeD[OF row(1)] by (simp add: quorum_reached_def same(2))
  have only: "d = row" if "d \<in> set (director_deliveries m)" "dd_id d = did" for d
    using unique_onD[OF mail_dlv_ids[OF inv] that(1), of row] find_SomeD[OF row(1)] that(2) by simp
  have x: "find_message m' (dd_message row) = Inr x" using row(3) by (simp add: find_message_def same(1))
  have rows: "director_deliveries m' = map (\<lambda>d. if dd_id d = did \<and> ad_met meta \<and> dd_status row \<noteq> Resolved then ?move x d else d) (director_deliveries m)"
  proof (cases "ad_met meta \<and> dd_status row \<noteq> Resolved")
    case False
    then have "\<not> (dd_id d = did \<and> ad_met meta \<and> dd_status row \<noteq> Resolved)" for d by blast
    then show ?thesis by (simp add: m' False)
  qed (simp add: m' update_where_def)
  show "director_deliveries m' = map (settled m' {did}) (director_deliveries m)"
    unfolding rows
  proof (rule map_cong[OF refl])
    fix d
    assume d: "d \<in> set (director_deliveries m)"
    show "(if dd_id d = did \<and> ad_met meta \<and> dd_status row \<noteq> Resolved then ?move x d else d) = settled m' {did} d"
    proof (cases "dd_id d = did")
      case True
      then show ?thesis using only[OF d True] by (simp add: settled_def x met)
    qed (simp add: settled_def split: sum.splits)
  qed
qed

lemma release_acks_rows:
  assumes "foldE (release_ack ev pid drv act) dids m = Inr m'" "mail_inv m" "distinct dids"
  shows "ackers m' = ackers m \<and> director_messages m' = director_messages m \<and> legacy_acks m' = legacy_acks m \<and>
    (\<forall>y. awaiting m' y = (if y \<in> set dids then awaiting m y - {drv} else awaiting m y)) \<and>
    director_deliveries m' = map (settled m' (set dids)) (director_deliveries m)"
  using assms
proof (induction dids arbitrary: m)
  case Nil
  then show ?case by (auto simp: settled_def split: sum.splits intro!: map_idI[symmetric])
next
  case (Cons did dids)
  obtain m1 where m1: "release_ack ev pid drv act did m = Inr m1" "foldE (release_ack ev pid drv act) dids m1 = Inr m'" using Cons.prems(1) by auto
  note step = release_ack_rows[OF Cons.prems(2) m1(1)]
  have "mail_inv m1" using release_ack_safe[OF m1(1)] Cons.prems(2) by (simp add: mail_safe_def)
  note IH = Cons.IH[OF m1(2) this]
  have new: "did \<notin> set dids" using Cons.prems(3) by simp
  have tail: "ackers m' = ackers m1" "director_messages m' = director_messages m1" "legacy_acks m' = legacy_acks m1"
      "\<And>y. awaiting m' y = (if y \<in> set dids then awaiting m1 y - {drv} else awaiting m1 y)"
      "director_deliveries m' = map (settled m' (set dids)) (director_deliveries m1)"
    using IH Cons.prems(3) by auto
  have "quorum_reached m' did x = quorum_reached m1 did x" for x using tail new by (simp add: quorum_reached_def)
  then have here: "settled m1 {did} d = settled m' {did} d" for d
    by (cases "dd_id d = did"; cases "find_message m1 (dd_message d)") (simp_all add: settled_def find_message_def[of m'] find_message_def[of m1, symmetric] tail(2))
  have "settled m' (set dids) (settled m1 {did} d) = settled m' (set (did # dids)) d" for d
  proof (cases "dd_id d = did")
    case True
    then have "settled m' (set dids) (settled m1 {did} d) = settled m1 {did} d" using new by (simp add: settled_other)
    then show ?thesis using here settled_member[of d "{did}" "set (did # dids)" m'] True by simp
  next
    case False
    then show ?thesis using settled_other[of d "{did}" m1] settled_member[of d "set dids" "set (did # dids)" m'] by simp
  qed
  then have "director_deliveries m' = map (settled m' (set (did # dids))) (director_deliveries m)" by (simp only: tail(5) step(5) map_map o_def)
  moreover have "awaiting m' y = (if y \<in> set (did # dids) then awaiting m y - {drv} else awaiting m y)" for y
    using new by (cases "y = did") (simp_all add: tail(4) step(4))
  ultimately show ?case using tail(1,2,3) step(1,2,3) by simp
qed

lemma awaited_iff: "did \<in> set (awaited m pid drv) \<longleftrightarrow> drv \<in> awaiting m did \<and> (\<exists>d \<in> set (director_deliveries m). dd_id d = did \<and> dd_target d = pid)"
proof -
  have "did \<in> set (List.map_filter (\<lambda>a. if P a then Some (da_delivery a) else None) as) \<longleftrightarrow> (\<exists>a \<in> set as. P a \<and> da_delivery a = did)" for P as
    by (induction as) (auto simp: map_filter_simps)
  from this[of _ "delivery_acks m"] show ?thesis by (auto simp: awaited_def awaiting_iff list_ex_iff)
qed

lemma awaited_distinct: "mail_inv m \<Longrightarrow> distinct (awaited m pid drv)"
proof -
  assume inv: "mail_inv m"
  have eq: "List.map_filter (\<lambda>a. if P a then Some (da_delivery a) else None) as = map da_delivery (filter P as)" for P as
    by (induction as) (auto simp: map_filter_simps)
  have "distinct (map da_delivery (filter (\<lambda>a. da_driver a = drv \<and> P a) (delivery_acks m)))" for P
    using mail_ack_ids[OF inv] by (auto simp: unique_on_def ack_id_def distinct_map inj_on_def)
  then show ?thesis by (simp add: awaited_def eq)
qed

section \<open>What a member still has to acknowledge\<close>

definition owes :: "mdb \<Rightarrow> string \<Rightarrow> director_delivery \<Rightarrow> bool" where
  "owes m who d \<longleftrightarrow> dd_id d \<notin> set (legacy_acks m) \<and> dd_status d \<noteq> Resolved \<and> who \<notin> ackers m (dd_id d) \<and>
     (\<exists>x. find_message m (dd_message d) = Inr x \<and>
        (if dm_ack_mode x = Ack_broadcast then who \<in> awaiting m (dd_id d) else int (card (ackers m (dd_id d))) < dm_quorum x))"

definition only_mine :: mail_filter where
  "only_mine = \<lparr>mf_mode = None, mf_statuses = None, mf_ack_mode = None, mf_mine = True\<rparr>"

lemma acked_count:
  assumes "mail_inv m"
  shows "length (filter (\<lambda>a. da_delivery a = did \<and> da_acked a \<noteq> None) (delivery_acks m)) = card (ackers m did)"
proof -
  let ?rows = "filter (\<lambda>a. da_delivery a = did \<and> da_acked a \<noteq> None) (delivery_acks m)"
  have "distinct (map da_driver ?rows)"
    using mail_ack_ids[OF assms] by (auto simp: unique_on_def ack_id_def distinct_map inj_on_def)
  moreover have "set (map da_driver ?rows) = ackers m did" by (auto simp: ackers_def)
  ultimately show ?thesis using distinct_card[of "map da_driver ?rows"] by simp
qed

lemma mine_match:
  assumes "mail_inv m" "find_message m (dd_message d) = Inr x"
  shows "mail_match m only_mine who (d, x) \<longleftrightarrow> owes m who d"
  using assms(2) unfolding mail_match_def only_mine_def owes_def acked_count[OF assms(1)] ackers_iff awaiting_iff
  by (cases "dm_ack_mode x") (auto simp: list_ex_iff)

lemma mine_still:
  assumes inv: "mail_inv m" and x: "find_message m (dd_message d) = Inr x" and owes: "owes m (reader_name p) d"
    and reader: "nonempty (mg_driver p) \<or> (\<forall>a \<in> set (delivery_acks m). da_driver a = ''owner'' \<longrightarrow> \<not> da_required a)"
    and known: "nonempty (mg_driver p) \<or> owner_actor (mg_actor p)"
  shows "still_mine m p (d, x)"
proof -
  let ?who = "if nonempty (mg_driver p) then mg_driver p else if owner_actor (mg_actor p) then Some ''owner'' else None"
  have who: "?who = Some (reader_name p)" using known by (auto simp: reader_name_def nonempty_def split: option.splits)
  obtain a where a: "details m d ?who = Inr a" using x by (simp add: details_def Let_def)
  have met: "ad_met a = quorum_reached m (dd_id d) x" by (rule details_met[OF inv a x])
  have mine: "\<not> ad_mine a" using a x who owes ack_list_iff[of "reader_name p" m "dd_id d"] by (auto simp: details_def Let_def owes_def)
  have parts: "ad_mode a = dm_ack_mode x" "ad_pending a = pending_list m (dd_id d)" using a x by (auto simp: details_def Let_def)
  have bc: "mg_driver p = Some (reader_name p)" if "dm_ack_mode x = Ack_broadcast"
  proof -
    have "reader_name p \<in> awaiting m (dd_id d)" using owes that x by (auto simp: owes_def)
    then show ?thesis using reader by (auto simp: awaiting_iff reader_name_def nonempty_def split: option.splits)
  qed
  show ?thesis
    unfolding still_mine_def fst_conv a sum.case parts
    using mine met owes bc x pending_awaiting[of m "dd_id d"] by (cases "dm_ack_mode x") (auto simp: owes_def quorum_reached_def)
qed

lemma take_key_prefix:
  fixes k :: "'r \<Rightarrow> int"
  assumes sorted: "sorted_wrt (\<lambda>a b. k a < k b) S" and n: "0 < n" "n \<le> length S"
  shows "set (take n S) = {r \<in> set S. k r \<le> k (last (take n S))}"
proof -
  have last: "last (take n S) = S ! (n - 1)" using n by (subst last_conv_nth) (auto simp: min_def)
  have "S ! i \<in> set (take n S) \<longleftrightarrow> k (S ! i) \<le> k (S ! (n - 1))" if i: "i < length S" for i
  proof (cases "i < n")
    case True
    then have "k (S ! i) \<le> k (S ! (n - 1))" using sorted_wrt_nth_less[OF sorted, of i "n - 1"] n
    proof (cases "i = n - 1")
      case False
      then have "i < n - 1" "n - 1 < length S" using True n by linarith+
      from sorted_wrt_nth_less[OF sorted this] show ?thesis by (rule less_imp_le)
    qed simp
    then show ?thesis using True i by (auto simp: in_set_conv_nth)
  next
    case False
    have less: "k (S ! j) < k (S ! i)" if "j < n" for j using sorted_wrt_nth_less[OF sorted, of j i] that False i by simp
    then have "S ! i \<notin> set (take n S)" using n by (force simp: in_set_conv_nth)
    then show ?thesis using less[of "n - 1"] n by simp
  qed
  then have "r \<in> set (take n S) \<longleftrightarrow> k r \<le> k (S ! (n - 1))" if "r \<in> set S" for r using that by (metis in_set_conv_nth)
  then show ?thesis unfolding last using set_take_subset[of n S] by blast
qed

lemma mailbox_of_iff:
  "(d, x) \<in> set (mailbox_of m pid) \<longleftrightarrow> d \<in> set (director_deliveries m) \<and> dd_target d = pid \<and> find_message m (dd_message d) = Inr x"
proof -
  have "(d, x) \<in> set (List.map_filter (\<lambda>d. map_option (Pair d) (g d)) ds) \<longleftrightarrow> d \<in> set ds \<and> g d = Some x" for g :: "director_delivery \<Rightarrow> director_message option" and ds
    by (induction ds) (auto simp: map_filter_simps split: option.splits)
  then show ?thesis by (auto simp: mailbox_of_def find_message_def require_some_iff)
qed

lemma mailbox_of_rows:
  assumes "mail_inv m"
  shows "map fst (mailbox_of m pid) = filter (\<lambda>d. dd_target d = pid) (director_deliveries m)"
    and "distinct (map (\<lambda>r. dd_seq (fst r)) (mailbox_of m pid))"
proof -
  have "find (\<lambda>x. dm_id x = dd_message d) (director_messages m) \<noteq> None" if "d \<in> set (director_deliveries m)" for d
    using mail_dlv_ok[OF assms that] by (auto simp: find_None_iff)
  moreover have "\<forall>d \<in> set ds. g d \<noteq> None \<Longrightarrow> map fst (List.map_filter (\<lambda>d. map_option (Pair d) (g d)) ds) = ds"
    for g :: "director_delivery \<Rightarrow> director_message option" and ds
    by (induction ds) (auto simp: map_filter_simps)
  ultimately show rows: "map fst (mailbox_of m pid) = filter (\<lambda>d. dd_target d = pid) (director_deliveries m)" by (simp add: mailbox_of_def)
  have "map dd_seq (filter (\<lambda>d. dd_target d = pid) (director_deliveries m)) = map int [1..<Suc (length (filter (\<lambda>d. dd_target d = pid) (director_deliveries m)))]"
    using mail_dense[OF assms] unfolding dense_def by blast
  then have "distinct (map dd_seq (map fst (mailbox_of m pid)))" unfolding rows by (simp add: distinct_map)
  then show "distinct (map (\<lambda>r. dd_seq (fst r)) (mailbox_of m pid))" by (simp add: comp_def)
qed

lemma max_delivery_seq_ge: "d \<in> set (director_deliveries m) \<Longrightarrow> dd_target d = pid \<Longrightarrow> dd_seq d \<le> max_delivery_seq m pid"
proof -
  have base: "acc \<le> fold (\<lambda>d acc. max acc (dd_seq d)) ds acc" for ds acc
  proof (induction ds arbitrary: acc)
    case (Cons a ds)
    show ?case using order_trans[OF max.cobounded1 Cons.IH[of "max acc (dd_seq a)"]] by simp
  qed simp
  have "d \<in> set ds \<Longrightarrow> dd_seq d \<le> fold (\<lambda>d acc. max acc (dd_seq d)) ds acc" for ds acc
  proof (induction ds arbitrary: acc)
    case (Cons a ds)
    show ?case using Cons order_trans[OF max.cobounded2 base[of "max acc (dd_seq a)" ds]] by auto
  qed simp
  then show "d \<in> set (director_deliveries m) \<Longrightarrow> dd_target d = pid \<Longrightarrow> dd_seq d \<le> max_delivery_seq m pid" by (simp add: max_delivery_seq_def)
qed

text \<open>What a page of the listing is, once the two filters agree.\<close>

lemma listing_page:
  fixes rows :: "(director_delivery \<times> director_message) list" and high :: int
  assumes uniq: "distinct (map (\<lambda>r. dd_seq (fst r)) rows)" and high: "\<And>r. r \<in> set rows \<Longrightarrow> dd_seq (fst r) \<le> high" and n: "0 < n"
    and items: "items = take n (sort_key (\<lambda>r. dd_seq (fst r)) rows)" and nxt: "nxt = (if length items < length rows then dd_seq (fst (last items)) else max aft high)"
  shows "set items = {r \<in> set rows. dd_seq (fst r) \<le> nxt}" "sorted_wrt (\<lambda>r s. dd_seq (fst r) < dd_seq (fst s)) items"
    "length items < length rows \<longrightarrow> length items = n"
proof -
  let ?S = "sort_key (\<lambda>r. dd_seq (fst r)) rows"
  have "distinct (map (\<lambda>r. dd_seq (fst r)) ?S)" using uniq by (simp add: distinct_map)
  then have "sorted_wrt (<) (map (\<lambda>r. dd_seq (fst r)) ?S)" using sorted_sort_key strict_sorted_iff by blast
  then have S: "sorted_wrt (\<lambda>r s. dd_seq (fst r) < dd_seq (fst s)) ?S" by (simp add: sorted_wrt_map)
  then show "sorted_wrt (\<lambda>r s. dd_seq (fst r) < dd_seq (fst s)) items" unfolding items by (rule sorted_wrt_take)
  show len: "length items < length rows \<longrightarrow> length items = n" by (auto simp: items)
  show "set items = {r \<in> set rows. dd_seq (fst r) \<le> nxt}"
  proof (cases "length items < length rows")
    case True
    then have "n \<le> length ?S" using len length_sort[of "\<lambda>r. dd_seq (fst r)" rows] by linarith
    from take_key_prefix[OF S n this] show ?thesis using True unfolding nxt items[symmetric] by simp
  next
    case False
    then have "items = ?S" by (simp add: items)
    moreover have "dd_seq (fst r) \<le> nxt" if "r \<in> set rows" for r using high[OF that] False by (simp add: nxt)
    ultimately show ?thesis by auto
  qed
qed

section \<open>A run\<close>

definition mail0 :: mdb where
  "mail0 = empty_mdb\<lparr>reg_drivers := [chat_row ''ann'', chat_row ''bob''],
     reg_members := [bob_member, bob_member\<lparr>rm_ref := 2, rm_driver := ''ann''\<rparr>],
     state := empty_db\<lparr>projects := [chat_project ''p'', chat_project ''q'']\<rparr>\<rparr>"

definition owner_provider :: provider where
  "owner_provider = provider_for ''owner:ann'' None True (\<lambda>s. s)"

definition bob_provider :: provider where
  "bob_provider = provider_for ''driver:bob'' (Some ''bob'') True (\<lambda>s. s)"

definition run_mail :: "(mdb \<Rightarrow> service_error + 'a \<times> mdb) \<Rightarrow> mdb \<Rightarrow> mdb" where
  "run_mail op m = (case op m of Inl e \<Rightarrow> m | Inr (x, m') \<Rightarrow> m')"

definition mail1 :: mdb where
  "mail1 = run_mail (send_director_message (chat_env 2000000 ''a'') owner_provider ''v3'' (PStr ''q'') (PStr ''ann'') (PStr ''k1'') (PStr ''notice'') (PStr ''text'')
     (PStr ''p'') (PBool False) PNone ''transient'' (Some ''broadcast'') PNone) mail0"

definition mail2 :: mdb where
  "mail2 = run_mail (acknowledge_director_message (chat_env 3000000 ''b'') bob_provider ''v3'' (PStr ''p'') (PStr ''a1'') (PInt 1) (PStr ''k2'')) mail1"

definition removed_env :: reg_env where
  "removed_env = demo_reg 4000000 []"

lemma run_mail_step: "(\<And>x m'. op m = Inr (x, m') \<Longrightarrow> mail_step m m') \<Longrightarrow> mail_step\<^sup>*\<^sup>* m (run_mail op m)"
  by (auto simp: run_mail_def split: sum.splits prod.splits)

lemma mail_steps: "mail_step\<^sup>*\<^sup>* empty_mdb mail0" "mail_step\<^sup>*\<^sup>* mail0 mail1" "mail_step\<^sup>*\<^sup>* mail1 mail2"
proof -
  have "same_mail empty_mdb mail0" by (simp add: same_mail_def mail0_def)
  then show "mail_step\<^sup>*\<^sup>* empty_mdb mail0" using mail_step.no_mail by blast
  show "mail_step\<^sup>*\<^sup>* mail0 mail1" unfolding mail1_def by (rule run_mail_step) (rule mail_step.mailed)
  show "mail_step\<^sup>*\<^sup>* mail1 mail2" unfolding mail2_def by (rule run_mail_step) (rule mail_step.mail_acknowledged)
qed

lemma mail_reachable: "mail_step\<^sup>*\<^sup>* empty_mdb mail1" "mail_step\<^sup>*\<^sup>* empty_mdb mail2"
  using mail_steps by (auto intro: rtranclp_trans)

text \<open>The tables of the run that the applications below need, evaluated once.\<close>

lemma mail_eval:
  "let m1 = mail1; m2 = mail2 in
     map (\<lambda>d. (dd_id d, dd_target d, dd_seq d, dd_status d, dd_version d)) (director_deliveries m1) = [(''a1'', ''p'', 1, Unread, 1)] \<and>
     map (\<lambda>d. (dd_id d, dd_target d, dd_seq d, dd_status d, dd_version d)) (director_deliveries m2) = [(''a1'', ''p'', 1, Acknowledged, 2)] \<and>
     map (\<lambda>a. (da_driver a, da_acked a)) (delivery_acks m2) = [(''ann'', None), (''bob'', Some 3000000)] \<and>
     reg_drivers m2 = reg_drivers mail0 \<and> reg_members m2 = reg_members mail0 \<and> reg_audit m2 = []"
  by code_simp

section \<open>Properties\<close>

text \<open>
  C35: the mailbox is well formed. In every reachable state identifiers of messages and deliveries are
  unique, a party has one acknowledgement row per delivery, and every delivery and every
  acknowledgement belongs to a stored message and a stored delivery. The deliveries of a project, in the order they were made, are
  numbered one, two, three without a gap, and the stored counter holds the next number.
\<close>

theorem mail_wellformed:
  assumes "mail_step\<^sup>*\<^sup>* empty_mdb m"
  shows "distinct (map dm_id (director_messages m)) \<and> distinct (map dd_id (director_deliveries m)) \<and>
    distinct (map (\<lambda>a. (da_delivery a, da_driver a)) (delivery_acks m)) \<and>
    (\<forall>d \<in> set (director_deliveries m). 1 \<le> dd_version d \<and> (\<exists>x. find_message m (dd_message d) = Inr x \<and> x \<in> set (director_messages m))) \<and>
    (\<forall>a \<in> set (delivery_acks m). \<exists>d \<in> set (director_deliveries m). dd_id d = da_delivery a) \<and>
    (\<forall>pid. let n = length (filter (\<lambda>d. dd_target d = pid) (director_deliveries m)) in
       map dd_seq (filter (\<lambda>d. dd_target d = pid) (director_deliveries m)) = map int [1..<Suc n] \<and> next_delivery_seq m pid = int n + 1)"
proof -
  have inv: "mail_inv m" by (rule mailbox.initial_run_inv[OF assms])
  have "\<exists>x. find_message m (dd_message d) = Inr x \<and> x \<in> set (director_messages m)" if "d \<in> set (director_deliveries m)" for d
    using mail_dlv_ok[OF inv that] find_unique_iff[OF mail_ids[OF inv]] by (auto simp: find_message_def)
  then show ?thesis
    using inv mail_ack_ok[OF inv] mail_dlv_ok[OF inv] unfolding mail_inv_def unique_on_def dense_def counters_ok_def Let_def ack_id_def by (auto simp: comp_def image_iff) metis
qed

theorem mail_wellformed_witness:
  "distinct (map dd_id (director_deliveries mail2)) \<and> next_delivery_seq mail2 ''p'' = 2"
proof -
  have "length (filter (\<lambda>d. dd_target d = ''p'') (director_deliveries mail2)) = 1" using mail_eval by (auto simp: Let_def)
  then show ?thesis using mail_wellformed[OF mail_reachable(2)] by (simp add: Let_def)
qed

text \<open>
  C32: an acknowledgement counts, once, for the one who gives it. In every reachable state a successful v3
  acknowledgement of a delivery of the project changes nothing in exactly two cases: this caller's request
  key is already on record, for this same request, or the acknowledging party has already acknowledged the
  delivery. Otherwise it comes from the owner or from an active member of the target project, at the
  delivery's current version, on a delivery that is not resolved; exactly that party joins those who
  acknowledged the delivery and leaves those it waits for, no other delivery is touched, and the delivery
  is resolved if and only if its message is transient and the quorum is reached with this
  acknowledgement: all awaited members, or as many parties as it asked for.
\<close>

theorem acknowledgement_counts:
  assumes reach: "mail_step\<^sup>*\<^sup>* empty_mdb m" and v3: "mg_v3 p \<or> version = ''v3''"
    and run: "acknowledge_director_message ev p version (PStr pid) (PStr did) (PInt v) key m = Inr (r, m')"
  shows "\<exists>k. key = PStr k \<and>
    (if \<exists>q \<in> set (director_requests m). rq_actor q = mg_actor p \<and> rq_scope q = pid \<and> rq_op q = ''acknowledge_director_message'' \<and> request_row.rq_key q = k
     then m' = m \<and> (\<exists>q \<in> set (director_requests m). rq_actor q = mg_actor p \<and> rq_scope q = pid \<and> rq_op q = ''acknowledge_director_message'' \<and> request_row.rq_key q = k \<and>
        canonical (rq_payload q) = canonical (PDict [(''delivery_id'', PStr did), (''expected_version'', PInt v), (''project_id'', PStr pid), (''request_key'', PStr k)]))
     else \<exists>who d x. (owner_actor (mg_actor p) \<and> who = ''owner'' \<or>
        \<not> owner_actor (mg_actor p) \<and> mg_driver p = Some who \<and> who \<in> set (members m pid) \<and> (\<exists>row. find_driver who m = Some row \<and> rd_status row = Active_driver)) \<and>
       d \<in> set (director_deliveries m) \<and> dd_id d = did \<and> dd_target d = pid \<and>
       (if who \<in> ackers m did then m' = m
        else dd_version d = v \<and> dd_status d \<noteq> Resolved \<and> find_message m (dd_message d) = Inr x \<and>
         (\<forall>y. ackers m' y = (if y = did then insert who (ackers m did) else ackers m y)) \<and>
         (\<forall>y. awaiting m' y = (if y = did then awaiting m did - {who} else awaiting m y)) \<and>
         director_deliveries m' = update_where (\<lambda>e. dd_id e = did)
           (\<lambda>e. e\<lparr>dd_status := (if quorum_reached m' did x \<and> dm_mode x = Transient then Resolved else Acknowledged), dd_version := dd_version e + 1\<rparr>)
           (director_deliveries m)))"
proof -
  have inv: "mail_inv m" by (rule mailbox.initial_run_inv[OF reach])
  obtain p1 where p1: "negotiate p version False = Inr p1" and t: "mail_transition ev p1 (PStr pid) (PStr did) (PInt v) key Acknowledged m = Inr (r, m')"
    using run by (auto simp: acknowledge_director_message_def wire_errors_Inr)
  have same: "mg_actor p1 = mg_actor p" "mg_driver p1 = mg_driver p" "mg_v3 p1" using p1 v3 by (auto simp: negotiate_def)
  have op: "transition_name Acknowledged = ''acknowledge_director_message''" by (simp add: transition_name_def)
  from t show ?thesis
  proof (cases rule: mail_transition_cases)
    case (hit pid' did' v' k row)
    then have "row \<in> set (director_requests m) \<and> rq_actor row = mg_actor p \<and> rq_scope row = pid \<and> rq_op row = ''acknowledge_director_message'' \<and> request_row.rq_key row = k"
      using find_SomeD[OF hit(6)] by (auto simp: same_request_def same op)
    then show ?thesis using hit by auto
  next
    case (ran pid' did' v' d q payload r0 recorded m1 k)
    then have args: "pid' = pid" "did' = did" "v' = v" by simp_all
    have fresh: "\<not> (\<exists>q \<in> set (director_requests m). rq_actor q = mg_actor p \<and> rq_scope q = pid \<and> rq_op q = ''acknowledge_director_message'' \<and> request_row.rq_key q = k)"
      using ran(4,10) by (auto simp: dedupe_def find_None_iff same_request_def same op args split: option.splits if_splits)
    have d: "d \<in> set (director_deliveries m)" "dd_id d = did" using find_SomeD[OF ran(5)] args by auto
    have quorum: "quorum_transition ev p1 pid d v Acknowledged m = Inr ((r0, recorded), m1)" using ran(7) same(3) args by simp
    obtain who where acker: "acker_of p1 m pid = Inr who"
      using quorum unfolding quorum_transition_def by (auto simp: bindE_Inr_iff)
    have who: "owner_actor (mg_actor p) \<and> who = ''owner'' \<or>
        \<not> owner_actor (mg_actor p) \<and> mg_driver p = Some who \<and> who \<in> set (members m pid) \<and> (\<exists>row. find_driver who m = Some row \<and> rd_status row = Active_driver)"
      using acker by (auto simp: acker_of_def same split: if_splits option.splits)
    have seen: "(case find_ack m (dd_id d) who of None \<Rightarrow> False | Some a \<Rightarrow> da_acked a \<noteq> None) \<longleftrightarrow> who \<in> ackers m did"
    proof (cases "find_ack m (dd_id d) who")
      case None
      then have "who \<notin> ackers m did" by (auto simp: find_ack_None ackers_iff d(2))
      then show ?thesis by (simp add: None)
    next
      case (Some a)
      then have "b \<in> set (delivery_acks m) \<and> da_delivery b = did \<and> da_driver b = who \<longleftrightarrow> b = a" for b
        using find_ack_Some[OF inv, of "dd_id d" who b] by (auto simp: d(2))
      then show ?thesis unfolding Some ackers_iff option.case by metis
    qed
    show ?thesis
    proof (cases "who \<in> ackers m did")
      case True
      then have "m' = m" using quorum seen ran(8) by (auto simp: quorum_transition_def acker)
      then show ?thesis using True who d ran(6,9) args fresh by auto
    next
      case False
      then have counted: "dd_version d = v" "dd_status d \<noteq> Resolved" "apply_transition ev p1 pid d who Acknowledged m = Inr (r0, m1)"
        using quorum seen unfolding quorum_transition_def by (auto simp: acker split: if_splits)
      have rows: "find (\<lambda>x. dd_id x = dd_id d) (director_deliveries m) = Some d" using ran(5) args d(2) by simp
      have tabs: "delivery_acks m' = delivery_acks m1" "director_deliveries m' = director_deliveries m1" "legacy_acks m' = legacy_acks m1"
        by (simp_all add: ran(8))
      then have sets: "ackers m' = ackers m1" "awaiting m' = awaiting m1" "quorum_reached m' did x = quorum_reached m1 did x" for x
        using same_acks_sets[of m' m1] by (simp_all add: quorum_reached_def)
      obtain x where x: "find_message m (dd_message d) = Inr x"
        "\<forall>y. ackers m1 y = (if y = dd_id d then insert who (ackers m (dd_id d)) else ackers m y)"
        "\<forall>y. awaiting m1 y = (if y = dd_id d then awaiting m (dd_id d) - {who} else awaiting m y)"
        "director_deliveries m1 = update_where (\<lambda>e. dd_id e = dd_id d)
           (\<lambda>e. e\<lparr>dd_status := (if quorum_reached m1 (dd_id d) x \<and> dm_mode x = Transient then Resolved else Acknowledged), dd_version := dd_version e + 1\<rparr>)
           (director_deliveries m)"
        by (rule acknowledge_rows[OF inv counted(3) rows False[folded d(2)]])
      show ?thesis
        unfolding sets tabs(2)
        by (rule exI[of _ k], rule conjI, fact ran(9), subst if_not_P[OF fresh], rule exI[of _ who], rule exI[of _ d], rule exI[of _ x],
            subst if_not_P[OF False], intro conjI; fact who d ran(6)[unfolded args] counted(1,2) x[unfolded d(2)])
    qed
  qed
qed

theorem acknowledgement_counts_witness:
  "\<exists>r m'. acknowledge_director_message (chat_env 3000000 ''b'') bob_provider ''v3'' (PStr ''p'') (PStr ''a1'') (PInt 1) (PStr ''k2'') mail1 = Inr (r, m') \<and>
     ''bob'' \<notin> ackers mail1 ''a1'' \<and> ackers m' ''a1'' = insert ''bob'' (ackers mail1 ''a1'')"
proof -
  let ?op = "acknowledge_director_message (chat_env 3000000 ''b'') bob_provider ''v3'' (PStr ''p'') (PStr ''a1'') (PInt 1) (PStr ''k2'')"
  have bob: "\<not> owner_actor (mg_actor bob_provider)" "mg_driver bob_provider = Some ''bob''" "mg_v3 bob_provider"
    by (simp_all add: bob_provider_def provider_for_def owner_actor_def starts_with_def nonempty_def)
  have changed: "mail2 \<noteq> mail1" using mail_eval by (auto simp: Let_def)
  obtain r m' where run: "?op mail1 = Inr (r, m')" using changed unfolding mail2_def run_mail_def by (auto split: sum.splits)
  then have moved: "m' \<noteq> mail1" using changed unfolding mail2_def run_mail_def by simp
  from acknowledgement_counts[OF mail_reachable(1) disjI1[OF bob(3)] run] moved bob
  have "''bob'' \<notin> ackers mail1 ''a1'' \<and> ackers m' ''a1'' = insert ''bob'' (ackers mail1 ''a1'')" by (auto split: if_splits)
  then show ?thesis using run by blast
qed

lemma removal_rows:
  assumes reach: "mail_step\<^sup>*\<^sup>* empty_mdb m" and run: "set_membership ev pid drv ''removed'' expected reason act known m = Inr (row, m')"
  shows "ackers m' = ackers m"
    and "\<forall>y. awaiting m' y = (if \<exists>d \<in> set (director_deliveries m). dd_id d = y \<and> dd_target d = pid then awaiting m y - {drv} else awaiting m y)"
    and "director_deliveries m' = map (\<lambda>d. if dd_target d = pid \<and> drv \<in> awaiting m (dd_id d) then settled m' {dd_id d} d else d) (director_deliveries m)"
proof -
  have inv: "mail_inv m" by (rule mailbox.initial_run_inv[OF reach])
  obtain m2 where m2: "same_mail m m2" "membership_removed (env.truncate ev) pid drv act m2 = Inr m'" by (rule set_membership_removed[OF run])
  have inv2: "mail_inv m2" using same_mail_safe[OF m2(1)] inv by (simp add: mail_safe_def)
  have sets: "ackers m2 = ackers m" "awaiting m2 = awaiting m" "director_deliveries m2 = director_deliveries m"
    using m2(1) same_acks_sets[of m2 m] by (simp_all add: same_mail_def)
  have dids: "y \<in> set (awaited m2 pid drv) \<longleftrightarrow> drv \<in> awaiting m y \<and> (\<exists>d \<in> set (director_deliveries m). dd_id d = y \<and> dd_target d = pid)" for y
    by (simp add: awaited_iff sets)
  note rel = release_acks_rows[OF m2(2)[unfolded membership_removed_def] inv2 awaited_distinct[OF inv2]]
  show "ackers m' = ackers m" using rel sets by simp
  show "\<forall>y. awaiting m' y = (if \<exists>d \<in> set (director_deliveries m). dd_id d = y \<and> dd_target d = pid then awaiting m y - {drv} else awaiting m y)"
    using rel by (auto simp: dids sets)
  have one: "e = d" if "d \<in> set (director_deliveries m)" "e \<in> set (director_deliveries m)" "dd_id e = dd_id d" for d e
    using unique_onD[OF mail_dlv_ids[OF inv] that(2,1)] that(3) by simp
  have "settled m' (set (awaited m2 pid drv)) d = (if dd_target d = pid \<and> drv \<in> awaiting m (dd_id d) then settled m' {dd_id d} d else d)"
    if d: "d \<in> set (director_deliveries m)" for d
  proof -
    have "dd_id d \<in> set (awaited m2 pid drv) \<longleftrightarrow> dd_target d = pid \<and> drv \<in> awaiting m (dd_id d)" using dids one d by blast
    then show ?thesis
      using settled_member[of d "set (awaited m2 pid drv)" "{dd_id d}" m'] settled_other[of d "set (awaited m2 pid drv)" m'] by simp
  qed
  then show "director_deliveries m' = map (\<lambda>d. if dd_target d = pid \<and> drv \<in> awaiting m (dd_id d) then settled m' {dd_id d} d else d) (director_deliveries m)"
    using rel sets(3) by (auto intro: map_cong)
qed

text \<open>
  C33: a member that leaves is waited for no longer, and what waited for nobody else is settled. In every
  reachable state a successful \<open>set_membership\<close> to \<open>removed\<close> takes the driver out of the parties that the
  deliveries to this project wait for, and leaves every other wait and every acknowledgement as it was. A delivery
  to the project that waited for the driver, is not resolved and has its quorum now is resolved (when
  transient) or acknowledged (when standing) at the next version; every other delivery keeps its row.
\<close>

theorem removal_releases:
  assumes "mail_step\<^sup>*\<^sup>* empty_mdb m" "set_membership ev pid drv ''removed'' expected reason act known m = Inr (row, m')"
  shows "ackers m' = ackers m \<and>
    (\<forall>y. awaiting m' y = (if \<exists>d \<in> set (director_deliveries m). dd_id d = y \<and> dd_target d = pid then awaiting m y - {drv} else awaiting m y)) \<and>
    director_deliveries m' = map (\<lambda>d. if dd_target d = pid \<and> drv \<in> awaiting m (dd_id d) then settled m' {dd_id d} d else d) (director_deliveries m)"
  using removal_rows[OF assms] by blast

text \<open>The removal in the run, up to what the release does.\<close>

definition ann_left :: mdb where
  "ann_left = mail2\<lparr>reg_members := [bob_member, bob_member\<lparr>rm_ref := 2, rm_driver := ''ann'', rm_member := False, rm_revision := 2, rm_updated := 4000000\<rparr>],
     reg_audit := [demo_audit 1 ''ann'' ''membership'' [(''membership_ref'', PInt 2), (''status'', PStr ''removed'')] ''owner:ann'' 4000000]\<rparr>"

lemma removal_run:
  "set_membership removed_env ''p'' ''ann'' ''removed'' (PInt 1) (PStr ''left'') ''owner:ann'' None mail2 =
   bindE (membership_removed (env.truncate removed_env) ''p'' ''ann'' ''owner:ann'' ann_left) (\<lambda>m3.
   bindE (require_some (find_member ''p'' ''ann'' m3) (RowMissing ''project_drivers'')) (\<lambda>row. Inr (row, m3)))"
proof -
  have "reg_drivers mail2 = [chat_row ''ann'', chat_row ''bob'']" "reg_members mail2 = [bob_member, bob_member\<lparr>rm_ref := 2, rm_driver := ''ann''\<rparr>]"
      "reg_audit mail2 = []"
    using mail_eval by (simp_all add: Let_def mail0_def)
  then show ?thesis
    by (simp add: op_simps row_defs removed_env_def bob_member_def chat_row_def registry_row_def ann_left_def demo_audit_def find_driver_def)
qed

theorem removal_releases_witness:
  "\<exists>row m'. set_membership removed_env ''p'' ''ann'' ''removed'' (PInt 1) (PStr ''left'') ''owner:ann'' None mail2 = Inr (row, m') \<and>
     ackers m' = ackers mail2 \<and> awaiting m' ''a1'' = awaiting mail2 ''a1'' - {''ann''}"
proof -
  let ?op = "set_membership removed_env ''p'' ''ann'' ''removed'' (PInt 1) (PStr ''left'') ''owner:ann'' None"
  have "case ?op mail2 of Inl e \<Rightarrow> False | Inr (r, m') \<Rightarrow> True" unfolding removal_run by code_simp
  then obtain row m' where op: "?op mail2 = Inr (row, m')" by (auto split: sum.splits)
  have ok: "\<exists>d \<in> set (director_deliveries mail2). dd_id d = ''a1'' \<and> dd_target d = ''p''" using mail_eval by (auto simp: Let_def)
  note rel = removal_releases[OF mail_reachable(2) op]
  have "awaiting m' ''a1'' = awaiting mail2 ''a1'' - {''ann''}" using spec[OF conjunct1[OF conjunct2[OF rel]], of "''a1''"] ok by simp
  then show ?thesis using op rel by blast
qed

lemma bindE_no_row:
  assumes "\<And>e. r = Inl e \<Longrightarrow> e \<noteq> RowMissing t" "\<And>x. r = Inr x \<Longrightarrow> (case f x of Inl e \<Rightarrow> e \<noteq> RowMissing t | Inr y \<Rightarrow> Q y)"
  shows "case bindE r f of Inl e \<Rightarrow> e \<noteq> RowMissing t | Inr y \<Rightarrow> Q y"
  using assms by (cases r) simp_all

lemma wire_no_row:
  assumes "case r of Inl e \<Rightarrow> e \<noteq> RowMissing t | Inr y \<Rightarrow> Q y"
  shows "case wire_errors wide r of Inl e \<Rightarrow> e \<noteq> RowMissing t | Inr y \<Rightarrow> Q y"
  using assms by (cases r) (auto simp: wire_errors_def split: service_error.splits)

lemma check_no_row: "raise_if b (director_error c) = Inl e \<Longrightarrow> e \<noteq> RowMissing t" "mail_text v lo hi = Inl e \<Longrightarrow> e \<noteq> RowMissing t"
  "mail_int v i h = Inl e \<Longrightarrow> e \<noteq> RowMissing t" "mail_project m pid = Inl e \<Longrightarrow> e \<noteq> RowMissing t" "negotiate p version ext = Inl e \<Longrightarrow> e \<noteq> RowMissing t"
  "acker_of p m pid = Inl e \<Longrightarrow> e \<noteq> RowMissing t"
  by (auto simp: raise_if_def director_error_def mail_text_def mail_int_def mail_project_def negotiate_def acker_of_def Let_def
      split: if_splits pyval.splits option.splits)

definition owed_rows :: "mdb \<Rightarrow> string \<Rightarrow> string \<Rightarrow> int \<Rightarrow> (director_delivery \<times> director_message) list" where
  "owed_rows m who pid aft = filter (\<lambda>r. aft < dd_seq (fst r) \<and> dd_seq (fst r) \<le> max_delivery_seq m pid \<and> mail_match m only_mine who r) (mailbox_of m pid)"

lemma owed_rows_owed:
  assumes inv: "mail_inv m" and r: "r \<in> set (owed_rows m who pid aft)"
  shows "owes m who (fst r)" "find_message m (dd_message (fst r)) = Inr (snd r)"
proof -
  obtain d x where dx: "r = (d, x)" by (cases r)
  have x: "find_message m (dd_message d) = Inr x" using r by (simp add: owed_rows_def dx mailbox_of_iff)
  then show "owes m who (fst r)" "find_message m (dd_message (fst r)) = Inr (snd r)" using r mine_match[OF inv x] by (simp_all add: owed_rows_def dx)
qed

lemma owed_rows_fst:
  assumes inv: "mail_inv m"
  shows "fst ` set (owed_rows m who pid aft) = {d \<in> set (director_deliveries m). dd_target d = pid \<and> aft < dd_seq d \<and> owes m who d}"
proof (intro set_eqI iffI)
  fix d
  assume "d \<in> {d \<in> set (director_deliveries m). dd_target d = pid \<and> aft < dd_seq d \<and> owes m who d}"
  then have d: "d \<in> set (director_deliveries m)" "dd_target d = pid" "aft < dd_seq d" "owes m who d" by auto
  obtain x where x: "find_message m (dd_message d) = Inr x" using d(4) by (auto simp: owes_def)
  have "(d, x) \<in> set (owed_rows m who pid aft)"
    using d x max_delivery_seq_ge[OF d(1,2)] mine_match[OF inv x] by (simp add: owed_rows_def mailbox_of_iff)
  then show "d \<in> fst ` set (owed_rows m who pid aft)" by force
qed (use owed_rows_owed(1)[OF inv, of _ who pid aft] in \<open>auto simp: owed_rows_def mailbox_of_iff\<close>)

text \<open>The page the listing returns.\<close>

lemma owed_page:
  assumes inv: "mail_inv m" and n: "0 < n" and page: "page = take n (sort_key (\<lambda>r. dd_seq (fst r)) (owed_rows m who pid aft))"
    and cont: "has_more = (length page < length (owed_rows m who pid aft))"
    and nxt: "nxt = (if has_more then dd_seq (fst (last page)) else max aft (max_delivery_seq m pid))"
  shows "fst ` set page = {d \<in> set (director_deliveries m). dd_target d = pid \<and> aft < dd_seq d \<and> dd_seq d \<le> nxt \<and> owes m who d}"
    "sorted_wrt (\<lambda>r s. dd_seq (fst r) < dd_seq (fst s)) page"
    "if has_more then length page = n else \<forall>d \<in> set (director_deliveries m). dd_target d = pid \<longrightarrow> dd_seq d \<le> nxt"
    "\<not> (has_more \<and> page = [])"
proof -
  have uniq: "distinct (map (\<lambda>r. dd_seq (fst r)) (owed_rows m who pid aft))"
    unfolding owed_rows_def using mailbox_of_rows(2)[OF inv] distinct_map_filter by blast
  have bound: "dd_seq (fst r) \<le> max_delivery_seq m pid" if "r \<in> set (owed_rows m who pid aft)" for r using that by (simp add: owed_rows_def)
  note pg = listing_page[OF uniq bound n page nxt[unfolded cont]]
  have "fst ` set page = fst ` {r \<in> set (owed_rows m who pid aft). dd_seq (fst r) \<le> nxt}" by (simp only: pg(1))
  also have "\<dots> = {d \<in> fst ` set (owed_rows m who pid aft). dd_seq d \<le> nxt}" by auto
  finally show "fst ` set page = {d \<in> set (director_deliveries m). dd_target d = pid \<and> aft < dd_seq d \<and> dd_seq d \<le> nxt \<and> owes m who d}"
    unfolding owed_rows_fst[OF inv] by auto
  show "sorted_wrt (\<lambda>r s. dd_seq (fst r) < dd_seq (fst s)) page" by (rule pg(2))
  show "if has_more then length page = n else \<forall>d \<in> set (director_deliveries m). dd_target d = pid \<longrightarrow> dd_seq d \<le> nxt"
    using pg(3) max_delivery_seq_ge[of _ m pid] by (auto simp: cont nxt max.coboundedI2)
  show "\<not> (has_more \<and> page = [])" using pg(3) n by (auto simp: cont)
qed

text \<open>The second filter of the listing keeps the whole page.\<close>

lemma owed_still:
  assumes inv: "mail_inv m" and reader: "nonempty (mg_driver p) \<or> (\<forall>a \<in> set (delivery_acks m). da_driver a = ''owner'' \<longrightarrow> \<not> da_required a)"
    and ack: "acker_of p m pid = Inr who" and rows: "set page \<subseteq> set (owed_rows m (reader_name p) pid aft)"
  shows "filter (still_mine m p) page = page"
proof -
  have "nonempty (mg_driver p) \<or> owner_actor (mg_actor p)" using ack by (auto simp: acker_of_def nonempty_def split: if_splits option.splits)
  then have "still_mine m p (fst r, snd r)" if "r \<in> set page" for r
    using mine_still[OF inv owed_rows_owed(2,1)[OF inv] reader] that rows by blast
  then show ?thesis by (auto simp: filter_id_conv)
qed

text \<open>
  C34: a member that lists what it still has to acknowledge misses nothing and is never sent in a circle.
  In every reachable state, for a reader with a driver, or for the owner while no registered driver that
  deliveries wait for is called \<open>owner\<close>, the listing never fails on an empty page. A page holds, in the order of their numbers, exactly the
  deliveries to the project after \<open>after\<close> and up to \<open>next_after\<close> that the reader owes an
  acknowledgement; it is full when more follow, and otherwise the project has no delivery past
  \<open>next_after\<close>. So a client that continues at \<open>next_after\<close> sees each of them once.
\<close>

theorem pending_listing_exact:
  assumes reach: "mail_step\<^sup>*\<^sup>* empty_mdb m"
    and reader: "nonempty (mg_driver p) \<or> (\<forall>a \<in> set (delivery_acks m). da_driver a = ''owner'' \<longrightarrow> \<not> da_required a)"
  shows "case list_director_messages p version (PStr pid) (PInt aft) (PInt n) only_mine m of
      Inl e \<Rightarrow> e \<noteq> RowMissing ''items[-1]''
    | Inr (items, count, has_more, nxt) \<Rightarrow>
        fst ` set items = {d \<in> set (director_deliveries m). dd_target d = pid \<and> aft < dd_seq d \<and> dd_seq d \<le> nxt \<and> owes m (reader_name p) d} \<and>
        sorted_wrt (\<lambda>r s. dd_seq (fst r) < dd_seq (fst s)) items \<and>
        (if has_more then length items = nat n else \<forall>d \<in> set (director_deliveries m). dd_target d = pid \<longrightarrow> dd_seq d \<le> nxt)"
  unfolding list_director_messages_def
proof (rule bindE_no_row[OF check_no_row(1)], assumption, rule bindE_no_row[OF check_no_row(5)], assumption, rule wire_no_row,
    rule bindE_no_row[OF check_no_row(2)], assumption, rule bindE_no_row[OF check_no_row(3)], assumption,
    rule bindE_no_row[OF check_no_row(3)], assumption, rule bindE_no_row[OF check_no_row(1)], assumption,
    rule bindE_no_row[OF check_no_row(4)], assumption, rule bindE_no_row)
  fix p1 pd a l e and v :: unit
  have mine: "mf_mine only_mine" by (simp add: only_mine_def)
  show "(if mf_mine only_mine then bindE (acker_of p1 m pd) (\<lambda>_. Inr ()) else Inr ()) = Inl e \<Longrightarrow> e \<noteq> RowMissing ''items[-1]''"
    using check_no_row(6)[of p1 m pd] mine by (cases "acker_of p1 m pd") auto
  assume neg: "negotiate p version (mf_mine only_mine \<or> mf_ack_mode only_mine \<noteq> None) = Inr p1"
    and args: "mail_text (PStr pid) 1 320 = Inr pd" "mail_int (PInt aft) 0 None = Inr a" "mail_int (PInt n) 1 (Some 100) = Inr l"
    and ack: "(if mf_mine only_mine then bindE (acker_of p1 m pd) (\<lambda>_. Inr ()) else Inr ()) = Inr v"
  have args: "pd = pid" "a = aft" "l = n" "0 < nat n" using args by (auto simp: mail_text_def mail_int_def split: if_splits)
  have p1: "mg_driver p1 = mg_driver p" "reader_name p1 = reader_name p"
    using neg by (auto simp: negotiate_def Let_def reader_name_def)
  obtain who where who: "acker_of p1 m pid = Inr who" using ack mine args(1) by auto
  have inv: "mail_inv m" by (rule mailbox.initial_run_inv[OF reach])
  let ?page = "take (nat n) (sort_key (\<lambda>r. dd_seq (fst r)) (owed_rows m (reader_name p) pid aft))"
  have "set ?page \<subseteq> set (owed_rows m (reader_name p1) pid aft)" using set_take_subset[of "nat n"] p1(2) by (metis set_sort)
  then have keep: "filter (still_mine m p1) ?page = ?page" using owed_still[OF inv _ who] reader p1(1) by simp
  note pg = owed_page[OF inv args(4) refl refl refl, of "reader_name p" pid aft]
  show "case let high = max_delivery_seq m pd;
           matched = filter (\<lambda>r. a < dd_seq (fst r) \<and> dd_seq (fst r) \<le> high \<and> mail_match m only_mine (reader_name p1) r) (mailbox_of m pd);
           rows = take (nat l) (sort_key (\<lambda>r. dd_seq (fst r)) matched);
           items = (if mf_mine only_mine then filter (still_mine m p1) rows else rows);
           cont = length items < length matched in
       bindE (raise_if (cont \<and> items = []) (RowMissing ''items[-1]'')) (\<lambda>_.
       Inr (items, length matched, cont, if cont then dd_seq (fst (last items)) else max a high)) of
      Inl e \<Rightarrow> e \<noteq> RowMissing ''items[-1]''
    | Inr (items, count, has_more, nxt) \<Rightarrow>
        fst ` set items = {d \<in> set (director_deliveries m). dd_target d = pid \<and> aft < dd_seq d \<and> dd_seq d \<le> nxt \<and> owes m (reader_name p) d} \<and>
        sorted_wrt (\<lambda>r s. dd_seq (fst r) < dd_seq (fst s)) items \<and>
        (if has_more then length items = nat n else \<forall>d \<in> set (director_deliveries m). dd_target d = pid \<longrightarrow> dd_seq d \<le> nxt)"
    unfolding Let_def args p1(2) owed_rows_def[symmetric] if_P[OF mine] keep raise_if_def if_not_P[OF pg(4)] bindE_simps sum.case prod.case
    by (intro conjI, rule pg(1), rule pg(2), rule pg(3))
qed

theorem pending_listing_exact_witness:
  "\<exists>items count has_more nxt. list_director_messages bob_provider ''v3'' (PStr ''p'') (PInt 0) (PInt 10) only_mine mail1 = Inr (items, count, has_more, nxt) \<and>
     map (\<lambda>r. dd_id (fst r)) items = [''a1''] \<and> \<not> has_more \<and> (\<forall>d \<in> fst ` set items. owes mail1 ''bob'' d)"
proof -
  let ?res = "list_director_messages bob_provider ''v3'' (PStr ''p'') (PInt 0) (PInt 10) only_mine mail1"
  have ok: "case ?res of Inl e \<Rightarrow> False | Inr (items, count, has_more, nxt) \<Rightarrow> map (\<lambda>r. dd_id (fst r)) items = [''a1''] \<and> \<not> has_more"
    by code_simp
  have bob: "nonempty (mg_driver bob_provider)" "reader_name bob_provider = ''bob''"
    by (simp_all add: bob_provider_def provider_for_def nonempty_def reader_name_def)
  obtain items count has_more nxt where res: "?res = Inr (items, count, has_more, nxt)" using ok by (auto split: sum.splits)
  from pending_listing_exact[OF mail_reachable(1) disjI1[OF bob(1)], where version = "''v3''" and pid = "''p''" and aft = 0 and n = 10, unfolded res sum.case prod.case bob(2)]
  have "\<forall>d \<in> fst ` set items. owes mail1 ''bob'' d" by simp
  then show ?thesis using ok unfolding res by auto
qed

text \<open>
  The condition on the owner is needed: a driver may be registered under the identifier \<open>owner\<close>, which
  is also the name the mailbox gives the owner. A broadcast that waits for that driver is counted in the
  owner's listing, the second filter drops it, and taking the last item of the empty page fails.
\<close>

definition clash_mail :: mdb where
  "clash_mail = run_mail (send_director_message (chat_env 2000000 ''a'') owner_provider ''v3'' (PStr ''q'') (PStr ''ann'') (PStr ''k1'') (PStr ''notice'') (PStr ''text'')
       (PStr ''p'') (PBool False) PNone ''transient'' (Some ''broadcast'') PNone)
     (mail0\<lparr>reg_drivers := reg_drivers mail0 @ [chat_row ''owner''], reg_members := reg_members mail0 @ [bob_member\<lparr>rm_ref := 3, rm_driver := ''owner''\<rparr>]\<rparr>)"

theorem owner_driver_breaks_listing:
  "check_driver_id (PStr ''owner'') = Inr ''owner'' \<and> ''owner'' \<noteq> PUBLIC_DRIVER_ID \<and>
   list_director_messages owner_provider ''v3'' (PStr ''p'') (PInt 0) (PInt 10) only_mine clash_mail = Inl (RowMissing ''items[-1]'')"
  by code_simp

end
