(* ===== verification/Spec2Isabelle.thy ===== *)
theory Spec2Isabelle
  imports Graph_Properties Ownership_Properties Acceptance_Properties Registry_Properties Inbox_Properties Mailbox_Properties
begin

text \<open>
  Verification of the State core of AItelier (src/core): the store in which projects are graphs of goals,
  goals are attempted by workflows or external workers, attempts are evidenced and accepted, and drivers
  share the work through claims, leases and fences; and of the services around it through which drivers are
  known and talk: the driver registry, the driver inbox with the user's conversation, and the
  director mailbox of a project.

  \<^bold>\<open>The parts and how they interact.\<close> \<open>StateGraphStore\<close> (state_graph.py) keeps projects, goals, their
  acceptance contracts and dependencies in SQLite. \<open>StateAttempts\<close> (state_attempts.py) reserves attempts on
  goals, records evidence and issues receipts; it reads the graph and marks goals CANDIDATE or VERIFIED.
  \<open>StateClaims\<close> (state_claims.py) hands out claims with leases and fences; state_enforcement.py decides from
  them who may dispatch or restructure. driver_presence.py derives who is present; state_recovery.py,
  state_takeover.py and state_handoffs.py move ownership; state_external.py takes the reports of external
  workers; state_metadata.py and state_portfolio.py keep policies and holds; state_issues.py keeps issues.
  drivers.py registers drivers, their tokens and their project memberships under an audit trail;
  driver_inbox.py delivers messages to drivers and keeps the user's conversation; director_messaging.py
  with director_messaging_quorum.py and director_messaging_protocol.py delivers messages between projects and
  counts acknowledgements, which the removal of a member releases.
  All of them write one database, in write transactions that an exception rolls back. Most operations are one
  transaction; a reservation with a preflight and the reads of claims, which sweep first, are several, and
  what an earlier one committed stays when a later one fails.

  \<^bold>\<open>The theories.\<close>
  \<^item> Prelude: results (\<open>error + 'a\<close>), the folds and searches of the code, rows updated in place, Python
    values, text and time.
  \<^item> Graph_Values, Dag, Facets: keys, texts, contracts and canonical JSON; \<open>_validate_dag\<close>, the recursive
    query of dependents and the closure walk; the facet rules and the release closure.
  \<^item> State_Schema: every table of the State graph as a record, the database as a record of tables, the caller and the
    environment (clock, fresh identifiers, SHA-256, environment variables) as parameters.
  \<^item> Graph_Store, Metadata, Presence, Claims, Enforcement, Attempts, Acceptance, External, Recovery,
    Handoffs, Issues, Views: the operations, one definition per method, in the order of the code; an
    exception is a value, and a failed transaction keeps the old database. Where the code uses several
    transactions the operation returns its result together with the database they left. Enforcement also has the
    structural edits as state_service.py composes them (owner check, write, record of an override).
  \<^item> Graph_Invariant, Graph_Preserve, Claims_Inv: the invariants of the graph and of the claim table, and what
    each operation does to them.
  \<^item> Evolution, Safety, Safe_Rows, Safe_Graph, Safe_Claims, Safe_Attempts, Safe_Accept, Safe_Ownership,
    Safe_Recovery: the abstract specification \<open>evolves\<close> (tables whose rows evolve under a preorder, logs
    that only grow), the system invariant \<open>sys_inv\<close>, and that every operation refines the one and keeps
    the other. The locales \<open>row_evolution\<close> and \<open>step_relation\<close> carry these proofs.
  \<^item> System: the commands, their execution, the step relation of the store and its reachable states; the
    locale \<open>machine\<close> (of the theory Evolution) is interpreted on them.
  \<^item> Scenario: a concrete run, evaluated in the kernel, at which the properties are applied.
  \<^item> Messaging_Schema, Quorum, Paging: the tables of the registry, the mailbox and the inbox beside the State
    database (\<open>mdb\<close>), acknowledgement rows and their quorums, and the interfaces the message services share:
    \<open>sequence_numbers\<close> (an allocator of consecutive numbers), \<open>keyset_pages\<close> (a reader that pages by a key,
    with what a walk over many fetches returns) and \<open>request_log\<close> (an idempotency table).
  \<^item> Registry, Inbox, Mailbox: the operations of drivers.py, driver_inbox.py and director_messaging.py.
  \<^item> Registry_Inv, Inbox_Inv, Mailbox_Inv: their invariants, how their rows may move, and that every operation
    respects both; each is an interpretation of \<open>machine\<close>, and of the interfaces above on its own
    definitions (an inbox number is one more than the largest, a mailbox number comes from a stored counter).
  \<^item> Graph_Properties, Ownership_Properties, Acceptance_Properties, Registry_Properties, Inbox_Properties,
    Mailbox_Properties and this theory: the properties. The last three carry their own small runs.

  \<^bold>\<open>Bounds.\<close> No definition needs fuel. The loops of \<open>_validate_dag\<close>, the recursive query and the closure walk
  are functions with termination proofs; every other loop of the modelled code runs over a list. That a
  client's paging loop ends is a theorem (one fetch per message is enough while none arrives).
  Integers are unbounded, as in Python; the ranges the code checks are checked by the model.

  \<^bold>\<open>What is not modelled.\<close> The workflow engine, git, the file system and the network: their answers are
  arguments of the operations that use them. To the machine of the State graph, writes of the driver registry, of design documents, of the
  engine's run rows and of the inbox are arbitrary steps, so its properties hold whatever those services do;
  the registry, the inbox and the mailbox have machines of their own. Of the message services, the text form of
  a cursor, waking waiting readers and the long poll, the wording of presence advice, Unicode normalisation, the
  JSON envelope, the bounded text of standing guidance, and reading the pepper and the feature switch
  are left out; the redactor is an argument. Error messages
  keep their fixed text or code and drop interpolated values. Strings are lists of 8-bit characters. Tables are
  at the current schema, so refusals that only guard a pending migration are absent. The rest of the service
  and the command layer, the scheduler and pipeline runtime, the interfaces and the tools are outside the
  State core: they are asynchronous orchestration of language models, processes, containers and files, with little
  logic of their own that does not go through the operations above.
\<close>

section \<open>Acceptance\<close>

text \<open>
  C1: In every reachable state of the store, a goal that is VERIFIED rests on a stored receipt issued for
  its current revision and contract, for its newest attempt, which is a candidate with exactly the
  accepted artifact and was reserved against the dependency snapshot the goal still has, every
  dependency being verified; and every criterion of its contract has passing evidence on record for
  that attempt, which the receipt names.
\<close>

theorem verified_is_grounded:
  assumes "reachable s" "n \<in> set (nodes s)" "n_status n = VERIFIED"
  shows "\<exists>r \<in> set (acceptances s). \<exists>a. latest_attempt s (n_project n) (n_key n) = Some a \<and>
     n_receipt n = Some (rc_id r) \<and> rc_attempt r = a_id a \<and> rc_revision r = n_revision n \<and> rc_contract_hash r = n_contract_hash n \<and>
     a_status a = Candidate \<and> a_artifact a = Some (rc_artifact r) \<and>
     rc_pins r = dependency_snapshot s (n_project n) (n_key n) \<and> a_pins a = rc_pins r \<and> list_all pin_verified (rc_pins r) \<and>
     (\<forall>c \<in> set (n_contract n). \<exists>e \<in> set (evidences s). ev_attempt e = a_id a \<and> ev_criterion e = ck_id c \<and> ev_verdict e = Pass \<and>
        ev_id e \<in> set (rc_evidence r))"
proof -
  have "grounded s n" using sys_inv_grounded reachable_sys_inv assms by blast
  then obtain r a where r: "r \<in> set (acceptances s)" "latest_attempt s (n_project n) (n_key n) = Some a" "accepts n r a"
    "rc_pins r = dependency_snapshot s (n_project n) (n_key n)" "list_all pin_verified (rc_pins r)" and at: "attested s n r"
    unfolding grounded_def by blast
  have "\<exists>e \<in> set (evidences s). ev_attempt e = a_id a \<and> ev_criterion e = ck_id c \<and> ev_verdict e = Pass \<and> ev_id e \<in> set (rc_evidence r)"
    if c: "c \<in> set (n_contract n)" for c
  proof -
    obtain e where e: "latest_evidence s (rc_attempt r) (ck_id c) = Some e" "ev_verdict e = Pass" using at c by (auto simp: attested_def)
    moreover have "ev_id e \<in> set (rc_evidence r)" using at c e(1) unfolding attested_def by force
    ultimately show ?thesis using latest_evidence_mem[OF e(1)] r(3) by (auto simp: accepts_def)
  qed
  with r show ?thesis by (intro bexI[of _ r] exI[of _ a]) (auto simp: accepts_def)
qed

theorem verified_is_grounded_witness:
  "\<exists>n r. n \<in> set (nodes accepted_db) \<and> n_status n = VERIFIED \<and> r \<in> set (acceptances accepted_db) \<and> n_receipt n = Some (rc_id r)"
  using verified_is_grounded[OF demo_reachable(2) accepted_node] accepted_node by blast

text \<open>The run goes on: the goal \<open>b\<close>, which depends on \<open>a\<close>, is attempted and accepted too.\<close>

definition second_script :: script where
  "second_script = plan_script @ accept_script @ map (\<lambda>cmd. (demo_env 3000000 ''05'', demo_caller ''ann'', cmd))
     [ReserveWorkflow ''p'' ''b'' 1 ''wf'' demo_request, ClaimLaunch ''attempt-05'' None None,
      BindRun ''attempt-05'' (demo_row\<lparr>ri_id := ''run2'', ri_project := ''sg-05''\<rparr>),
      Reconcile ''attempt-05'' (demo_row\<lparr>ri_id := ''run2'', ri_project := ''sg-05''\<rparr>) Candidate (Some demo_artifact) None] @
   map (\<lambda>cmd. (demo_env 4000000 ''06'', demo_caller ''bob'', cmd))
     [RecordEvidence ''attempt-05'' (demo_evidence\<lparr>vi_id := ''e2''\<rparr>) None, Verify ''p'' ''b'' 1 ''attempt-05'' ''driver:bob'' False]"

definition second_db :: db where "second_db = snd (run_script second_script empty_db)"

lemma second_reachable: "reachable second_db"
  unfolding reachable_iff second_db_def by (rule run_script_steps)

lemma second_rows:
  "(let s = second_db in (map node_row (nodes s), map n_project (nodes s), project_edges s ''p'')) =
   ([(''a'', VERIFIED, Some ''receipt-02''), (''b'', VERIFIED, Some ''receipt-06'')], [''p'', ''p''], [(''b'', ''a'')])"
  by code_simp

text \<open>
  C2: In every reachable state, everything a VERIFIED goal depends on, directly or transitively, is VERIFIED.
\<close>

theorem verified_upstream:
  assumes "reachable s" "n \<in> set (nodes s)" "n_status n = VERIFIED" "(n_key n, k) \<in> (set (project_edges s (n_project n)))\<^sup>*"
  shows "\<exists>m \<in> set (nodes s). n_project m = n_project n \<and> n_key m = k \<and> n_status m = VERIFIED"
  using assms(4)
proof (induction rule: rtrancl_induct)
  case base
  then show ?case using assms by blast
next
  case (step y z)
  then obtain m where m: "m \<in> set (nodes s)" "n_project m = n_project n" "n_key m = y" "n_status m = VERIFIED" by blast
  have inv: "sys_inv s" using reachable_sys_inv assms(1) .
  have z: "z \<in> set (node_deps s (n_project n) y)" using step(2) by (auto simp: set_node_deps project_edges_def dep_in_iff)
  have "(n_project n, z) \<in> set (node_ids s)" using graph_inv_dep_node[OF _ z] inv by (simp add: sys_inv_def)
  then obtain d where d: "d \<in> set (nodes s)" "n_project d = n_project n" "n_key d = z" by (auto simp: node_ids_def)
  then have "depends_on s m d" using m z by (simp add: depends_on_def)
  then show ?case using d grounded_deps[OF sys_inv_grounded[OF inv m(1,4)] d(1)] by blast
qed

theorem verified_upstream_witness:
  "\<exists>n \<in> set (nodes second_db). n_key n = ''b'' \<and> n_status n = VERIFIED \<and> (''b'', ''a'') \<in> set (project_edges second_db ''p'') \<and>
     (\<exists>m \<in> set (nodes second_db). n_key m = ''a'' \<and> n_status m = VERIFIED)"
proof -
  obtain n0 n where n: "nodes second_db = [n0, n]" "n_key n = ''b''" "n_status n = VERIFIED" "n_project n = ''p''"
    "project_edges second_db ''p'' = [(''b'', ''a'')]"
    using second_rows by (auto simp: Let_def node_row_def map_eq_Cons_conv)
  then have "\<exists>m \<in> set (nodes second_db). n_project m = ''p'' \<and> n_key m = ''a'' \<and> n_status m = VERIFIED"
    using verified_upstream[OF second_reachable, of n "''a''"] by auto
  then show ?thesis using n by auto
qed

text \<open>
  C3: A receipt is permanent. Whatever commands run, from any reachable state, reading the receipt
  returns the same acceptance with the same attested evidence.
\<close>

theorem receipt_durable:
  assumes "reachable s" "step\<^sup>*\<^sup>* s t" "receipt s pid rid = Inr (r, es)"
  shows "receipt t pid rid = Inr (r, es)"
proof -
  have e: "evolves s t" "receipts_ok s" "receipts_ok t"
    using run_evolves[OF assms(1,2)] reachable_sys_inv[OF assms(1)] by (simp_all add: sys_inv_def)
  have sub: "set (acceptances s) \<subseteq> set (acceptances t)" "set (evidences s) \<subseteq> set (evidences t)"
    using e(1) by (auto simp: evolves_def logs_extend_def prefix_def)
  note rs = assms(3)[unfolded receipt_iff[OF e(2)]]
  have "list_all2 (\<lambda>i e. e \<in> set (evidences t) \<and> ev_attempt e = rc_attempt r \<and> ev_id e = i) (rc_evidence r) es"
    using rs sub(2) by (auto elim: list_all2_mono)
  then show ?thesis unfolding receipt_iff[OF e(3)] using rs sub(1) by blast
qed

theorem receipt_durable_witness:
  "\<exists>r es. receipt external_db ''p'' ''receipt-02'' = Inr (r, es) \<and> map ev_id es = [''e1'']"
proof -
  obtain r es where r: "receipt accepted_db ''p'' ''receipt-02'' = Inr (r, es)" "map ev_id es = [''e1'']" using accepted_receipt by metis
  then show ?thesis using receipt_durable[OF demo_reachable(2) demo_steps(2) r(1)] by (intro exI[of _ r] exI[of _ es]) simp
qed

section \<open>History\<close>

text \<open>
  C4: Every command, from any reachable state, evolves the store: the event, revision, evidence, receipt,
  observation, claim and report logs only grow; a goal keeps its identity, its revision never
  decreases and its goal and contract change only with the revision; an attempt keeps what it was
  reserved for, its run and its artifact; a claim keeps its subject and its fence never decreases.
\<close>

theorem command_evolves:
  assumes "reachable s" "exec ev c cmd s = (err, t)"
  shows "evolves s t"
  using exec_safe[of s ev c cmd] reachable_sys_inv[OF assms(1)] assms(2) by (simp add: safe_def)

theorem command_evolves_witness: "evolves external_db (snd (exec (demo_env 4000000 ''04'') (demo_caller ''bob'') (AcceptHandoff ''p'' ''handoff-03'' 1) external_db))"
  using command_evolves[OF demo_reachable(3), of "demo_env 4000000 ''04''" "demo_caller ''bob''" "AcceptHandoff ''p'' ''handoff-03'' 1"] by (simp add: prod_eq_iff)

end
